(* ===== verification/Prelude.thy ===== *)
theory Prelude
  imports Main "HOL-Library.Sublist" "HOL-Library.Word"
begin

text \<open>
  The vocabulary shared by the whole development: instants and durations as the Go code
  computes with them, the optional columns and pointers of the code as options, the
  collections that the component theories add their facts to, and the generic lemmas on lists
  that the components share.
\<close>

named_theorems query_defs \<open>definitions of the storage queries, unfolded together\<close>
named_theorems row_frames \<open>what a row operation leaves unchanged\<close>

section \<open>Instants and durations\<close>

text \<open>
  A Go \<^verbatim>\<open>time.Time\<close> is an instant in nanoseconds since the Unix epoch; a
  \<^verbatim>\<open>time.Duration\<close> is a signed 64-bit number of nanoseconds.
\<close>

type_synonym time = int
type_synonym duration = int

definition int64_min :: int where "int64_min = - (2 ^ 63)"
definition int64_max :: int where "int64_max = 2 ^ 63 - 1"

definition int64_ok :: "int \<Rightarrow> bool" where
  "int64_ok i \<longleftrightarrow> int64_min \<le> i \<and> i \<le> int64_max"

text \<open>Two's complement wrap-around of an \<^verbatim>\<open>int64\<close> result.\<close>

definition wrap64 :: "int \<Rightarrow> int" where
  "wrap64 i = (i + 2 ^ 63) mod 2 ^ 64 - 2 ^ 63"

definition wrap32 :: "int \<Rightarrow> int" where
  "wrap32 i = (i + 2 ^ 31) mod 2 ^ 32 - 2 ^ 31"

lemma wrap64_id [simp]: "int64_ok i \<Longrightarrow> wrap64 i = i"
  by (simp add: wrap64_def int64_ok_def int64_min_def int64_max_def)

lemma wrap32_id: "- (2 ^ 31) \<le> i \<Longrightarrow> i < 2 ^ 31 \<Longrightarrow> wrap32 i = i"
  by (simp add: wrap32_def)

text \<open>\<^verbatim>\<open>Time.Sub\<close> saturates at the least and the greatest duration.\<close>

definition time_sub :: "time \<Rightarrow> time \<Rightarrow> duration" where
  "time_sub t u = max int64_min (min int64_max (t - u))"

lemma time_sub_exact [simp]: "int64_ok (t - u) \<Longrightarrow> time_sub t u = t - u"
  by (simp add: time_sub_def int64_ok_def)

lemma time_sub_ok: "int64_ok (time_sub t u)"
  by (simp add: time_sub_def int64_ok_def int64_min_def int64_max_def)

text \<open>Unary minus on a \<^verbatim>\<open>Duration\<close>: the least duration is its own negative.\<close>

definition dur_neg :: "duration \<Rightarrow> duration" where
  "dur_neg d = wrap64 (- d)"

definition nanosecond :: duration where "nanosecond = 1"
definition second :: duration where "second = 10 ^ 9"
definition minute :: duration where "minute = 60 * second"
definition hour :: duration where "hour = 60 * minute"

lemmas duration_units = nanosecond_def second_def minute_def hour_def

section \<open>Identifiers and the code outside the repository\<close>

text \<open>
  The sixteen bytes of a \<^verbatim>\<open>pgtype.UUID\<close> are a 128-bit word; a nullable column,
  or the zero \<^verbatim>\<open>pgtype.UUID\<close> whose \<^verbatim>\<open>Valid\<close> is false, is an
  option.  The record below holds what the services call outside the repository or outside
  the part of the standard library modelled here: the driver's \<^verbatim>\<open>UUID.Scan\<close>
  (which fails, or succeeds with a value that may be invalid), its
  \<^verbatim>\<open>UUID.String\<close>, and \<^verbatim>\<open>time.Parse\<close> and
  \<^verbatim>\<open>Time.Format\<close> at the RFC 3339 layout.  Every definition that uses one of
  them takes the record as an argument, so every theorem holds for all of them.
\<close>

type_synonym uuid = "128 word"

record ext =
  uuid_scan :: "string \<Rightarrow> uuid option option"
  uuid_string :: "uuid \<Rightarrow> string"
  rfc3339_parse :: "string \<Rightarrow> time option"
  rfc3339_format :: "time \<Rightarrow> string"

text \<open>The detail of an error: a fixed message, or the message that quotes an id or a
  timestamp the caller sent.\<close>

datatype detail =
    Msg string
  | InvalidId string
  | BadTimestamp string
  | ConstraintMsg string

section \<open>Lists\<close>

text \<open>The rows a page query returns, in order, up to a limit.\<close>

lemma take_filter_prefix:
  "take n (filter P xs) = filter P xs \<or> length (take n (filter P xs)) = n"
  by (metis min.absorb2 length_take linorder_linear take_all_iff)

lemma sorted_wrt_filter_drop:
  fixes f :: "'a \<Rightarrow> 'b::linorder"
  assumes "sorted_wrt (<) (map f xs)" and "k < length xs"
  shows "filter (\<lambda>x. f (xs ! k) < f x) xs = drop (Suc k) xs"
proof -
  let ?c = "f (xs ! k)"
  have less: "f (xs ! i) < f (xs ! j)" if "i < j" "j < length xs" for i j
    using assms(1) that by (auto simp: sorted_wrt_iff_nth_less)
  have "filter (\<lambda>x. ?c < f x) (take (Suc k) xs) = []"
  proof (rule filter_False, rule ballI)
    fix x assume "x \<in> set (take (Suc k) xs)"
    then obtain i where i: "i < Suc k" "i < length xs" "x = xs ! i"
      by (auto simp: in_set_conv_nth)
    show "\<not> ?c < f x"
    proof (cases "i = k")
      case True
      then show ?thesis using i by simp
    next
      case False
      then have "f x < ?c" using i assms(2) less[of i k] by simp
      then show ?thesis by simp
    qed
  qed
  moreover have "filter (\<lambda>x. ?c < f x) (drop (Suc k) xs) = drop (Suc k) xs"
  proof (rule filter_True, rule ballI)
    fix x assume "x \<in> set (drop (Suc k) xs)"
    then obtain i where "i < length xs - Suc k" "x = xs ! (Suc k + i)"
      by (auto simp: in_set_conv_nth)
    then show "?c < f x" using less[of k "Suc k + i"] by simp
  qed
  ultimately show ?thesis
    by (metis append_take_drop_id filter_append append_Nil)
qed

lemma filter_eq_single:
  "distinct (map f xs) \<Longrightarrow> x \<in> set xs \<Longrightarrow> filter (\<lambda>y. f y = f x) xs = [x]"
proof (induction xs)
  case Nil
  then show ?case by simp
next
  case (Cons a xs)
  show ?case
  proof (cases "a = x")
    case True
    with Cons.prems have "filter (\<lambda>y. f y = f x) xs = []"
      by (auto simp: filter_empty_conv image_iff)
    with True show ?thesis by simp
  next
    case False
    with Cons.prems show ?thesis
      using Cons.IH by (auto simp: image_iff)
  qed
qed

text \<open>
  How a table may change: the old rows step in place and new rows of the writer are appended.
  A reflexive and transitive step that keeps the owner makes the relation compose.
\<close>

definition evolves :: "('a \<Rightarrow> 'a \<Rightarrow> bool) \<Rightarrow> ('a \<Rightarrow> bool) \<Rightarrow> 'a list \<Rightarrow> 'a list \<Rightarrow> bool" where
  "evolves step own xs ys \<longleftrightarrow>
     length xs \<le> length ys \<and> list_all2 step xs (take (length xs) ys) \<and>
     list_all own (drop (length xs) ys)"

lemma list_all_drop: "list_all P (drop n xs) \<longleftrightarrow> (\<forall>i. n \<le> i \<and> i < length xs \<longrightarrow> P (xs ! i))"
proof
  assume *: "list_all P (drop n xs)"
  show "\<forall>i. n \<le> i \<and> i < length xs \<longrightarrow> P (xs ! i)"
  proof (intro allI impI)
    fix i assume i: "n \<le> i \<and> i < length xs"
    then have "i - n < length (drop n xs)" by auto
    then have "P (drop n xs ! (i - n))" using * by (simp only: list_all_length)
    then show "P (xs ! i)" using i by simp
  qed
qed (simp add: list_all_length)

lemma evolves_refl: "(\<And>x. step x x) \<Longrightarrow> evolves step own xs xs"
  by (simp add: evolves_def list_all2_same)

lemma evolves_append: "(\<And>x. step x x) \<Longrightarrow> own y \<Longrightarrow> evolves step own xs (xs @ [y])"
  by (simp add: evolves_def list_all2_same)

lemma evolves_map: "(\<And>x. x \<in> set xs \<Longrightarrow> step x (f x)) \<Longrightarrow> evolves step own xs (map f xs)"
  by (simp add: evolves_def list_all2_conv_all_nth)

lemma evolves_trans:
  assumes "\<And>x y z. step x y \<Longrightarrow> step y z \<Longrightarrow> step x z"
    and "\<And>x y. step x y \<Longrightarrow> own x \<Longrightarrow> own y"
    and "evolves step own xs ys" and "evolves step own ys zs"
  shows "evolves step own xs zs"
proof -
  have len: "length xs \<le> length ys" "length ys \<le> length zs"
    using assms(3,4) by (simp_all add: evolves_def)
  have a: "step (xs ! i) (ys ! i)" if "i < length xs" for i
    using assms(3) that len by (auto simp: evolves_def list_all2_conv_all_nth)
  have b: "step (ys ! i) (zs ! i)" if "i < length ys" for i
    using assms(4) that len by (auto simp: evolves_def list_all2_conv_all_nth)
  have c: "own (ys ! i)" if "length xs \<le> i" "i < length ys" for i
    using assms(3) that by (auto simp: evolves_def list_all_drop)
  have d: "own (zs ! i)" if "length ys \<le> i" "i < length zs" for i
    using assms(4) that by (auto simp: evolves_def list_all_drop)
  have e: "own (zs ! i)" if "length xs \<le> i" "i < length zs" for i
    using that b c d assms(2) by (metis not_le_imp_less)
  have f: "step (xs ! i) (zs ! i)" if "i < length xs" for i
    using a[OF that] b[of i] that len(1) assms(1)[of "xs ! i" "ys ! i" "zs ! i"] by linarith
  show ?thesis
    using len e f by (simp add: evolves_def list_all2_conv_all_nth list_all_drop)
qed

lemma evolves_in: "evolves step own xs ys \<Longrightarrow> x \<in> set xs \<Longrightarrow> \<exists>y\<in>set ys. step x y"
  by (metis evolves_def in_set_conv_nth in_set_takeD length_take list_all2_conv_all_nth nth_mem)

lemma evolves_filter_untouched:
  assumes "evolves step own xs ys"
    and "\<And>x y. step x y \<Longrightarrow> P x \<or> P y \<Longrightarrow> y = x"
    and "\<And>y. own y \<Longrightarrow> \<not> P y"
  shows "filter P ys = filter P xs"
proof -
  have "list_all2 step xs (take (length xs) ys)" using assms(1) by (simp add: evolves_def)
  then have "filter P (take (length xs) ys) = filter P xs"
    by (induction rule: list_all2_induct) (use assms(2) in auto)
  moreover have "filter P (drop (length xs) ys) = []"
    using assms(1,3) by (auto simp: evolves_def list_all_iff filter_empty_conv)
  ultimately show ?thesis
    by (metis append_Nil2 append_take_drop_id filter_append)
qed

lemma run_Inr: "map_sum id f (fst p) = Inr y \<Longrightarrow> \<exists>r w. p = (Inr r, w) \<and> f r = y"
  by (cases p; cases "fst p") auto

lemma find_None_filter: "find P xs = None \<longleftrightarrow> filter P xs = []"
  by (auto simp: find_None_iff filter_empty_conv)

lemma map_update_keys:
  "(\<And>x. P x \<Longrightarrow> f (g x) = f x) \<Longrightarrow> map f (map (\<lambda>x. if P x then g x else x) xs) = map f xs"
  by (induction xs) auto

lemma filter_map_untouched:
  "(\<And>x. P x \<Longrightarrow> \<not> Q x \<and> \<not> Q (g x))
   \<Longrightarrow> filter Q (map (\<lambda>x. if P x then g x else x) xs) = filter Q xs"
  by (induction xs) auto

end
