(* ===== verification/GoStd.thy ===== *)
theory GoStd
  imports Prelude "HOL-Library.Char_ord"
begin

text \<open>
  What the source uses of the Go standard library, as functions on byte strings: the
  unpadded URL alphabet of \<^verbatim>\<open>encoding/base64\<close>, the decimal conversions of
  \<^verbatim>\<open>strconv\<close> (with their range errors), \<^verbatim>\<open>strings.SplitN\<close> at a
  separator with limit two, and \<^verbatim>\<open>strings.TrimSpace\<close>.  A Go string is the list
  of its bytes.  The lemmas are the round trips the cursor codecs rest on.
\<close>

section \<open>strconv\<close>

definition digit_char :: "nat \<Rightarrow> char" where
  "digit_char d = char_of (48 + d)"

definition char_digit :: "char \<Rightarrow> nat option" where
  "char_digit c = (let n = of_char c :: nat in if 48 \<le> n \<and> n \<le> 57 then Some (n - 48) else None)"

fun format_nat :: "nat \<Rightarrow> string" where
  "format_nat n = (if n < 10 then [digit_char n] else format_nat (n div 10) @ [digit_char (n mod 10)])"

declare format_nat.simps [simp del]

text \<open>\<^verbatim>\<open>strconv.FormatInt(i, 10)\<close> and the \<^verbatim>\<open>%d\<close> verb.\<close>

definition format_int :: "int \<Rightarrow> string" where
  "format_int i = (if i < 0 then CHR ''-'' # format_nat (nat (- i)) else format_nat (nat i))"

fun parse_digits :: "nat \<Rightarrow> string \<Rightarrow> nat option" where
  "parse_digits acc [] = Some acc"
| "parse_digits acc (c # cs) =
     (case char_digit c of None \<Rightarrow> None | Some d \<Rightarrow> parse_digits (10 * acc + d) cs)"

text \<open>\<^verbatim>\<open>strconv.ParseUint(s, 10, 64)\<close>: digits only, no sign, at most 64 bits.\<close>

definition parse_uint64 :: "string \<Rightarrow> nat option" where
  "parse_uint64 s =
     (if s = [] then None
      else case parse_digits 0 s of
             None \<Rightarrow> None
           | Some n \<Rightarrow> if n < 2 ^ 64 then Some n else None)"

text \<open>\<^verbatim>\<open>strconv.ParseInt(s, 10, 64)\<close>: an optional sign, then digits, in range.\<close>

definition parse_int64 :: "string \<Rightarrow> int option" where
  "parse_int64 s =
     (let neg = (case s of [] \<Rightarrow> False | c # _ \<Rightarrow> c = CHR ''-'');
          ds = (case s of [] \<Rightarrow> [] | c # cs \<Rightarrow> if c = CHR ''-'' \<or> c = CHR ''+'' then cs else s)
      in if ds = [] then None
         else case parse_digits 0 ds of
                None \<Rightarrow> None
              | Some n \<Rightarrow> (let i = (if neg then - int n else int n)
                          in if int64_ok i then Some i else None))"

lemma char_digit_digit_char [simp]: "d < 10 \<Longrightarrow> char_digit (digit_char d) = Some d"
  by (simp add: char_digit_def digit_char_def of_char_of)

lemma parse_digits_append:
  "parse_digits acc (xs @ ys) =
     (case parse_digits acc xs of None \<Rightarrow> None | Some a \<Rightarrow> parse_digits a ys)"
  by (induction xs arbitrary: acc) (auto split: option.splits)

lemma parse_format_nat [simp]: "parse_digits 0 (format_nat n) = Some n"
proof (induction n rule: format_nat.induct)
  case (1 n)
  show ?case
  proof (cases "n < 10")
    case True
    then show ?thesis by (simp add: format_nat.simps[of n])
  next
    case False
    with 1 show ?thesis by (simp add: format_nat.simps[of n] parse_digits_append)
  qed
qed

lemma format_nat_nonempty [simp]: "format_nat n \<noteq> []"
  by (subst format_nat.simps) simp

lemma format_nat_digits: "c \<in> set (format_nat n) \<Longrightarrow> \<exists>d<10. c = digit_char d"
proof (induction n rule: format_nat.induct)
  case (1 n)
  show ?case
  proof (cases "n < 10")
    case True
    with "1.prems" show ?thesis by (auto simp: format_nat.simps[of n])
  next
    case False
    with "1.prems" have "c \<in> set (format_nat (n div 10)) \<or> c = digit_char (n mod 10)"
      by (auto simp: format_nat.simps[of n])
    with "1.IH"[OF False] show ?thesis by (metis mod_less_divisor zero_less_numeral)
  qed
qed

lemma digit_char_neq:
  assumes "of_char c < (48::nat) \<or> 57 < (of_char c :: nat)" and "d < 10"
  shows "digit_char d \<noteq> c"
proof
  assume "digit_char d = c"
  then have "of_char c = (48 + d :: nat)"
    using assms(2) by (auto simp: digit_char_def of_char_of)
  with assms show False by auto
qed

lemma format_nat_no_char:
  "of_char c < (48::nat) \<or> 57 < (of_char c :: nat) \<Longrightarrow> c \<notin> set (format_nat n)"
  using format_nat_digits digit_char_neq by blast

lemma format_nat_hd:
  "of_char c < (48::nat) \<or> 57 < (of_char c :: nat) \<Longrightarrow> hd (format_nat n) \<noteq> c"
  by (metis format_nat_no_char format_nat_nonempty hd_in_set)

lemma parse_uint64_format [simp]: "n < 2 ^ 64 \<Longrightarrow> parse_uint64 (format_nat n) = Some n"
  by (simp add: parse_uint64_def)

lemma parse_int64_format [simp]:
  assumes "int64_ok i"
  shows "parse_int64 (format_int i) = Some i"
proof (cases "i < 0")
  case True
  then show ?thesis using assms by (simp add: parse_int64_def format_int_def Let_def)
next
  case False
  obtain c cs where c: "format_nat (nat i) = c # cs"
    by (meson format_nat_nonempty list.exhaust)
  have "c \<noteq> CHR ''-''" "c \<noteq> CHR ''+''"
    using format_nat_hd[of "CHR ''-''" "nat i"] format_nat_hd[of "CHR ''+''" "nat i"] c by auto
  moreover have "parse_digits 0 (c # cs) = Some (nat i)"
    using parse_format_nat[of "nat i"] c by simp
  ultimately show ?thesis
    using False c assms by (simp add: parse_int64_def format_int_def Let_def)
qed

lemma parse_int64_ok: "parse_int64 s = Some i \<Longrightarrow> int64_ok i"
  by (auto simp: parse_int64_def Let_def split: if_splits option.splits)

lemma parse_uint64_ok: "parse_uint64 s = Some n \<Longrightarrow> n < 2 ^ 64"
  by (auto simp: parse_uint64_def split: if_splits option.splits)

section \<open>strings\<close>

text \<open>\<^verbatim>\<open>strings.SplitN(s, sep, 2)\<close> for a one-byte separator.\<close>

definition split2 :: "char \<Rightarrow> string \<Rightarrow> string list" where
  "split2 c s =
     (if c \<in> set s then [takeWhile (\<lambda>x. x \<noteq> c) s, tl (dropWhile (\<lambda>x. x \<noteq> c) s)] else [s])"

lemma split2_join [simp]: "c \<notin> set a \<Longrightarrow> split2 c (a @ c # b) = [a, b]"
  by (induction a) (auto simp: split2_def)

text \<open>
  The UTF-8 encodings of the code points \<^verbatim>\<open>unicode.IsSpace\<close> accepts;
  \<^verbatim>\<open>TrimSpace\<close> drops them at both ends.
\<close>

definition space_codes :: "nat list list" where
  "space_codes =
     [[9], [10], [11], [12], [13], [32], [0xC2, 0x85], [0xC2, 0xA0], [0xE1, 0x9A, 0x80],
      [0xE2, 0x80, 0x80], [0xE2, 0x80, 0x81], [0xE2, 0x80, 0x82], [0xE2, 0x80, 0x83],
      [0xE2, 0x80, 0x84], [0xE2, 0x80, 0x85], [0xE2, 0x80, 0x86], [0xE2, 0x80, 0x87],
      [0xE2, 0x80, 0x88], [0xE2, 0x80, 0x89], [0xE2, 0x80, 0x8A], [0xE2, 0x80, 0xA8],
      [0xE2, 0x80, 0xA9], [0xE2, 0x80, 0xAF], [0xE2, 0x81, 0x9F], [0xE3, 0x80, 0x80]]"

definition spaces :: "string list" where
  "spaces = map (map char_of) space_codes"

lemma spaces_nonempty: "e \<in> set spaces \<Longrightarrow> e \<noteq> []"
  by (auto simp: spaces_def space_codes_def)

function trim_left :: "string list \<Rightarrow> string \<Rightarrow> string" where
  "trim_left es s =
     (case find (\<lambda>e. e \<noteq> [] \<and> prefix e s) es of
        None \<Rightarrow> s
      | Some e \<Rightarrow> trim_left es (drop (length e) s))"
  by pat_completeness auto
termination
  by (relation "measure (\<lambda>(es, s). length s)")
    (auto simp: find_Some_iff prefix_def)

declare trim_left.simps [simp del]

definition TrimSpace :: "string \<Rightarrow> string" where
  "TrimSpace s = rev (trim_left (map rev spaces) (rev (trim_left spaces s)))"

lemma trim_left_done: "find (\<lambda>e. e \<noteq> [] \<and> prefix e (trim_left es s)) es = None"
  by (induction es s rule: trim_left.induct)
    (simp add: trim_left.simps split: option.splits)

lemma trim_left_suffix: "suffix (trim_left es s) s"
proof (induction es s rule: trim_left.induct)
  case (1 es s)
  show ?case
  proof (cases "find (\<lambda>e. e \<noteq> [] \<and> prefix e s) es")
    case None
    then show ?thesis by (simp add: trim_left.simps[of es s])
  next
    case (Some e)
    with 1 show ?thesis
      by (simp add: trim_left.simps[of es s]) (meson suffix_drop suffix_order.trans)
  qed
qed

lemma trim_left_Nil [simp]: "trim_left es [] = []"
  using trim_left_suffix[of es "[]"] by simp

lemma TrimSpace_Nil [simp]: "TrimSpace [] = []"
  by (simp add: TrimSpace_def)

lemma trim_left_length: "length (trim_left es s) \<le> length s"
  by (rule suffix_length_le[OF trim_left_suffix])

lemma TrimSpace_length: "length (TrimSpace s) \<le> length s"
  using trim_left_length[of spaces s] trim_left_length[of "map rev spaces" "rev (trim_left spaces s)"]
  by (simp add: TrimSpace_def)

section \<open>encoding/base64, RawURLEncoding\<close>

text \<open>The URL alphabet: upper case, lower case, digits, hyphen and underscore.\<close>

definition url_char :: "nat \<Rightarrow> char" where
  "url_char i = char_of
     (if i < 26 then i + 65 else if i < 52 then i + 71 else if i < 62 then i - 4
      else if i = 62 then 45 else 95)"

fun sextets :: "nat list \<Rightarrow> nat list" where
  "sextets [] = []"
| "sextets [a] = [a div 4, (a mod 4) * 16]"
| "sextets [a, b] = [a div 4, (a mod 4) * 16 + b div 16, (b mod 16) * 4]"
| "sextets (a # b # c # r) =
     [a div 4, (a mod 4) * 16 + b div 16, (b mod 16) * 4 + c div 64, c mod 64] @ sextets r"

text \<open>Decoding ignores trailing bits, as the non-strict encoding does; one left-over
  character is a corrupt input.\<close>

fun octets :: "nat list \<Rightarrow> nat list option" where
  "octets [] = Some []"
| "octets [_] = None"
| "octets [p, q] = Some [p * 4 + q div 16]"
| "octets [p, q, r] = Some [p * 4 + q div 16, (q mod 16) * 16 + r div 4]"
| "octets (p # q # r # s # t) =
     (case octets t of
        None \<Rightarrow> None
      | Some bs \<Rightarrow> Some ([p * 4 + q div 16, (q mod 16) * 16 + r div 4, (r mod 4) * 64 + s] @ bs))"

definition sextet_of :: "char \<Rightarrow> nat option" where
  "sextet_of c = (let n = of_char c :: nat in
     if 65 \<le> n \<and> n \<le> 90 then Some (n - 65)
     else if 97 \<le> n \<and> n \<le> 122 then Some (n - 71)
     else if 48 \<le> n \<and> n \<le> 57 then Some (n + 4)
     else if n = 45 then Some 62
     else if n = 95 then Some 63
     else None)"

definition base64_encode :: "string \<Rightarrow> string" where
  "base64_encode s = map url_char (sextets (map of_char s))"

text \<open>The decoder skips carriage returns and newlines.\<close>

definition base64_decode :: "string \<Rightarrow> string option" where
  "base64_decode s =
     (case those (map sextet_of (filter (\<lambda>c. of_char c \<notin> {10, 13 :: nat}) s)) of
        None \<Rightarrow> None
      | Some is \<Rightarrow> map_option (map char_of) (octets is))"

lemma sextets_bound:
  "(\<And>b. b \<in> set bs \<Longrightarrow> b < 256) \<Longrightarrow> i \<in> set (sextets bs) \<Longrightarrow> i < 64"
proof (induction bs rule: sextets.induct)
  case (4 a b c r)
  have "a < 256" "b < 256" "c < 256" using "4.prems"(1) by auto
  then have "a div 4 < 64" "(a mod 4) * 16 + b div 16 < 64" "(b mod 16) * 4 + c div 64 < 64" "c mod 64 < 64"
    by linarith+
  then show ?case using 4 by auto
next
  case (3 a b)
  have "a < 256" "b < 256" using "3.prems"(1) by auto
  then have "a div 4 < 64" "(a mod 4) * 16 + b div 16 < 64" "(b mod 16) * 4 < 64"
    by linarith+
  then show ?case using 3 by auto
qed auto

lemma octets_sextets: "(\<And>b. b \<in> set bs \<Longrightarrow> b < 256) \<Longrightarrow> octets (sextets bs) = Some bs"
proof (induction bs rule: sextets.induct)
  case (4 a b c r)
  have "octets (sextets r) = Some r" using 4 by simp
  moreover have "((a mod 4) * 16 + b div 16) mod 16 = b div 16"
    "((b mod 16) * 4 + c div 64) mod 4 = c div 64"
    using "4.prems"[of b] "4.prems"[of c] by auto
  moreover have "((a mod 4) * 16 + b div 16) div 16 = a mod 4"
    "((b mod 16) * 4 + c div 64) div 4 = b mod 16"
    using "4.prems"[of b] "4.prems"[of c] by auto
  ultimately show ?case by simp
next
  case (3 a b)
  have "((a mod 4) * 16 + b div 16) mod 16 = b div 16" "((a mod 4) * 16 + b div 16) div 16 = a mod 4"
    using "3.prems"[of b] by auto
  then show ?case by simp
qed auto

lemma url_char_code:
  "i < 64 \<Longrightarrow> of_char (url_char i) =
     (if i < 26 then i + 65 else if i < 52 then i + 71 else if i < 62 then i - 4
      else if i = 62 then 45 else 95)"
  by (simp add: url_char_def of_char_of)

lemma sextet_url_char:
  assumes "i < 64"
  shows "sextet_of (url_char i) = Some i" and "of_char (url_char i) \<notin> {10, 13 :: nat}"
  using assms by (auto simp: sextet_of_def url_char_code Let_def)

lemma those_map_Some: "(\<And>x. x \<in> set xs \<Longrightarrow> f x = Some (g x)) \<Longrightarrow> those (map f xs) = Some (map g xs)"
  by (induction xs) auto

lemma base64_roundtrip [simp]: "base64_decode (base64_encode s) = Some s"
proof -
  let ?is = "sextets (map of_char s) :: nat list"
  have bound: "b \<in> set (map of_char s) \<Longrightarrow> b < (256::nat)" for b
    by auto
  have is64: "i < 64" if "i \<in> set ?is" for i
    using sextets_bound[of "map of_char s" i] bound that by blast
  have "filter (\<lambda>c. of_char c \<notin> {10, 13 :: nat}) (base64_encode s) = base64_encode s"
    using sextet_url_char(2) is64 by (intro filter_True) (auto simp: base64_encode_def)
  moreover have "those (map sextet_of (base64_encode s)) = Some ?is"
    using sextet_url_char(1) is64 those_map_Some[of ?is "\<lambda>i. sextet_of (url_char i)" id]
    by (simp add: base64_encode_def o_def)
  moreover have "octets ?is = Some (map of_char s)"
    using octets_sextets[of "map of_char s"] bound by blast
  ultimately show ?thesis
    by (simp add: base64_decode_def o_def)
qed

lemma base64_encode_nonempty: "s \<noteq> [] \<Longrightarrow> base64_encode s \<noteq> []"
  by (cases "map of_char s :: nat list" rule: sextets.cases) (auto simp: base64_encode_def)

end
