(* ===== verification/Cursor.thy ===== *)
theory Cursor
  imports GoStd
begin

text \<open>
  The opaque cursors of \<^verbatim>\<open>internal/store/cursor.go\<close> and
  \<^verbatim>\<open>internal/activities/cursor.go\<close>, of which
  \<^verbatim>\<open>internal/reports/cursor.go\<close> is a copy.  The locale
  \<^verbatim>\<open>cursor_codec\<close> is the contract a paginated endpoint relies on: a cursor it
  hands out decodes to the position it was made from, and the empty string is the beginning.
  It is interpreted on the two codecs of the package store; the cursor of the activities needs
  the codec of identifiers as a hypothesis, and has the round trip as a lemma.
\<close>

section \<open>The contract\<close>

locale cursor_codec =
  fixes encode :: "'c \<Rightarrow> string"
    and decode :: "string \<Rightarrow> 'e + 'c"
    and valid :: "'c \<Rightarrow> bool"
    and zero :: 'c
  assumes decode_encode: "valid c \<Longrightarrow> decode (encode c) = Inr c"
    and decode_empty: "decode [] = Inr zero"
    and decode_valid: "decode s = Inr c \<Longrightarrow> valid c"
begin

lemma encode_inj: "valid c \<Longrightarrow> valid d \<Longrightarrow> encode c = encode d \<Longrightarrow> c = d"
  using decode_encode by (metis sum.inject(2))

lemma reencode: "decode s = Inr c \<Longrightarrow> decode (encode c) = Inr c"
  using decode_encode decode_valid by blast

lemma encode_empty: "valid c \<Longrightarrow> encode c = [] \<Longrightarrow> c = zero"
  using decode_encode decode_empty by force

end

section \<open>The server_seq cursor of the list endpoints\<close>

datatype cursor_error = CorruptBase64 | BadNumber | NegativeSeq | MalformedCursor

definition EncodeCursor :: "int \<Rightarrow> string" where
  "EncodeCursor serverSeq = base64_encode (format_int serverSeq)"

definition DecodeCursor :: "string \<Rightarrow> cursor_error + int" where
  "DecodeCursor cursor =
     (if cursor = [] then Inr 0
      else case base64_decode cursor of
             None \<Rightarrow> Inl CorruptBase64
           | Some raw \<Rightarrow>
               (case parse_int64 raw of
                  None \<Rightarrow> Inl BadNumber
                | Some seq \<Rightarrow> if seq < 0 then Inl NegativeSeq else Inr seq))"

definition seq_valid :: "int \<Rightarrow> bool" where
  "seq_valid s \<longleftrightarrow> 0 \<le> s \<and> int64_ok s"

lemma int64_ok_0 [simp]: "int64_ok 0"
  by (simp add: int64_ok_def int64_min_def int64_max_def)

lemma format_int_nonempty [simp]: "format_int i \<noteq> []"
  by (simp add: format_int_def)

interpretation seq_codec: cursor_codec EncodeCursor DecodeCursor seq_valid 0
proof
  fix c assume "seq_valid c"
  then show "DecodeCursor (EncodeCursor c) = Inr c"
    by (auto simp: DecodeCursor_def EncodeCursor_def seq_valid_def base64_encode_nonempty)
next
  fix s c assume "DecodeCursor s = Inr c"
  then show "seq_valid c"
    by (auto simp: DecodeCursor_def seq_valid_def parse_int64_ok split: if_splits option.splits)
qed (simp_all add: DecodeCursor_def)

section \<open>The pull cursor\<close>

datatype pull_cursor = PullCursor (Xid8: nat) (ServerSeq: int)

definition IsZero :: "pull_cursor \<Rightarrow> bool" where
  "IsZero c \<longleftrightarrow> Xid8 c = 0 \<and> ServerSeq c = 0"

definition Less :: "pull_cursor \<Rightarrow> pull_cursor \<Rightarrow> bool" where
  "Less c other =
     (if Xid8 c \<noteq> Xid8 other then Xid8 c < Xid8 other else ServerSeq c < ServerSeq other)"

text \<open>\<^verbatim>\<open>Less\<close> is a strict linear order: the keyset order of the changelog.\<close>

instantiation pull_cursor :: linorder
begin

definition less_pull_cursor :: "pull_cursor \<Rightarrow> pull_cursor \<Rightarrow> bool" where
  "less_pull_cursor = Less"

definition less_eq_pull_cursor :: "pull_cursor \<Rightarrow> pull_cursor \<Rightarrow> bool" where
  "less_eq_pull_cursor a b \<longleftrightarrow> a = b \<or> Less a b"

instance
proof
  fix a b c :: pull_cursor
  show "(a < b) = (a \<le> b \<and> \<not> b \<le> a)"
    by (auto simp: less_pull_cursor_def less_eq_pull_cursor_def Less_def split: if_splits)
  show "a \<le> a" by (simp add: less_eq_pull_cursor_def)
  show "a \<le> b \<Longrightarrow> b \<le> c \<Longrightarrow> a \<le> c"
    by (auto simp: less_eq_pull_cursor_def Less_def split: if_splits)
  show "a \<le> b \<Longrightarrow> b \<le> a \<Longrightarrow> a = b"
    by (auto simp: less_eq_pull_cursor_def Less_def split: if_splits)
  show "a \<le> b \<or> b \<le> a"
    by (cases a; cases b) (auto simp: less_eq_pull_cursor_def Less_def)
qed

end

lemma pull_cursor_less: "a < b \<longleftrightarrow> Xid8 a < Xid8 b \<or> Xid8 a = Xid8 b \<and> ServerSeq a < ServerSeq b"
  by (auto simp: less_pull_cursor_def Less_def)

lemma pull_cursor_less_eq:
  "a \<le> b \<longleftrightarrow> Xid8 a < Xid8 b \<or> Xid8 a = Xid8 b \<and> ServerSeq a \<le> ServerSeq b"
  by (cases a; cases b) (auto simp: less_eq_pull_cursor_def Less_def)

definition EncodePullCursor :: "pull_cursor \<Rightarrow> string" where
  "EncodePullCursor c =
     base64_encode (format_int (int (Xid8 c)) @ CHR '':'' # format_int (ServerSeq c))"

definition DecodePullCursor :: "string \<Rightarrow> cursor_error + pull_cursor" where
  "DecodePullCursor cursor =
     (if cursor = [] then Inr (PullCursor 0 0)
      else case base64_decode cursor of
             None \<Rightarrow> Inl CorruptBase64
           | Some raw \<Rightarrow>
               (case split2 (CHR '':'') raw of
                  [a, b] \<Rightarrow>
                    (case parse_uint64 a of
                       None \<Rightarrow> Inl BadNumber
                     | Some xid8 \<Rightarrow>
                         (case parse_int64 b of
                            None \<Rightarrow> Inl BadNumber
                          | Some seq \<Rightarrow>
                              if seq < 0 then Inl NegativeSeq else Inr (PullCursor xid8 seq)))
                | _ \<Rightarrow> Inl MalformedCursor))"

definition pull_valid :: "pull_cursor \<Rightarrow> bool" where
  "pull_valid c \<longleftrightarrow> Xid8 c < 2 ^ 64 \<and> seq_valid (ServerSeq c)"

lemma format_int_no_colon: "CHR '':'' \<notin> set (format_int i)"
  by (auto simp: format_int_def format_nat_no_char)

lemma format_int_nat: "format_int (int n) = format_nat n"
  by (simp add: format_int_def)

interpretation pull_codec: cursor_codec EncodePullCursor DecodePullCursor pull_valid "PullCursor 0 0"
proof
  fix c assume "pull_valid c"
  then show "DecodePullCursor (EncodePullCursor c) = Inr c"
    using split2_join[OF format_int_no_colon, of "int (Xid8 c)" "format_int (ServerSeq c)"]
    by (simp add: DecodePullCursor_def EncodePullCursor_def pull_valid_def seq_valid_def
        base64_encode_nonempty format_int_nat)
next
  fix s c assume "DecodePullCursor s = Inr c"
  then show "pull_valid c"
    by (auto simp: DecodePullCursor_def pull_valid_def seq_valid_def parse_int64_ok
        dest: parse_uint64_ok split: if_splits option.splits list.splits)
qed (simp_all add: DecodePullCursor_def)

section \<open>The (started_at, event_id) cursor of the activity list\<close>

datatype ev_cursor = EvCursor (cur_started_at: time) (cur_event_id: string)

text \<open>\<^verbatim>\<open>UnixNano\<close> wraps for an instant that does not fit 64 bits.\<close>

definition UnixNano :: "time \<Rightarrow> int" where
  "UnixNano t = wrap64 t"

definition nil_uuid_text :: string where
  "nil_uuid_text = ''00000000-0000-0000-0000-000000000000''"

definition zeroCursor :: ev_cursor where
  "zeroCursor = EvCursor 0 nil_uuid_text"

definition scans :: "ext \<Rightarrow> string \<Rightarrow> bool" where
  "scans x s \<longleftrightarrow> (\<exists>u. uuid_scan x s = Some (Some u))"

lemma scans_iff [code]:
  "scans x s = (case uuid_scan x s of Some (Some u) \<Rightarrow> True | _ \<Rightarrow> False)"
  by (auto simp: scans_def split: option.splits)

definition encodeCursor :: "ev_cursor \<Rightarrow> string" where
  "encodeCursor c =
     base64_encode (format_int (UnixNano (cur_started_at c)) @ CHR '':'' # cur_event_id c)"

definition decodeCursor :: "ext \<Rightarrow> string \<Rightarrow> detail + ev_cursor" where
  "decodeCursor x raw =
     (if raw = [] then Inr zeroCursor
      else case base64_decode raw of
             None \<Rightarrow> Inl (Msg ''invalid cursor'')
           | Some decoded \<Rightarrow>
               (case split2 (CHR '':'') decoded of
                  [a, b] \<Rightarrow>
                    (case parse_int64 a of
                       None \<Rightarrow> Inl (Msg ''invalid cursor'')
                     | Some nanos \<Rightarrow>
                         if scans x b then Inr (EvCursor nanos b)
                         else Inl (Msg ''invalid cursor''))
                | _ \<Rightarrow> Inl (Msg ''invalid cursor'')))"

definition ev_valid :: "ext \<Rightarrow> ev_cursor \<Rightarrow> bool" where
  "ev_valid x c \<longleftrightarrow> int64_ok (cur_started_at c) \<and> scans x (cur_event_id c)"

lemma ev_decode_encode:
  "ev_valid x c \<Longrightarrow> decodeCursor x (encodeCursor c) = Inr c"
  using split2_join[OF format_int_no_colon, of "cur_started_at c" "cur_event_id c"]
  by (simp add: decodeCursor_def encodeCursor_def ev_valid_def UnixNano_def base64_encode_nonempty)

section \<open>Page limits\<close>

text \<open>\<^verbatim>\<open>LimitParam\<close> clamps into the positive 32-bit range.\<close>

definition LimitParam :: "int \<Rightarrow> int" where
  "LimitParam n = (if n < 1 then 1 else if 2 ^ 31 - 1 < n then 2 ^ 31 - 1 else wrap32 n)"

lemma LimitParam_bounds: "1 \<le> LimitParam n \<and> LimitParam n < 2 ^ 31"
  by (simp add: LimitParam_def wrap32_id)

lemma LimitParam_small: "1 \<le> n \<Longrightarrow> n < 2 ^ 31 \<Longrightarrow> LimitParam n = n"
  by (simp add: LimitParam_def wrap32_id)

text \<open>The clamp every list endpoint applies to the caller's limit.\<close>

definition clamp_limit :: "int \<Rightarrow> int \<Rightarrow> int \<Rightarrow> int" where
  "clamp_limit dflt mx rawLimit =
     (let limit = (if rawLimit \<le> 0 then dflt else rawLimit)
      in if mx < limit then mx else limit)"

lemma clamp_limit_bounds:
  "1 \<le> dflt \<Longrightarrow> dflt \<le> mx \<Longrightarrow> 1 \<le> clamp_limit dflt mx n \<and> clamp_limit dflt mx n \<le> mx"
  by (auto simp: clamp_limit_def Let_def)

end
