(* ===== verification/Keyset.thy ===== *)
theory Keyset
  imports Cursor
begin

text \<open>
  Keyset pagination, as every list endpoint and the sync pull do it: ask the store for the
  rows strictly after the cursor, one more than the page holds; the extra row only says that
  there is more; the next cursor is the key of the last row kept.  The locale
  \<^verbatim>\<open>keyset_feed\<close> states what the endpoint needs of the store's page query, and
  proves once that a client that follows the cursors reads every row exactly once and stops.
\<close>

section \<open>One page and the client's walk\<close>

definition page_cut :: "('r \<Rightarrow> 'k) \<Rightarrow> int \<Rightarrow> 'k \<Rightarrow> 'r list \<Rightarrow> 'r list \<times> 'k \<times> bool" where
  "page_cut key limit cursor rows =
     (let hasMore = limit < int (length rows);
          kept = (if hasMore then take (nat limit) rows else rows);
          next = (if kept = [] then cursor else key (last kept))
      in (kept, next, hasMore))"

text \<open>
  The client repeats the request at the cursor it was given until \<^verbatim>\<open>has_more\<close> is
  false.  Each request spends one unit of fuel; running out is \<open>None\<close>.
\<close>

fun walk :: "('r \<Rightarrow> 'k) \<Rightarrow> ('k \<Rightarrow> int \<Rightarrow> 's \<Rightarrow> 'r list) \<Rightarrow> int \<Rightarrow> nat \<Rightarrow> 'k \<Rightarrow> 's \<Rightarrow> 'r list option" where
  "walk key page limit 0 cursor s = None"
| "walk key page limit (Suc fuel) cursor s =
     (case page_cut key limit cursor (page cursor (LimitParam (limit + 1)) s) of
        (kept, next, hasMore) \<Rightarrow>
          if hasMore then map_option (\<lambda>rest. kept @ rest) (walk key page limit fuel next s)
          else Some kept)"

section \<open>The contract of the store's page query\<close>

locale keyset_feed =
  fixes key :: "'r \<Rightarrow> 'k::linorder"
    and rows :: "'s \<Rightarrow> 'r list"
    and page :: "'k \<Rightarrow> int \<Rightarrow> 's \<Rightarrow> 'r list"
    and inv :: "'s \<Rightarrow> bool"
  assumes rows_sorted: "inv s \<Longrightarrow> sorted_wrt (<) (map key (rows s))"
    and page_spec: "inv s \<Longrightarrow> page c n s = take (nat n) (filter (\<lambda>r. c < key r) (rows s))"
begin

abbreviation after :: "'k \<Rightarrow> 's \<Rightarrow> 'r list" where
  "after c s \<equiv> filter (\<lambda>r. c < key r) (rows s)"

lemma after_sorted: "inv s \<Longrightarrow> sorted_wrt (<) (map key (after c s))"
  using rows_sorted[of s] by (induction "rows s" arbitrary: c) (auto simp: sorted_wrt_map sorted_wrt_filter)

lemma after_after:
  assumes "inv s" and "k < length (after c s)"
  shows "after (key (after c s ! k)) s = drop (Suc k) (after c s)"
proof -
  have "c < key (after c s ! k)"
    using assms(2) nth_mem by fastforce
  then have "after (key (after c s ! k)) s = filter (\<lambda>r. key (after c s ! k) < key r) (after c s)"
    by (auto simp: conj_commute intro!: filter_cong)
  then show ?thesis
    using sorted_wrt_filter_drop[OF after_sorted[OF assms(1)] assms(2)] by simp
qed

lemma page_complete:
  assumes "inv s" and "1 \<le> limit" and "limit < 2 ^ 31 - 1"
    and "page_cut key limit c (page c (LimitParam (limit + 1)) s) = (kept, next, hasMore)"
  shows "kept = take (nat limit) (after c s)"
    and "hasMore \<longleftrightarrow> nat limit < length (after c s)"
    and "hasMore \<Longrightarrow> after next s = drop (nat limit) (after c s) \<and> c < next"
proof -
  let ?A = "after c s"
  have lim: "nat (LimitParam (limit + 1)) = Suc (nat limit)"
    using assms(2,3) by (simp add: LimitParam_small nat_add_distrib)
  then have pg: "page c (LimitParam (limit + 1)) s = take (Suc (nat limit)) ?A"
    using page_spec[OF assms(1)] by simp
  show more: "hasMore \<longleftrightarrow> nat limit < length ?A"
    using assms(2,4) pg by (auto simp: page_cut_def Let_def)
  show kept: "kept = take (nat limit) ?A"
    using assms(2,4) pg by (auto simp: page_cut_def Let_def)
  show "after next s = drop (nat limit) ?A \<and> c < next" if hasMore
  proof -
    have len: "nat limit < length ?A" using that more by simp
    have ne: "kept \<noteq> []" using kept len assms(2) by auto
    have l: "last kept = ?A ! (nat limit - 1)"
      unfolding last_conv_nth[OF ne] using kept len assms(2) by simp
    then have nxt: "next = key (?A ! (nat limit - 1))"
      using assms(4) ne by (auto simp: page_cut_def Let_def split: if_splits)
    have "Suc (nat limit - 1) = nat limit" using assms(2) by simp
    then have "after next s = drop (nat limit) ?A"
      using after_after[OF assms(1), of "nat limit - 1" c] len nxt by simp
    moreover have "c < next"
      using nxt len nth_mem[of "nat limit - 1" ?A] by simp
    ultimately show ?thesis by simp
  qed
qed

theorem walk_complete:
  assumes "inv s" and "1 \<le> limit" and "limit < 2 ^ 31 - 1"
    and "length (after c s) < fuel"
  shows "walk key page limit fuel c s = Some (after c s)"
  using assms(4)
proof (induction fuel arbitrary: c)
  case 0
  then show ?case by simp
next
  case (Suc fuel)
  obtain kept nxt more where
    cut: "page_cut key limit c (page c (LimitParam (limit + 1)) s) = (kept, nxt, more)"
    by (metis prod_cases3)
  note facts = page_complete[OF assms(1-3) cut]
  show ?case
  proof (cases more)
    case True
    then have aft: "after nxt s = drop (nat limit) (after c s)" using facts(3) by simp
    have "length (after nxt s) < fuel"
      using aft Suc.prems True facts(2) assms(2) by simp
    then have "walk key page limit fuel nxt s = Some (after nxt s)" by (rule Suc.IH)
    then show ?thesis using cut True aft facts(1) by simp
  next
    case False
    then show ?thesis using cut facts(1,2) by simp
  qed
qed

end

text \<open>The page query of a store whose rows are filtered, sorted and cut.\<close>

lemma sorted_wrt_sort_key:
  fixes key :: "'r \<Rightarrow> 'k::linorder"
  assumes "distinct (map key xs)"
  shows "sorted_wrt (<) (map key (sort_key key xs))"
proof -
  have "distinct (map key (sort_key key xs))"
    using assms by (metis distinct_map distinct_sort set_sort)
  then show ?thesis
    by (simp add: strict_sorted_iff sorted_sort_key)
qed

lemma sort_filter_commute:
  "sort_key key (filter (\<lambda>r. P r \<and> c < key r) xs)
   = filter (\<lambda>r. c < key r) (sort_key key (filter P xs))"
  by (simp add: filter_sort conj_commute)

end
