(* ===== verification/Store.thy ===== *)
theory Store
  imports Keyset
begin

text \<open>
  The database behind the services: one record per table row
  (\<^verbatim>\<open>internal/store/storedb/models.go\<close>), the tables and the single
  horizon row, and the session the queries run in.

  The session's \<^verbatim>\<open>hazards\<close> are the environment of a statement: it runs, it
  fails with a driver error, or other sessions commit first.  They make every error branch of
  the code and every race it handles a value of the model, so a theorem without a hypothesis
  on the hazards holds whatever fails.  Inside a transaction the statements see one state:
  exact for the pull's REPEATABLE READ snapshot, and the serial schedule for the others.
  Sequences, the transaction counter and the random source are outside the tables: a
  rollback does not give their values back.

  An update of a syncable row runs the \<^verbatim>\<open>set_server_seq\<close> and
  \<^verbatim>\<open>log_change\<close> triggers of migrations 22 and 26: it draws a new
  \<^verbatim>\<open>server_seq\<close> and appends a row to \<^verbatim>\<open>sync_changelog\<close>
  stamped with the writing transaction.
\<close>

section \<open>Rows\<close>

record activity_event =
  ae_event_id :: uuid
  ae_user_id :: uuid
  ae_device_id :: uuid
  ae_started_at :: time
  ae_ended_at :: time
  ae_duration_s :: int
  ae_type :: string
  ae_source :: string
  ae_precision :: string
  ae_app_id :: "uuid option"
  ae_raw_bundle_id :: "string option"
  ae_window_title :: "string option"
  ae_url :: "string option"
  ae_category_id :: "uuid option"
  ae_project_id :: "uuid option"
  ae_deleted :: bool
  ae_inserted_at :: time
  ae_server_seq :: int

record app =
  app_id :: uuid
  app_bundle_id :: string
  app_platform :: string
  app_name :: string
  app_default_category_id :: "uuid option"

record category =
  cat_id :: uuid
  cat_user_id :: "uuid option"
  cat_name :: string
  cat_color :: string
  cat_productivity :: int
  cat_created_at :: time
  cat_updated_at :: time
  cat_deleted_at :: "time option"
  cat_server_seq :: int

record device =
  dev_id :: uuid
  dev_user_id :: uuid
  dev_platform :: string
  dev_name :: string
  dev_model :: string
  dev_os_version :: string
  dev_app_version :: string
  dev_last_seen_at :: time
  dev_created_at :: time
  dev_revoked_at :: "time option"

record focus_session =
  fs_id :: uuid
  fs_user_id :: uuid
  fs_device_id :: uuid
  fs_project_id :: "uuid option"
  fs_kind :: string
  fs_planned_duration_s :: "int option"
  fs_started_at :: time
  fs_ended_at :: "time option"
  fs_status :: string
  fs_note :: "string option"
  fs_created_at :: time
  fs_updated_at :: time
  fs_deleted_at :: "time option"
  fs_server_seq :: int

record project =
  pr_id :: uuid
  pr_user_id :: uuid
  pr_name :: string
  pr_color :: string
  pr_created_at :: time
  pr_updated_at :: time
  pr_archived_at :: "time option"
  pr_deleted_at :: "time option"
  pr_server_seq :: int

record refresh_token =
  rt_id :: uuid
  rt_user_id :: uuid
  rt_device_id :: uuid
  rt_token_hash :: string
  rt_family_id :: uuid
  rt_issued_at :: time
  rt_expires_at :: time
  rt_revoked_at :: "time option"
  rt_replaced_by :: "uuid option"

record sync_changelog =
  cl_changelog_id :: int
  cl_user_id :: "uuid option"
  cl_entity_type :: string
  cl_entity_id :: uuid
  cl_event_started_at :: "time option"
  cl_server_seq :: int
  cl_created_at :: time
  cl_xid8 :: nat

record sync_changelog_horizon =
  hz_xid8 :: nat
  hz_server_seq :: int

record tag =
  tag_id :: uuid
  tag_user_id :: uuid
  tag_name :: string
  tag_updated_at :: time
  tag_deleted_at :: "time option"
  tag_server_seq :: int

record user =
  us_id :: uuid
  us_email :: "string option"
  us_password_hash :: "string option"
  us_apple_user_id :: "string option"
  us_display_name :: "string option"
  us_role :: string
  us_timezone :: "string option"
  us_created_at :: time
  us_updated_at :: time
  us_deleted_at :: "time option"
  us_server_seq :: int
  us_failed_login_attempts :: int
  us_lockout_count :: int
  us_locked_until :: "time option"

record user_app_setting =
  uas_user_id :: uuid
  uas_app_id :: uuid
  uas_category_id :: "uuid option"
  uas_excluded :: bool
  uas_updated_at :: time
  uas_server_seq :: int

text \<open>
  The database.  Its last field says which texts fit a row of an index: PostgreSQL compresses the
  row and refuses it (54000) when more than a third of a page is left.
\<close>

record db =
  users :: "user list"
  devices :: "device list"
  refresh_tokens :: "refresh_token list"
  apps :: "app list"
  user_app_settings :: "user_app_setting list"
  categories :: "category list"
  projects :: "project list"
  tags :: "tag list"
  activity_events :: "activity_event list"
  focus_sessions :: "focus_session list"
  changelog :: "sync_changelog list"
  horizon :: sync_changelog_horizon
  index_fits :: "string list \<Rightarrow> bool"

section \<open>Errors and hazards\<close>

text \<open>
  A driver error: \<^verbatim>\<open>pgx.ErrNoRows\<close>, a \<^verbatim>\<open>pgconn.PgError\<close>
  with its SQLSTATE and constraint name, or anything else.
\<close>

datatype db_error = NoRows | PgError (pg_code: string) (pg_constraint: string) | OtherError string

datatype hazard = Run | Fail db_error | Interfere "db \<Rightarrow> db"

record world =
  dbs :: db
  server_seq_global :: int
  changelog_id_seq :: int
  next_xid :: nat
  inflight :: "nat list"
  pg_now :: time
  rng :: "nat \<Rightarrow> uuid"
  rng_pos :: nat
  hazards :: "hazard list"
  in_tx :: bool

text \<open>Run one statement: the next hazard decides.\<close>

definition exec :: "(world \<Rightarrow> (db_error + 'a) \<times> world) \<Rightarrow> world \<Rightarrow> (db_error + 'a) \<times> world" where
  "exec q w =
     (case hazards w of
        [] \<Rightarrow> q w
      | h # hs \<Rightarrow>
          (let w' = w\<lparr>hazards := hs\<rparr>
           in case h of
                Run \<Rightarrow> q w'
              | Fail e \<Rightarrow> (Inl e, w')
              | Interfere f \<Rightarrow> if in_tx w then q w' else q (w'\<lparr>dbs := f (dbs w')\<rparr>)))"

text \<open>A statement that waits for a row lock: what the other session committed is seen.\<close>

definition exec_blocking :: "(world \<Rightarrow> (db_error + 'a) \<times> world) \<Rightarrow> world \<Rightarrow> (db_error + 'a) \<times> world" where
  "exec_blocking q w = (case exec q (w\<lparr>in_tx := False\<rparr>) of (r, w') \<Rightarrow> (r, w'\<lparr>in_tx := in_tx w\<rparr>))"

definition begin_tx :: "world \<Rightarrow> (db_error + unit) \<times> world" where
  "begin_tx w = exec (\<lambda>w. (Inr (), w\<lparr>in_tx := True\<rparr>)) w"

definition commit_tx :: "world \<Rightarrow> (db_error + unit) \<times> world" where
  "commit_tx w = exec (\<lambda>w. (Inr (), w\<lparr>in_tx := False\<rparr>)) w"

text \<open>Roll back to the tables of a saved session.\<close>

definition rollback_to :: "world \<Rightarrow> world \<Rightarrow> world" where
  "rollback_to w0 w = w\<lparr>dbs := dbs w0, in_tx := False\<rparr>"

text \<open>No failure and no other session: the plain sequential run.\<close>

definition quiet :: "world \<Rightarrow> bool" where
  "quiet w \<longleftrightarrow> hazards w = []"

text \<open>No other session writes between the statements; statements may still fail.\<close>

definition isolated :: "world \<Rightarrow> bool" where
  "isolated w \<longleftrightarrow> (\<forall>h\<in>set (hazards w). case h of Interfere f \<Rightarrow> False | _ \<Rightarrow> True)"

lemma exec_quiet [simp]: "hazards w = [] \<Longrightarrow> exec q w = q w"
  by (simp add: exec_def)

text \<open>
  What a statement can do to the session: its result comes from the query, run on a state
  that differs from the caller's in the hazards and what other sessions committed, or the
  statement failed and changed nothing.
\<close>

lemma exec_cases:
  obtains (ran) w' where "exec q w = q w'" "dbs w' = dbs w \<or> (\<exists>f hs. hazards w = Interfere f # hs \<and> \<not> in_tx w \<and> dbs w' = f (dbs w))"
      "w' = w\<lparr>hazards := hazards w', dbs := dbs w'\<rparr>"
  | (failed) e hs where "hazards w = Fail e # hs" "exec q w = (Inl e, w\<lparr>hazards := hs\<rparr>)"
proof (cases "hazards w")
  case Nil
  then show ?thesis by (intro ran[of w]) auto
next
  case (Cons h hs)
  show ?thesis
  proof (cases h)
    case Run
    then show ?thesis using Cons by (intro ran[of "w\<lparr>hazards := hs\<rparr>"]) (auto simp: exec_def)
  next
    case (Fail e)
    then show ?thesis using Cons by (intro failed) (auto simp: exec_def)
  next
    case (Interfere f)
    then show ?thesis using Cons
      by (cases "in_tx w")
        (auto simp: exec_def intro: ran[of "w\<lparr>hazards := hs\<rparr>"]
          ran[of "w\<lparr>hazards := hs, dbs := f (dbs w)\<rparr>"])
  qed
qed

text \<open>The same for an isolated session, as an elimination rule for one statement.\<close>

lemma exec_isolated:
  assumes "isolated w" and "exec q w = (r, w1)"
  obtains (ran) hs where "isolated (w\<lparr>hazards := hs\<rparr>)" "q (w\<lparr>hazards := hs\<rparr>) = (r, w1)"
  | (failed) e hs where "r = Inl e" "isolated (w\<lparr>hazards := hs\<rparr>)" "w1 = w\<lparr>hazards := hs\<rparr>"
proof (cases "hazards w")
  case Nil
  then have w: "w\<lparr>hazards := []\<rparr> = w" by (metis world.surjective world.update_convs(9))
  show ?thesis by (rule ran[of "[]"]) (use assms Nil in \<open>simp_all add: w\<close>)
next
  case (Cons h hs)
  then have iso: "isolated (w\<lparr>hazards := hs\<rparr>)" using assms(1) by (simp add: isolated_def)
  show ?thesis
  proof (cases h)
    case Run
    then show ?thesis using Cons assms iso by (intro ran[of hs]) (simp_all add: exec_def)
  next
    case (Fail e)
    then show ?thesis using Cons assms(2) iso by (intro failed[of e hs]) (auto simp: exec_def)
  next
    case (Interfere f)
    then show ?thesis using Cons assms(1) by (simp add: isolated_def)
  qed
qed

section \<open>Reading\<close>

text \<open>A \<^verbatim>\<open>:one\<close> query: the first row, or \<^verbatim>\<open>ErrNoRows\<close>.\<close>

definition one_row :: "'a list \<Rightarrow> db_error + 'a" where
  "one_row rs = (case rs of [] \<Rightarrow> Inl NoRows | r # _ \<Rightarrow> Inr r)"

definition select_one :: "(db \<Rightarrow> 'a list) \<Rightarrow> ('a \<Rightarrow> bool) \<Rightarrow> world \<Rightarrow> (db_error + 'a) \<times> world" where
  "select_one tab P w = (one_row (filter P (tab (dbs w))), w)"

lemma one_row_Inr: "one_row rs = Inr r \<Longrightarrow> r \<in> set rs"
  by (auto simp: one_row_def split: list.splits)

lemma one_row_Inl: "one_row rs = Inl e \<longleftrightarrow> rs = [] \<and> e = NoRows"
  by (auto simp: one_row_def split: list.splits)

lemma select_one_Inr:
  "select_one tab P w = (Inr r, w') \<Longrightarrow> r \<in> set (tab (dbs w)) \<and> P r \<and> w' = w"
  by (auto simp: select_one_def dest: one_row_Inr)

section \<open>Postgres values\<close>

text \<open>\<^verbatim>\<open>timestamptz\<close> has microseconds: a parameter is cut to them.\<close>

definition pg_ts :: "time \<Rightarrow> time" where
  "pg_ts t = (t div 1000) * 1000"

lemma pg_ts_idem [simp]: "pg_ts (pg_ts t) = pg_ts t"
  by (simp add: pg_ts_def)

lemma pg_ts_mono: "s \<le> t \<Longrightarrow> pg_ts s \<le> pg_ts t"
  by (simp add: pg_ts_def zdiv_mono1)

lemma pg_ts_le: "pg_ts t \<le> t" and pg_ts_gt: "t - 1000 < pg_ts t"
  by (simp_all add: pg_ts_def)

text \<open>A \<^verbatim>\<open>text\<close> parameter may not contain a zero byte.\<close>

definition text_ok :: "string \<Rightarrow> bool" where
  "text_ok s \<longleftrightarrow> CHR 0x00 \<notin> set s"

definition opt_text :: "string option \<Rightarrow> string list" where
  "opt_text s = (case s of None \<Rightarrow> [] | Some s \<Rightarrow> [s])"

definition exec_txt :: "string list \<Rightarrow> (world \<Rightarrow> (db_error + 'a) \<times> world) \<Rightarrow> world \<Rightarrow> (db_error + 'a) \<times> world" where
  "exec_txt ts q w =
     exec (\<lambda>w. if list_all text_ok ts then q w else (Inl (PgError ''22021'' ''''), w)) w"

lemma exec_txt_ok [simp]: "list_all text_ok ts \<Longrightarrow> exec_txt ts q = exec q"
  by (rule ext) (simp add: exec_txt_def)

lemma exec_txt_isolated:
  assumes "isolated w" and "exec_txt ts q w = (r, w1)"
  obtains (ran) hs where "isolated (w\<lparr>hazards := hs\<rparr>)" "q (w\<lparr>hazards := hs\<rparr>) = (r, w1)" "list_all text_ok ts"
  | (failed) e hs where "r = Inl e" "isolated (w\<lparr>hazards := hs\<rparr>)" "w1 = w\<lparr>hazards := hs\<rparr>"
  using assms(2) unfolding exec_txt_def
proof (rule exec_isolated[OF assms(1)], goal_cases)
  case (1 hs)
  then show ?thesis by (cases "list_all text_ok ts") (auto intro: ran failed)
next
  case (2 e hs)
  then show ?thesis using failed by blast
qed

text \<open>
  \<^verbatim>\<open>EXTRACT(EPOCH FROM ended_at - started_at)::int\<close>: microseconds rounded
  to the nearest second, and an error out of the 32-bit range.
\<close>

definition epoch_s :: "duration \<Rightarrow> int" where
  "epoch_s d =
     (if 0 \<le> d then (d div 1000 + 500000) div 1000000 else - ((- d div 1000 + 500000) div 1000000))"

definition int4_ok :: "int \<Rightarrow> bool" where
  "int4_ok i \<longleftrightarrow> - (2 ^ 31) \<le> i \<and> i < 2 ^ 31"

text \<open>The first foreign key that does not hold.\<close>

definition fk_violation :: "(string \<times> bool) list \<Rightarrow> string option" where
  "fk_violation fks = map_option fst (find (\<lambda>k. \<not> snd k) fks)"

lemma fk_violation_None: "fk_violation fks = None \<longleftrightarrow> list_all snd fks"
  by (induction fks) (auto simp: fk_violation_def)

definition fk_opt :: "('a \<Rightarrow> bool) \<Rightarrow> 'a option \<Rightarrow> bool" where
  "fk_opt P v = (case v of None \<Rightarrow> True | Some i \<Rightarrow> P i)"

definition user_exists :: "db \<Rightarrow> uuid \<Rightarrow> bool" where
  "user_exists d i \<longleftrightarrow> i \<in> us_id ` set (users d)"

definition device_exists :: "db \<Rightarrow> uuid \<Rightarrow> bool" where
  "device_exists d i \<longleftrightarrow> i \<in> dev_id ` set (devices d)"

definition app_exists :: "db \<Rightarrow> uuid \<Rightarrow> bool" where
  "app_exists d i \<longleftrightarrow> i \<in> app_id ` set (apps d)"

definition category_exists :: "db \<Rightarrow> uuid \<Rightarrow> bool" where
  "category_exists d i \<longleftrightarrow> i \<in> cat_id ` set (categories d)"

definition project_exists :: "db \<Rightarrow> uuid \<Rightarrow> bool" where
  "project_exists d i \<longleftrightarrow> i \<in> pr_id ` set (projects d)"

section \<open>Triggers\<close>

definition next_server_seq :: "world \<Rightarrow> int \<times> world" where
  "next_server_seq w =
     (server_seq_global w + 1, w\<lparr>server_seq_global := server_seq_global w + 1\<rparr>)"

definition gen_random_uuid :: "world \<Rightarrow> uuid \<times> world" where
  "gen_random_uuid w = (rng w (rng_pos w), w\<lparr>rng_pos := Suc (rng_pos w)\<rparr>)"

text \<open>
  The \<^verbatim>\<open>log_*_change\<close> triggers: one changelog row, in the writer's transaction.
  Every write to a syncable table is its own transaction in this program.
\<close>

definition log_change :: "uuid option \<Rightarrow> string \<Rightarrow> uuid \<Rightarrow> time option \<Rightarrow> int \<Rightarrow> world \<Rightarrow> world" where
  "log_change uid etype eid started seq w =
     w\<lparr>dbs := (dbs w)\<lparr>changelog := changelog (dbs w) @
          [\<lparr>cl_changelog_id = changelog_id_seq w + 1, cl_user_id = uid, cl_entity_type = etype,
            cl_entity_id = eid, cl_event_started_at = started, cl_server_seq = seq,
            cl_created_at = pg_ts (pg_now w), cl_xid8 = next_xid w\<rparr>]\<rparr>,
       changelog_id_seq := changelog_id_seq w + 1,
       next_xid := Suc (next_xid w)\<rparr>"

text \<open>\<^verbatim>\<open>pg_snapshot_xmin\<close>: the oldest transaction still in flight.\<close>

definition snapshot_xmin :: "world \<Rightarrow> nat" where
  "snapshot_xmin w = fold min (inflight w) (next_xid w)"

lemma fold_min_le:
  fixes m :: nat
  shows "fold min xs m \<le> m" and "x \<in> set xs \<Longrightarrow> fold min xs m \<le> x"
proof (induction xs arbitrary: m)
  case (Cons a xs)
  { case 1 show ?case using Cons(1)[of "min a m"] by simp }
  { case 2 show ?case using Cons(1)[of "min a m"] Cons(2)[of "min a m"] 2 by auto }
qed simp_all

lemma snapshot_xmin_le: "snapshot_xmin w \<le> next_xid w"
  and snapshot_xmin_inflight: "x \<in> set (inflight w) \<Longrightarrow> snapshot_xmin w \<le> x"
  by (simp_all add: snapshot_xmin_def fold_min_le)

text \<open>
  Inside a transaction a statement runs on the transaction's tables or fails, whatever else
  happens.
\<close>

definition same_tables :: "world \<Rightarrow> world \<Rightarrow> bool" where
  "same_tables w w' \<longleftrightarrow> in_tx w' = in_tx w \<and> dbs w' = dbs w"

lemma exec_in_tx:
  assumes "in_tx w" and "exec q w = (r, w')"
  shows "(\<exists>v. same_tables w v \<and> q v = (r, w')) \<or> (same_tables w w' \<and> (\<exists>e. r = Inl e))"
proof (cases "hazards w")
  case Nil
  then show ?thesis using assms by (auto simp: same_tables_def)
next
  case (Cons h hs)
  have "same_tables w (w\<lparr>hazards := hs\<rparr>)" by (simp add: same_tables_def)
  then show ?thesis using assms Cons by (cases h) (auto simp: exec_def)
qed

lemma exec_tx_Inr:
  assumes "in_tx w" and "exec q w = (Inr r, w')"
  obtains v where "same_tables w v" "q v = (Inr r, w')"
  using exec_in_tx[OF assms] by blast

lemma commit_Inr: "commit_tx w = (Inr u, w') \<Longrightarrow> in_tx w \<Longrightarrow> dbs w' = dbs w \<and> \<not> in_tx w'"
  unfolding commit_tx_def by (erule exec_tx_Inr[rotated]) (auto simp: same_tables_def)

lemma begin_isolated:
  assumes "isolated w" and "begin_tx w = (r, w1)"
  shows "dbs w1 = dbs w \<and> isolated w1 \<and> (r = Inr () \<longrightarrow> in_tx w1)"
  by (rule exec_isolated[OF assms(1) assms(2)[unfolded begin_tx_def]]) (auto simp: isolated_def)

lemma exec_txt_tx_Inr:
  assumes "in_tx w" and "exec_txt ts q w = (Inr r, w')"
  obtains v where "same_tables w v" "q v = (Inr r, w')"
  using assms(2) unfolding exec_txt_def
  by (rule exec_tx_Inr[OF assms(1)]) (auto split: if_splits)

section \<open>Constraint violations\<close>

text \<open>
  \<^verbatim>\<open>store.ConstraintViolation\<close>: the class of a constraint error, by SQLSTATE.
  The message quotes the constraint's name.
\<close>

definition ConstraintViolation :: "db_error \<Rightarrow> (string \<times> detail) option" where
  "ConstraintViolation err =
     (case err of
        PgError code cname \<Rightarrow>
          if code = ''23503'' then
            Some (''FOREIGN_KEY_VIOLATION'', Msg ''referenced row does not exist'')
          else if code = ''23505'' then
            Some (''CONFLICT'',
              if cname \<noteq> [] then ConstraintMsg cname
              else Msg ''value conflicts with an existing record'')
          else if code = ''23514'' \<or> code = ''23502'' then
            Some (''VALIDATION_ERROR'',
              if cname \<noteq> [] then ConstraintMsg cname
              else Msg ''value violates a database constraint'')
          else None
      | _ \<Rightarrow> None)"

section \<open>Identifiers on the wire\<close>

text \<open>The \<^verbatim>\<open>parseUUID\<close> that every service package declares: scan, and
  refuse a null.\<close>

definition parseUUID :: "ext \<Rightarrow> string \<Rightarrow> detail + uuid" where
  "parseUUID x s = (case uuid_scan x s of Some (Some u) \<Rightarrow> Inr u | _ \<Rightarrow> Inl (InvalidId s))"

definition parseOptionalUUID :: "ext \<Rightarrow> string \<Rightarrow> detail + uuid option" where
  "parseOptionalUUID x s = (if s = [] then Inr None else map_sum id Some (parseUUID x s))"

section \<open>Time ranges\<close>

definition MaxReportRange :: duration where
  "MaxReportRange = 366 * 24 * hour"

definition ValidateRange :: "time \<Rightarrow> time \<Rightarrow> detail option" where
  "ValidateRange from to =
     (if to < from then Some (Msg ''from must not be after to'')
      else if MaxReportRange < time_sub to from then
        Some (Msg ''requested range exceeds the maximum allowed range of 366 days'')
      else None)"

lemma MaxReportRange_ok: "int64_ok MaxReportRange" "0 < MaxReportRange"
  by (simp_all add: MaxReportRange_def duration_units int64_ok_def int64_min_def int64_max_def)

text \<open>The saturating subtraction does not let an overlong range pass.\<close>

lemma ValidateRange_None:
  "ValidateRange from to = None \<longleftrightarrow> from \<le> to \<and> to - from \<le> MaxReportRange"
  by (auto simp: ValidateRange_def time_sub_def MaxReportRange_def duration_units
      int64_min_def int64_max_def)

end
