(* ===== verification/Json.thy ===== *)
theory Json
  imports Store
begin

text \<open>
  \<^verbatim>\<open>encoding/json\<close> as the request types use it.  The envelope of a request has
  been decoded when a component sees an item, so an item's \<^verbatim>\<open>json.RawMessage\<close>
  is absent or a syntactically valid value: a tree.  Modelled here is what
  \<^verbatim>\<open>Unmarshal\<close> does with that tree: the match of an object's keys with a
  struct's tags (the exact name, else the case-folded one), the last of two equal keys, the
  \<^verbatim>\<open>null\<close> that leaves a field alone and clears a pointer, and the type errors.
\<close>

datatype json =
    JNull
  | JBool bool
  | JNumber string
  | JString string
  | JArray "json list"
  | JObject "(string \<times> json) list"

text \<open>
  \<^verbatim>\<open>foldName\<close>: ASCII letters to one case, and the two other runes that fold
  to an ASCII letter (the Kelvin sign and the long s, in their UTF-8 bytes).
\<close>

definition fold_char :: "char \<Rightarrow> char" where
  "fold_char c = (let n = (of_char c :: nat) in if 65 \<le> n \<and> n \<le> 90 then char_of (n + 32) else c)"

fun fold_name :: "string \<Rightarrow> string" where
  "fold_name [] = []"
| "fold_name [c] = [fold_char c]"
| "fold_name [c, d] =
     (if c = CHR 0xC5 \<and> d = CHR 0xBF then [CHR ''s''] else fold_char c # fold_name [d])"
| "fold_name (c # d # e # cs) =
     (if c = CHR 0xE2 \<and> d = CHR 0x84 \<and> e = CHR 0xAA then CHR ''k'' # fold_name cs
      else if c = CHR 0xC5 \<and> d = CHR 0xBF then CHR ''s'' # fold_name (e # cs)
      else fold_char c # fold_name (d # e # cs))"

text \<open>The tag a key selects, of the struct's tags in order.\<close>

definition match_field :: "string list \<Rightarrow> string \<Rightarrow> string option" where
  "match_field ftags k =
     (if k \<in> set ftags then Some k else find (\<lambda>t. fold_name t = fold_name k) ftags)"

lemma match_field_exact [simp]: "k \<in> set ftags \<Longrightarrow> match_field ftags k = Some k"
  by (simp add: match_field_def)

text \<open>Decoding into a field: \<open>None\<close> is a type error, and \<^verbatim>\<open>null\<close>
  keeps the value of a string or a bool.\<close>

definition get_string :: "json \<Rightarrow> string \<Rightarrow> string option" where
  "get_string j old = (case j of JNull \<Rightarrow> Some old | JString s \<Rightarrow> Some s | _ \<Rightarrow> None)"

definition get_bool :: "json \<Rightarrow> bool \<Rightarrow> bool option" where
  "get_bool j old = (case j of JNull \<Rightarrow> Some old | JBool b \<Rightarrow> Some b | _ \<Rightarrow> None)"

definition get_string_ptr :: "json \<Rightarrow> string option option" where
  "get_string_ptr j = (case j of JNull \<Rightarrow> Some None | JString s \<Rightarrow> Some (Some s) | _ \<Rightarrow> None)"

definition get_int32_ptr :: "json \<Rightarrow> int option option" where
  "get_int32_ptr j =
     (case j of
        JNull \<Rightarrow> Some None
      | JNumber n \<Rightarrow>
          (case parse_int64 n of
             None \<Rightarrow> None
           | Some i \<Rightarrow> if - (2 ^ 31) \<le> i \<and> i < 2 ^ 31 then Some (Some i) else None)
      | _ \<Rightarrow> None)"

lemma get_int32_ptr_range: "get_int32_ptr j = Some (Some i) \<Longrightarrow> - (2 ^ 31) \<le> i \<and> i < 2 ^ 31"
  by (auto simp: get_int32_ptr_def split: json.splits option.splits if_splits)

text \<open>
  Decoding a whole struct: an object's members in order, each set by the struct's own
  \<open>set\<close>; a key that matches no tag is skipped; \<^verbatim>\<open>null\<close> leaves the
  zero struct; an absent message or another kind of value is an error.
\<close>

fun set_members :: "string list \<Rightarrow> (string \<Rightarrow> json \<Rightarrow> 'd \<Rightarrow> 'd option) \<Rightarrow> (string \<times> json) list \<Rightarrow> 'd \<Rightarrow> 'd option" where
  "set_members ftags set_f [] d = Some d"
| "set_members ftags set_f ((k, j) # ms) d =
     (case match_field ftags k of
        None \<Rightarrow> set_members ftags set_f ms d
      | Some t \<Rightarrow> (case set_f t j d of None \<Rightarrow> None | Some d' \<Rightarrow> set_members ftags set_f ms d'))"

definition unmarshal :: "string list \<Rightarrow> (string \<Rightarrow> json \<Rightarrow> 'd \<Rightarrow> 'd option) \<Rightarrow> 'd \<Rightarrow> json option \<Rightarrow> 'd option" where
  "unmarshal ftags set_f zero raw =
     (case raw of
        Some JNull \<Rightarrow> Some zero
      | Some (JObject ms) \<Rightarrow> set_members ftags set_f ms zero
      | _ \<Rightarrow> None)"

text \<open>A property of the fields that holds of the zero struct and that every setter keeps.\<close>

lemma set_members_inv:
  assumes "\<forall>t j d d'. P d \<and> set_f t j d = Some d' \<longrightarrow> P d'"
  shows "P d \<Longrightarrow> set_members ftags set_f ms d = Some d' \<Longrightarrow> P d'"
proof (induction ms arbitrary: d)
  case Nil
  then show ?case by simp
next
  case (Cons m ms)
  obtain k j where m: "m = (k, j)" by (cases m)
  show ?case
  proof (cases "match_field ftags k")
    case None
    then show ?thesis using Cons m by simp
  next
    case (Some t)
    then obtain e where e: "set_f t j d = Some e" "set_members ftags set_f ms e = Some d'"
      using Cons.prems m by (auto split: option.splits)
    then have "P e" using assms Cons.prems(1) by blast
    then show ?thesis using Cons.IH e(2) by blast
  qed
qed

lemma unmarshal_inv:
  assumes step: "\<forall>t j d d'. P d \<and> set_f t j d = Some d' \<longrightarrow> P d'"
    and zero: "P zero" and u: "unmarshal ftags set_f zero raw = Some d"
  shows "P d"
proof (cases "raw = Some JNull")
  case True
  then show ?thesis using u zero by (simp add: unmarshal_def)
next
  case False
  then obtain ms where "set_members ftags set_f ms zero = Some d"
    using u by (auto simp: unmarshal_def split: option.splits json.splits)
  then show ?thesis using set_members_inv[OF step zero] by blast
qed

end
