(* ===== verification/SyncStore.thy ===== *)
theory SyncStore
  imports Json
begin

text \<open>
  The queries of \<^verbatim>\<open>internal/store/storedb/sync.sql.go\<close> and the device
  lookup of \<^verbatim>\<open>devices.sql.go\<close>: the statements of the sync push, with the
  constraints and triggers of the tables they write (migrations 7, 9, 11, 12, 22 and 26).
\<close>

section \<open>Reads\<close>

definition GetDeviceByID :: "uuid \<Rightarrow> uuid \<Rightarrow> world \<Rightarrow> (db_error + device) \<times> world" where
  "GetDeviceByID i uid =
     exec (select_one devices (\<lambda>d. dev_id d = i \<and> dev_user_id d = uid \<and> dev_revoked_at d = None))"

definition GetAppByBundleID :: "string \<Rightarrow> string \<Rightarrow> world \<Rightarrow> (db_error + app) \<times> world" where
  "GetAppByBundleID bundleID platform =
     exec_txt [bundleID, platform]
       (select_one apps (\<lambda>a. app_bundle_id a = bundleID \<and> app_platform a = platform))"

definition GetUserAppSettingByUserAndApp :: "uuid \<Rightarrow> uuid \<Rightarrow> world \<Rightarrow> (db_error + user_app_setting) \<times> world" where
  "GetUserAppSettingByUserAndApp uid aid =
     exec (select_one user_app_settings (\<lambda>s. uas_user_id s = uid \<and> uas_app_id s = aid))"

definition GetProjectByIDForUser :: "uuid \<Rightarrow> uuid \<Rightarrow> world \<Rightarrow> (db_error + project) \<times> world" where
  "GetProjectByIDForUser i uid =
     exec (select_one projects (\<lambda>p. pr_id p = i \<and> pr_user_id p = uid))"

definition GetFocusSessionByID :: "uuid \<Rightarrow> world \<Rightarrow> (db_error + focus_session) \<times> world" where
  "GetFocusSessionByID i = exec (select_one focus_sessions (\<lambda>f. fs_id f = i))"

section \<open>Writes\<close>

text \<open>
  \<^verbatim>\<open>ON CONFLICT (bundle_id, platform) DO NOTHING\<close>: a second app under the
  same pair gives no row; a clash of the generated primary key is an error.
\<close>

definition CreateApp :: "string \<Rightarrow> string \<Rightarrow> string \<Rightarrow> world \<Rightarrow> (db_error + app) \<times> world" where
  "CreateApp bundleID platform name =
     exec_txt [bundleID, platform, name] (\<lambda>w0.
       case gen_random_uuid w0 of (i, w) \<Rightarrow>
         if \<exists>a\<in>set (apps (dbs w)). app_bundle_id a = bundleID \<and> app_platform a = platform then
           (Inl NoRows, w)
         else if app_exists (dbs w) i then (Inl (PgError ''23505'' ''apps_pkey''), w)
         else if \<not> index_fits (dbs w) [bundleID, platform] then (Inl (PgError ''54000'' ''''), w)
         else
           let row = \<lparr>app_id = i, app_bundle_id = bundleID, app_platform = platform,
                      app_name = name, app_default_category_id = None\<rparr>
           in (Inr row, w\<lparr>dbs := (dbs w)\<lparr>apps := apps (dbs w) @ [row]\<rparr>\<rparr>))"

record InsertActivityEventParams =
  ia_EventID :: uuid
  ia_UserID :: uuid
  ia_DeviceID :: uuid
  ia_StartedAt :: time
  ia_EndedAt :: time
  ia_Type :: string
  ia_Source :: string
  ia_Precision :: string
  ia_AppID :: "uuid option"
  ia_RawBundleID :: "string option"
  ia_WindowTitle :: "string option"
  ia_Url :: "string option"
  ia_CategoryID :: "uuid option"
  ia_ProjectID :: "uuid option"
  ia_Deleted :: bool

definition activity_types :: "string list" where
  "activity_types = [''app_active'', ''idle'', ''locked'', ''mobile_usage'', ''manual'']"

definition activity_sources :: "string list" where
  "activity_sources = [''desktop'', ''mobile'', ''manual'']"

definition activity_precisions :: "string list" where
  "activity_precisions = [''exact'', ''approximate'']"

text \<open>The idempotency key \<^verbatim>\<open>UNIQUE (user_id, event_id, started_at)\<close>.\<close>

definition event_key :: "activity_event \<Rightarrow> uuid \<times> uuid \<times> time" where
  "event_key e = (ae_user_id e, ae_event_id e, ae_started_at e)"

lemma event_key_tombstone [simp]:
  "event_key (e\<lparr>ae_deleted := b, ae_server_seq := s\<rparr>) = event_key e"
  by (simp add: event_key_def)

text \<open>The row the statement would store, with the generated \<^verbatim>\<open>duration_s\<close>.\<close>

definition event_row :: "InsertActivityEventParams \<Rightarrow> time \<Rightarrow> int \<Rightarrow> activity_event" where
  "event_row arg now seq =
     \<lparr>ae_event_id = ia_EventID arg, ae_user_id = ia_UserID arg, ae_device_id = ia_DeviceID arg,
      ae_started_at = pg_ts (ia_StartedAt arg), ae_ended_at = pg_ts (ia_EndedAt arg),
      ae_duration_s = epoch_s (pg_ts (ia_EndedAt arg) - pg_ts (ia_StartedAt arg)),
      ae_type = ia_Type arg, ae_source = ia_Source arg, ae_precision = ia_Precision arg,
      ae_app_id = ia_AppID arg, ae_raw_bundle_id = ia_RawBundleID arg,
      ae_window_title = ia_WindowTitle arg, ae_url = ia_Url arg,
      ae_category_id = ia_CategoryID arg, ae_project_id = ia_ProjectID arg,
      ae_deleted = ia_Deleted arg, ae_inserted_at = pg_ts now, ae_server_seq = seq\<rparr>"

text \<open>
  The row trigger draws its sequence number before the conflict is looked for; the generated
  column and the checks come before it too, and the foreign keys after the row is stored.
\<close>

definition InsertActivityEvent :: "InsertActivityEventParams \<Rightarrow> world \<Rightarrow> (db_error + activity_event) \<times> world" where
  "InsertActivityEvent arg =
     exec_txt ([ia_Type arg, ia_Source arg, ia_Precision arg] @ opt_text (ia_RawBundleID arg) @
               opt_text (ia_WindowTitle arg) @ opt_text (ia_Url arg)) (\<lambda>w0.
       case next_server_seq w0 of (seq, w) \<Rightarrow>
         let d = dbs w; row = event_row arg (pg_now w) seq in
         if \<not> int4_ok (ae_duration_s row) then (Inl (PgError ''22003'' ''''), w)
         else if ia_Type arg \<notin> set activity_types then
           (Inl (PgError ''23514'' ''activity_events_type_check''), w)
         else if ia_Source arg \<notin> set activity_sources then
           (Inl (PgError ''23514'' ''activity_events_source_check''), w)
         else if ia_Precision arg \<notin> set activity_precisions then
           (Inl (PgError ''23514'' ''activity_events_precision_check''), w)
         else if \<exists>e\<in>set (activity_events d). event_key e = event_key row then (Inl NoRows, w)
         else case fk_violation
                [(''activity_events_user_id_fkey'', user_exists d (ia_UserID arg)),
                 (''activity_events_device_id_fkey'', device_exists d (ia_DeviceID arg)),
                 (''activity_events_app_id_fkey'', fk_opt (app_exists d) (ia_AppID arg)),
                 (''activity_events_category_id_fkey'', fk_opt (category_exists d) (ia_CategoryID arg)),
                 (''activity_events_project_id_fkey'', fk_opt (project_exists d) (ia_ProjectID arg))] of
           Some c \<Rightarrow> (Inl (PgError ''23503'' c), w)
         | None \<Rightarrow>
             (Inr row,
              log_change (Some (ia_UserID arg)) ''activity_events'' (ia_EventID arg)
                (Some (ae_started_at row)) seq
                (w\<lparr>dbs := d\<lparr>activity_events := activity_events d @ [row]\<rparr>\<rparr>)))"

text \<open>At most one row matches the key, so one sequence number is drawn.\<close>

definition TombstoneActivityEvent :: "uuid \<Rightarrow> uuid \<Rightarrow> time \<Rightarrow> world \<Rightarrow> (db_error + activity_event) \<times> world" where
  "TombstoneActivityEvent uid eid startedAt =
     exec (\<lambda>w0.
       let hit = (\<lambda>e. event_key e = (uid, eid, pg_ts startedAt) \<and> \<not> ae_deleted e) in
       case filter hit (activity_events (dbs w0)) of
         [] \<Rightarrow> (Inl NoRows, w0)
       | e # _ \<Rightarrow>
           (case next_server_seq w0 of (seq, w) \<Rightarrow>
              let upd = (\<lambda>r. r\<lparr>ae_deleted := True, ae_server_seq := seq\<rparr>); d = dbs w
              in (Inr (upd e),
                  log_change (Some uid) ''activity_events'' eid (Some (pg_ts startedAt)) seq
                    (w\<lparr>dbs := d\<lparr>activity_events :=
                        map (\<lambda>r. if hit r then upd r else r) (activity_events d)\<rparr>\<rparr>))))"

record UpsertFocusSessionParams =
  up_ID :: uuid
  up_UserID :: uuid
  up_DeviceID :: uuid
  up_ProjectID :: "uuid option"
  up_Kind :: string
  up_PlannedDurationS :: "int option"
  up_StartedAt :: time
  up_EndedAt :: "time option"
  up_Status :: string
  up_Note :: "string option"
  up_UpdatedAt :: time
  up_DeletedAt :: "time option"

definition focus_kinds :: "string list" where
  "focus_kinds = [''focus'', ''break'', ''meeting'']"

definition focus_statuses :: "string list" where
  "focus_statuses = [''running'', ''completed'', ''abandoned'']"

definition upsert_insert :: "UpsertFocusSessionParams \<Rightarrow> time \<Rightarrow> int \<Rightarrow> focus_session" where
  "upsert_insert arg now seq =
     \<lparr>fs_id = up_ID arg, fs_user_id = up_UserID arg, fs_device_id = up_DeviceID arg,
      fs_project_id = up_ProjectID arg, fs_kind = up_Kind arg,
      fs_planned_duration_s = up_PlannedDurationS arg, fs_started_at = pg_ts (up_StartedAt arg),
      fs_ended_at = map_option pg_ts (up_EndedAt arg), fs_status = up_Status arg,
      fs_note = up_Note arg, fs_created_at = pg_ts now, fs_updated_at = pg_ts (up_UpdatedAt arg),
      fs_deleted_at = map_option pg_ts (up_DeletedAt arg), fs_server_seq = seq\<rparr>"

definition upsert_update :: "UpsertFocusSessionParams \<Rightarrow> int \<Rightarrow> focus_session \<Rightarrow> focus_session" where
  "upsert_update arg seq f =
     f\<lparr>fs_device_id := up_DeviceID arg, fs_project_id := up_ProjectID arg, fs_kind := up_Kind arg,
       fs_planned_duration_s := up_PlannedDurationS arg, fs_started_at := pg_ts (up_StartedAt arg),
       fs_ended_at := map_option pg_ts (up_EndedAt arg), fs_status := up_Status arg,
       fs_note := up_Note arg, fs_updated_at := pg_ts (up_UpdatedAt arg),
       fs_deleted_at := map_option pg_ts (up_DeletedAt arg), fs_server_seq := seq\<rparr>"

lemma upsert_update_keys [simp]:
  "fs_id (upsert_update arg seq f) = fs_id f"
  "fs_user_id (upsert_update arg seq f) = fs_user_id f"
  "fs_created_at (upsert_update arg seq f) = fs_created_at f"
  "fs_updated_at (upsert_update arg seq f) = pg_ts (up_UpdatedAt arg)"
  by (simp_all add: upsert_update_def)

definition focus_fks :: "db \<Rightarrow> UpsertFocusSessionParams \<Rightarrow> (string \<times> bool) list" where
  "focus_fks d arg =
     [(''focus_sessions_user_id_fkey'', user_exists d (up_UserID arg)),
      (''focus_sessions_device_id_fkey'', device_exists d (up_DeviceID arg)),
      (''focus_sessions_project_id_fkey'', fk_opt (project_exists d) (up_ProjectID arg))]"

text \<open>
  The conflicting row is updated only when it is the same user's and strictly older; the
  update draws a second sequence number.
\<close>

definition UpsertFocusSession :: "UpsertFocusSessionParams \<Rightarrow> world \<Rightarrow> (db_error + focus_session) \<times> world" where
  "UpsertFocusSession arg =
     exec_txt ([up_Kind arg, up_Status arg] @ opt_text (up_Note arg)) (\<lambda>w0.
       case next_server_seq w0 of (seq, w) \<Rightarrow>
         let d = dbs w;
             older = (\<lambda>f. fs_id f = up_ID arg \<and> fs_user_id f = up_UserID arg \<and>
                          fs_updated_at f < pg_ts (up_UpdatedAt arg)) in
         if up_Kind arg \<notin> set focus_kinds then
           (Inl (PgError ''23514'' ''focus_sessions_kind_check''), w)
         else if up_Status arg \<notin> set focus_statuses then
           (Inl (PgError ''23514'' ''focus_sessions_status_check''), w)
         else case find (\<lambda>f. fs_id f = up_ID arg) (focus_sessions d) of
           None \<Rightarrow>
             (case fk_violation (focus_fks d arg) of
                Some c \<Rightarrow> (Inl (PgError ''23503'' c), w)
              | None \<Rightarrow>
                  let row = upsert_insert arg (pg_now w) seq in
                  (Inr row,
                   log_change (Some (up_UserID arg)) ''focus_sessions'' (up_ID arg) None seq
                     (w\<lparr>dbs := d\<lparr>focus_sessions := focus_sessions d @ [row]\<rparr>\<rparr>)))
         | Some f \<Rightarrow>
             if older f then
               (case next_server_seq w of (seq2, w2) \<Rightarrow>
                  case fk_violation (focus_fks d arg) of
                    Some c \<Rightarrow> (Inl (PgError ''23503'' c), w2)
                  | None \<Rightarrow>
                      (Inr (upsert_update arg seq2 f),
                       log_change (Some (up_UserID arg)) ''focus_sessions'' (up_ID arg) None seq2
                         (w2\<lparr>dbs := d\<lparr>focus_sessions :=
                             map (\<lambda>r. if older r then upsert_update arg seq2 r else r)
                               (focus_sessions d)\<rparr>\<rparr>)))
             else (Inl NoRows, w))"

end
