(* ===== verification/Seq.thy ===== *)
theory Seq
  imports Store
begin

text \<open>
  Sequencing of fallible steps, and what a sequence of statements does to the tables: a frame
  is a reflexive and transitive relation of the tables before and after, and every statement
  that keeps a frame lets its callers keep it.
\<close>

section \<open>Sequencing\<close>

text \<open>The code's \<^verbatim>\<open>if err != nil\<close>: stop at an error, else go on.\<close>

definition andthen :: "('e + 'a) \<times> 'w \<Rightarrow> ('a \<Rightarrow> 'w \<Rightarrow> ('e + 'b) \<times> 'w) \<Rightarrow> ('e + 'b) \<times> 'w" where
  "andthen p k = (case p of (Inl e, w) \<Rightarrow> (Inl e, w) | (Inr a, w) \<Rightarrow> k a w)"

lemma andthen_simps [simp]: "andthen (Inl e, w) k = (Inl e, w)" "andthen (Inr a, w) k = k a w"
  by (simp_all add: andthen_def)

lemma andthen_Inr:
  "andthen p k = (Inr b, w') \<longleftrightarrow> (\<exists>a w. p = (Inr a, w) \<and> k a w = (Inr b, w'))"
  by (cases p; cases "fst p") (auto simp: andthen_def)

lemma andthen_cases:
  assumes "andthen p k = (r, w')"
  obtains (stop) e where "p = (Inl e, w')" "r = Inl e" | (go) a w where "p = (Inr a, w)" "k a w = (r, w')"
  using assms by (cases p; cases "fst p") (auto simp: andthen_def)

lemma andthen_Inl:
  "andthen p k = (Inl e, w') \<longleftrightarrow> p = (Inl e, w') \<or> (\<exists>a w. p = (Inr a, w) \<and> k a w = (Inl e, w'))"
  by (cases p; cases "fst p") (auto simp: andthen_def)

section \<open>Frames\<close>

text \<open>An operation run without other sessions, and its effect on the tables.\<close>

definition moves :: "(db \<Rightarrow> db \<Rightarrow> bool) \<Rightarrow> world \<Rightarrow> world \<Rightarrow> bool" where
  "moves R w w' \<longleftrightarrow> isolated w' \<and> R (dbs w) (dbs w')"

locale frame =
  fixes R :: "db \<Rightarrow> db \<Rightarrow> bool"
  assumes R_refl: "R d d"
    and R_trans: "R a b \<Longrightarrow> R b c \<Longrightarrow> R a c"
begin

lemma moves_refl: "isolated w \<Longrightarrow> moves R w w"
  by (simp add: moves_def R_refl)

lemma moves_trans: "moves R a b \<Longrightarrow> moves R b c \<Longrightarrow> moves R a c"
  using R_trans by (auto simp: moves_def)

text \<open>One statement: it is enough that its query keeps the frame and the hazards to come.\<close>

lemma exec_moves:
  assumes "isolated w" and "exec q w = (r, w')"
    and "\<And>v r v'. q v = (r, v') \<Longrightarrow> hazards v' = hazards v \<and> R (dbs v) (dbs v')"
  shows "moves R w w'"
proof -
  have d: "dbs (w\<lparr>hazards := hs\<rparr>) = dbs w" for hs by simp
  show ?thesis
    by (rule exec_isolated[OF assms(1,2)])
      (use assms(3) d R_refl in \<open>fastforce simp: moves_def isolated_def\<close>)+
qed

lemma exec_txt_moves:
  assumes "isolated w" and "exec_txt ts q w = (r, w')"
    and "\<And>v r v'. q v = (r, v') \<Longrightarrow> hazards v' = hazards v \<and> R (dbs v) (dbs v')"
  shows "moves R w w'"
  using assms(1) assms(2)[unfolded exec_txt_def]
  by (rule exec_moves) (auto simp: R_refl assms(3) split: if_splits)

lemma read_moves: "isolated w \<Longrightarrow> exec (select_one tab P) w = (r, w') \<Longrightarrow> moves R w w'"
  by (rule exec_moves) (auto simp: select_one_def R_refl)

lemma andthen_moves:
  assumes "isolated w" and "andthen p k = (r, w')"
    and "\<And>r1 w1. p = (r1, w1) \<Longrightarrow> moves R w w1"
    and "\<And>a w1. p = (Inr a, w1) \<Longrightarrow> isolated w1 \<Longrightarrow> k a w1 = (r, w') \<Longrightarrow> moves R w1 w'"
  shows "moves R w w'"
  using assms(2)
proof (cases rule: andthen_cases)
  case (stop e)
  then show ?thesis using assms(3) by blast
next
  case (go a w1)
  have m: "moves R w w1" using assms(3) go(1) by blast
  then show ?thesis using moves_trans[OF m] assms(4) go by (auto simp: moves_def)
qed

end

section \<open>Laws of statements\<close>

text \<open>
  A reflexive and transitive relation of the sessions before and after, for each user, that does
  not mind a hazard being drawn and asks nothing once another session interferes: a statement
  keeps it when its query does.
\<close>

locale statement_law =
  fixes P :: "uuid \<Rightarrow> world \<Rightarrow> world \<Rightarrow> bool"
  assumes P_refl: "P uid w w"
    and P_trans: "P uid a b \<Longrightarrow> P uid b c \<Longrightarrow> P uid a c"
    and P_drawn: "hazards w = h # hs \<Longrightarrow> P uid (w\<lparr>hazards := hs\<rparr>) w' \<Longrightarrow> P uid w w'"
    and P_other: "hazards w = Interfere f # hs \<Longrightarrow> P uid (w\<lparr>hazards := hs, dbs := f (dbs w)\<rparr>) w' \<Longrightarrow> P uid w w'"
begin

lemma P_exec:
  assumes "\<And>v. P uid v (snd (q v))" and "exec q w = (r, w')"
  shows "P uid w w'"
proof (cases "hazards w")
  case Nil
  then show ?thesis using assms(1)[of w] assms(2) by simp
next
  case (Cons h hs)
  note drawn = P_drawn[OF Cons, of uid w']
  show ?thesis
  proof (cases h)
    case Run
    then show ?thesis using drawn assms(1)[of "w\<lparr>hazards := hs\<rparr>"] assms(2) Cons by (simp add: exec_def)
  next
    case (Fail e)
    then show ?thesis using drawn assms(2) Cons P_refl by (simp add: exec_def)
  next
    case (Interfere f)
    then show ?thesis
      using drawn P_other[OF Cons[unfolded Interfere], of uid w'] assms(2) Cons
        assms(1)[of "w\<lparr>hazards := hs\<rparr>"] assms(1)[of "w\<lparr>hazards := hs, dbs := f (dbs w)\<rparr>"]
      by (cases "in_tx w") (simp_all add: exec_def)
  qed
qed

lemma P_exec_txt: "(\<And>v. P uid v (snd (q v))) \<Longrightarrow> exec_txt ts q w = (r, w') \<Longrightarrow> P uid w w'"
  unfolding exec_txt_def by (erule P_exec[rotated]) (simp add: P_refl split: if_splits)

lemma P_read: "exec (select_one tab Q) w = (r, w') \<Longrightarrow> P uid w w'"
  by (erule P_exec[rotated]) (simp add: select_one_def P_refl)

lemma P_andthen:
  assumes "andthen p k = (r, w')" and "\<And>r1 w1. p = (r1, w1) \<Longrightarrow> P uid w w1"
    and "\<And>a w1. k a w1 = (r, w') \<Longrightarrow> P uid w1 w'"
  shows "P uid w w'"
  using assms(1)
proof (cases rule: andthen_cases)
  case (stop e)
  then show ?thesis using assms(2) by blast
next
  case (go a w1)
  then show ?thesis using assms(2,3) P_trans by blast
qed

end

end
