(* ===== verification/SyncPush.thy ===== *)
theory SyncPush
  imports SyncStore Seq
begin

text \<open>
  The push half of the sync protocol: \<^verbatim>\<open>internal/sync/dto.go\<close> and
  \<^verbatim>\<open>internal/sync/service.go\<close>.  An item is validated, the app and the
  category are resolved, and one statement is run; the outcome is a per-item result or an error
  that aborts the batch.  The locale \<^verbatim>\<open>push_law\<close> carries a relation from the statements
  to the whole push.  The server clock is an argument that gives an instant for each index.
\<close>

section \<open>The wire types\<close>

record pushItem =
  EntityType :: string
  Data :: "json option"

record pushRequest =
  DeviceID :: string
  Items :: "pushItem list"

record activityEventData =
  ad_EventID :: string
  ad_StartedAt :: string
  ad_EndedAt :: string
  ad_AppBundleID :: string
  ad_WindowTitle :: "string option"
  ad_Precision :: string
  ad_Type :: "string option"
  ad_Deleted :: bool

definition activity_tags :: "string list" where
  "activity_tags = [''event_id'', ''started_at'', ''ended_at'', ''app_bundle_id'',
     ''window_title'', ''precision'', ''type'', ''deleted'']"

definition set_activity :: "string \<Rightarrow> json \<Rightarrow> activityEventData \<Rightarrow> activityEventData option" where
  "set_activity t j d =
     (if t = ''event_id'' then map_option (\<lambda>v. d\<lparr>ad_EventID := v\<rparr>) (get_string j (ad_EventID d))
      else if t = ''started_at'' then
        map_option (\<lambda>v. d\<lparr>ad_StartedAt := v\<rparr>) (get_string j (ad_StartedAt d))
      else if t = ''ended_at'' then
        map_option (\<lambda>v. d\<lparr>ad_EndedAt := v\<rparr>) (get_string j (ad_EndedAt d))
      else if t = ''app_bundle_id'' then
        map_option (\<lambda>v. d\<lparr>ad_AppBundleID := v\<rparr>) (get_string j (ad_AppBundleID d))
      else if t = ''window_title'' then
        map_option (\<lambda>v. d\<lparr>ad_WindowTitle := v\<rparr>) (get_string_ptr j)
      else if t = ''precision'' then
        map_option (\<lambda>v. d\<lparr>ad_Precision := v\<rparr>) (get_string j (ad_Precision d))
      else if t = ''type'' then map_option (\<lambda>v. d\<lparr>ad_Type := v\<rparr>) (get_string_ptr j)
      else map_option (\<lambda>v. d\<lparr>ad_Deleted := v\<rparr>) (get_bool j (ad_Deleted d)))"

definition unmarshal_activity :: "json option \<Rightarrow> activityEventData option" where
  "unmarshal_activity =
     unmarshal activity_tags set_activity
       \<lparr>ad_EventID = [], ad_StartedAt = [], ad_EndedAt = [], ad_AppBundleID = [],
        ad_WindowTitle = None, ad_Precision = [], ad_Type = None, ad_Deleted = False\<rparr>"

record focusSessionData =
  fd_ID :: string
  fd_UpdatedAt :: string
  fd_StartedAt :: string
  fd_EndedAt :: "string option"
  fd_ProjectID :: string
  fd_Kind :: string
  fd_Status :: string
  fd_PlannedDurationS :: "int option"
  fd_Note :: "string option"
  fd_Deleted :: bool

definition focus_tags :: "string list" where
  "focus_tags = [''id'', ''updated_at'', ''started_at'', ''ended_at'', ''project_id'', ''kind'',
     ''status'', ''planned_duration_s'', ''note'', ''deleted'']"

definition set_focus :: "string \<Rightarrow> json \<Rightarrow> focusSessionData \<Rightarrow> focusSessionData option" where
  "set_focus t j d =
     (if t = ''id'' then map_option (\<lambda>v. d\<lparr>fd_ID := v\<rparr>) (get_string j (fd_ID d))
      else if t = ''updated_at'' then
        map_option (\<lambda>v. d\<lparr>fd_UpdatedAt := v\<rparr>) (get_string j (fd_UpdatedAt d))
      else if t = ''started_at'' then
        map_option (\<lambda>v. d\<lparr>fd_StartedAt := v\<rparr>) (get_string j (fd_StartedAt d))
      else if t = ''ended_at'' then map_option (\<lambda>v. d\<lparr>fd_EndedAt := v\<rparr>) (get_string_ptr j)
      else if t = ''project_id'' then
        map_option (\<lambda>v. d\<lparr>fd_ProjectID := v\<rparr>) (get_string j (fd_ProjectID d))
      else if t = ''kind'' then map_option (\<lambda>v. d\<lparr>fd_Kind := v\<rparr>) (get_string j (fd_Kind d))
      else if t = ''status'' then
        map_option (\<lambda>v. d\<lparr>fd_Status := v\<rparr>) (get_string j (fd_Status d))
      else if t = ''planned_duration_s'' then
        map_option (\<lambda>v. d\<lparr>fd_PlannedDurationS := v\<rparr>) (get_int32_ptr j)
      else if t = ''note'' then map_option (\<lambda>v. d\<lparr>fd_Note := v\<rparr>) (get_string_ptr j)
      else map_option (\<lambda>v. d\<lparr>fd_Deleted := v\<rparr>) (get_bool j (fd_Deleted d)))"

definition unmarshal_focus :: "json option \<Rightarrow> focusSessionData option" where
  "unmarshal_focus =
     unmarshal focus_tags set_focus
       \<lparr>fd_ID = [], fd_UpdatedAt = [], fd_StartedAt = [], fd_EndedAt = None, fd_ProjectID = [],
        fd_Kind = [], fd_Status = [], fd_PlannedDurationS = None, fd_Note = None,
        fd_Deleted = False\<rparr>"

record pushResult =
  r_Index :: nat
  r_EntityType :: string
  r_EventID :: string
  r_ID :: string
  r_Status :: string
  r_ServerSeq :: "int option"
  r_Error :: "(string \<times> detail) option"

definition push_result :: "nat \<Rightarrow> string \<Rightarrow> string \<Rightarrow> pushResult" where
  "push_result index etype status =
     \<lparr>r_Index = index, r_EntityType = etype, r_EventID = [], r_ID = [], r_Status = status,
      r_ServerSeq = None, r_Error = None\<rparr>"

definition appliedActivityEvent :: "nat \<Rightarrow> string \<Rightarrow> pushResult" where
  "appliedActivityEvent index eventID =
     (push_result index ''activity_event'' ''applied'')\<lparr>r_EventID := eventID\<rparr>"

definition duplicateActivityEvent :: "nat \<Rightarrow> string \<Rightarrow> pushResult" where
  "duplicateActivityEvent index eventID =
     (push_result index ''activity_event'' ''duplicate'')\<lparr>r_EventID := eventID\<rparr>"

definition invalidActivityEvent :: "nat \<Rightarrow> string \<Rightarrow> string \<Rightarrow> detail \<Rightarrow> pushResult" where
  "invalidActivityEvent index eventID code message =
     (push_result index ''activity_event'' ''invalid'')
       \<lparr>r_EventID := eventID, r_Error := Some (code, message)\<rparr>"

definition appliedFocusSession :: "nat \<Rightarrow> string \<Rightarrow> int \<Rightarrow> pushResult" where
  "appliedFocusSession index i serverSeq =
     (push_result index ''focus_session'' ''applied'')\<lparr>r_ID := i, r_ServerSeq := Some serverSeq\<rparr>"

definition duplicateFocusSession :: "nat \<Rightarrow> string \<Rightarrow> pushResult" where
  "duplicateFocusSession index i =
     (push_result index ''focus_session'' ''duplicate'')\<lparr>r_ID := i\<rparr>"

definition invalidFocusSession :: "nat \<Rightarrow> string \<Rightarrow> string \<Rightarrow> detail \<Rightarrow> pushResult" where
  "invalidFocusSession index i code message =
     (push_result index ''focus_session'' ''invalid'')\<lparr>r_ID := i, r_Error := Some (code, message)\<rparr>"

definition invalidUnsupportedEntity :: "nat \<Rightarrow> string \<Rightarrow> pushResult" where
  "invalidUnsupportedEntity index entityType =
     (push_result index entityType ''invalid'')
       \<lparr>r_Error := Some (''UNSUPPORTED_ENTITY_TYPE'',
          Msg (''entity_type '' @ [CHR 0x22] @ entityType @ [CHR 0x22] @
               '' is not yet supported by this endpoint''))\<rparr>"

lemmas push_results =
  push_result_def appliedActivityEvent_def duplicateActivityEvent_def invalidActivityEvent_def
  appliedFocusSession_def duplicateFocusSession_def invalidFocusSession_def
  invalidUnsupportedEntity_def

section \<open>The service\<close>

datatype sync_error =
    ErrBatchTooLarge
  | ErrDeviceNotFound
  | ErrValidation detail
  | ErrCursorExpired
  | Internal db_error

definition maxBatchItems :: nat where "maxBatchItems = 500"

definition maxClockSkew :: duration where "maxClockSkew = 24 * hour"

definition defaultActivityType :: string where "defaultActivityType = ''manual''"

definition platformSource :: "string \<Rightarrow> string option" where
  "platformSource = [''macos'' \<mapsto> ''desktop'', ''ios'' \<mapsto> ''mobile'']"

definition constraintViolationResult :: "db_error \<Rightarrow> (string \<times> detail) option" where
  "constraintViolationResult err =
     (case err of
        PgError code cname \<Rightarrow>
          if code = ''23503'' then
            Some (''FOREIGN_KEY_VIOLATION'', Msg ''referenced row does not exist'')
          else if code = ''23514'' \<or> code = ''23505'' \<or> code = ''23502'' then
            Some (''VALIDATION_ERROR'',
              if cname \<noteq> [] then ConstraintMsg cname
              else Msg ''value violates a database constraint'')
          else None
      | _ \<Rightarrow> None)"

definition resolveApp :: "string \<Rightarrow> string \<Rightarrow> world \<Rightarrow> (db_error + app) \<times> world" where
  "resolveApp bundleID platform w =
     (case GetAppByBundleID bundleID platform w of
        (Inr a, w) \<Rightarrow> (Inr a, w)
      | (Inl err, w) \<Rightarrow>
          if err \<noteq> NoRows then (Inl err, w)
          else (case CreateApp bundleID platform bundleID w of
             (Inr created, w) \<Rightarrow> (Inr created, w)
           | (Inl err, w) \<Rightarrow>
               if err \<noteq> NoRows then (Inl err, w) else GetAppByBundleID bundleID platform w))"

definition resolveCategory :: "uuid \<Rightarrow> app \<Rightarrow> world \<Rightarrow> (db_error + uuid option) \<times> world" where
  "resolveCategory userID a w =
     (case GetUserAppSettingByUserAndApp userID (app_id a) w of
        (Inr setting, w) \<Rightarrow>
          (case uas_category_id setting of
             Some c \<Rightarrow> (Inr (Some c), w)
           | None \<Rightarrow> (Inr (app_default_category_id a), w))
      | (Inl err, w) \<Rightarrow>
          if err \<noteq> NoRows then (Inl err, w) else (Inr (app_default_category_id a), w))"

text \<open>The checks of an activity event, in the order of the code; the first failure's
  message, or the parsed id, instants and type.\<close>

definition checkActivityEvent :: "ext \<Rightarrow> activityEventData \<Rightarrow> string + (uuid \<times> time \<times> time \<times> string)" where
  "checkActivityEvent x data =
     (case parseUUID x (ad_EventID data) of
        Inl _ \<Rightarrow> Inl ''event_id must be a valid UUID''
      | Inr eventID \<Rightarrow>
     (case rfc3339_parse x (ad_StartedAt data) of
        None \<Rightarrow> Inl ''started_at must be an RFC3339 timestamp''
      | Some startedAt \<Rightarrow>
     (case rfc3339_parse x (ad_EndedAt data) of
        None \<Rightarrow> Inl ''ended_at must be an RFC3339 timestamp''
      | Some endedAt \<Rightarrow>
          if endedAt < startedAt then Inl ''ended_at precedes started_at''
          else if ad_AppBundleID data = [] then Inl ''app_bundle_id is required''
          else if ad_Precision data \<notin> set activity_precisions then
            Inl (''precision must be '' @ [CHR 0x22] @ ''exact'' @ [CHR 0x22] @ '' or '' @
                 [CHR 0x22] @ ''approximate'' @ [CHR 0x22])
          else case ad_Type data of
                 None \<Rightarrow> Inr (eventID, startedAt, endedAt, defaultActivityType)
               | Some t \<Rightarrow>
                   if t \<in> set activity_types then Inr (eventID, startedAt, endedAt, t)
                   else Inl ''type must be one of app_active, idle, locked, mobile_usage, manual'')))"

text \<open>The insert, and what its outcome means for the item.\<close>

definition storeActivityEvent :: "nat \<Rightarrow> string \<Rightarrow> InsertActivityEventParams \<Rightarrow> world \<Rightarrow> (sync_error + pushResult) \<times> world" where
  "storeActivityEvent index eventText arg w =
     (case InsertActivityEvent arg w of
        (Inr _, w) \<Rightarrow> (Inr (appliedActivityEvent index eventText), w)
      | (Inl err, w) \<Rightarrow>
          if err \<noteq> NoRows then
            (case constraintViolationResult err of
               Some (code, message) \<Rightarrow> (Inr (invalidActivityEvent index eventText code message), w)
             | None \<Rightarrow> (Inl (Internal err), w))
          else if ia_Deleted arg then
            (case TombstoneActivityEvent (ia_UserID arg) (ia_EventID arg) (ia_StartedAt arg) w of
               (Inl tombErr, w) \<Rightarrow>
                 if tombErr = NoRows then (Inr (duplicateActivityEvent index eventText), w)
                 else (Inl (Internal tombErr), w)
             | (Inr _, w) \<Rightarrow> (Inr (appliedActivityEvent index eventText), w))
          else (Inr (duplicateActivityEvent index eventText), w))"

definition applyActivityEvent :: "ext \<Rightarrow> uuid \<Rightarrow> uuid \<Rightarrow> string \<Rightarrow> string \<Rightarrow> nat \<Rightarrow> json option \<Rightarrow> world \<Rightarrow> (sync_error + pushResult) \<times> world" where
  "applyActivityEvent x userID deviceID platform source index raw w =
     (case unmarshal_activity raw of
        None \<Rightarrow>
          (Inr (invalidActivityEvent index [] ''VALIDATION_ERROR''
             (Msg ''malformed activity_event payload'')), w)
      | Some data \<Rightarrow>
     (case checkActivityEvent x data of
        Inl message \<Rightarrow>
          (Inr (invalidActivityEvent index (ad_EventID data) ''VALIDATION_ERROR'' (Msg message)), w)
      | Inr (eventID, startedAt, endedAt, eventType) \<Rightarrow>
     (case resolveApp (ad_AppBundleID data) platform w of
        (Inl e, w) \<Rightarrow> (Inl (Internal e), w)
      | (Inr a, w) \<Rightarrow>
     (case resolveCategory userID a w of
        (Inl e, w) \<Rightarrow> (Inl (Internal e), w)
      | (Inr categoryID, w) \<Rightarrow>
          storeActivityEvent index (ad_EventID data)
            \<lparr>ia_EventID = eventID, ia_UserID = userID, ia_DeviceID = deviceID,
             ia_StartedAt = startedAt, ia_EndedAt = endedAt, ia_Type = eventType,
             ia_Source = source, ia_Precision = ad_Precision data, ia_AppID = Some (app_id a),
             ia_RawBundleID = Some (ad_AppBundleID data), ia_WindowTitle = ad_WindowTitle data,
             ia_Url = None, ia_CategoryID = categoryID, ia_ProjectID = None,
             ia_Deleted = ad_Deleted data\<rparr> w))))"

text \<open>
  The focus session's checks before the project lookup, and after it.
\<close>

definition checkFocusSession :: "ext \<Rightarrow> focusSessionData \<Rightarrow> string + (uuid \<times> time \<times> time \<times> time option \<times> uuid option)" where
  "checkFocusSession x data =
     (case parseUUID x (fd_ID data) of
        Inl _ \<Rightarrow> Inl ''id must be a valid UUID''
      | Inr i \<Rightarrow>
     (case rfc3339_parse x (fd_UpdatedAt data) of
        None \<Rightarrow> Inl ''updated_at must be an RFC3339 timestamp''
      | Some updatedAt \<Rightarrow>
     (case rfc3339_parse x (fd_StartedAt data) of
        None \<Rightarrow> Inl ''started_at must be an RFC3339 timestamp''
      | Some startedAt \<Rightarrow>
     (case (case fd_EndedAt data of
              None \<Rightarrow> Some None
            | Some e \<Rightarrow> map_option Some (rfc3339_parse x e)) of
        None \<Rightarrow> Inl ''ended_at must be an RFC3339 timestamp''
      | Some endedAt \<Rightarrow>
     (case parseOptionalUUID x (fd_ProjectID data) of
        Inl _ \<Rightarrow> Inl ''project_id must be a valid UUID''
      | Inr projectID \<Rightarrow> Inr (i, updatedAt, startedAt, endedAt, projectID))))))"

text \<open>
  The clock-skew rule: an \<^verbatim>\<open>updated_at\<close> too far from the server's clock becomes
  the server's.
\<close>

definition clampUpdatedAt :: "time \<Rightarrow> time \<Rightarrow> time" where
  "clampUpdatedAt now updatedAt =
     (let skew = time_sub now updatedAt;
          skew = (if skew < 0 then dur_neg skew else skew)
      in if maxClockSkew < skew then now else updatedAt)"

definition storeFocusSession :: "nat \<Rightarrow> string \<Rightarrow> UpsertFocusSessionParams \<Rightarrow> world \<Rightarrow> (sync_error + pushResult) \<times> world" where
  "storeFocusSession index idText arg w =
     (case UpsertFocusSession arg w of
        (Inr upserted, w) \<Rightarrow> (Inr (appliedFocusSession index idText (fs_server_seq upserted)), w)
      | (Inl err, w) \<Rightarrow>
          if err \<noteq> NoRows then
            (case constraintViolationResult err of
               Some (code, message) \<Rightarrow> (Inr (invalidFocusSession index idText code message), w)
             | None \<Rightarrow> (Inl (Internal err), w))
          else
            (case GetFocusSessionByID (up_ID arg) w of
               (Inl getErr, w) \<Rightarrow> (Inl (Internal getErr), w)
             | (Inr existing, w) \<Rightarrow>
                 if fs_user_id existing \<noteq> up_UserID arg then
                   (Inr (invalidFocusSession index idText ''FORBIDDEN''
                      (Msg ''this id belongs to a different user'')), w)
                 else (Inr (duplicateFocusSession index idText), w)))"

definition applyFocusSession :: "ext \<Rightarrow> (nat \<Rightarrow> time) \<Rightarrow> uuid \<Rightarrow> uuid \<Rightarrow> nat \<Rightarrow> json option \<Rightarrow> world \<Rightarrow> (sync_error + pushResult) \<times> world" where
  "applyFocusSession x clock userID deviceID index raw w =
     (case unmarshal_focus raw of
        None \<Rightarrow>
          (Inr (invalidFocusSession index [] ''VALIDATION_ERROR''
             (Msg ''malformed focus_session payload'')), w)
      | Some data \<Rightarrow>
     (case checkFocusSession x data of
        Inl message \<Rightarrow>
          (Inr (invalidFocusSession index (fd_ID data) ''VALIDATION_ERROR'' (Msg message)), w)
      | Inr (i, updatedAt, startedAt, endedAt, projectID) \<Rightarrow>
     (case (case projectID of
              None \<Rightarrow> (Inr (), w)
            | Some p \<Rightarrow> (case GetProjectByIDForUser p userID w of (r, w) \<Rightarrow> (map_sum id (\<lambda>_. ()) r, w))) of
        (Inl getErr, w) \<Rightarrow>
          if getErr = NoRows then
            (Inr (invalidFocusSession index (fd_ID data) ''FOREIGN_KEY_VIOLATION''
               (Msg ''project_id does not reference an existing project owned by this user'')), w)
          else (Inl (Internal getErr), w)
      | (Inr _, w) \<Rightarrow>
          if fd_Kind data \<notin> set focus_kinds then
            (Inr (invalidFocusSession index (fd_ID data) ''VALIDATION_ERROR''
               (Msg ''kind must be one of focus, break, meeting'')), w)
          else if fd_Status data \<notin> set focus_statuses then
            (Inr (invalidFocusSession index (fd_ID data) ''VALIDATION_ERROR''
               (Msg ''status must be one of running, completed, abandoned'')), w)
          else
            let updatedAt = clampUpdatedAt (clock index) updatedAt in
            storeFocusSession index (fd_ID data)
              \<lparr>up_ID = i, up_UserID = userID, up_DeviceID = deviceID, up_ProjectID = projectID,
               up_Kind = fd_Kind data, up_PlannedDurationS = fd_PlannedDurationS data,
               up_StartedAt = startedAt, up_EndedAt = endedAt, up_Status = fd_Status data,
               up_Note = fd_Note data, up_UpdatedAt = updatedAt,
               up_DeletedAt = (if fd_Deleted data then Some updatedAt else None)\<rparr> w)))"

text \<open>One item, and the batch: the first error that is not a per-item result aborts it.\<close>

definition applyItem :: "ext \<Rightarrow> (nat \<Rightarrow> time) \<Rightarrow> uuid \<Rightarrow> uuid \<Rightarrow> string \<Rightarrow> string \<Rightarrow> nat \<Rightarrow> pushItem \<Rightarrow> world \<Rightarrow> (sync_error + pushResult) \<times> world" where
  "applyItem x clock userID deviceID platform source index item w =
     (if EntityType item = ''activity_event'' then
        applyActivityEvent x userID deviceID platform source index (Data item) w
      else if EntityType item = ''focus_session'' then
        applyFocusSession x clock userID deviceID index (Data item) w
      else (Inr (invalidUnsupportedEntity index (EntityType item)), w))"

fun applyItems :: "(nat \<Rightarrow> pushItem \<Rightarrow> world \<Rightarrow> (sync_error + pushResult) \<times> world) \<Rightarrow> nat \<Rightarrow> pushItem list \<Rightarrow> world \<Rightarrow> (sync_error + pushResult list) \<times> world" where
  "applyItems step index [] w = (Inr [], w)"
| "applyItems step index (item # items) w =
     (case step index item w of
        (Inl e, w) \<Rightarrow> (Inl e, w)
      | (Inr result, w) \<Rightarrow>
          (case applyItems step (Suc index) items w of
             (Inl e, w) \<Rightarrow> (Inl e, w)
           | (Inr results, w) \<Rightarrow> (Inr (result # results), w)))"

definition push :: "ext \<Rightarrow> (nat \<Rightarrow> time) \<Rightarrow> string \<Rightarrow> pushRequest \<Rightarrow> world \<Rightarrow> (sync_error + pushResult list) \<times> world" where
  "push x clock userID req w =
     (if maxBatchItems < length (Items req) then (Inl ErrBatchTooLarge, w)
      else case parseUUID x userID of
        Inl _ \<Rightarrow> (Inl (ErrValidation (Msg ''invalid authenticated user id'')), w)
      | Inr uid \<Rightarrow>
     (case parseUUID x (DeviceID req) of
        Inl _ \<Rightarrow> (Inl ErrDeviceNotFound, w)
      | Inr deviceID \<Rightarrow>
     (case GetDeviceByID deviceID uid w of
        (Inl err, w) \<Rightarrow>
          if err = NoRows then (Inl ErrDeviceNotFound, w) else (Inl (Internal err), w)
      | (Inr device, w) \<Rightarrow>
          let source = (case platformSource (dev_platform device) of None \<Rightarrow> ''manual'' | Some s \<Rightarrow> s)
          in applyItems (applyItem x clock uid deviceID (dev_platform device) source) 0 (Items req) w)))"

text \<open>
  What holds of every statement of a push holds of the push: a relation that the reads and the four
  writing statements keep.
\<close>

lemma select_one_world [simp]: "snd (select_one tab P w) = w"
  by (simp add: select_one_def)

lemma applyItems_inv:
  assumes "\<And>index item w r w'. step index item w = (r, w') \<Longrightarrow> P w w'"
    and "\<And>w. P w w" and "\<And>a b c. P a b \<Longrightarrow> P b c \<Longrightarrow> P a c"
  shows "applyItems step index items w = (r, w') \<Longrightarrow> P w w'"
proof (induction items arbitrary: index w r)
  case Nil
  then show ?case using assms(2) by simp
next
  case (Cons item items)
  then show ?case
    by (auto split: prod.splits sum.splits dest!: assms(1) intro: assms(3))
qed

locale push_law = statement_law +
  assumes P_CreateApp: "CreateApp bundle platform name w = (made, w') \<Longrightarrow> P uid w w'"
    and P_Insert: "InsertActivityEvent arg w = (event, w') \<Longrightarrow> P (ia_UserID arg) w w'"
    and P_Tombstone: "TombstoneActivityEvent uid eid st w = (event, w') \<Longrightarrow> P uid w w'"
    and P_Upsert: "UpsertFocusSession up w = (session, w') \<Longrightarrow> P (up_UserID up) w w'"
begin

lemma reads:
  "GetDeviceByID i u w = (rd, w') \<Longrightarrow> P uid w w'"
  "GetAppByBundleID b p w = (ra, w') \<Longrightarrow> P uid w w'"
  "GetUserAppSettingByUserAndApp u a w = (rs, w') \<Longrightarrow> P uid w w'"
  "GetProjectByIDForUser i u w = (rp, w') \<Longrightarrow> P uid w w'"
  "GetFocusSessionByID i w = (rf, w') \<Longrightarrow> P uid w w'"
  unfolding GetDeviceByID_def GetAppByBundleID_def GetUserAppSettingByUserAndApp_def
    GetProjectByIDForUser_def GetFocusSessionByID_def
  by (erule P_exec[rotated] P_exec_txt[rotated], simp add: P_refl)+

lemma resolveApp: "resolveApp b p w = (r, w') \<Longrightarrow> P uid w w'"
  by (auto simp: resolveApp_def P_refl split: prod.splits sum.splits if_splits
      dest!: reads(2)[of _ _ _ _ _ uid] P_CreateApp[of _ _ _ _ _ _ uid] intro: P_trans)

lemma resolveCategory: "resolveCategory u a w = (r, w') \<Longrightarrow> P uid w w'"
  by (auto simp: resolveCategory_def P_refl split: prod.splits sum.splits if_splits option.splits
      dest!: reads(3)[of _ _ _ _ _ uid])

lemma storeActivityEvent: "storeActivityEvent index t arg w = (r, w') \<Longrightarrow> P (ia_UserID arg) w w'"
  by (auto simp: storeActivityEvent_def P_refl split: prod.splits sum.splits if_splits option.splits
      dest!: P_Insert P_Tombstone intro: P_trans)

lemma applyActivityEvent: "applyActivityEvent x uid dev pl src index raw w = (r, w') \<Longrightarrow> P uid w w'"
  by (auto simp: applyActivityEvent_def P_refl split: prod.splits sum.splits option.splits
      dest!: resolveApp[of _ _ _ _ _ uid] resolveCategory[of _ _ _ _ _ uid]
        storeActivityEvent intro: P_trans)

lemma storeFocusSession: "storeFocusSession index t arg w = (r, w') \<Longrightarrow> P (up_UserID arg) w w'"
  by (auto simp: storeFocusSession_def P_refl split: prod.splits sum.splits if_splits option.splits
      dest!: P_Upsert reads(5)[of _ _ _ _ "up_UserID arg"] intro: P_trans)

lemma applyFocusSession: "applyFocusSession x clock uid dev index raw w = (r, w') \<Longrightarrow> P uid w w'"
  by (auto simp: applyFocusSession_def Let_def P_refl split: prod.splits sum.splits option.splits if_splits
      dest!: reads(4)[of _ _ _ _ _ uid] storeFocusSession intro: P_trans)

lemma applyItem: "applyItem x clock uid dev pl src index item w = (r, w') \<Longrightarrow> P uid w w'"
  by (auto simp: applyItem_def P_refl split: if_splits dest: applyActivityEvent applyFocusSession)

lemma applyItems: "applyItems (applyItem x clock uid dev pl src) index items w = (r, w') \<Longrightarrow> P uid w w'"
  by (rule applyItems_inv[where P = "P uid" and step = "applyItem x clock uid dev pl src"])
    (auto intro: applyItem P_refl P_trans)

lemma push: "parseUUID x userID = Inr uid \<Longrightarrow> push x clock userID req w = (r, w') \<Longrightarrow> P uid w w'"
  by (auto simp: push_def Let_def P_refl split: if_splits sum.splits prod.splits
      dest!: reads(1)[of _ _ _ _ _ uid] applyItems intro: P_trans)

end

section \<open>What a push may change\<close>

text \<open>
  An event is append-only: a stored one may only become deleted, once, and only its user's push
  does that.  A focus session of the pusher is replaced by a strictly newer version.
\<close>

definition event_step :: "uuid \<Rightarrow> activity_event \<Rightarrow> activity_event \<Rightarrow> bool" where
  "event_step uid e e' \<longleftrightarrow>
     e' = e \<or>
     (ae_user_id e = uid \<and> \<not> ae_deleted e \<and>
      (\<exists>seq. e' = e\<lparr>ae_deleted := True, ae_server_seq := seq\<rparr>))"

definition focus_step :: "uuid \<Rightarrow> focus_session \<Rightarrow> focus_session \<Rightarrow> bool" where
  "focus_step uid f f' \<longleftrightarrow>
     f' = f \<or>
     (fs_user_id f = uid \<and> fs_user_id f' = uid \<and> fs_id f' = fs_id f \<and>
      fs_created_at f' = fs_created_at f \<and> fs_updated_at f < fs_updated_at f')"

text \<open>The unique keys of the tables a push writes.\<close>

definition db_keys :: "db \<Rightarrow> bool" where
  "db_keys d \<longleftrightarrow>
     distinct (map event_key (activity_events d)) \<and> distinct (map fs_id (focus_sessions d)) \<and>
     distinct (map app_id (apps d)) \<and>
     distinct (map (\<lambda>a. (app_bundle_id a, app_platform a)) (apps d))"

definition push_frame :: "uuid \<Rightarrow> db \<Rightarrow> db \<Rightarrow> bool" where
  "push_frame uid d d' \<longleftrightarrow>
     d' = d\<lparr>apps := apps d', activity_events := activity_events d',
            focus_sessions := focus_sessions d', changelog := changelog d'\<rparr> \<and>
     (db_keys d \<longrightarrow> db_keys d') \<and>
     evolves (=) (\<lambda>a. app_default_category_id a = None) (apps d) (apps d') \<and>
     evolves (event_step uid) (\<lambda>e. ae_user_id e = uid) (activity_events d) (activity_events d') \<and>
     evolves (focus_step uid) (\<lambda>f. fs_user_id f = uid) (focus_sessions d) (focus_sessions d') \<and>
     evolves (=) (\<lambda>c. cl_user_id c = Some uid) (changelog d) (changelog d')"

definition pushes :: "uuid \<Rightarrow> world \<Rightarrow> world \<Rightarrow> bool" where
  "pushes uid w w' \<longleftrightarrow> (isolated w \<longrightarrow> isolated w' \<and> push_frame uid (dbs w) (dbs w'))"

lemma event_step_refl [simp]: "event_step uid e e"
  by (simp add: event_step_def)

lemma event_step_tombstone:
  "ae_user_id e = uid \<Longrightarrow> \<not> ae_deleted e
   \<Longrightarrow> event_step uid e (e\<lparr>ae_deleted := True, ae_server_seq := seq\<rparr>)"
  unfolding event_step_def by blast

lemma event_step_user: "event_step uid e e' \<Longrightarrow> ae_user_id e' = ae_user_id e"
  by (auto simp: event_step_def)

lemma event_step_deleted: "event_step uid a b \<Longrightarrow> b \<noteq> a \<Longrightarrow> ae_deleted b \<and> \<not> ae_deleted a"
  by (auto simp: event_step_def)

lemma event_step_trans: "event_step uid a b \<Longrightarrow> event_step uid b c \<Longrightarrow> event_step uid a c"
  using event_step_deleted[of uid a b] event_step_deleted[of uid b c]
  by (cases "b = a"; cases "c = b") simp_all

lemma focus_step_refl [simp]: "focus_step uid f f"
  by (simp add: focus_step_def)

lemma focus_step_trans: "focus_step uid a b \<Longrightarrow> focus_step uid b c \<Longrightarrow> focus_step uid a c"
  by (auto simp: focus_step_def)

lemma push_frame_refl [simp]: "push_frame uid d d"
  by (simp add: push_frame_def evolves_refl)

lemma push_frame_trans:
  assumes "push_frame uid a b" and "push_frame uid b c"
  shows "push_frame uid a c"
proof -
  have "evolves (=) (\<lambda>a. app_default_category_id a = None) (apps a) (apps c)"
    by (rule evolves_trans[where ys = "apps b"]) (use assms in \<open>auto simp: push_frame_def\<close>)
  moreover have "evolves (event_step uid) (\<lambda>e. ae_user_id e = uid) (activity_events a) (activity_events c)"
    by (rule evolves_trans[where ys = "activity_events b"])
      (use assms in \<open>auto simp: push_frame_def dest: event_step_trans event_step_user\<close>)
  moreover have "evolves (focus_step uid) (\<lambda>f. fs_user_id f = uid) (focus_sessions a) (focus_sessions c)"
    by (rule evolves_trans[where ys = "focus_sessions b"])
      (use assms in \<open>auto simp: push_frame_def focus_step_def\<close>)
  moreover have "evolves (=) (\<lambda>c. cl_user_id c = Some uid) (changelog a) (changelog c)"
    by (rule evolves_trans[where ys = "changelog b"]) (use assms in \<open>auto simp: push_frame_def\<close>)
  moreover have "c = a\<lparr>apps := apps c, activity_events := activity_events c,
            focus_sessions := focus_sessions c, changelog := changelog c\<rparr>"
  proof -
    have "b = a\<lparr>apps := apps b, activity_events := activity_events b,
            focus_sessions := focus_sessions b, changelog := changelog b\<rparr>"
      and "c = b\<lparr>apps := apps c, activity_events := activity_events c,
            focus_sessions := focus_sessions c, changelog := changelog c\<rparr>"
      using assms by (simp_all add: push_frame_def)
    then show ?thesis by (cases a; cases b; cases c) simp
  qed
  ultimately show ?thesis using assms by (simp add: push_frame_def)
qed

lemma pushes_refl [simp]: "pushes uid w w"
  by (simp add: pushes_def)

lemma pushes_trans: "pushes uid a b \<Longrightarrow> pushes uid b c \<Longrightarrow> pushes uid a c"
  by (auto simp: pushes_def intro: push_frame_trans)

text \<open>A statement frames when its query does.\<close>

lemma exec_pushes:
  assumes q: "\<And>w. pushes uid w (snd (q w))" and run: "exec q w = (r, w')"
  shows "pushes uid w w'"
  unfolding pushes_def
proof
  assume "isolated w"
  from this run show "isolated w' \<and> push_frame uid (dbs w) (dbs w')"
  proof (cases rule: exec_isolated)
    case (ran hs)
    then show ?thesis using q[of "w\<lparr>hazards := hs\<rparr>"] by (simp add: pushes_def)
  next
    case (failed e hs)
    then show ?thesis by simp
  qed
qed

lemma exec_txt_pushes:
  assumes "\<And>w. pushes uid w (snd (q w))"
  shows "exec_txt ts q w = (r, w') \<Longrightarrow> pushes uid w w'"
  unfolding exec_txt_def by (erule exec_pushes[rotated]) (simp add: assms split: if_splits)

lemma pushesI:
  "hazards w' = hazards w \<Longrightarrow> push_frame uid (dbs w) (dbs w') \<Longrightarrow> pushes uid w w'"
  by (simp add: pushes_def isolated_def)

lemma log_change_pushes: "pushes uid w (log_change (Some uid) et eid st seq w)"
  by (rule pushesI) (simp_all add: log_change_def push_frame_def evolves_refl evolves_append db_keys_def)

lemma CreateApp_pushes: "CreateApp b p n w = (r, w') \<Longrightarrow> pushes uid w w'"
  unfolding CreateApp_def
  by (erule exec_txt_pushes[rotated])
    (auto simp: gen_random_uuid_def Let_def push_frame_def evolves_refl evolves_append db_keys_def
      app_exists_def intro!: pushesI)

lemma InsertActivityEvent_pushes:
  assumes "ia_UserID arg = uid" and "InsertActivityEvent arg w = (r, w')"
  shows "pushes uid w w'"
  using assms(2) unfolding InsertActivityEvent_def
proof (rule exec_txt_pushes[rotated], goal_cases)
  case (1 w)
  have "pushes uid w (w\<lparr>server_seq_global := s, dbs := (dbs w)\<lparr>activity_events :=
      activity_events (dbs w) @ [event_row arg now seq]\<rparr>\<rparr>)"
    if "\<forall>e\<in>set (activity_events (dbs w)). event_key e \<noteq> event_key (event_row arg now seq)" for s now seq
    using that
    by (intro pushesI) (auto simp: push_frame_def evolves_refl db_keys_def assms(1) event_row_def intro!: evolves_append)
  moreover have "pushes uid w (w\<lparr>server_seq_global := s\<rparr>)" for s
    by (rule pushesI) simp_all
  ultimately show ?case
    by (auto simp: next_server_seq_def Let_def assms(1) split: option.splits
        intro: pushes_trans[OF _ log_change_pushes])
qed

lemma TombstoneActivityEvent_pushes:
  "TombstoneActivityEvent uid eid st w = (r, w') \<Longrightarrow> pushes uid w w'"
  unfolding TombstoneActivityEvent_def
proof (erule exec_pushes[rotated], goal_cases)
  case (1 w)
  have "pushes uid w (w\<lparr>server_seq_global := s, dbs := (dbs w)\<lparr>activity_events :=
      map (\<lambda>r. if event_key r = (uid, eid, t) \<and> \<not> ae_deleted r
               then r\<lparr>ae_deleted := True, ae_server_seq := seq\<rparr> else r)
        (activity_events (dbs w))\<rparr>\<rparr>)" for s t seq
    by (rule pushesI)
      (auto simp: push_frame_def evolves_refl db_keys_def map_update_keys
        simp del: map_map intro!: evolves_map event_step_tombstone, simp add: event_key_def)
  then show ?case
    by (auto simp: next_server_seq_def Let_def split: list.splits
        intro: pushes_trans[OF _ log_change_pushes])
qed

lemma UpsertFocusSession_pushes:
  assumes "up_UserID arg = uid" and "UpsertFocusSession arg w = (r, w')"
  shows "pushes uid w w'"
  using assms(2) unfolding UpsertFocusSession_def
proof (rule exec_txt_pushes[rotated], goal_cases)
  case (1 w)
  have "pushes uid w (w\<lparr>server_seq_global := s, dbs := (dbs w)\<lparr>focus_sessions :=
      focus_sessions (dbs w) @ [upsert_insert arg now seq]\<rparr>\<rparr>)"
    if "find (\<lambda>f. fs_id f = up_ID arg) (focus_sessions (dbs w)) = None" for s now seq
    using that
    by (intro pushesI) (auto simp: push_frame_def evolves_refl upsert_insert_def assms(1) db_keys_def
        find_None_iff intro!: evolves_append)
  moreover have "pushes uid w (w\<lparr>server_seq_global := s, dbs := (dbs w)\<lparr>focus_sessions :=
      map (\<lambda>r. if fs_id r = up_ID arg \<and> fs_user_id r = uid \<and> fs_updated_at r < pg_ts (up_UpdatedAt arg)
               then upsert_update arg seq r else r) (focus_sessions (dbs w))\<rparr>\<rparr>)" for s seq
    by (rule pushesI)
      (auto simp: push_frame_def evolves_refl focus_step_def db_keys_def map_update_keys
        simp del: map_map intro!: evolves_map)
  moreover have "pushes uid w (w\<lparr>server_seq_global := s\<rparr>)" for s
    by (rule pushesI) simp_all
  ultimately show ?case
    by (auto simp: next_server_seq_def Let_def assms(1) split: option.splits
        intro: pushes_trans[OF _ log_change_pushes])
qed

text \<open>Hence one item, a batch and the whole request.\<close>

interpretation frame_law: statement_law pushes
proof unfold_locales
  show "pushes uid a b \<Longrightarrow> pushes uid b c \<Longrightarrow> pushes uid a c" for uid a b c by (rule pushes_trans)
qed (auto simp: pushes_def isolated_def)

interpretation framed: push_law pushes
  by unfold_locales
    (simp_all add: CreateApp_pushes InsertActivityEvent_pushes TombstoneActivityEvent_pushes UpsertFocusSession_pushes)

end
