(* ===== verification/Sample.thy ===== *)
theory Sample
  imports Store
begin

text \<open>
  Concrete sessions for the worked instances of the theorems: a codec of identifiers and
  instants that reads decimal numbers, an empty database and a session over a database, with
  the identifiers the random source gives counted from 1000.
\<close>

definition sample_ext :: ext where
  "sample_ext =
     \<lparr>uuid_scan = (\<lambda>s. if s = [] then Some None else map_option (\<lambda>n. Some (of_nat n)) (parse_digits 0 s)),
      uuid_string = (\<lambda>u. format_nat (unat u)),
      rfc3339_parse = (\<lambda>s. map_option (\<lambda>n. int n * 10 ^ 9) (parse_digits 0 s)),
      rfc3339_format = (\<lambda>t. format_int (t div 10 ^ 9))\<rparr>"

definition empty_db :: db where
  "empty_db =
     \<lparr>users = [], devices = [], refresh_tokens = [], apps = [], user_app_settings = [],
      categories = [], projects = [], tags = [], activity_events = [], focus_sessions = [],
      changelog = [], horizon = \<lparr>hz_xid8 = 0, hz_server_seq = 0\<rparr>,
      index_fits = (\<lambda>ks. length (concat ks) \<le> 2600)\<rparr>"

definition session :: "db \<Rightarrow> world" where
  "session d =
     \<lparr>dbs = d, server_seq_global = 0, changelog_id_seq = 0, next_xid = 1, inflight = [],
      pg_now = 1000 * 10 ^ 9, rng = (\<lambda>n. of_nat (1000 + n)), rng_pos = 0, hazards = [],
      in_tx = False\<rparr>"

definition sample_user :: "uuid \<Rightarrow> string \<Rightarrow> user" where
  "sample_user i role =
     \<lparr>us_id = i, us_email = None, us_password_hash = None, us_apple_user_id = None,
      us_display_name = None, us_role = role, us_timezone = None, us_created_at = 0,
      us_updated_at = 0, us_deleted_at = None, us_server_seq = 0,
      us_failed_login_attempts = 0, us_lockout_count = 0, us_locked_until = None\<rparr>"

definition sample_device :: "uuid \<Rightarrow> uuid \<Rightarrow> device" where
  "sample_device i u =
     \<lparr>dev_id = i, dev_user_id = u, dev_platform = ''macos'', dev_name = ''mac'',
      dev_model = [], dev_os_version = [], dev_app_version = [], dev_last_seen_at = 0,
      dev_created_at = 0, dev_revoked_at = None\<rparr>"

text \<open>Two users, each with one device.\<close>

definition sample_db :: db where
  "sample_db =
     empty_db\<lparr>users := [sample_user 1 ''user'', sample_user 2 ''user''],
              devices := [sample_device 11 1, sample_device 12 2]\<rparr>"

lemmas sample_defs =
  sample_ext_def empty_db_def session_def sample_user_def sample_device_def sample_db_def

lemma session_quiet [simp]: "quiet (session d)" "isolated (session d)" "hazards (session d) = []"
  "dbs (session d) = d"
  by (simp_all add: quiet_def isolated_def session_def)

text \<open>Sessions over the first user's events.\<close>

definition tracked_event :: "uuid \<Rightarrow> uuid \<Rightarrow> uuid \<Rightarrow> time \<Rightarrow> time \<Rightarrow> bool \<Rightarrow> activity_event" where
  "tracked_event i uid dev s e del =
     \<lparr>ae_event_id = i, ae_user_id = uid, ae_device_id = dev, ae_started_at = s, ae_ended_at = e,
      ae_duration_s = epoch_s (e - s), ae_type = ''app_active'', ae_source = ''desktop'', ae_precision = ''exact'',
      ae_app_id = None, ae_raw_bundle_id = None, ae_window_title = None, ae_url = None, ae_category_id = None,
      ae_project_id = None, ae_deleted = del, ae_inserted_at = 0, ae_server_seq = 1\<rparr>"

definition events_session :: "activity_event list \<Rightarrow> world" where
  "events_session evs = session (sample_db\<lparr>activity_events := evs\<rparr>)"

lemma events_session_simps [simp]:
  "hazards (events_session evs) = []" "quiet (events_session evs)"
  "dbs (events_session evs) = sample_db\<lparr>activity_events := evs\<rparr>"
  by (simp_all add: events_session_def)

lemma parse_one [simp]: "parseUUID sample_ext ''1'' = Inr (1 :: uuid)"
  by code_simp

end
