(* ===== verification/FocusLww.thy ===== *)
theory FocusLww
  imports SyncPush Sample
begin

text \<open>
  Focus sessions as last-writer-wins registers: the abstract effect of a pushed version, the
  refinement that the upsert statement implements it, convergence of two devices that push in
  either order, and the clock-skew rule.
\<close>

section \<open>The abstract register\<close>

text \<open>A stored version without its sequence number: what clients compare.\<close>

definition version :: "focus_session \<Rightarrow> focus_session" where
  "version f = f\<lparr>fs_server_seq := 0\<rparr>"

definition lww_write :: "time \<Rightarrow> UpsertFocusSessionParams \<Rightarrow> focus_session list \<Rightarrow> focus_session list" where
  "lww_write now arg fs =
     (if \<exists>f\<in>set fs. fs_id f = up_ID arg then
        map (\<lambda>f. if fs_id f = up_ID arg \<and> fs_user_id f = up_UserID arg \<and>
                    fs_updated_at f < pg_ts (up_UpdatedAt arg)
                 then upsert_update arg 0 f else f) fs
      else fs @ [upsert_insert arg now 0])"

text \<open>The parameters pass the table's checks.\<close>

definition upsert_ok :: "db \<Rightarrow> UpsertFocusSessionParams \<Rightarrow> bool" where
  "upsert_ok d arg \<longleftrightarrow>
     list_all text_ok (opt_text (up_Note arg)) \<and> up_Kind arg \<in> set focus_kinds \<and>
     up_Status arg \<in> set focus_statuses \<and> list_all snd (focus_fks d arg)"

lemma upsert_texts: "upsert_ok d arg \<Longrightarrow> text_ok (up_Kind arg) \<and> text_ok (up_Status arg)"
  by (auto simp: upsert_ok_def focus_kinds_def focus_statuses_def text_ok_def)

lemma version_update [simp]: "version (upsert_update arg s f) = upsert_update arg 0 (version f)"
  by (simp add: version_def upsert_update_def)

lemma version_insert [simp]: "version (upsert_insert arg now s) = upsert_insert arg now 0"
  by (simp add: version_def upsert_insert_def)

lemma version_sel [simp]:
  "fs_id (version f) = fs_id f" "fs_user_id (version f) = fs_user_id f"
  "fs_updated_at (version f) = fs_updated_at f"
  by (simp_all add: version_def)

lemma version_map_update:
  "map version (map (\<lambda>f. if P f then upsert_update arg s f else f) fs)
   = map (\<lambda>f. if P f then upsert_update arg 0 (version f) else version f) fs"
  by simp

lemma upsert_ok_focus: "upsert_ok (d\<lparr>focus_sessions := fs, changelog := cl\<rparr>) arg = upsert_ok d arg"
  by (simp add: upsert_ok_def focus_fks_def user_exists_def device_exists_def project_exists_def[abs_def])

text \<open>What one statement does to the whole session.\<close>

lemma Upsert_run:
  assumes q: "quiet w" and ok: "upsert_ok (dbs w) arg"
    and run: "UpsertFocusSession arg w = (r, w')"
    and ids: "distinct (map fs_id (focus_sessions (dbs w)))"
  shows "quiet w' \<and> pg_now w' = pg_now w \<and>
     map version (focus_sessions (dbs w')) = lww_write (pg_now w) arg (map version (focus_sessions (dbs w))) \<and>
     (\<exists>cl. dbs w' = (dbs w)\<lparr>focus_sessions := focus_sessions (dbs w'), changelog := cl\<rparr>)"
proof -
  let ?fs = "focus_sessions (dbs w)"
  have fk: "fk_violation (focus_fks (dbs w) arg) = None"
    using ok by (simp add: fk_violation_None upsert_ok_def)
  have txts: "list_all text_ok ([up_Kind arg, up_Status arg] @ opt_text (up_Note arg))"
    using upsert_texts[OF ok] ok by (simp add: upsert_ok_def)
  have self: "d = d\<lparr>focus_sessions := focus_sessions d, changelog := changelog d\<rparr>" for d :: db by simp
  show ?thesis
  proof (cases "find (\<lambda>f. fs_id f = up_ID arg) ?fs")
    case None
    then have no: "\<not> (\<exists>f\<in>set ?fs. fs_id f = up_ID arg)" by (simp add: find_None_iff)
    show ?thesis
      using run None no q ok fk txts
      by (auto simp: UpsertFocusSession_def quiet_def next_server_seq_def Let_def upsert_ok_def
          log_change_def lww_write_def)
  next
    case (Some f)
    then have f: "f \<in> set ?fs" "fs_id f = up_ID arg"
      by (auto simp: find_Some_iff)
    let ?old = "\<lambda>f. fs_id f = up_ID arg \<and> fs_user_id f = up_UserID arg \<and>
                    fs_updated_at f < pg_ts (up_UpdatedAt arg)"
    have lww: "lww_write (pg_now w) arg (map version ?fs)
        = map (\<lambda>f. if ?old f then upsert_update arg 0 (version f) else version f) ?fs"
      using f by (auto simp: lww_write_def)
    show ?thesis
    proof (cases "?old f")
      case True
      then show ?thesis
        using run Some q ok fk txts lww
        by (auto simp: UpsertFocusSession_def quiet_def next_server_seq_def Let_def upsert_ok_def
            log_change_def)
    next
      case False
      have "g = f" if "g \<in> set ?fs" "fs_id g = up_ID arg" for g
        using ids f that by (metis distinct_map inj_onD)
      then have "\<not> ?old g" if "g \<in> set ?fs" for g using False that by blast
      then have "lww_write (pg_now w) arg (map version ?fs) = map version ?fs"
        unfolding lww by (intro map_cong) auto
      moreover have "r = Inl NoRows" "w' = w\<lparr>server_seq_global := server_seq_global w + 1\<rparr>"
        using run Some False q ok fk txts
        by (auto simp: UpsertFocusSession_def quiet_def next_server_seq_def Let_def upsert_ok_def)
      ultimately show ?thesis using q
        by (auto simp: quiet_def intro: exI[of _ "changelog (dbs w)"])
    qed
  qed
qed


section \<open>Properties\<close>

lemma lww_write_ids:
  "distinct (map fs_id fs) \<Longrightarrow> distinct (map fs_id (lww_write now arg fs))"
  by (auto simp: lww_write_def map_update_keys upsert_insert_def simp del: map_map)

lemma upsert_update_twice: "upsert_update a 0 (upsert_update b 0 f) = upsert_update a 0 f"
  by (simp add: upsert_update_def)

lemma upsert_update_insert:
  "up_ID a = up_ID b \<Longrightarrow> up_UserID a = up_UserID b \<Longrightarrow> upsert_update a 0 (upsert_insert b now 0) = upsert_insert a now 0"
  by (simp add: upsert_update_def upsert_insert_def)

lemma upsert_insert_sel [simp]:
  "fs_id (upsert_insert a now s) = up_ID a" "fs_user_id (upsert_insert a now s) = up_UserID a"
  "fs_updated_at (upsert_insert a now s) = pg_ts (up_UpdatedAt a)"
  by (simp_all add: upsert_insert_def)

lemma lww_write_commute:
  assumes "up_ID a = up_ID b" "up_UserID a = up_UserID b"
    and "pg_ts (up_UpdatedAt a) \<noteq> pg_ts (up_UpdatedAt b)"
  shows "lww_write now b (lww_write now a fs) = lww_write now a (lww_write now b fs)"
proof (cases "\<exists>f\<in>set fs. fs_id f = up_ID b")
  case True
  have map_ids: "(\<exists>f\<in>set (map (\<lambda>f. if P f then upsert_update c 0 f else f) fs). fs_id f = up_ID b)" for P c
  proof -
    obtain f where f: "f \<in> set fs" "fs_id f = up_ID b" using True by blast
    show ?thesis
      by (rule bexI[of _ "if P f then upsert_update c 0 f else f"]) (use f in auto)
  qed
  show ?thesis
    using True map_ids assms
    by (auto simp: lww_write_def upsert_update_twice simp del: set_map bex_simps)
next
  case False
  have none: "map (\<lambda>f. if fs_id f = up_ID b \<and> P f then g f else f) fs = fs" for P g
    using False by (intro map_idI) auto
  have "lww_write now a fs = fs @ [upsert_insert a now 0]" "lww_write now b fs = fs @ [upsert_insert b now 0]"
    using False assms(1) by (auto simp: lww_write_def)
  then show ?thesis
    using assms by (auto simp: lww_write_def none upsert_update_insert)
qed

text \<open>C9: convergence.  Two versions of one session, pushed by devices of the same user with
  different timestamps, leave the same stored versions whichever arrives first.\<close>

theorem upsert_order_irrelevant:
  assumes "quiet w" and "upsert_ok (dbs w) a" and "upsert_ok (dbs w) b"
    and "distinct (map fs_id (focus_sessions (dbs w)))"
    and "up_ID a = up_ID b" "up_UserID a = up_UserID b"
    and "pg_ts (up_UpdatedAt a) \<noteq> pg_ts (up_UpdatedAt b)"
    and "UpsertFocusSession a w = (r1, wa)" "UpsertFocusSession b wa = (r2, wab)"
    and "UpsertFocusSession b w = (r3, wb)" "UpsertFocusSession a wb = (r4, wba)"
  shows "map version (focus_sessions (dbs wab)) = map version (focus_sessions (dbs wba))"
proof -
  have ids_version: "map fs_id (map version fs) = map fs_id fs" for fs by simp
  note A = Upsert_run[OF assms(1,2,8,4)] and B = Upsert_run[OF assms(1,3,10,4)]
  have ok: "upsert_ok (dbs wa) b" "upsert_ok (dbs wb) a"
    using A B assms(2,3) upsert_ok_focus by metis+
  have ids: "distinct (map fs_id (focus_sessions (dbs wa)))" "distinct (map fs_id (focus_sessions (dbs wb)))"
    using A B lww_write_ids[of "map version (focus_sessions (dbs w))"] assms(4) ids_version by metis+
  note AB = Upsert_run[OF _ ok(1) assms(9) ids(1)] and BA = Upsert_run[OF _ ok(2) assms(11) ids(2)]
  show ?thesis using A B AB BA lww_write_commute[OF assms(5-7)] by simp
qed

section \<open>The register a client knows\<close>

text \<open>What clients know of a session: whose it is and the fields they send.\<close>

record register =
  rg_Owner :: uuid
  rg_Device :: uuid
  rg_Project :: "uuid option"
  rg_Kind :: string
  rg_Planned :: "int option"
  rg_Started :: time
  rg_Ended :: "time option"
  rg_Status :: string
  rg_Note :: "string option"
  rg_Updated :: time
  rg_Deleted :: "time option"

definition stored :: "focus_session \<Rightarrow> register" where
  "stored f =
     \<lparr>rg_Owner = fs_user_id f, rg_Device = fs_device_id f, rg_Project = fs_project_id f, rg_Kind = fs_kind f,
      rg_Planned = fs_planned_duration_s f, rg_Started = fs_started_at f, rg_Ended = fs_ended_at f, rg_Status = fs_status f,
      rg_Note = fs_note f, rg_Updated = fs_updated_at f, rg_Deleted = fs_deleted_at f\<rparr>"

definition pushed :: "UpsertFocusSessionParams \<Rightarrow> register" where
  "pushed a =
     \<lparr>rg_Owner = up_UserID a, rg_Device = up_DeviceID a, rg_Project = up_ProjectID a, rg_Kind = up_Kind a,
      rg_Planned = up_PlannedDurationS a, rg_Started = pg_ts (up_StartedAt a), rg_Ended = map_option pg_ts (up_EndedAt a),
      rg_Status = up_Status a, rg_Note = up_Note a, rg_Updated = pg_ts (up_UpdatedAt a),
      rg_Deleted = map_option pg_ts (up_DeletedAt a)\<rparr>"

definition registers :: "focus_session list \<Rightarrow> uuid \<rightharpoonup> register" where
  "registers fs = map_of (map (\<lambda>f. (fs_id f, stored f)) fs)"

text \<open>A version wins when there is none, or when it is later than the one its owner stored.\<close>

definition lww :: "UpsertFocusSessionParams \<Rightarrow> (uuid \<rightharpoonup> register) \<Rightarrow> uuid \<rightharpoonup> register" where
  "lww a m =
     (case m (up_ID a) of
        None \<Rightarrow> m(up_ID a \<mapsto> pushed a)
      | Some r \<Rightarrow>
          if rg_Owner r = up_UserID a \<and> rg_Updated r < pg_ts (up_UpdatedAt a) then m(up_ID a \<mapsto> pushed a) else m)"

lemma stored_rows [simp]:
  "stored (version f) = stored f" "stored (upsert_insert a now s) = pushed a"
  "fs_user_id f = up_UserID a \<Longrightarrow> stored (upsert_update a s f) = pushed a"
  "rg_Owner (stored f) = fs_user_id f" "rg_Updated (stored f) = fs_updated_at f"
  by (simp_all add: stored_def pushed_def version_def upsert_insert_def upsert_update_def)

lemma registers_version [simp]: "registers (map version fs) = registers fs"
  by (simp add: registers_def comp_def)

lemma registers_row: "distinct (map fs_id fs) \<Longrightarrow> f \<in> set fs \<Longrightarrow> registers fs (fs_id f) = Some (stored f)"
  by (auto simp: registers_def comp_def intro!: map_of_is_SomeI)

lemma registers_none: "registers fs i = None \<longleftrightarrow> (\<forall>f\<in>set fs. fs_id f \<noteq> i)"
  by (auto simp: registers_def map_of_eq_None_iff image_image)

lemma registers_lww_write:
  assumes dist: "distinct (map fs_id fs)"
  shows "registers (lww_write now a fs) = lww a (registers fs)"
proof (cases "registers fs (up_ID a)")
  case None
  then have "lww_write now a fs = fs @ [upsert_insert a now 0]" by (auto simp: lww_write_def registers_none)
  then show ?thesis using None by (auto simp: registers_def lww_def map_add_def fun_eq_iff split: option.splits)
next
  case (Some r)
  then obtain f where f: "f \<in> set fs" "fs_id f = up_ID a" by (metis registers_none option.distinct(1))
  have r: "r = stored f" using Some registers_row[OF dist f(1)] f(2) by simp
  have eq: "g = f" if "g \<in> set fs" "fs_id g = up_ID a" for g using dist f that by (metis distinct_map inj_onD)
  let ?new = "\<lambda>g. if fs_id g = up_ID a \<and> fs_user_id g = up_UserID a \<and> fs_updated_at g < pg_ts (up_UpdatedAt a)
    then upsert_update a 0 g else g"
  have run: "lww_write now a fs = map ?new fs" using f by (auto simp: lww_write_def)
  have ids: "distinct (map fs_id (map ?new fs))" using lww_write_ids[OF dist] run by metis
  show ?thesis unfolding run
  proof
    fix i
    show "registers (map ?new fs) i = lww a (registers fs) i"
    proof (cases "registers fs i")
      case None
      then have "registers (map ?new fs) i = None" by (auto simp: registers_none)
      then show ?thesis using None Some f(2) by (auto simp: lww_def)
    next
      case (Some s)
      then obtain g where g: "g \<in> set fs" "fs_id g = i" by (metis registers_none option.distinct(1))
      have "registers (map ?new fs) (fs_id (?new g)) = Some (stored (?new g))" by (rule registers_row[OF ids]) (use g in auto)
      then show ?thesis
        using g registers_row[OF dist g(1)] eq[of g] \<open>registers fs (up_ID a) = Some r\<close> r f(2) by (auto simp: lww_def split: if_splits)
    qed
  qed
qed

text \<open>Versions that arrive one after the other.\<close>

definition upserts :: "UpsertFocusSessionParams list \<Rightarrow> world \<Rightarrow> world" where
  "upserts args w = fold (\<lambda>a w. snd (UpsertFocusSession a w)) args w"

lemma upserts_run:
  assumes "quiet w" and "\<forall>a\<in>set args. upsert_ok (dbs w) a" and "distinct (map fs_id (focus_sessions (dbs w)))"
  shows "registers (focus_sessions (dbs (upserts args w))) = fold lww args (registers (focus_sessions (dbs w)))"
  using assms
proof (induction args arbitrary: w)
  case (Cons a args)
  obtain r w1 where run: "UpsertFocusSession a w = (r, w1)" by (rule prod.exhaust)
  have ok: "upsert_ok (dbs w) a" using Cons.prems(2) by simp
  note one = Upsert_run[OF Cons.prems(1) ok run Cons.prems(3)]
  have ids: "map fs_id (map version fs) = map fs_id fs" for fs by simp
  have dist: "distinct (map fs_id (focus_sessions (dbs w1)))"
    using one lww_write_ids[of "map version (focus_sessions (dbs w))"] Cons.prems(3) ids by metis
  have "\<forall>b\<in>set args. upsert_ok (dbs w1) b" using one Cons.prems(2) upsert_ok_focus by (metis list.set_intros(2))
  then have "registers (focus_sessions (dbs (upserts args w1))) = fold lww args (registers (focus_sessions (dbs w1)))"
    using Cons.IH one dist by blast
  moreover have "registers (focus_sessions (dbs w1)) = lww a (registers (focus_sessions (dbs w)))"
    using one registers_lww_write[of "map version (focus_sessions (dbs w))" "pg_now w" a] Cons.prems(3)
    by (metis ids registers_version)
  ultimately show ?case by (simp add: upserts_def run)
qed (simp add: upserts_def)

lemma lww_latest:
  assumes "\<forall>a\<in>set args. up_ID a = i \<and> up_UserID a = u" and "m i = Some r" and "rg_Owner r = u"
  shows "\<exists>r'. fold lww args m i = Some r' \<and> rg_Updated r \<le> rg_Updated r' \<and>
    (r' = r \<or> r' \<in> pushed ` set args) \<and> (\<forall>a\<in>set args. pg_ts (up_UpdatedAt a) \<le> rg_Updated r')"
  using assms
proof (induction args arbitrary: m r)
  case (Cons a args)
  let ?r = "if rg_Updated r < pg_ts (up_UpdatedAt a) then pushed a else r"
  have m: "lww a m i = Some ?r" using Cons.prems by (simp add: lww_def)
  have up: "rg_Updated r \<le> rg_Updated ?r" "pg_ts (up_UpdatedAt a) \<le> rg_Updated ?r" "rg_Owner ?r = u"
    using Cons.prems by (auto simp: pushed_def)
  have rest: "\<forall>a\<in>set args. up_ID a = i \<and> up_UserID a = u" using Cons.prems(1) by simp
  obtain r' where r': "fold lww args (lww a m) i = Some r'" "rg_Updated ?r \<le> rg_Updated r'"
    "r' = ?r \<or> r' \<in> pushed ` set args" "\<forall>a\<in>set args. pg_ts (up_UpdatedAt a) \<le> rg_Updated r'"
    using Cons.IH[where m = "lww a m" and r = ?r, OF rest m up(3)] by (elim exE conjE)
  show ?case using r' up order_trans[OF up(1) r'(2)] order_trans[OF up(2) r'(2)]
    by (intro exI[of _ r']) (auto split: if_splits)
qed simp

text \<open>C21: focus sessions are last-writer-wins registers.  Versions that the table accepts, arriving one
  after the other and each run alone, change what clients know of the sessions field by field as
  writes to registers do: of one owner's versions of a new session the one with the latest
  timestamp is stored, in full, whatever order they come in.\<close>

theorem upserts_refine_lww:
  assumes "quiet w" and "\<forall>a\<in>set args. upsert_ok (dbs w) a" and "distinct (map fs_id (focus_sessions (dbs w)))"
  shows "registers (focus_sessions (dbs (upserts args w))) = fold lww args (registers (focus_sessions (dbs w))) \<and>
    (\<forall>i u. args \<noteq> [] \<and> (\<forall>a\<in>set args. up_ID a = i \<and> up_UserID a = u) \<and> (\<forall>f\<in>set (focus_sessions (dbs w)). fs_id f \<noteq> i) \<longrightarrow>
       (\<exists>a\<in>set args. registers (focus_sessions (dbs (upserts args w))) i = Some (pushed a) \<and>
          (\<forall>b\<in>set args. pg_ts (up_UpdatedAt b) \<le> pg_ts (up_UpdatedAt a))))"
proof -
  let ?m = "registers (focus_sessions (dbs w))"
  note run = upserts_run[OF assms]
  have "\<exists>a\<in>set args. fold lww args ?m i = Some (pushed a) \<and> (\<forall>b\<in>set args. pg_ts (up_UpdatedAt b) \<le> pg_ts (up_UpdatedAt a))"
    if i: "args \<noteq> []" "\<forall>a\<in>set args. up_ID a = i \<and> up_UserID a = u" "\<forall>f\<in>set (focus_sessions (dbs w)). fs_id f \<noteq> i" for i u
  proof -
    obtain a as where args: "args = a # as" using i(1) by (cases args) auto
    have "?m i = None" using i(3) by (simp add: registers_none)
    then have first: "lww a ?m i = Some (pushed a)" using i(2) args by (simp add: lww_def)
    have owner: "rg_Owner (pushed a) = u" using i(2) args by (simp add: pushed_def)
    have rest: "\<forall>a\<in>set as. up_ID a = i \<and> up_UserID a = u" using i(2) args by simp
    obtain r' where r': "fold lww as (lww a ?m) i = Some r'" "rg_Updated (pushed a) \<le> rg_Updated r'"
      "r' = pushed a \<or> r' \<in> pushed ` set as" "\<forall>b\<in>set as. pg_ts (up_UpdatedAt b) \<le> rg_Updated r'"
      using lww_latest[where m = "lww a ?m" and i = i and u = u and args = as, OF rest first owner] by (elim exE conjE)
    obtain c where c: "c \<in> set (a # as)" "r' = pushed c" using r'(3) by auto
    have upd: "rg_Updated (pushed c) = pg_ts (up_UpdatedAt c)" for c by (simp add: pushed_def)
    show ?thesis unfolding args by (rule bexI[OF _ c(1)]) (use r' c(2) upd in simp)
  qed
  then show ?thesis unfolding run by blast
qed

text \<open>C33: the clock-skew rule keeps the accepted timestamp within a day of the server's clock exactly
  when the client's is less than 2 to the 63 nanoseconds ahead: from there on the saturated
  difference is its own negative, and the client's timestamp is accepted as it is.
\<close>

theorem clock_skew_bound:
  "\<bar>clampUpdatedAt now u - now\<bar> \<le> maxClockSkew \<longleftrightarrow> u - now < 2 ^ 63"
proof -
  consider "now - u \<le> int64_min" | "int64_min < now - u" "now - u \<le> int64_max" | "int64_max < now - u"
    by linarith
  then show ?thesis
    by cases (auto simp: clampUpdatedAt_def Let_def time_sub_def dur_neg_def wrap64_def maxClockSkew_def
        duration_units int64_min_def int64_max_def)
qed


section \<open>Worked instances\<close>

definition sample_upsert :: "time \<Rightarrow> string \<Rightarrow> UpsertFocusSessionParams" where
  "sample_upsert t status =
     \<lparr>up_ID = 5, up_UserID = 1, up_DeviceID = 11, up_ProjectID = None, up_Kind = ''focus'',
      up_PlannedDurationS = Some 1500, up_StartedAt = 1000, up_EndedAt = None, up_Status = status,
      up_Note = Some ''n'', up_UpdatedAt = t, up_DeletedAt = None\<rparr>"

lemma sample_upsert_ok:
  "upsert_ok sample_db (sample_upsert 2000 ''running'')"
  "upsert_ok sample_db (sample_upsert 5000 ''completed'')"
  "distinct (map fs_id (focus_sessions sample_db))"
  by code_simp+

lemma upserts_refine_lww_witness:
  "registers (focus_sessions (dbs (upserts [sample_upsert 5000 ''completed'', sample_upsert 2000 ''running''] (session sample_db)))) 5 =
    Some (pushed (sample_upsert 5000 ''completed''))"
proof -
  let ?args = "[sample_upsert 5000 ''completed'', sample_upsert 2000 ''running'']"
  have "\<forall>a\<in>set ?args. upsert_ok (dbs (session sample_db)) a" "distinct (map fs_id (focus_sessions (dbs (session sample_db))))"
    using sample_upsert_ok by simp_all
  from upserts_refine_lww[OF session_quiet(1) this, THEN conjunct1]
  show ?thesis by (simp add: lww_def registers_def sample_db_def empty_db_def sample_upsert_def pushed_def pg_ts_def)
qed

lemma upsert_order_irrelevant_witness:
  "\<exists>w1 w2. snd (UpsertFocusSession (sample_upsert 5000 ''completed'')
               (snd (UpsertFocusSession (sample_upsert 2000 ''running'') (session sample_db)))) = w1 \<and>
     snd (UpsertFocusSession (sample_upsert 2000 ''running'')
               (snd (UpsertFocusSession (sample_upsert 5000 ''completed'') (session sample_db)))) = w2 \<and>
     map version (focus_sessions (dbs w1)) = map version (focus_sessions (dbs w2))"
proof -
  let ?a = "sample_upsert 2000 ''running''" and ?b = "sample_upsert 5000 ''completed''"
  obtain r1 wa where 1: "UpsertFocusSession ?a (session sample_db) = (r1, wa)" by (rule prod.exhaust)
  obtain r2 wab where 2: "UpsertFocusSession ?b wa = (r2, wab)" by (rule prod.exhaust)
  obtain r3 wb where 3: "UpsertFocusSession ?b (session sample_db) = (r3, wb)" by (rule prod.exhaust)
  obtain r4 wba where 4: "UpsertFocusSession ?a wb = (r4, wba)" by (rule prod.exhaust)
  have "map version (focus_sessions (dbs wab)) = map version (focus_sessions (dbs wba))"
    by (rule upsert_order_irrelevant[OF session_quiet(1) _ _ _ _ _ _ 1 2 3 4])
      (simp_all add: sample_upsert_ok, simp_all add: sample_upsert_def pg_ts_def)
  then show ?thesis using 1 2 3 4 by simp
qed

end
