(* ===== verification/JsonText.thy ===== *)
theory JsonText
  imports Json
begin

text \<open>
  The text of a request body: \<^verbatim>\<open>json.NewDecoder(r.Body).Decode\<close> reads the
  first value of the stream and leaves what follows it unread.  The scanner is the one of
  \<^verbatim>\<open>encoding/json\<close>: a stack of the arrays and objects that are open, at most
  10000 deep; strings are unquoted as Go does it, with U+FFFD for what is not UTF-8 and for
  unpaired surrogates.
\<close>

section \<open>UTF-8\<close>

text \<open>The number of bytes of the encoding a string starts with, if it starts with a valid one.\<close>

definition cont :: "nat \<Rightarrow> nat \<Rightarrow> char \<Rightarrow> bool" where
  "cont lo hi c \<longleftrightarrow> lo \<le> of_char c \<and> of_char c \<le> (hi :: nat)"

definition tail_ok :: "nat \<Rightarrow> nat \<Rightarrow> nat \<Rightarrow> string \<Rightarrow> bool" where
  "tail_ok n lo hi s \<longleftrightarrow>
     n \<le> length s \<and> cont lo hi (hd s) \<and> list_all (cont 0x80 0xBF) (take (n - 1) (tl s))"

fun rune_length :: "string \<Rightarrow> nat option" where
  "rune_length [] = None"
| "rune_length (c # s) = (let b = of_char c :: nat in
     if b < 0x80 then Some 1
     else if 0xC2 \<le> b \<and> b \<le> 0xDF \<and> tail_ok 1 0x80 0xBF s then Some 2
     else if b = 0xE0 \<and> tail_ok 2 0xA0 0xBF s then Some 3
     else if b = 0xED \<and> tail_ok 2 0x80 0x9F s then Some 3
     else if 0xE1 \<le> b \<and> b \<le> 0xEF \<and> b \<noteq> 0xED \<and> tail_ok 2 0x80 0xBF s then Some 3
     else if b = 0xF0 \<and> tail_ok 3 0x90 0xBF s then Some 4
     else if b = 0xF4 \<and> tail_ok 3 0x80 0x8F s then Some 4
     else if 0xF1 \<le> b \<and> b \<le> 0xF3 \<and> tail_ok 3 0x80 0xBF s then Some 4
     else None)"

definition replacement :: string where
  "replacement = [char_of (0xEF :: nat), char_of (0xBF :: nat), char_of (0xBD :: nat)]"

text \<open>\<^verbatim>\<open>utf8.EncodeRune\<close> of a code point that is not a surrogate.\<close>

definition encode_rune :: "nat \<Rightarrow> string" where
  "encode_rune r = map char_of
     (if r < 0x80 then [r]
      else if r < 0x800 then [0xC0 + r div 64, 0x80 + r mod 64]
      else if r < 0x10000 then [0xE0 + r div 4096, 0x80 + r div 64 mod 64, 0x80 + r mod 64]
      else [0xF0 + r div 262144, 0x80 + r div 4096 mod 64, 0x80 + r div 64 mod 64, 0x80 + r mod 64])"

section \<open>Strings\<close>

definition hex_digit :: "char \<Rightarrow> nat option" where
  "hex_digit c = (let n = of_char c :: nat in
     if 48 \<le> n \<and> n \<le> 57 then Some (n - 48)
     else if 97 \<le> n \<and> n \<le> 102 then Some (n - 87)
     else if 65 \<le> n \<and> n \<le> 70 then Some (n - 55)
     else None)"

text \<open>\<^verbatim>\<open>getu4\<close>: the code unit of an escape of the form backslash, u, four
  hexadecimal digits.\<close>

fun get_u4 :: "string \<Rightarrow> nat option" where
  "get_u4 (b # u # c1 # c2 # c3 # c4 # s) =
     (if b = CHR 0x5C \<and> u = CHR ''u'' then
        (case (hex_digit c1, hex_digit c2, hex_digit c3, hex_digit c4) of
           (Some d1, Some d2, Some d3, Some d4) \<Rightarrow> Some (4096 * d1 + 256 * d2 + 16 * d3 + d4)
         | _ \<Rightarrow> None)
      else None)"
| "get_u4 _ = None"

definition is_surrogate :: "nat \<Rightarrow> bool" where
  "is_surrogate r \<longleftrightarrow> 0xD800 \<le> r \<and> r < 0xE000"

text \<open>\<^verbatim>\<open>utf16.DecodeRune\<close> of two code units that form a pair.\<close>

definition surrogate_pair :: "nat \<Rightarrow> nat \<Rightarrow> nat option" where
  "surrogate_pair r1 r2 =
     (if 0xD800 \<le> r1 \<and> r1 < 0xDC00 \<and> 0xDC00 \<le> r2 \<and> r2 < 0xE000
      then Some (0x10000 + (r1 - 0xD800) * 0x400 + (r2 - 0xDC00)) else None)"

definition simple_escape :: "char \<Rightarrow> char option" where
  "simple_escape c =
     (if c = CHR 0x22 \<or> c = CHR 0x5C \<or> c = CHR ''/'' then Some c
      else if c = CHR ''b'' then Some (CHR 0x08)
      else if c = CHR ''f'' then Some (CHR 0x0C)
      else if c = CHR ''n'' then Some (CHR 0x0A)
      else if c = CHR ''r'' then Some (CHR 0x0D)
      else if c = CHR ''t'' then Some (CHR 0x09)
      else None)"

text \<open>An escape: the bytes it stands for and its length.\<close>

definition unescape :: "string \<Rightarrow> (string \<times> nat) option" where
  "unescape s =
     (case s of
        b # c # _ \<Rightarrow>
          (case simple_escape c of
             Some e \<Rightarrow> Some ([e], 2)
           | None \<Rightarrow>
               (case get_u4 s of
                  None \<Rightarrow> None
                | Some r \<Rightarrow>
                    if is_surrogate r then
                      (case get_u4 (drop 6 s) of
                         None \<Rightarrow> Some (replacement, 6)
                       | Some r2 \<Rightarrow>
                           (case surrogate_pair r r2 of
                              Some p \<Rightarrow> Some (encode_rune p, 12)
                            | None \<Rightarrow> Some (replacement, 6)))
                    else Some (encode_rune r, 6)))
      | _ \<Rightarrow> None)"

lemma unescape_length: "unescape s = Some (e, n) \<Longrightarrow> 2 \<le> n"
  by (auto simp: unescape_def split: list.splits option.splits if_splits)

lemma rune_length_pos: "rune_length s = Some n \<Longrightarrow> 0 < n"
  by (cases s) (auto simp: Let_def split: if_splits)

declare rune_length.simps [simp del]

text \<open>The rest of a string after its opening quote: the bytes it denotes, and what follows the
  closing quote.\<close>

function string_tail :: "string \<Rightarrow> string \<Rightarrow> (string \<times> string) option" where
  "string_tail acc s =
     (case s of
        [] \<Rightarrow> None
      | c # s' \<Rightarrow>
          if c = CHR 0x22 then Some (acc, s')
          else if c = CHR 0x5C then
            (case unescape s of None \<Rightarrow> None | Some (e, n) \<Rightarrow> string_tail (acc @ e) (drop n s))
          else if of_char c < (0x20 :: nat) then None
          else (case rune_length s of
                  Some n \<Rightarrow> string_tail (acc @ take n s) (drop n s)
                | None \<Rightarrow> string_tail (acc @ replacement) s'))"
  by pat_completeness auto
termination
  by (relation "measure (\<lambda>(acc, s). length s)") (auto dest: unescape_length rune_length_pos)

declare string_tail.simps [simp del]

lemma string_tail_shorter: "string_tail acc s = Some (v, r) \<Longrightarrow> length r < length s"
proof (induction acc s rule: string_tail.induct)
  case (1 acc s)
  show ?case
  proof (cases s)
    case Nil
    then show ?thesis using "1.prems" string_tail.simps[of acc "[]"] by simp
  next
    case (Cons c s')
    note unfold = string_tail.simps[of acc "c # s'"]
    consider (quote) "c = CHR 0x22" | (escape) "c \<noteq> CHR 0x22" "c = CHR 0x5C"
      | (other) "c \<noteq> CHR 0x22" "c \<noteq> CHR 0x5C" by blast
    then show ?thesis
    proof cases
      case quote
      then show ?thesis using "1.prems" Cons unfold by simp
    next
      case escape
      then obtain e n where "unescape s = Some (e, n)" "string_tail (acc @ e) (drop n s) = Some (v, r)"
        using "1.prems" Cons unfold by (auto split: option.splits)
      then show ?thesis using "1.IH"(1)[OF Cons escape] unescape_length by fastforce
    next
      case other
      then have c: "\<not> of_char c < (0x20 :: nat)" using "1.prems" Cons unfold by (auto split: if_splits)
      show ?thesis
      proof (cases "rune_length s")
        case None
        then show ?thesis using "1.prems" Cons unfold other c "1.IH"(2)[OF Cons other c None] by simp
      next
        case (Some n)
        then show ?thesis
          using "1.prems" Cons unfold other c "1.IH"(3)[OF Cons other c Some] rune_length_pos[OF Some] by simp
      qed
    qed
  qed
qed

section \<open>Numbers and literals\<close>

definition json_digits :: "string \<Rightarrow> string \<times> string" where
  "json_digits s = (takeWhile (\<lambda>c. char_digit c \<noteq> None) s, dropWhile (\<lambda>c. char_digit c \<noteq> None) s)"

text \<open>One or more digits, appended to what was read.\<close>

definition some_digits :: "string \<times> string \<Rightarrow> (string \<times> string) option" where
  "some_digits p = (case p of (acc, s) \<Rightarrow>
     (case json_digits s of (ds, r) \<Rightarrow> if ds = [] then None else Some (acc @ ds, r)))"

text \<open>An optional part that a character announces.\<close>

definition json_fraction :: "string \<times> string \<Rightarrow> (string \<times> string) option" where
  "json_fraction p = (case p of (acc, s) \<Rightarrow>
     (case s of
        c # r \<Rightarrow> if c = CHR ''.'' then some_digits (acc @ [c], r) else Some p
      | [] \<Rightarrow> Some p))"

definition json_exponent :: "string \<times> string \<Rightarrow> (string \<times> string) option" where
  "json_exponent p = (case p of (acc, s) \<Rightarrow>
     (case s of
        c # r \<Rightarrow>
          if c = CHR ''e'' \<or> c = CHR ''E'' then
            (case r of
               d # r' \<Rightarrow>
                 if d = CHR ''+'' \<or> d = CHR ''-'' then some_digits (acc @ [c, d], r')
                 else some_digits (acc @ [c], r)
             | [] \<Rightarrow> None)
          else Some p
      | [] \<Rightarrow> Some p))"

text \<open>The integer part: a zero alone, or digits that do not begin with zero.\<close>

definition json_integer :: "string \<times> string \<Rightarrow> (string \<times> string) option" where
  "json_integer p = (case p of (acc, s) \<Rightarrow>
     (case s of
        c # r \<Rightarrow> if c = CHR ''0'' then Some (acc @ [c], r) else some_digits p
      | [] \<Rightarrow> None))"

definition json_number :: "string \<Rightarrow> (string \<times> string) option" where
  "json_number s =
     Option.bind (Option.bind
       (json_integer (if s \<noteq> [] \<and> hd s = CHR ''-'' then (''-'', tl s) else ([], s)))
       json_fraction) json_exponent"

definition literal :: "string \<Rightarrow> json \<Rightarrow> string \<Rightarrow> (json \<times> string) option" where
  "literal word v s = (if prefix word s then Some (v, drop (length word) s) else None)"

text \<open>What an atom leaves unread is a shorter suffix.\<close>

definition shrinks :: "(string \<times> string) \<Rightarrow> (string \<times> string) option \<Rightarrow> bool" where
  "shrinks p q \<longleftrightarrow> (\<forall>acc r. q = Some (acc, r) \<longrightarrow> length r \<le> length (snd p))"

lemma length_dropWhile: "length (dropWhile P s) \<le> length s"
  by (rule length_dropWhile_le)

lemma some_digits_shorter: "some_digits (acc, s) = Some (v, r) \<Longrightarrow> length r < length s"
  by (cases s) (auto simp: some_digits_def json_digits_def le_imp_less_Suc length_dropWhile split: if_splits)

lemma json_integer_shorter: "json_integer (acc, s) = Some (v, r) \<Longrightarrow> length r < length s"
  by (auto simp: json_integer_def split: list.splits if_splits dest: some_digits_shorter)

lemma json_fraction_le: "json_fraction (acc, s) = Some (v, r) \<Longrightarrow> length r \<le> length s"
  by (auto simp: json_fraction_def split: list.splits if_splits dest: some_digits_shorter)

lemma json_exponent_le: "json_exponent (acc, s) = Some (v, r) \<Longrightarrow> length r \<le> length s"
  by (auto simp: json_exponent_def split: list.splits if_splits dest: some_digits_shorter)

lemma json_number_shorter:
  assumes "json_number s = Some (v, r)"
  shows "length r < length s"
proof -
  obtain a b where "json_integer (if s \<noteq> [] \<and> hd s = CHR ''-'' then (''-'', tl s) else ([], s)) = Some a"
    "json_fraction a = Some b" "json_exponent b = Some (v, r)"
    using assms by (auto simp: json_number_def Option.bind_eq_Some_conv)
  then show ?thesis
    by (cases a; cases b) (auto split: if_splits dest!: json_integer_shorter json_fraction_le json_exponent_le)
qed

section \<open>Values\<close>

definition skip_ws :: "string \<Rightarrow> string" where
  "skip_ws = dropWhile (\<lambda>c. c \<in> {CHR 0x20, CHR 0x09, CHR 0x0A, CHR 0x0D})"

lemma skip_ws_le: "length (skip_ws s) \<le> length s"
  by (simp add: skip_ws_def length_dropWhile_le)

lemma skip_ws_Cons: "skip_ws s = c # r \<Longrightarrow> length r < length s"
  using skip_ws_le[of s] by simp

text \<open>A string, number or literal.\<close>

definition atom :: "string \<Rightarrow> (json \<times> string) option" where
  "atom s =
     (case s of
        [] \<Rightarrow> None
      | c # r \<Rightarrow>
          if c = CHR 0x22 then map_option (apfst JString) (string_tail [] r)
          else if c = CHR ''t'' then literal ''true'' (JBool True) s
          else if c = CHR ''f'' then literal ''false'' (JBool False) s
          else if c = CHR ''n'' then literal ''null'' JNull s
          else map_option (apfst JNumber) (json_number s))"

lemma atom_shorter: "atom s = Some (v, r) \<Longrightarrow> length r < length s"
  by (cases s)
    (auto simp: atom_def literal_def prefix_def split: if_splits dest!: string_tail_shorter json_number_shorter)

text \<open>An array or object that is open: what it holds so far, and an object's current key.\<close>

datatype json_frame = InArray "json list" | InObject "(string \<times> json) list" string

definition maxNestingDepth :: nat where "maxNestingDepth = 10000"

text \<open>A key and its colon.\<close>

definition member_key :: "string \<Rightarrow> (string \<times> string) option" where
  "member_key s =
     (case skip_ws s of
        [] \<Rightarrow> None
      | c # r \<Rightarrow>
          if c = CHR 0x22 then
            (case string_tail [] r of
               None \<Rightarrow> None
             | Some (k, r') \<Rightarrow>
                 (case skip_ws r' of
                    [] \<Rightarrow> None
                  | d # r'' \<Rightarrow> if d = CHR '':'' then Some (k, r'') else None))
          else None)"

lemma member_key_shorter:
  assumes "member_key s = Some (k, r)"
  shows "length r < length s"
proof -
  obtain c r1 where 1: "skip_ws s = c # r1"
    using assms by (auto simp: member_key_def split: list.splits)
  then obtain r2 where 2: "string_tail [] r1 = Some (k, r2)" and 3: "\<exists>d. skip_ws r2 = d # r"
    using assms by (auto simp: member_key_def split: list.splits if_splits option.splits)
  have "length r < length r2" using 3 skip_ws_le[of r2] by auto
  then show ?thesis using string_tail_shorter[OF 2] skip_ws_le[of s] 1 by simp
qed

text \<open>
  The scanner: at the beginning of a value inside the open frames, and after a value.
\<close>

function begin_value :: "json_frame list \<Rightarrow> string \<Rightarrow> (json \<times> string) option"
  and after_value :: "json_frame list \<Rightarrow> json \<Rightarrow> string \<Rightarrow> (json \<times> string) option" where
  "begin_value stk s =
     (case skip_ws s of
        [] \<Rightarrow> None
      | c # r \<Rightarrow>
          if c = CHR ''{'' then
            (if maxNestingDepth \<le> length stk then None
             else case skip_ws r of
               [] \<Rightarrow> None
             | d # r' \<Rightarrow>
                 if d = CHR ''}'' then after_value stk (JObject []) r'
                 else (case member_key r of
                         None \<Rightarrow> None
                       | Some (k, r'') \<Rightarrow> begin_value (InObject [] k # stk) r''))
          else if c = CHR ''['' then
            (if maxNestingDepth \<le> length stk then None
             else case skip_ws r of
               [] \<Rightarrow> None
             | d # r' \<Rightarrow>
                 if d = CHR '']'' then after_value stk (JArray []) r'
                 else begin_value (InArray [] # stk) r)
          else (case atom (c # r) of
                  None \<Rightarrow> None
                | Some (v, r') \<Rightarrow> after_value stk v r'))"
| "after_value stk v s =
     (case stk of
        [] \<Rightarrow> Some (v, s)
      | InArray vs # stk' \<Rightarrow>
          (case skip_ws s of
             [] \<Rightarrow> None
           | c # r \<Rightarrow>
               if c = CHR '','' then begin_value (InArray (vs @ [v]) # stk') r
               else if c = CHR '']'' then after_value stk' (JArray (vs @ [v])) r
               else None)
      | InObject ms k # stk' \<Rightarrow>
          (case skip_ws s of
             [] \<Rightarrow> None
           | c # r \<Rightarrow>
               if c = CHR '','' then
                 (case member_key r of
                    None \<Rightarrow> None
                  | Some (k', r') \<Rightarrow> begin_value (InObject (ms @ [(k, v)]) k' # stk') r')
               else if c = CHR ''}'' then after_value stk' (JObject (ms @ [(k, v)])) r
               else None))"
  by pat_completeness auto
termination
  by (relation "measure (case_sum (\<lambda>(stk, s). length s) (\<lambda>(stk, v, s). length s))")
    (auto dest!: skip_ws_Cons atom_shorter member_key_shorter)

declare begin_value.simps [simp del] after_value.simps [simp del]

section \<open>Request bodies\<close>

text \<open>
  \<^verbatim>\<open>http.MaxBytesReader\<close> of one mebibyte, and \<^verbatim>\<open>Decode\<close>: a
  value that does not end within the limit is an error, and what follows it is not looked at.
\<close>

definition maxRequestBodyBytes :: nat where "maxRequestBodyBytes = 2 ^ 20"

definition first_value :: "string \<Rightarrow> json option" where
  "first_value body = map_option fst (begin_value [] (take maxRequestBodyBytes body))"

lemma first_value_short: "length body \<le> maxRequestBodyBytes \<Longrightarrow> first_value body = map_option fst (begin_value [] body)"
  by (simp add: first_value_def)

text \<open>Text written with a back quote for each double quote.\<close>

definition quoted :: "string \<Rightarrow> string" where
  "quoted = map (\<lambda>c. if c = CHR 0x60 then CHR 0x22 else c)"

end
