(* ===== verification/Password.thy ===== *)
theory Password
  imports GoStd
begin

text \<open>
  Passwords and tokens: \<^verbatim>\<open>internal/auth/password.go\<close>,
  \<^verbatim>\<open>token.go\<close> and \<^verbatim>\<open>uuid.go\<close>.  The cryptography, the
  random source, the mail parser and the collation of the database are code outside the
  repository: the record below, an argument of every definition that uses them.  The k-th read
  of the random source in a request may fail; the clock may move between its readings.
\<close>

record AccessTokenClaims =
  cl_Role :: string
  cl_DeviceID :: string
  cl_Subject :: string
  cl_IssuedAt :: int
  cl_ExpiresAt :: int

record crypto =
  argon2_IDKey :: "string \<Rightarrow> string \<Rightarrow> nat \<Rightarrow> nat \<Rightarrow> nat \<Rightarrow> nat \<Rightarrow> string"
  sha256 :: "string \<Rightarrow> string"
  jwt_sign :: "AccessTokenClaims \<Rightarrow> string option"
  ParseAddress :: "string \<Rightarrow> string option"
  citext_lower :: "string \<Rightarrow> string"
  rand_Read :: "nat \<Rightarrow> nat \<Rightarrow> string option"
  clock :: "nat \<Rightarrow> time"

section \<open>Standard library\<close>

text \<open>\<^verbatim>\<open>strings.Split\<close> at a one-byte separator.\<close>

fun split_all :: "char \<Rightarrow> string \<Rightarrow> string list" where
  "split_all c [] = [[]]"
| "split_all c (x # xs) =
     (if x = c then [] # split_all c xs
      else case split_all c xs of [] \<Rightarrow> [[x]] | p # ps \<Rightarrow> (x # p) # ps)"

lemma split_all_nonempty: "split_all c s \<noteq> []"
  by (induction s) (auto split: list.splits)

lemma split_all_none: "c \<notin> set s \<Longrightarrow> split_all c s = [s]"
  by (induction s) auto

lemma split_all_sep: "c \<notin> set a \<Longrightarrow> split_all c (a @ c # b) = a # split_all c b"
proof (induction a)
  case (Cons x a)
  then show ?case by auto
qed simp

text \<open>\<^verbatim>\<open>base64.RawStdEncoding\<close>: the URL alphabet with two symbols exchanged.\<close>

definition to_std :: "char \<Rightarrow> char" where
  "to_std c = (if c = CHR ''-'' then CHR ''+'' else if c = CHR ''_'' then CHR ''/'' else c)"

definition of_std :: "char \<Rightarrow> char" where
  "of_std c = (if c = CHR ''+'' then CHR ''-'' else if c = CHR ''/'' then CHR ''_'' else c)"

definition base64_std_encode :: "string \<Rightarrow> string" where
  "base64_std_encode s = map to_std (base64_encode s)"

definition base64_std_decode :: "string \<Rightarrow> string option" where
  "base64_std_decode s =
     (if CHR ''-'' \<in> set s \<or> CHR ''_'' \<in> set s then None else base64_decode (map of_std s))"

lemma of_std_to_std: "c \<noteq> CHR ''+'' \<Longrightarrow> c \<noteq> CHR ''/'' \<Longrightarrow> of_std (to_std c) = c"
  by (simp add: of_std_def to_std_def)

lemma base64_encode_chars:
  assumes "c \<in> set (base64_encode s)"
  shows "c \<noteq> CHR ''+''" and "c \<noteq> CHR ''/''" and "c \<noteq> CHR ''$''"
proof -
  obtain i where i: "i < 64" "c = url_char i"
    using assms sextets_bound[of "map of_char s"] by (fastforce simp: base64_encode_def)
  have "(of_char c :: nat) \<notin> {43, 47, 36}"
    using i(1) by (simp add: i(2) url_char_code) arith
  moreover have "of_char (CHR ''+'') = (43::nat)" "of_char (CHR ''/'') = (47::nat)"
    "of_char (CHR ''$'') = (36::nat)" by simp_all
  ultimately show "c \<noteq> CHR ''+''" "c \<noteq> CHR ''/''" "c \<noteq> CHR ''$''" by auto
qed

lemma base64_std_roundtrip [simp]: "base64_std_decode (base64_std_encode s) = Some s"
proof -
  have "map of_std (map to_std (base64_encode s)) = base64_encode s"
    unfolding map_map by (rule map_idI) (use of_std_to_std base64_encode_chars(1,2) in force)
  moreover have "CHR ''-'' \<notin> set (map to_std xs)" "CHR ''_'' \<notin> set (map to_std xs)" for xs
    by (auto simp: to_std_def)
  ultimately show ?thesis by (simp add: base64_std_decode_def base64_std_encode_def)
qed

lemma base64_no_nul: "CHR 0x00 \<notin> set (base64_std_encode s)"
proof
  assume "CHR 0x00 \<in> set (base64_std_encode s)"
  then have "CHR 0x00 \<in> set (base64_encode s)" by (auto simp: base64_std_encode_def to_std_def split: if_splits)
  then obtain i where i: "i < 64" "CHR 0x00 = url_char i"
    using sextets_bound[of "map of_char s"] by (fastforce simp: base64_encode_def)
  then have "(of_char (CHR 0x00) :: nat) \<noteq> 0" by (simp only: i(2) url_char_code[OF i(1)]) auto
  then show False by simp
qed

lemma base64_std_no_dollar: "CHR ''$'' \<notin> set (base64_std_encode s)"
  using base64_encode_chars(3)[of _ s] by (auto simp: base64_std_encode_def to_std_def)

text \<open>
  \<^verbatim>\<open>fmt.Sscanf\<close> with the literals and the \<^verbatim>\<open>%d\<close> verbs the code
  uses: a verb skips spaces but not a newline, and reads the longest run of digits, after a
  sign for a signed operand.
\<close>

definition scan_lit :: "string \<Rightarrow> string \<Rightarrow> string option" where
  "scan_lit l s = (if prefix l s then Some (drop (length l) s) else None)"

definition is_digit :: "char \<Rightarrow> bool" where
  "is_digit c \<longleftrightarrow> char_digit c \<noteq> None"

definition scan_space :: "string \<Rightarrow> string" where
  "scan_space = trim_left (removeAll [CHR 0x0A] spaces)"

definition scan_uint :: "nat \<Rightarrow> string \<Rightarrow> (nat \<times> string) option" where
  "scan_uint bits s0 =
     (let s = scan_space s0
      in case parse_uint64 (takeWhile is_digit s) of
           None \<Rightarrow> None
         | Some n \<Rightarrow> if n < 2 ^ bits then Some (n, dropWhile is_digit s) else None)"

definition scan_int :: "string \<Rightarrow> (int \<times> string) option" where
  "scan_int s0 =
     (let s = scan_space s0;
          n = (case s of c # _ \<Rightarrow> if c = CHR ''+'' \<or> c = CHR ''-'' then 1 else 0 | [] \<Rightarrow> 0)
      in case parse_int64 (take n s @ takeWhile is_digit (drop n s)) of
           None \<Rightarrow> None
         | Some i \<Rightarrow> Some (i, dropWhile is_digit (drop n s)))"

definition scan_version :: "string \<Rightarrow> int option" where
  "scan_version s =
     (case scan_lit ''v='' s of None \<Rightarrow> None | Some s \<Rightarrow> map_option fst (scan_int s))"

definition scan_params :: "string \<Rightarrow> (nat \<times> nat \<times> nat) option" where
  "scan_params s =
     (case scan_lit ''m='' s of None \<Rightarrow> None | Some s \<Rightarrow>
     (case scan_uint 32 s of None \<Rightarrow> None | Some (m, s) \<Rightarrow>
     (case scan_lit '',t='' s of None \<Rightarrow> None | Some s \<Rightarrow>
     (case scan_uint 32 s of None \<Rightarrow> None | Some (t, s) \<Rightarrow>
     (case scan_lit '',p='' s of None \<Rightarrow> None | Some s \<Rightarrow>
     (case scan_uint 8 s of None \<Rightarrow> None | Some (p, s) \<Rightarrow> Some (m, t, p)))))))"

section \<open>Passwords\<close>

definition argon2Memory :: nat where "argon2Memory = 64 * 1024"
definition argon2Iterations :: nat where "argon2Iterations = 3"
definition argon2Parallelism :: nat where "argon2Parallelism = 4"
definition argon2SaltLength :: nat where "argon2SaltLength = 16"
definition argon2KeyLength :: nat where "argon2KeyLength = 32"

lemmas argon2_defs = argon2Memory_def argon2Iterations_def argon2Parallelism_def
  argon2SaltLength_def argon2KeyLength_def

text \<open>\<^verbatim>\<open>argon2.IDKey\<close> panics without an iteration or a thread.\<close>

datatype hash_error = ErrInvalidPasswordHash | RandFailed | Argon2Panic

definition encode_hash :: "string \<Rightarrow> string \<Rightarrow> string" where
  "encode_hash salt h =
     ''$argon2id$v='' @ format_nat 19 @ ''$m='' @ format_nat argon2Memory @ '',t='' @
     format_nat argon2Iterations @ '',p='' @ format_nat argon2Parallelism @ ''$'' @
     base64_std_encode salt @ ''$'' @ base64_std_encode h"

definition HashPassword :: "crypto \<Rightarrow> nat \<Rightarrow> string \<Rightarrow> hash_error + string" where
  "HashPassword c k password =
     (case rand_Read c k argon2SaltLength of
        None \<Rightarrow> Inl RandFailed
      | Some salt \<Rightarrow>
          Inr (encode_hash salt
            (argon2_IDKey c password salt argon2Iterations argon2Memory argon2Parallelism argon2KeyLength)))"

definition VerifyPassword :: "crypto \<Rightarrow> string \<Rightarrow> string \<Rightarrow> hash_error + bool" where
  "VerifyPassword c encodedHash password =
     (let parts = split_all (CHR ''$'') encodedHash in
      if length parts \<noteq> 6 \<or> parts ! 1 \<noteq> ''argon2id'' then Inl ErrInvalidPasswordHash
      else case scan_version (parts ! 2) of None \<Rightarrow> Inl ErrInvalidPasswordHash | Some _ \<Rightarrow>
      (case scan_params (parts ! 3) of None \<Rightarrow> Inl ErrInvalidPasswordHash | Some (memory, iterations, parallelism) \<Rightarrow>
      (case base64_std_decode (parts ! 4) of None \<Rightarrow> Inl ErrInvalidPasswordHash | Some salt \<Rightarrow>
      (case base64_std_decode (parts ! 5) of None \<Rightarrow> Inl ErrInvalidPasswordHash | Some want \<Rightarrow>
         if length want \<le> 0 \<or> 2 ^ 16 < length want then Inl ErrInvalidPasswordHash
         else if iterations = 0 \<or> parallelism = 0 then Inl Argon2Panic
         else Inr (argon2_IDKey c password salt iterations memory parallelism (length want) = want)))))"

section \<open>Tokens\<close>

definition AccessTokenTTL :: duration where "AccessTokenTTL = 15 * minute"
definition RefreshTokenTTL :: duration where "RefreshTokenTTL = 30 * 24 * hour"

text \<open>A \<^verbatim>\<open>jwt.NumericDate\<close> has whole seconds.\<close>

definition IssueAccessToken :: "crypto \<Rightarrow> string \<Rightarrow> string \<Rightarrow> string \<Rightarrow> time \<Rightarrow> string option" where
  "IssueAccessToken c userID role deviceID now =
     jwt_sign c
       \<lparr>cl_Role = role, cl_DeviceID = deviceID, cl_Subject = userID, cl_IssuedAt = now div second,
        cl_ExpiresAt = (now + AccessTokenTTL) div second\<rparr>"

definition refreshTokenPrefix :: string where "refreshTokenPrefix = ''rt_''"
definition refreshTokenRandomBytes :: nat where "refreshTokenRandomBytes = 32"

definition GenerateRefreshToken :: "crypto \<Rightarrow> nat \<Rightarrow> string option" where
  "GenerateRefreshToken c k =
     map_option (\<lambda>b. refreshTokenPrefix @ base64_encode b) (rand_Read c k refreshTokenRandomBytes)"

definition HashRefreshToken :: "crypto \<Rightarrow> string \<Rightarrow> string" where
  "HashRefreshToken c token = sha256 c token"

text \<open>Different draws give different tokens.\<close>

lemma GenerateRefreshToken_inj:
  "GenerateRefreshToken c k = Some t \<Longrightarrow> GenerateRefreshToken c k' = Some t
   \<Longrightarrow> rand_Read c k refreshTokenRandomBytes = rand_Read c k' refreshTokenRandomBytes"
  by (auto simp: GenerateRefreshToken_def) (metis base64_roundtrip option.inject)

section \<open>Identifiers the application mints\<close>

definition uuid_of_bytes :: "string \<Rightarrow> uuid" where
  "uuid_of_bytes bs = foldl (\<lambda>acc b. 256 * acc + of_nat (of_char b)) 0 bs"

text \<open>Byte 6 carries the version and byte 8 the variant.\<close>

definition newUUIDv4 :: "crypto \<Rightarrow> nat \<Rightarrow> uuid option" where
  "newUUIDv4 c k =
     (case rand_Read c k 16 of
        None \<Rightarrow> None
      | Some b \<Rightarrow>
          Some (uuid_of_bytes
            (b[6 := char_of ((of_char (b ! 6) mod 16 :: nat) + 64),
               8 := char_of ((of_char (b ! 8) mod 64 :: nat) + 128)])))"

section \<open>What was hashed verifies\<close>

definition graphic :: "char \<Rightarrow> bool" where
  "graphic c \<longleftrightarrow> 32 < (of_char c :: nat) \<and> (of_char c :: nat) \<le> 127"

lemma spaces_ends:
  "e \<in> set spaces \<Longrightarrow> \<not> graphic (hd e)" "e \<in> set spaces \<Longrightarrow> \<not> graphic (last e)"
  by (auto simp: graphic_def spaces_def space_codes_def of_char_of)

lemma trim_left_done_at:
  assumes "\<And>e. e \<in> set es \<Longrightarrow> \<not> graphic (hd e)" and "graphic c"
  shows "trim_left es (c # s) = c # s"
proof -
  have "\<not> (e \<noteq> [] \<and> prefix e (c # s))" if "e \<in> set es" for e
    using assms(1)[OF that] assms(2) by (cases e) auto
  then have "find (\<lambda>e. e \<noteq> [] \<and> prefix e (c # s)) es = None"
    by (auto simp only: find_None_iff)
  then show ?thesis by (subst trim_left.simps) (simp only: option.case)
qed

lemma TrimSpace_graphic:
  assumes "s \<noteq> []" and "graphic (hd s)" and "graphic (last s)"
  shows "TrimSpace s = s"
proof -
  have "trim_left spaces s = s"
    using assms(1,2) trim_left_done_at[of spaces "hd s" "tl s"] spaces_ends(1) by simp
  moreover have "trim_left (map rev spaces) (rev s) = rev s"
  proof -
    obtain xs where xs: "rev s = last s # xs"
      using assms(1) by (metis append_butlast_last_id rev.simps(2) rev_rev_ident rev_swap)
    have "\<not> graphic (hd e)" if "e \<in> set (map rev spaces)" for e
      using that spaces_ends(2) spaces_nonempty by (auto simp: hd_rev)
    from trim_left_done_at[OF this assms(3)] show ?thesis by (simp only: xs)
  qed
  ultimately show ?thesis by (simp add: TrimSpace_def)
qed

lemma digit_codes: "c \<in> set ''0123456789'' \<Longrightarrow> graphic c"
  by (auto simp: graphic_def)

lemma scan_space_digit: "c \<in> set ''0123456789'' \<Longrightarrow> scan_space (c # s) = c # s"
  unfolding scan_space_def
  by (rule trim_left_done_at[OF _ digit_codes]) (simp_all add: spaces_ends(1))

lemma format_params:
  "format_nat 19 = ''19''" "format_nat argon2Memory = ''65536''"
  "format_nat argon2Iterations = ''3''" "format_nat argon2Parallelism = ''4''"
  by (simp_all add: argon2_defs format_nat.simps digit_char_def char_of_def bit_Suc_0_iff)

lemma scan_hashed:
  "scan_version ''v=19'' = Some 19" "scan_params ''m=65536,t=3,p=4'' = Some (65536, 3, 4)"
  by (simp_all add: scan_version_def scan_params_def scan_lit_def scan_int_def scan_uint_def
      scan_space_digit is_digit_def char_digit_def parse_int64_def parse_uint64_def int64_ok_def
      int64_min_def int64_max_def)

lemma split_encode_hash:
  "split_all (CHR ''$'') (encode_hash salt h) =
     [[], ''argon2id'', ''v=19'', ''m=65536,t=3,p=4'', base64_std_encode salt, base64_std_encode h]"
  by (simp add: encode_hash_def format_params split_all_sep split_all_none base64_std_no_dollar)

lemma VerifyPassword_encode_hash:
  "length h = argon2KeyLength \<Longrightarrow> VerifyPassword c (encode_hash salt h) pw =
     Inr (argon2_IDKey c pw salt argon2Iterations argon2Memory argon2Parallelism argon2KeyLength = h)"
  by (simp add: VerifyPassword_def split_encode_hash scan_hashed argon2_defs)

text \<open>C29: the round trip of a stored password.  What HashPassword encoded is parsed back to the
  same salt, parameters and key: verification of any password against it answers, without an
  error, whether the two passwords derive the same key.  In particular the right password
  verifies.\<close>

theorem password_roundtrip:
  assumes "rand_Read c k argon2SaltLength = Some salt"
    and "\<And>pw. length (argon2_IDKey c pw salt argon2Iterations argon2Memory argon2Parallelism argon2KeyLength)
      = argon2KeyLength"
  shows "\<exists>h. HashPassword c k pw = Inr h \<and> VerifyPassword c h pw = Inr True \<and>
    (\<forall>pw'. VerifyPassword c h pw' =
      Inr (argon2_IDKey c pw' salt argon2Iterations argon2Memory argon2Parallelism argon2KeyLength =
           argon2_IDKey c pw salt argon2Iterations argon2Memory argon2Parallelism argon2KeyLength))"
  by (simp add: HashPassword_def assms VerifyPassword_encode_hash)

definition sample_crypto :: crypto where
  "sample_crypto =
     \<lparr>argon2_IDKey = (\<lambda>pw salt t m p n. take n (pw @ replicate n (CHR 0x00))), sha256 = id,
      jwt_sign = (\<lambda>cl. Some (cl_Subject cl)), ParseAddress = Some, citext_lower = id,
      rand_Read = (\<lambda>k n. Some (replicate n (char_of (65 + k)))), clock = (\<lambda>_. 1000 * 10 ^ 9)\<rparr>"

theorem password_roundtrip_witness:
  "\<exists>h. HashPassword sample_crypto 0 ''secret12'' = Inr h \<and> VerifyPassword sample_crypto h ''secret12'' = Inr True"
proof -
  have "rand_Read sample_crypto 0 argon2SaltLength = Some (replicate 16 (char_of (65 + 0 :: nat)))"
    "length (argon2_IDKey sample_crypto pw salt i m p argon2KeyLength) = argon2KeyLength" for pw salt i m p
    by (simp_all add: sample_crypto_def argon2_defs)
  then show ?thesis using password_roundtrip[of sample_crypto 0 _ "''secret12''"] by blast
qed

end
