(* ===== verification/Observability.thy ===== *)
theory Observability
  imports GoStd
begin

text \<open>
  What leaves the process for error tracking: \<^verbatim>\<open>internal/observability/sentry.go\<close>.
  \<^verbatim>\<open>CaptureHTTPError\<close> makes an event of a 5xx response, and
  \<^verbatim>\<open>scrubEvent\<close> is the hook every event passes before it is sent: it drops
  what can carry credentials and redacts the e-mail addresses of the text that is left.
\<close>

section \<open>Redaction\<close>

definition in_range :: "nat \<Rightarrow> nat \<Rightarrow> char \<Rightarrow> bool" where
  "in_range lo hi c \<longleftrightarrow> lo \<le> of_char c \<and> of_char c \<le> hi"

definition letter :: "char \<Rightarrow> bool" where
  "letter c \<longleftrightarrow> in_range 65 90 c \<or> in_range 97 122 c"

definition domain_char :: "char \<Rightarrow> bool" where
  "domain_char c \<longleftrightarrow> letter c \<or> in_range 48 57 c \<or> c = CHR ''.'' \<or> c = CHR ''-''"

definition local_char :: "char \<Rightarrow> bool" where
  "local_char c \<longleftrightarrow> domain_char c \<or> c = CHR ''_'' \<or> c = CHR ''%'' \<or> c = CHR ''+''"

text \<open>
  \<^verbatim>\<open>emailPattern\<close> matched at the beginning of a text, with the regular
  expression's preferences: the longest local part, the longest domain that leaves a point and
  two letters, the longest run of letters.  The result is the length of the match.
\<close>

definition tld_at :: "string \<Rightarrow> nat \<Rightarrow> nat" where
  "tld_at s k = length (takeWhile letter (drop (Suc k) s))"

definition domain_match :: "string \<Rightarrow> nat option" where
  "domain_match s =
     (let r = takeWhile domain_char s in
      map_option (\<lambda>k. Suc k + tld_at r k)
        (find (\<lambda>k. r ! k = CHR ''.'' \<and> 2 \<le> tld_at r k) (rev [1..<length r])))"

definition email_match :: "string \<Rightarrow> nat option" where
  "email_match s =
     (let l = takeWhile local_char s in
      if l = [] then None
      else case drop (length l) s of
             [] \<Rightarrow> None
           | c # r \<Rightarrow>
               if c = CHR ''@'' then map_option (\<lambda>n. length l + Suc n) (domain_match r) else None)"

definition redactedEmail :: string where "redactedEmail = ''[redacted-email]''"

lemma email_match_pos: "email_match s = Some n \<Longrightarrow> 0 < n"
  by (auto simp: email_match_def Let_def split: list.splits if_splits)

text \<open>\<^verbatim>\<open>ReplaceAllString\<close>: the leftmost match is replaced, and the search
  goes on after it.\<close>

function redactEmails :: "string \<Rightarrow> string" where
  "redactEmails s =
     (case s of
        [] \<Rightarrow> []
      | c # r \<Rightarrow>
          (case email_match s of
             Some n \<Rightarrow> redactedEmail @ redactEmails (drop n s)
           | None \<Rightarrow> c # redactEmails r))"
  by pat_completeness auto
termination by (relation "measure length") (auto dest: email_match_pos)

declare redactEmails.simps [simp del]

text \<open>An e-mail address of the pattern's form, and a text that has none.\<close>

definition address :: "string \<Rightarrow> bool" where
  "address a \<longleftrightarrow>
     (\<exists>l d tld. a = l @ CHR ''@'' # d @ CHR ''.'' # tld \<and> l \<noteq> [] \<and> list_all local_char l \<and>
        d \<noteq> [] \<and> list_all domain_char d \<and> 2 \<le> length tld \<and> list_all letter tld)"

definition no_address :: "string \<Rightarrow> bool" where
  "no_address s \<longleftrightarrow> (\<forall>pre a post. s = pre @ a @ post \<longrightarrow> \<not> address a)"

lemma letter_domain: "letter c \<Longrightarrow> domain_char c"
  by (simp add: domain_char_def)

lemma at_not_local: "\<not> local_char (CHR ''@'')"
  by (simp add: local_char_def domain_char_def letter_def in_range_def)

lemma brackets_not_local: "\<not> local_char (CHR ''['')" "\<not> local_char (CHR '']'')"
  by (simp_all add: local_char_def domain_char_def letter_def in_range_def)

lemma takeWhile_prefix_all: "list_all P xs \<Longrightarrow> takeWhile P (xs @ ys) = xs @ takeWhile P ys"
  by (induction xs) auto

text \<open>A match is found whenever there is an address at the front.\<close>

lemma domain_match_complete:
  assumes "d \<noteq> []" and "list_all domain_char d" and "2 \<le> length tld" and "list_all letter tld"
  shows "domain_match (d @ CHR ''.'' # tld @ post) \<noteq> None"
proof -
  let ?s = "d @ CHR ''.'' # tld @ post"
  let ?r = "takeWhile domain_char ?s"
  have tld: "list_all domain_char tld" using assms(4) by (auto simp: list_all_iff letter_domain)
  have dot: "domain_char (CHR ''.'')" by (simp add: domain_char_def)
  have r: "?r = d @ CHR ''.'' # tld @ takeWhile domain_char post"
    using takeWhile_prefix_all[OF assms(2)] takeWhile_prefix_all[OF tld] dot by simp
  have "?r ! length d = CHR ''.''" unfolding r by (simp add: nth_append)
  moreover have "2 \<le> tld_at ?r (length d)"
    unfolding r tld_at_def using takeWhile_prefix_all[OF assms(4)] assms(3) by simp
  moreover have "length d \<in> set (rev [1..<length ?r])"
    unfolding r using assms(1) by (simp add: Suc_le_eq)
  ultimately have "find (\<lambda>k. ?r ! k = CHR ''.'' \<and> 2 \<le> tld_at ?r k) (rev [1..<length ?r]) \<noteq> None"
    unfolding find_None_iff by blast
  then show ?thesis by (simp add: domain_match_def Let_def)
qed

lemma email_match_complete:
  assumes "address a"
  shows "email_match (a @ post) \<noteq> None"
proof -
  obtain l d tld where a: "a = l @ CHR ''@'' # d @ CHR ''.'' # tld" "l \<noteq> []" "list_all local_char l"
    "d \<noteq> []" "list_all domain_char d" "2 \<le> length tld" "list_all letter tld"
    using assms by (auto simp: address_def)
  have "takeWhile local_char (a @ post) = l"
    unfolding a(1) using takeWhile_prefix_all[OF a(3)] at_not_local by simp
  then show ?thesis
    using domain_match_complete[OF a(4-7), of post] a(1,2) by (simp add: email_match_def Let_def)
qed

lemma address_chars:
  assumes "address a" and "c \<in> set a"
  shows "local_char c \<or> c = CHR ''@''"
  using assms letter_domain by (auto simp: address_def list_all_iff local_char_def domain_char_def)

lemma address_no_bracket: "address a \<Longrightarrow> CHR ''['' \<notin> set a \<and> CHR '']'' \<notin> set a"
  using address_chars[of a "CHR ''[''"] address_chars[of a "CHR '']''"] brackets_not_local by auto

text \<open>Up to the first bracket, the redacted text is the text.\<close>

lemma redact_prefix: "prefix p (redactEmails s) \<Longrightarrow> CHR ''['' \<notin> set p \<Longrightarrow> prefix p s"
proof (induction s arbitrary: p rule: redactEmails.induct)
  case (1 s)
  show ?case
  proof (cases p)
    case Nil
    then show ?thesis by simp
  next
    case (Cons x p')
    obtain c r where s: "s = c # r"
      using "1.prems"(1) Cons by (cases s) (auto simp: redactEmails.simps[of "[]"])
    have none: "email_match s = None"
      using "1.prems" Cons s by (cases "email_match s") (auto simp: redactEmails.simps[of "c # r"] redactedEmail_def)
    with "1.prems" Cons s have "x = c" "prefix p' (redactEmails r)"
      by (auto simp: redactEmails.simps[of "c # r"])
    moreover have "prefix p' r"
      using "1.IH"(1)[OF s none] \<open>prefix p' (redactEmails r)\<close> "1.prems"(2) Cons by simp
    ultimately show ?thesis using Cons s by simp
  qed
qed

lemma no_address_Cons:
  assumes "no_address s" and "\<And>a post. c # s = a @ post \<Longrightarrow> \<not> address a"
  shows "no_address (c # s)"
  unfolding no_address_def
proof (intro allI impI)
  fix pre a post assume eq: "c # s = pre @ a @ post"
  show "\<not> address a"
  proof (cases pre)
    case Nil
    then show ?thesis using assms(2) eq by simp
  next
    case (Cons x pre')
    then show ?thesis using assms(1) eq by (auto simp: no_address_def)
  qed
qed

text \<open>Text without an at sign that ends in a bracket cannot begin an address.\<close>

lemma prefix_stop: "c \<notin> set a \<Longrightarrow> prefix a (xs @ c # s) \<Longrightarrow> prefix a xs"
  by (auto simp: prefix_append prefix_Cons)

lemma no_address_placeholder:
  "no_address s \<Longrightarrow> CHR ''@'' \<notin> set p \<Longrightarrow> no_address (p @ CHR '']'' # s)"
proof (induction p)
  case Nil
  have "\<not> address a" if "CHR '']'' # s = a @ post" for a post
  proof (cases a)
    case Nil
    then show ?thesis by (simp add: address_def)
  next
    case (Cons x a')
    then show ?thesis using that address_no_bracket[of a] by auto
  qed
  with Nil show ?case using no_address_Cons[of s "CHR '']''"] by simp
next
  case (Cons x p)
  have "\<not> address a" if "x # p @ CHR '']'' # s = a @ post" for a post
  proof
    assume a: "address a"
    then have "CHR ''@'' \<in> set a" by (auto simp: address_def)
    moreover have "CHR '']'' \<notin> set a" using address_no_bracket a by blast
    moreover have "prefix a ((x # p) @ CHR '']'' # s)" using that by (simp add: prefix_def)
    ultimately have "prefix a (x # p)"
      using prefix_stop[of "CHR '']''" a "x # p" s] by blast
    then show False using \<open>CHR ''@'' \<in> set a\<close> Cons.prems(2) set_mono_prefix by (metis subsetD)
  qed
  then show ?case using Cons no_address_Cons[of "p @ CHR '']'' # s" x] by simp
qed

lemma redacted_has_no_address: "no_address (redactEmails s)"
proof (induction s rule: redactEmails.induct)
  case (1 s)
  show ?case
  proof (cases s)
    case Nil
    then show ?thesis by (auto simp: redactEmails.simps[of "[]"] no_address_def address_def)
  next
    case (Cons c r)
    show ?thesis
    proof (cases "email_match s")
      case (Some n)
      have "no_address (redactEmails (drop n s))" using "1.IH"(2)[OF Cons Some] .
      then have "no_address (''[redacted-email'' @ CHR '']'' # redactEmails (drop n s))"
        by (rule no_address_placeholder) simp
      then show ?thesis using Cons Some by (simp add: redactEmails.simps[of "c # r"] redactedEmail_def)
    next
      case None
      have "\<not> address a" if eq: "c # redactEmails r = a @ post" for a post
      proof
        assume a: "address a"
        then obtain a' where a': "a = c # a'" using eq by (cases a) (auto simp: address_def)
        then have "prefix a' r"
          using redact_prefix[of a' r] eq address_no_bracket[OF a] by (auto simp: prefix_def)
        then obtain u where "s = a @ u" using Cons a' by (auto simp: prefix_def)
        then show False using email_match_complete[OF a, of u] None by simp
      qed
      then have "no_address (c # redactEmails r)"
        using no_address_Cons "1.IH"(1)[OF Cons None] by blast
      then show ?thesis using Cons None by (simp add: redactEmails.simps[of "c # r"])
    qed
  qed
qed

section \<open>Events\<close>

text \<open>
  The fields of a \<^verbatim>\<open>sentry.Event\<close> that the code sets or scrubs; a value of
  a context or of a breadcrumb's data is a string or anything else.
\<close>

datatype sentry_value = SString string | SOther

type_synonym sentry_context = "string \<rightharpoonup> sentry_value"

record sentry_request =
  rq_URL :: string
  rq_Data :: string
  rq_QueryString :: string
  rq_Cookies :: string
  rq_Headers :: "string \<rightharpoonup> string"

record sentry_user =
  su_ID :: string
  su_Email :: string
  su_Username :: string
  su_Name :: string

record sentry_breadcrumb =
  bc_Message :: string
  bc_Data :: "sentry_context option"

record sentry_event =
  ev_Message :: string
  ev_Exception :: "string list"
  ev_Request :: "sentry_request option"
  ev_User :: sentry_user
  ev_Contexts :: "string \<rightharpoonup> sentry_context"
  ev_Breadcrumbs :: "sentry_breadcrumb list"
  ev_Tags :: "string \<rightharpoonup> string"

text \<open>\<^verbatim>\<open>strings.ToLower\<close> of a header name, whose characters are ASCII, and
  \<^verbatim>\<open>strings.Contains\<close>.\<close>

definition lower :: "string \<Rightarrow> string" where
  "lower = map (\<lambda>c. if in_range 65 90 c then char_of (of_char c + 32 :: nat) else c)"

definition contains :: "string \<Rightarrow> string \<Rightarrow> bool" where
  "contains s sub \<longleftrightarrow> list_ex (prefix sub) (suffixes s)"

definition isSensitiveHeader :: "string \<Rightarrow> bool" where
  "isSensitiveHeader name =
     (let l = lower name in
      if l \<in> {''authorization'', ''cookie'', ''set-cookie'', ''proxy-authorization''} then True
      else contains l ''auth'' \<or> contains l ''token'')"

definition scrubRequest :: "sentry_request option \<Rightarrow> sentry_request option" where
  "scrubRequest req =
     (case req of
        None \<Rightarrow> None
      | Some r \<Rightarrow> Some (r\<lparr>rq_Data := [], rq_Cookies := [], rq_URL := [], rq_QueryString := [],
          rq_Headers := (\<lambda>name. if isSensitiveHeader name then None else rq_Headers r name)\<rparr>))"

text \<open>The strings of a map, without the two entries that hold what the user looked at.\<close>

definition scrubContext :: "sentry_context \<Rightarrow> sentry_context" where
  "scrubContext ctx =
     (\<lambda>k. if k = ''url'' \<or> k = ''window_title'' then None
          else map_option (\<lambda>v. case v of SString s \<Rightarrow> SString (redactEmails s) | SOther \<Rightarrow> SOther) (ctx k))"

definition scrubBreadcrumb :: "sentry_breadcrumb \<Rightarrow> sentry_breadcrumb" where
  "scrubBreadcrumb b =
     b\<lparr>bc_Message := redactEmails (bc_Message b), bc_Data := map_option scrubContext (bc_Data b)\<rparr>"

definition scrubEvent :: "sentry_event \<Rightarrow> sentry_event" where
  "scrubEvent e =
     e\<lparr>ev_Request := scrubRequest (ev_Request e),
       ev_User := (ev_User e)\<lparr>su_Email := [], su_Username := [], su_Name := []\<rparr>,
       ev_Message := redactEmails (ev_Message e),
       ev_Exception := map redactEmails (ev_Exception e),
       ev_Contexts := (\<lambda>k. map_option scrubContext (ev_Contexts e k)),
       ev_Breadcrumbs := map scrubBreadcrumb (ev_Breadcrumbs e)\<rparr>"

text \<open>The event of an error response; the hub adds nothing that the model does not leave to
  its caller.\<close>

definition empty_event :: sentry_event where
  "empty_event =
     \<lparr>ev_Message = [], ev_Exception = [], ev_Request = None,
      ev_User = \<lparr>su_ID = [], su_Email = [], su_Username = [], su_Name = []\<rparr>,
      ev_Contexts = Map.empty, ev_Breadcrumbs = [], ev_Tags = Map.empty\<rparr>"

definition CaptureHTTPError :: "string \<Rightarrow> nat \<Rightarrow> string \<Rightarrow> string \<Rightarrow> string \<Rightarrow> sentry_event option" where
  "CaptureHTTPError reqID status errType title detail =
     (if status < 500 then None
      else Some (empty_event\<lparr>ev_Exception := [title @ '': '' @ detail],
        ev_Tags := [''request_id'' \<mapsto> reqID, ''http.status_code'' \<mapsto> format_nat status,
                    ''http.error_type'' \<mapsto> errType]\<rparr>))"

text \<open>The texts of an event that the hook goes over.\<close>

definition context_texts :: "sentry_context \<Rightarrow> string set" where
  "context_texts ctx = {s. SString s \<in> ran ctx}"

definition scrubbed_texts :: "sentry_event \<Rightarrow> string set" where
  "scrubbed_texts e =
     {ev_Message e} \<union> set (ev_Exception e) \<union> (\<Union>ctx\<in>ran (ev_Contexts e). context_texts ctx) \<union>
     (\<Union>b\<in>set (ev_Breadcrumbs e). {bc_Message b} \<union>
        (case bc_Data b of None \<Rightarrow> {} | Some d \<Rightarrow> context_texts d))"

text \<open>The headers that carry a credential: the names that contain \<^verbatim>\<open>auth\<close>,
  \<^verbatim>\<open>token\<close> or \<^verbatim>\<open>cookie\<close>, in letters of either case, the last one only as a
  whole or after \<^verbatim>\<open>set-\<close>.\<close>

definition same_letters :: "string \<Rightarrow> string \<Rightarrow> bool" where
  "same_letters s t \<longleftrightarrow>
     list_all2 (\<lambda>a b. a = b \<or> (in_range 65 90 a \<and> of_char b = (of_char a + 32 :: nat))) s t"

definition credential_header :: "string \<Rightarrow> bool" where
  "credential_header name \<longleftrightarrow>
     (\<exists>pre mid post. name = pre @ mid @ post \<and> (same_letters mid ''auth'' \<or> same_letters mid ''token'')) \<or>
     same_letters name ''cookie'' \<or> same_letters name ''set-cookie''"

lemma same_letters_lower: "list_all (\<lambda>c. \<not> in_range 65 90 c) t \<Longrightarrow> same_letters s t \<longleftrightarrow> lower s = t"
proof (induction t arbitrary: s)
  case (Cons b t)
  show ?case
  proof (cases s)
    case s: (Cons a s')
    have "(a = b \<or> (in_range 65 90 a \<and> of_char b = (of_char a + 32 :: nat))) \<longleftrightarrow> (if in_range 65 90 a then char_of (of_char a + 32 :: nat) else a) = b"
    proof (cases "in_range 65 90 a")
      case True
      then have "of_char (char_of (of_char a + 32 :: nat)) = (of_char a + 32 :: nat)" by (simp add: in_range_def)
      then show ?thesis using True Cons.prems by (auto simp del: of_char_of) (metis char_of_char)
    qed simp
    then show ?thesis using s Cons by (simp add: same_letters_def lower_def)
  qed (simp add: same_letters_def lower_def)
qed (auto simp: same_letters_def lower_def)

lemma contains_iff: "contains s sub \<longleftrightarrow> (\<exists>pre post. s = pre @ sub @ post)"
proof -
  have "contains s sub \<longleftrightarrow> (\<exists>u. suffix u s \<and> prefix sub u)" by (auto simp: contains_def list_ex_iff)
  then show ?thesis unfolding suffix_def prefix_def by blast
qed

lemma lower_infix: "(\<exists>pre post. lower name = pre @ sub @ post) \<longleftrightarrow> (\<exists>pre mid post. name = pre @ mid @ post \<and> lower mid = sub)"
proof
  assume "\<exists>pre post. lower name = pre @ sub @ post"
  then obtain pre post where e: "lower name = pre @ sub @ post" by blast
  let ?mid = "take (length sub) (drop (length pre) name)"
  have "name = take (length pre) name @ ?mid @ drop (length sub) (drop (length pre) name)"
    by (simp only: append_take_drop_id)
  moreover have "lower ?mid = take (length sub) (drop (length pre) (lower name))"
    unfolding lower_def take_map[symmetric] drop_map[symmetric] ..
  then have "lower ?mid = sub" by (simp only: e append_eq_conv_conj) simp
  ultimately show "\<exists>pre mid post. name = pre @ mid @ post \<and> lower mid = sub" by blast
next
  assume "\<exists>pre mid post. name = pre @ mid @ post \<and> lower mid = sub"
  then obtain pre mid post where "name = pre @ mid @ post" "lower mid = sub" by blast
  then have "lower name = lower pre @ sub @ lower post" by (simp add: lower_def)
  then show "\<exists>pre post. lower name = pre @ sub @ post" by blast
qed

lemma credential_header_iff: "isSensitiveHeader name \<longleftrightarrow> credential_header name"
proof -
  have low: "list_all (\<lambda>c. \<not> in_range 65 90 c) ''auth''" "list_all (\<lambda>c. \<not> in_range 65 90 c) ''token''"
    "list_all (\<lambda>c. \<not> in_range 65 90 c) ''cookie''" "list_all (\<lambda>c. \<not> in_range 65 90 c) ''set-cookie''"
    by (simp_all add: in_range_def)
  have auth: "contains ''authorization'' ''auth''" "contains ''proxy-authorization'' ''auth''" by code_simp+
  have "credential_header name \<longleftrightarrow> contains (lower name) ''auth'' \<or> contains (lower name) ''token'' \<or>
      lower name = ''cookie'' \<or> lower name = ''set-cookie''"
    unfolding credential_header_def same_letters_lower[OF low(1)] same_letters_lower[OF low(2)] same_letters_lower[OF low(3)]
      same_letters_lower[OF low(4)] contains_iff lower_infix by blast
  moreover have "isSensitiveHeader name \<longleftrightarrow> contains (lower name) ''auth'' \<or> contains (lower name) ''token'' \<or>
      lower name = ''cookie'' \<or> lower name = ''set-cookie''"
    unfolding isSensitiveHeader_def Let_def using auth by auto
  ultimately show ?thesis by simp
qed

lemma scrubContext_texts: "s \<in> context_texts (scrubContext ctx) \<Longrightarrow> no_address s"
proof -
  assume "s \<in> context_texts (scrubContext ctx)"
  then obtain k where "scrubContext ctx k = Some (SString s)" by (auto simp: context_texts_def ran_def)
  then obtain v where "ctx k = Some v"
    "(case v of SString s \<Rightarrow> SString (redactEmails s) | SOther \<Rightarrow> SOther) = SString s"
    by (auto simp: scrubContext_def split: if_splits)
  then show ?thesis by (cases v) (auto simp: redacted_has_no_address)
qed

lemma scrubContext_keys: "scrubContext ctx ''url'' = None" "scrubContext ctx ''window_title'' = None"
  by (simp_all add: scrubContext_def)



text \<open>A header that is not a credential's keeps the address it holds.\<close>

lemma header_address_stays:
  "map_option (\<lambda>r. rq_Headers r ''From'') (ev_Request (scrubEvent (empty_event\<lparr>ev_Request := Some
     \<lparr>rq_URL = [], rq_Data = [], rq_QueryString = [], rq_Cookies = [], rq_Headers = [''From'' \<mapsto> ''ann@example.com'']\<rparr>\<rparr>))) =
   Some (Some ''ann@example.com'')"
  by code_simp

text \<open>An address of a host without a point is not one of the pattern's: it stays.\<close>

lemma dotless_address_stays: "redactEmails ''ann@localhost'' = ''ann@localhost''"
  by code_simp

end
