(* ===== verification/Http.thy ===== *)
theory Http
  imports JsonText Password Observability Seq
begin

text \<open>
  The edge of the service: requests and responses, \<^verbatim>\<open>internal/httpx/httpx.go\<close>,
  the identity of \<^verbatim>\<open>internal/auth/context.go\<close>, the verification of access tokens
  in \<^verbatim>\<open>internal/auth/token.go\<close>, and the two guards of
  \<^verbatim>\<open>internal/middleware/auth.go\<close>.  The router, the JWT library and the texts of
  errors are code outside the repository: arguments of the definitions that use them.
\<close>

section \<open>Requests\<close>

text \<open>
  The parts of a request that a handler reads: the \<^verbatim>\<open>Authorization\<close> header, the
  first value of a query parameter (empty when absent), the body, and the request id that
  chi's middleware put in the context.  The router adds the parameters of the path, and the guard
  the identity.
\<close>

record http_request =
  hr_Authorization :: string
  hr_Query :: "string \<Rightarrow> string"
  hr_Body :: string
  hr_RequestID :: string

record Identity =
  id_UserID :: string
  id_Role :: string
  id_DeviceID :: string

section \<open>Responses\<close>

record Problem =
  pb_Type :: string
  pb_Title :: string
  pb_Status :: nat
  pb_Detail :: detail

datatype 'p content = NoContent | Payload 'p | ProblemBody Problem

text \<open>A response: its status and body, the echoed request id (when there is one), and the
  event that writing it sent to error tracking.\<close>

record 'p response =
  rs_Status :: nat
  rs_Content :: "'p content"
  rs_RequestID :: string
  rs_Captured :: "sentry_event option"

definition WriteJSON :: "http_request \<Rightarrow> nat \<Rightarrow> 'p \<Rightarrow> 'p response" where
  "WriteJSON r status payload =
     \<lparr>rs_Status = status, rs_Content = Payload payload, rs_RequestID = hr_RequestID r, rs_Captured = None\<rparr>"

text \<open>\<^verbatim>\<open>text\<close> is the rendering of an error's detail.\<close>

definition WriteError :: "(detail \<Rightarrow> string) \<Rightarrow> http_request \<Rightarrow> nat \<Rightarrow> string \<Rightarrow> string \<Rightarrow> detail \<Rightarrow> 'p response" where
  "WriteError render r status errType title det =
     \<lparr>rs_Status = status,
      rs_Content = ProblemBody \<lparr>pb_Type = errType, pb_Title = title, pb_Status = status, pb_Detail = det\<rparr>,
      rs_RequestID = hr_RequestID r,
      rs_Captured = CaptureHTTPError (hr_RequestID r) status errType title (render det)\<rparr>"

text \<open>\<^verbatim>\<open>w.WriteHeader\<close> alone: no body, and no echo of the request id.\<close>

definition WriteHeader :: "nat \<Rightarrow> 'p response" where
  "WriteHeader status = \<lparr>rs_Status = status, rs_Content = NoContent, rs_RequestID = [], rs_Captured = None\<rparr>"

definition errNS :: string where "errNS = ''https://api.rize-clone.example/errors/''"

definition internal_error :: "(detail \<Rightarrow> string) \<Rightarrow> http_request \<Rightarrow> 'p response" where
  "internal_error render r =
     WriteError render r 500 (errNS @ ''internal-error'') ''Internal Server Error'' (Msg ''An unexpected error occurred.'')"

definition writeUnauthenticated :: "(detail \<Rightarrow> string) \<Rightarrow> http_request \<Rightarrow> 'p response" where
  "writeUnauthenticated render r =
     WriteError render r 401 (errNS @ ''unauthenticated'') ''Unauthenticated'' (Msg ''A valid access token is required.'')"

definition writeValidationError :: "(detail \<Rightarrow> string) \<Rightarrow> http_request \<Rightarrow> detail \<Rightarrow> 'p response" where
  "writeValidationError render r det =
     WriteError render r 400 (errNS @ ''validation-error'') ''Validation Error'' det"

section \<open>Access tokens\<close>

text \<open>
  \<^verbatim>\<open>jwt.ParseWithClaims\<close> with the server's public key: it is told the algorithms it
  may accept and asks its caller for the key, which refuses a method that is not RSA; it yields
  the claims and the token's \<^verbatim>\<open>Valid\<close>.  The library compares the expiry in the claims
  with its own reading of the clock: a value of this type is the library at one instant.
\<close>

type_synonym jwt_parse = "string list \<Rightarrow> (bool \<Rightarrow> bool) \<Rightarrow> string \<Rightarrow> (AccessTokenClaims \<times> bool) option"

definition VerifyAccessToken :: "jwt_parse \<Rightarrow> string \<Rightarrow> AccessTokenClaims option" where
  "VerifyAccessToken parse tokenString =
     (case parse [''RS256''] (\<lambda>is_rsa. is_rsa) tokenString of
        None \<Rightarrow> None
      | Some (claims, valid) \<Rightarrow> if valid then Some claims else None)"

section \<open>Guards\<close>

definition bearer :: string where "bearer = ''Bearer ''"

text \<open>The identity a request proves, if it does: the prefix, a token that is not blank, and its
  claims.\<close>

definition authenticated :: "jwt_parse \<Rightarrow> http_request \<Rightarrow> Identity option" where
  "authenticated parse r =
     (let header = hr_Authorization r in
      if \<not> prefix bearer header then None
      else let tokenString = TrimSpace (drop (length bearer) header) in
        if tokenString = [] then None
        else map_option
               (\<lambda>claims. \<lparr>id_UserID = cl_Subject claims, id_Role = cl_Role claims, id_DeviceID = cl_DeviceID claims\<rparr>)
               (VerifyAccessToken parse tokenString))"

text \<open>
  A handler, with the identity in the context (if any) and the parameters of the path.  A guard
  is a function of handlers, as a chi middleware is.
\<close>

type_synonym 'p handler =
  "Identity option \<Rightarrow> (string \<Rightarrow> string) \<Rightarrow> http_request \<Rightarrow> world \<Rightarrow> 'p response \<times> world"

definition Authenticate :: "jwt_parse \<Rightarrow> (detail \<Rightarrow> string) \<Rightarrow> 'p handler \<Rightarrow> 'p handler" where
  "Authenticate parse render h ident params r w =
     (case authenticated parse r of
        None \<Rightarrow> (writeUnauthenticated render r, w)
      | Some i \<Rightarrow> h (Some i) params r w)"

definition RequireRole :: "(detail \<Rightarrow> string) \<Rightarrow> string \<Rightarrow> 'p handler \<Rightarrow> 'p handler" where
  "RequireRole render role h ident params r w =
     (case ident of
        None \<Rightarrow> (writeUnauthenticated render r, w)
      | Some i \<Rightarrow>
          if id_Role i \<noteq> role then
            (WriteError render r 403 (errNS @ ''forbidden'') ''Forbidden''
               (Msg ''You do not have permission to access this resource.''), w)
          else h ident params r w)"

section \<open>What handlers share\<close>

text \<open>The check of the context at the head of every handler of a protected route.\<close>

definition with_identity :: "(detail \<Rightarrow> string) \<Rightarrow> (Identity \<Rightarrow> (string \<Rightarrow> string) \<Rightarrow> http_request \<Rightarrow> world \<Rightarrow> 'p response \<times> world) \<Rightarrow> 'p handler" where
  "with_identity render h ident params r w =
     (case ident of None \<Rightarrow> (writeUnauthenticated render r, w) | Some i \<Rightarrow> h i params r w)"

text \<open>The decoding of the body at the head of a handler that takes one.\<close>

definition decodeJSON :: "(detail \<Rightarrow> string) \<Rightarrow> (json option \<Rightarrow> 'q option) \<Rightarrow> http_request \<Rightarrow> ('q \<Rightarrow> world \<Rightarrow> 'p response \<times> world) \<Rightarrow> world \<Rightarrow> 'p response \<times> world" where
  "decodeJSON render unmarshal_req r k w =
     (case (case first_value (hr_Body r) of None \<Rightarrow> None | Some j \<Rightarrow> unmarshal_req (Some j)) of
        None \<Rightarrow>
          (WriteError render r 400 (errNS @ ''invalid-request-body'') ''Invalid Request Body''
             (Msg ''The request body is missing or is not valid JSON.''), w)
      | Some req \<Rightarrow> k req w)"

text \<open>The \<^verbatim>\<open>limit\<close> parameter: absent is 0.\<close>

definition query_limit :: "string \<Rightarrow> int option" where
  "query_limit raw =
     (if raw = [] then Some 0
      else case parse_int64 raw of None \<Rightarrow> None | Some n \<Rightarrow> if n \<le> 0 then None else Some n)"

text \<open>The end of a handler: the mapped error, or what a result becomes.\<close>

definition respond :: "('e \<Rightarrow> 'p response) \<Rightarrow> ('a \<Rightarrow> 'p response) \<Rightarrow> ('e + 'a) \<times> world \<Rightarrow> 'p response \<times> world" where
  "respond err ok p = (case p of (Inl e, w) \<Rightarrow> (err e, w) | (Inr a, w) \<Rightarrow> (ok a, w))"

lemma snd_respond [simp]: "snd (respond err ok p) = snd p"
  by (auto simp: respond_def split: prod.splits sum.splits)

lemma status_simps [simp]:
  "rs_Status (WriteError render r s t ti d) = s" "rs_Status (WriteJSON r s p) = s" "rs_Status (WriteHeader s) = s"
  "rs_Status (internal_error render r) = 500" "rs_Status (writeUnauthenticated render r) = 401"
  "rs_Status (writeValidationError render r d) = 400"
  by (simp_all add: WriteError_def WriteJSON_def WriteHeader_def internal_error_def writeUnauthenticated_def
      writeValidationError_def)

text \<open>Error tracking is told of server errors and of nothing else.\<close>

lemma captured_iff_server_error:
  "rs_Captured (WriteError render r s t ti d) \<noteq> None \<longleftrightarrow> 500 \<le> s"
  "rs_Captured (WriteJSON r s p) = None" "rs_Captured (WriteHeader s) = None"
  by (simp_all add: WriteError_def WriteJSON_def WriteHeader_def CaptureHTTPError_def)

end
