(* ===== verification/AuthStore.thy ===== *)
theory AuthStore
  imports SyncStore
begin

text \<open>
  The queries behind accounts, devices and refresh tokens:
  \<^verbatim>\<open>users.sql.go\<close>, \<^verbatim>\<open>devices.sql.go\<close>,
  \<^verbatim>\<open>refresh_tokens.sql.go\<close> and \<^verbatim>\<open>login_lockout.sql.go\<close>,
  with the constraints of migrations 3, 4, 5, 20 and 28.  A write to \<^verbatim>\<open>users\<close>
  draws a sequence number (migration 22) but is not in the changelog.  The column
  \<^verbatim>\<open>email\<close> is \<^verbatim>\<open>citext\<close>: two addresses are equal when the
  database's case folding of them is, a parameter of the queries.
\<close>

section \<open>Updating rows\<close>

text \<open>
  \<^verbatim>\<open>UPDATE ... WHERE ... RETURNING\<close> of one row by its primary key, and
  \<^verbatim>\<open>UPDATE ... WHERE\<close> of any number of rows.
\<close>

definition update_where :: "('r \<Rightarrow> bool) \<Rightarrow> ('r \<Rightarrow> 'r) \<Rightarrow> 'r list \<Rightarrow> 'r list" where
  "update_where P upd = map (\<lambda>r. if P r then upd r else r)"

definition update_one :: "(db \<Rightarrow> 'r list) \<Rightarrow> (('r list \<Rightarrow> 'r list) \<Rightarrow> db \<Rightarrow> db) \<Rightarrow> ('r \<Rightarrow> bool) \<Rightarrow> ('r \<Rightarrow> 'r) \<Rightarrow> world \<Rightarrow> (db_error + 'r) \<times> world" where
  "update_one tab upd_tab P upd w =
     (case filter P (tab (dbs w)) of
        [] \<Rightarrow> (Inl NoRows, w)
      | r # _ \<Rightarrow> (Inr (upd r), w\<lparr>dbs := upd_tab (update_where P upd) (dbs w)\<rparr>))"

definition update_all :: "(('r list \<Rightarrow> 'r list) \<Rightarrow> db \<Rightarrow> db) \<Rightarrow> ('r \<Rightarrow> bool) \<Rightarrow> ('r \<Rightarrow> 'r) \<Rightarrow> world \<Rightarrow> (db_error + unit) \<times> world" where
  "update_all upd_tab P upd w = (Inr (), w\<lparr>dbs := upd_tab (update_where P upd) (dbs w)\<rparr>)"

lemma update_where_Nil [simp]: "update_where P upd [] = []"
  and update_where_Cons [simp]:
    "update_where P upd (r # rs) = (if P r then upd r else r) # update_where P upd rs"
  and update_where_append [simp]:
    "update_where P upd (rs @ ss) = update_where P upd rs @ update_where P upd ss"
  by (simp_all add: update_where_def)

lemma set_update_where: "set (update_where P upd rs) = (\<lambda>r. if P r then upd r else r) ` set rs"
  by (simp add: update_where_def)

lemma update_where_none: "(\<And>r. r \<in> set rs \<Longrightarrow> \<not> P r) \<Longrightarrow> update_where P upd rs = rs"
  by (induction rs) auto

section \<open>Users\<close>

record CreateUserParams =
  cu_Email :: "string option"
  cu_PasswordHash :: "string option"
  cu_AppleUserID :: "string option"
  cu_DisplayName :: "string option"
  cu_Role :: string
  cu_Timezone :: "string option"

definition live_user :: "user \<Rightarrow> bool" where
  "live_user u \<longleftrightarrow> us_deleted_at u = None"

text \<open>\<^verbatim>\<open>UNIQUE\<close> over a nullable column: nulls do not clash.  The deleted
  users keep their address.\<close>

definition email_taken :: "(string \<Rightarrow> string) \<Rightarrow> string option \<Rightarrow> db \<Rightarrow> bool" where
  "email_taken lower email d \<longleftrightarrow>
     (\<exists>e. email = Some e \<and> (\<exists>u\<in>set (users d). map_option lower (us_email u) = Some (lower e)))"

definition apple_taken :: "string option \<Rightarrow> db \<Rightarrow> bool" where
  "apple_taken a d \<longleftrightarrow> a \<noteq> None \<and> a \<in> us_apple_user_id ` set (users d)"

definition user_row :: "CreateUserParams \<Rightarrow> uuid \<Rightarrow> time \<Rightarrow> int \<Rightarrow> user" where
  "user_row arg i now seq =
     \<lparr>us_id = i, us_email = cu_Email arg, us_password_hash = cu_PasswordHash arg,
      us_apple_user_id = cu_AppleUserID arg, us_display_name = cu_DisplayName arg,
      us_role = cu_Role arg, us_timezone = cu_Timezone arg, us_created_at = pg_ts now,
      us_updated_at = pg_ts now, us_deleted_at = None, us_server_seq = seq,
      us_failed_login_attempts = 0, us_lockout_count = 0, us_locked_until = None\<rparr>"

definition CreateUser :: "(string \<Rightarrow> string) \<Rightarrow> CreateUserParams \<Rightarrow> world \<Rightarrow> (db_error + user) \<times> world" where
  "CreateUser lower arg =
     exec_txt (opt_text (cu_Email arg) @ opt_text (cu_PasswordHash arg) @ opt_text (cu_AppleUserID arg) @
               opt_text (cu_DisplayName arg) @ [cu_Role arg] @ opt_text (cu_Timezone arg)) (\<lambda>w0.
       case gen_random_uuid w0 of (i, w1) \<Rightarrow>
       (case next_server_seq w1 of (seq, w) \<Rightarrow>
          let d = dbs w; row = user_row arg i (pg_now w) seq in
          if cu_Role arg \<notin> {''user'', ''admin''} then (Inl (PgError ''23514'' ''users_role_check''), w)
          else if user_exists d i then (Inl (PgError ''23505'' ''users_pkey''), w)
          else if email_taken lower (cu_Email arg) d then (Inl (PgError ''23505'' ''users_email_key''), w)
          else if apple_taken (cu_AppleUserID arg) d then
            (Inl (PgError ''23505'' ''users_apple_user_id_key''), w)
          else if \<not> list_all (\<lambda>t. index_fits d [t]) (opt_text (cu_Email arg) @ opt_text (cu_AppleUserID arg)) then
            (Inl (PgError ''54000'' ''''), w)
          else (Inr row, w\<lparr>dbs := d\<lparr>users := users d @ [row]\<rparr>\<rparr>)))"

definition GetUserByEmail :: "(string \<Rightarrow> string) \<Rightarrow> string option \<Rightarrow> world \<Rightarrow> (db_error + user) \<times> world" where
  "GetUserByEmail lower email =
     exec_txt (opt_text email) (select_one users (\<lambda>u.
       (case (us_email u, email) of (Some a, Some b) \<Rightarrow> lower a = lower b | _ \<Rightarrow> False) \<and> live_user u))"

definition GetUserByAppleUserID :: "string option \<Rightarrow> world \<Rightarrow> (db_error + user) \<times> world" where
  "GetUserByAppleUserID a =
     exec_txt (opt_text a) (select_one users (\<lambda>u. a \<noteq> None \<and> us_apple_user_id u = a \<and> live_user u))"

definition GetUserByID :: "uuid \<Rightarrow> world \<Rightarrow> (db_error + user) \<times> world" where
  "GetUserByID i = exec (select_one users (\<lambda>u. us_id u = i \<and> live_user u))"

text \<open>An update of one user: the trigger draws a sequence number for the row.\<close>

definition update_user :: "uuid \<Rightarrow> (user \<Rightarrow> user) \<Rightarrow> world \<Rightarrow> (db_error + user) \<times> world" where
  "update_user i upd w0 =
     (case filter (\<lambda>u. us_id u = i \<and> live_user u) (users (dbs w0)) of
        [] \<Rightarrow> (Inl NoRows, w0)
      | _ \<Rightarrow>
          (case next_server_seq w0 of (seq, w) \<Rightarrow>
             update_one users users_update (\<lambda>u. us_id u = i \<and> live_user u)
               (\<lambda>u. (upd u)\<lparr>us_server_seq := seq\<rparr>) w))"

definition UpdateUserProfile :: "uuid \<Rightarrow> string option \<Rightarrow> string option \<Rightarrow> world \<Rightarrow> (db_error + user) \<times> world" where
  "UpdateUserProfile i displayName timezone =
     exec_txt (opt_text displayName @ opt_text timezone) (\<lambda>w.
       update_user i (\<lambda>u. u\<lparr>us_display_name := displayName, us_timezone := timezone,
         us_updated_at := pg_ts (pg_now w)\<rparr>) w)"

definition SoftDeleteUser :: "uuid \<Rightarrow> world \<Rightarrow> (db_error + unit) \<times> world" where
  "SoftDeleteUser i =
     exec (\<lambda>w. case update_user i (\<lambda>u. u\<lparr>us_deleted_at := Some (pg_ts (pg_now w))\<rparr>) w of
       (r, w) \<Rightarrow> (Inr (), w))"

section \<open>The login lockout\<close>

text \<open>
  \<^verbatim>\<open>float8\<close> seconds, written as nanoseconds.  A doubling is exact in binary
  floating point until it leaves the range of doubles, which is an error of the statement.  An
  interval has microseconds; half a microsecond rounds to even.
\<close>

definition float8_ok :: "duration \<Rightarrow> bool" where
  "float8_ok d \<longleftrightarrow> d < 10 ^ 9 * 2 ^ 1024"

definition interval_us :: "duration \<Rightarrow> duration" where
  "interval_us d =
     (let q = d div 1000; r = d mod 1000
      in 1000 * (if r < 500 \<or> (r = 500 \<and> even q) then q else q + 1))"

text \<open>The first instant past the range of \<^verbatim>\<open>timestamptz\<close>, the year 294277.\<close>

definition timestamptz_end :: time where
  "timestamptz_end = (9223371331200000000 + 946684800000000) * 1000"

definition lockout_duration :: "duration \<Rightarrow> duration \<Rightarrow> nat \<Rightarrow> duration" where
  "lockout_duration base mx k = interval_us (min (base * 2 ^ k) mx)"

text \<open>
  The row after a failed attempt at \<^verbatim>\<open>now\<close>, or the error of the statement:
  a counter that leaves \<^verbatim>\<open>int4\<close>, a doubling that leaves
  \<^verbatim>\<open>float8\<close>, an instant that leaves \<^verbatim>\<open>timestamptz\<close>.
\<close>

definition lock_due :: "time \<Rightarrow> int \<Rightarrow> user \<Rightarrow> bool" where
  "lock_due now threshold u \<longleftrightarrow>
     (case us_locked_until u of None \<Rightarrow> True | Some l \<Rightarrow> l \<le> pg_ts now) \<and>
     threshold \<le> us_failed_login_attempts u + 1"

definition failed_attempt :: "time \<Rightarrow> int \<Rightarrow> duration \<Rightarrow> duration \<Rightarrow> user \<Rightarrow> db_error + user" where
  "failed_attempt now threshold base mx u =
     (let u1 = u\<lparr>us_failed_login_attempts := us_failed_login_attempts u + 1, us_updated_at := pg_ts now\<rparr>;
          k = nat (us_lockout_count u)
      in if \<not> int4_ok (us_failed_login_attempts u + 1) then Inl (PgError ''22003'' '''')
         else if lock_due now threshold u then
           (if \<not> int4_ok (us_lockout_count u + 1) \<or> \<not> float8_ok (10 ^ 9 * 2 ^ k) \<or> \<not> float8_ok (base * 2 ^ k) then
              Inl (PgError ''22003'' '''')
            else if timestamptz_end \<le> pg_ts now + lockout_duration base mx k then Inl (PgError ''22008'' '''')
            else Inr (u1\<lparr>us_lockout_count := us_lockout_count u + 1,
                         us_locked_until := Some (pg_ts now + lockout_duration base mx k)\<rparr>))
         else Inr u1)"

definition RecordFailedLoginAttempt :: "uuid \<Rightarrow> int \<Rightarrow> time \<Rightarrow> duration \<Rightarrow> duration \<Rightarrow> world \<Rightarrow> (db_error + user) \<times> world" where
  "RecordFailedLoginAttempt i threshold now base mx =
     exec (\<lambda>w.
       case filter (\<lambda>u. us_id u = i \<and> live_user u) (users (dbs w)) of
         [] \<Rightarrow> (Inl NoRows, w)
       | u # _ \<Rightarrow>
           (case failed_attempt now threshold base mx u of
              Inl e \<Rightarrow> (Inl e, w)
            | Inr u' \<Rightarrow> update_user i (\<lambda>_. u') w))"

definition ResetLoginLockout :: "uuid \<Rightarrow> time \<Rightarrow> world \<Rightarrow> (db_error + unit) \<times> world" where
  "ResetLoginLockout i now =
     exec (\<lambda>w. case update_user i (\<lambda>u. u\<lparr>us_failed_login_attempts := 0, us_lockout_count := 0,
         us_locked_until := None, us_updated_at := pg_ts now\<rparr>) w of
       (r, w) \<Rightarrow> (Inr (), w))"

section \<open>Devices\<close>

record device_params =
  dp_Name :: string
  dp_Model :: string
  dp_OsVersion :: string
  dp_AppVersion :: string

definition dp_texts :: "device_params \<Rightarrow> string list" where
  "dp_texts p = [dp_Name p, dp_Model p, dp_OsVersion p, dp_AppVersion p]"

definition live_device :: "uuid \<Rightarrow> uuid \<Rightarrow> device \<Rightarrow> bool" where
  "live_device i uid d \<longleftrightarrow> dev_id d = i \<and> dev_user_id d = uid \<and> dev_revoked_at d = None"

definition device_row :: "uuid \<Rightarrow> string \<Rightarrow> device_params \<Rightarrow> uuid \<Rightarrow> time \<Rightarrow> device" where
  "device_row uid platform p i now =
     \<lparr>dev_id = i, dev_user_id = uid, dev_platform = platform, dev_name = dp_Name p,
      dev_model = dp_Model p, dev_os_version = dp_OsVersion p, dev_app_version = dp_AppVersion p,
      dev_last_seen_at = pg_ts now, dev_created_at = pg_ts now, dev_revoked_at = None\<rparr>"

definition CreateDevice :: "uuid \<Rightarrow> string \<Rightarrow> device_params \<Rightarrow> world \<Rightarrow> (db_error + device) \<times> world" where
  "CreateDevice uid platform p =
     exec_txt (platform # dp_texts p) (\<lambda>w0.
       case gen_random_uuid w0 of (i, w) \<Rightarrow>
         let d = dbs w; row = device_row uid platform p i (pg_now w) in
         if platform \<notin> {''macos'', ''ios''} then (Inl (PgError ''23514'' ''devices_platform_check''), w)
         else if device_exists d i then (Inl (PgError ''23505'' ''devices_pkey''), w)
         else if \<not> user_exists d uid then (Inl (PgError ''23503'' ''devices_user_id_fkey''), w)
         else (Inr row, w\<lparr>dbs := d\<lparr>devices := devices d @ [row]\<rparr>\<rparr>))"

text \<open>\<^verbatim>\<open>ORDER BY created_at DESC\<close>.\<close>

definition ListDevicesByUser :: "uuid \<Rightarrow> world \<Rightarrow> (db_error + device list) \<times> world" where
  "ListDevicesByUser uid =
     exec (\<lambda>w. (Inr (sort_key (\<lambda>d. - dev_created_at d)
        (filter (\<lambda>d. dev_user_id d = uid \<and> dev_revoked_at d = None) (devices (dbs w)))), w))"

definition RevokeDevice_q :: "uuid \<Rightarrow> uuid \<Rightarrow> world \<Rightarrow> (db_error + unit) \<times> world" where
  "RevokeDevice_q i uid =
     exec (\<lambda>w. update_all devices_update (live_device i uid)
       (\<lambda>d. d\<lparr>dev_revoked_at := Some (pg_ts (pg_now w))\<rparr>) w)"

definition TouchDeviceLastSeen :: "uuid \<Rightarrow> uuid \<Rightarrow> world \<Rightarrow> (db_error + unit) \<times> world" where
  "TouchDeviceLastSeen i uid =
     exec (\<lambda>w. update_all devices_update (live_device i uid)
       (\<lambda>d. d\<lparr>dev_last_seen_at := pg_ts (pg_now w)\<rparr>) w)"

definition UpdateDeviceMetadata :: "uuid \<Rightarrow> uuid \<Rightarrow> device_params \<Rightarrow> world \<Rightarrow> (db_error + device) \<times> world" where
  "UpdateDeviceMetadata i uid p =
     exec_txt (dp_texts p) (\<lambda>w. update_one devices devices_update (live_device i uid)
       (\<lambda>d. d\<lparr>dev_name := dp_Name p, dev_model := dp_Model p, dev_os_version := dp_OsVersion p,
             dev_app_version := dp_AppVersion p, dev_last_seen_at := pg_ts (pg_now w)\<rparr>) w)"

definition UpdateDeviceName :: "uuid \<Rightarrow> uuid \<Rightarrow> string \<Rightarrow> world \<Rightarrow> (db_error + device) \<times> world" where
  "UpdateDeviceName i uid name =
     exec_txt [name] (update_one devices devices_update (live_device i uid) (\<lambda>d. d\<lparr>dev_name := name\<rparr>))"

section \<open>Refresh tokens\<close>

record CreateRefreshTokenParams =
  crt_UserID :: uuid
  crt_DeviceID :: uuid
  crt_TokenHash :: string
  crt_FamilyID :: uuid
  crt_ExpiresAt :: time

definition live_token :: "refresh_token \<Rightarrow> bool" where
  "live_token t \<longleftrightarrow> rt_revoked_at t = None"

definition token_exists :: "db \<Rightarrow> uuid \<Rightarrow> bool" where
  "token_exists d i \<longleftrightarrow> i \<in> rt_id ` set (refresh_tokens d)"

definition token_row :: "CreateRefreshTokenParams \<Rightarrow> uuid \<Rightarrow> time \<Rightarrow> refresh_token" where
  "token_row arg i now =
     \<lparr>rt_id = i, rt_user_id = crt_UserID arg, rt_device_id = crt_DeviceID arg,
      rt_token_hash = crt_TokenHash arg, rt_family_id = crt_FamilyID arg, rt_issued_at = pg_ts now,
      rt_expires_at = pg_ts (crt_ExpiresAt arg), rt_revoked_at = None, rt_replaced_by = None\<rparr>"

definition CreateRefreshToken :: "CreateRefreshTokenParams \<Rightarrow> world \<Rightarrow> (db_error + refresh_token) \<times> world" where
  "CreateRefreshToken arg =
     exec (\<lambda>w0.
       case gen_random_uuid w0 of (i, w) \<Rightarrow>
         let d = dbs w; row = token_row arg i (pg_now w) in
         if token_exists d i then (Inl (PgError ''23505'' ''refresh_tokens_pkey''), w)
         else case fk_violation
                [(''refresh_tokens_user_id_fkey'', user_exists d (crt_UserID arg)),
                 (''refresh_tokens_device_id_fkey'', device_exists d (crt_DeviceID arg))] of
           Some c \<Rightarrow> (Inl (PgError ''23503'' c), w)
         | None \<Rightarrow> (Inr row, w\<lparr>dbs := d\<lparr>refresh_tokens := refresh_tokens d @ [row]\<rparr>\<rparr>))"

definition GetRefreshTokenByHash :: "string \<Rightarrow> world \<Rightarrow> (db_error + refresh_token) \<times> world" where
  "GetRefreshTokenByHash h = exec (select_one refresh_tokens (\<lambda>t. rt_token_hash t = h))"

text \<open>
  The locking reads.  With \<^verbatim>\<open>NOWAIT\<close> a row another transaction holds is the
  error 55P03, a hazard of the statement; without it the statement waits, and sees what the
  other transaction committed.
\<close>

definition GetRefreshTokenByHashForUpdateNoWait :: "string \<Rightarrow> world \<Rightarrow> (db_error + refresh_token) \<times> world" where
  "GetRefreshTokenByHashForUpdateNoWait h = exec (select_one refresh_tokens (\<lambda>t. rt_token_hash t = h))"

definition GetRefreshTokenByHashForUpdate :: "string \<Rightarrow> world \<Rightarrow> (db_error + refresh_token) \<times> world" where
  "GetRefreshTokenByHashForUpdate h =
     exec_blocking (select_one refresh_tokens (\<lambda>t. rt_token_hash t = h))"

definition ListActiveRefreshTokensByUser :: "uuid \<Rightarrow> world \<Rightarrow> (db_error + refresh_token list) \<times> world" where
  "ListActiveRefreshTokensByUser uid =
     exec (\<lambda>w. (Inr (sort_key (\<lambda>t. - rt_issued_at t)
        (filter (\<lambda>t. rt_user_id t = uid \<and> live_token t \<and> pg_ts (pg_now w) < rt_expires_at t)
          (refresh_tokens (dbs w)))), w))"

definition revoke_at :: "time \<Rightarrow> refresh_token \<Rightarrow> refresh_token" where
  "revoke_at now t = t\<lparr>rt_revoked_at := Some (pg_ts now)\<rparr>"

definition RevokeRefreshTokenFamily :: "uuid \<Rightarrow> world \<Rightarrow> (db_error + unit) \<times> world" where
  "RevokeRefreshTokenFamily fam =
     exec (\<lambda>w. update_all refresh_tokens_update
       (\<lambda>t. rt_family_id t = fam \<and> live_token t) (revoke_at (pg_now w)) w)"

definition RevokeRefreshTokenFamilyForUser :: "uuid \<Rightarrow> uuid \<Rightarrow> world \<Rightarrow> (db_error + unit) \<times> world" where
  "RevokeRefreshTokenFamilyForUser fam uid =
     exec (\<lambda>w. update_all refresh_tokens_update
       (\<lambda>t. rt_family_id t = fam \<and> rt_user_id t = uid \<and> live_token t) (revoke_at (pg_now w)) w)"

definition RevokeRefreshTokensByDevice :: "uuid \<Rightarrow> uuid \<Rightarrow> world \<Rightarrow> (db_error + unit) \<times> world" where
  "RevokeRefreshTokensByDevice dev uid =
     exec (\<lambda>w. update_all refresh_tokens_update
       (\<lambda>t. rt_device_id t = dev \<and> rt_user_id t = uid \<and> live_token t) (revoke_at (pg_now w)) w)"

definition RotateRefreshToken :: "uuid \<Rightarrow> uuid \<Rightarrow> world \<Rightarrow> (db_error + refresh_token) \<times> world" where
  "RotateRefreshToken i replacedBy =
     exec (\<lambda>w.
       let hit = (\<lambda>t. rt_id t = i \<and> live_token t) in
       if filter hit (refresh_tokens (dbs w)) = [] then (Inl NoRows, w)
       else if \<not> token_exists (dbs w) replacedBy then
         (Inl (PgError ''23503'' ''refresh_tokens_replaced_by_fkey''), w)
       else update_one refresh_tokens refresh_tokens_update hit
              (\<lambda>t. (revoke_at (pg_now w) t)\<lparr>rt_replaced_by := Some replacedBy\<rparr>) w)"

end
