(* ===== verification/Auth.thy ===== *)
theory Auth
  imports AuthStore Password Seq
begin

text \<open>
  Accounts, sessions and devices: \<^verbatim>\<open>internal/auth/service.go\<close>,
  \<^verbatim>\<open>register_login.go\<close>, \<^verbatim>\<open>refresh_logout.go\<close> and
  \<^verbatim>\<open>users_devices.go\<close>.  Every operation is a function of the session; the
  errors are the sentinels of \<^verbatim>\<open>errors.go\<close>, a wrapped driver error, or a
  failure of a step outside the database.
\<close>

datatype auth_error =
    ErrEmailTaken
  | ErrInvalidCredentials
  | ErrInvalidRefreshToken
  | ErrRefreshTokenReuse
  | ErrDeviceNotFound
  | ErrUserNotFound
  | ErrValidation detail
  | Wrapped string db_error
  | Internal string

section \<open>Errors of a query\<close>

text \<open>An error of a query: wrapped under a message, or no row mapped to a sentinel.\<close>

definition wrapped :: "string \<Rightarrow> (db_error + 'a) \<times> world \<Rightarrow> (auth_error + 'a) \<times> world" where
  "wrapped m p = (case p of (Inl e, w) \<Rightarrow> (Inl (Wrapped m e), w) | (Inr a, w) \<Rightarrow> (Inr a, w))"

definition no_rows_as :: "auth_error \<Rightarrow> string \<Rightarrow> (db_error + 'a) \<times> world \<Rightarrow> (auth_error + 'a) \<times> world" where
  "no_rows_as err m p =
     (case p of
        (Inl e, w) \<Rightarrow> (Inl (if e = NoRows then err else Wrapped m e), w)
      | (Inr a, w) \<Rightarrow> (Inr a, w))"

definition need :: "auth_error \<Rightarrow> 'a option \<Rightarrow> world \<Rightarrow> (auth_error + 'a) \<times> world" where
  "need err v w = (case v of None \<Rightarrow> (Inl err, w) | Some a \<Rightarrow> (Inr a, w))"

lemma wrapped_simps [simp]: "wrapped m (Inl e, w) = (Inl (Wrapped m e), w)" "wrapped m (Inr a, w) = (Inr a, w)"
  "no_rows_as err m (Inl e, w) = (Inl (if e = NoRows then err else Wrapped m e), w)"
  "no_rows_as err m (Inr a, w) = (Inr a, w)"
  "need err None w = (Inl err, w)" "need err (Some v) w = (Inr v, w)"
  by (simp_all add: wrapped_def no_rows_as_def need_def)

lemma wrapped_Inr: "wrapped m p = (Inr a, w) \<longleftrightarrow> p = (Inr a, w)"
  by (auto simp: wrapped_def split: prod.splits sum.splits)

lemma no_rows_as_Inr: "no_rows_as err m p = (Inr a, w) \<longleftrightarrow> p = (Inr a, w)"
  by (auto simp: no_rows_as_def split: prod.splits sum.splits)

lemma need_Inr: "need err v u = (Inr a, w) \<longleftrightarrow> v = Some a \<and> w = u"
  by (auto simp: need_def split: option.splits)

lemma wrapped_Inl: "wrapped m p = (Inl err, w) \<longleftrightarrow> (\<exists>e. p = (Inl e, w) \<and> err = Wrapped m e)"
  by (auto simp: wrapped_def split: prod.splits sum.splits)

lemma no_rows_as_Inl:
  "no_rows_as er m p = (Inl err, w) \<longleftrightarrow> (\<exists>e. p = (Inl e, w) \<and> err = (if e = NoRows then er else Wrapped m e))"
  by (auto simp: no_rows_as_def split: prod.splits sum.splits)

lemma need_Inl: "need er v u = (Inl err, w) \<longleftrightarrow> v = None \<and> err = er \<and> w = u"
  by (auto simp: need_def split: option.splits)

lemmas step_Inr = andthen_Inr wrapped_Inr no_rows_as_Inr need_Inr
lemmas step_Inl = andthen_Inl wrapped_Inl no_rows_as_Inl need_Inl

section \<open>Inputs\<close>

record DeviceInput =
  di_ID :: string
  di_Platform :: string
  di_Name :: string
  di_Model :: string
  di_OSVersion :: string
  di_AppVersion :: string

definition params_of :: "DeviceInput \<Rightarrow> device_params" where
  "params_of d =
     \<lparr>dp_Name = di_Name d, dp_Model = di_Model d, dp_OsVersion = di_OSVersion d, dp_AppVersion = di_AppVersion d\<rparr>"

definition validate :: "DeviceInput \<Rightarrow> auth_error option" where
  "validate d =
     (if di_Platform d \<notin> {''macos'', ''ios''} then
        Some (ErrValidation (Msg ''device.platform must be one of \"macos\", \"ios\"''))
      else if TrimSpace (di_Name d) = [] then Some (ErrValidation (Msg ''device.name is required''))
      else if TrimSpace (di_Model d) = [] then Some (ErrValidation (Msg ''device.model is required''))
      else if TrimSpace (di_OSVersion d) = [] then Some (ErrValidation (Msg ''device.os_version is required''))
      else if TrimSpace (di_AppVersion d) = [] then Some (ErrValidation (Msg ''device.app_version is required''))
      else None)"

definition validEmail :: "crypto \<Rightarrow> string \<Rightarrow> auth_error + string" where
  "validEmail c email0 =
     (let email = TrimSpace email0 in
      if email = [] then Inl (ErrValidation (Msg ''email is required''))
      else case ParseAddress c email of
             None \<Rightarrow> Inl (ErrValidation (Msg ''email is not a valid address''))
           | Some addr \<Rightarrow> Inr addr)"

definition maxPasswordBytes :: nat where "maxPasswordBytes = 1024"

definition validPassword :: "string \<Rightarrow> auth_error option" where
  "validPassword password =
     (if length password < 8 then Some (ErrValidation (Msg ''password must be at least 8 characters''))
      else if maxPasswordBytes < length password then
        Some (ErrValidation (Msg ''password must not exceed 1024 bytes''))
      else None)"

definition strPtr :: "string \<Rightarrow> string option" where
  "strPtr s = (if s = [] then None else Some s)"

definition parse_id :: "ext \<Rightarrow> string \<Rightarrow> auth_error + uuid" where
  "parse_id x s = (case parseUUID x s of Inl d \<Rightarrow> Inl (ErrValidation d) | Inr u \<Rightarrow> Inr u)"

section \<open>The service\<close>

record service =
  LockoutThreshold :: int
  LockoutBaseDuration :: duration
  LockoutMaxDuration :: duration
  Pool_set :: bool

definition DefaultLockoutThreshold :: int where "DefaultLockoutThreshold = 10"
definition DefaultLockoutBaseDuration :: duration where "DefaultLockoutBaseDuration = 15 * minute"
definition DefaultLockoutMaxDuration :: duration where "DefaultLockoutMaxDuration = 24 * hour"

definition lockoutThreshold :: "service \<Rightarrow> int" where
  "lockoutThreshold s = (if 0 < LockoutThreshold s then LockoutThreshold s else DefaultLockoutThreshold)"

definition lockoutBaseDuration :: "service \<Rightarrow> duration" where
  "lockoutBaseDuration s =
     (if 0 < LockoutBaseDuration s then LockoutBaseDuration s else DefaultLockoutBaseDuration)"

definition lockoutMaxDuration :: "service \<Rightarrow> duration" where
  "lockoutMaxDuration s =
     (if 0 < LockoutMaxDuration s then LockoutMaxDuration s else DefaultLockoutMaxDuration)"

record TokenPair =
  AccessToken :: string
  RefreshToken :: string
  AccessExpiresIn :: int

record auth_result =
  res_User :: user
  res_Device :: device
  res_Tokens :: TokenPair

definition newResult :: "user \<Rightarrow> device \<Rightarrow> string \<Rightarrow> string \<Rightarrow> auth_result" where
  "newResult u d access refresh =
     \<lparr>res_User = u, res_Device = d,
      res_Tokens = \<lparr>AccessToken = access, RefreshToken = refresh,
                     AccessExpiresIn = AccessTokenTTL div second\<rparr>\<rparr>"

text \<open>
  A new session for a device: its live tokens are revoked, then one token of a new family is
  stored.  The random reads of a request are numbered from \<^verbatim>\<open>k\<close>.
\<close>

definition issueTokenPair :: "ext \<Rightarrow> crypto \<Rightarrow> nat \<Rightarrow> time \<Rightarrow> user \<Rightarrow> device \<Rightarrow> world \<Rightarrow> (auth_error + string \<times> string) \<times> world" where
  "issueTokenPair x c k now u d w =
     andthen (wrapped ''auth: revoke existing device refresh tokens''
                (RevokeRefreshTokensByDevice (dev_id d) (us_id u) w)) (\<lambda>_ w.
     andthen (need (Internal ''auth: generate uuid'') (newUUIDv4 c k) w) (\<lambda>familyID w.
     andthen (need (Internal ''auth: generate refresh token'') (GenerateRefreshToken c (k + 1)) w) (\<lambda>refreshToken w.
     andthen (wrapped ''auth: create refresh token''
                (CreateRefreshToken
                  \<lparr>crt_UserID = us_id u, crt_DeviceID = dev_id d,
                   crt_TokenHash = HashRefreshToken c refreshToken, crt_FamilyID = familyID,
                   crt_ExpiresAt = now + RefreshTokenTTL\<rparr> w)) (\<lambda>_ w.
     andthen (need (Internal ''auth: sign access token'')
                (IssueAccessToken c (uuid_string x (us_id u)) (us_role u) (uuid_string x (dev_id d)) now) w)
       (\<lambda>accessToken w. (Inr (accessToken, refreshToken), w))))))"

definition hash_password :: "crypto \<Rightarrow> nat \<Rightarrow> string \<Rightarrow> world \<Rightarrow> (auth_error + string) \<times> world" where
  "hash_password c k password w =
     (case HashPassword c k password of
        Inl _ \<Rightarrow> (Inl (Internal ''auth: hash password''), w)
      | Inr h \<Rightarrow> (Inr h, w))"

definition create_user :: "crypto \<Rightarrow> CreateUserParams \<Rightarrow> world \<Rightarrow> (auth_error + user) \<times> world" where
  "create_user c arg w =
     (case CreateUser (citext_lower c) arg w of
        (Inl e, w) \<Rightarrow>
          (Inl (case e of
                  PgError code _ \<Rightarrow> if code = ''23505'' then ErrEmailTaken else Wrapped ''auth: create user'' e
                | _ \<Rightarrow> Wrapped ''auth: create user'' e), w)
      | (Inr u, w) \<Rightarrow> (Inr u, w))"

definition register_account :: "ext \<Rightarrow> crypto \<Rightarrow> string \<Rightarrow> string \<Rightarrow> DeviceInput \<Rightarrow> world \<Rightarrow> (auth_error + auth_result) \<times> world" where
  "register_account x c normalizedEmail password device w =
     andthen (hash_password c 0 password w) (\<lambda>h w.
     andthen (create_user c
                \<lparr>cu_Email = strPtr normalizedEmail, cu_PasswordHash = strPtr h, cu_AppleUserID = None,
                 cu_DisplayName = None, cu_Role = ''user'', cu_Timezone = None\<rparr> w) (\<lambda>u w.
     andthen (wrapped ''auth: create device''
                (CreateDevice (us_id u) (di_Platform device) (params_of device) w)) (\<lambda>d w.
     andthen (issueTokenPair x c 1 (clock c 0) u d w) (\<lambda>(access, refresh) w.
       (Inr (newResult u d access refresh), w)))))"

definition Register :: "ext \<Rightarrow> crypto \<Rightarrow> string \<Rightarrow> string \<Rightarrow> DeviceInput \<Rightarrow> world \<Rightarrow> (auth_error + auth_result) \<times> world" where
  "Register x c email password device w =
     (case validEmail c email of Inl e \<Rightarrow> (Inl e, w) | Inr normalizedEmail \<Rightarrow>
      case validPassword password of Some e \<Rightarrow> (Inl e, w) | None \<Rightarrow>
      case validate device of Some e \<Rightarrow> (Inl e, w) | None \<Rightarrow>
      register_account x c normalizedEmail password device w)"

text \<open>The device a login is for: the one named, when it is a live device of the user, else a
  new one.\<close>

definition create_device :: "uuid \<Rightarrow> DeviceInput \<Rightarrow> world \<Rightarrow> (auth_error + device) \<times> world" where
  "create_device uid device w =
     wrapped ''auth: create device'' (CreateDevice uid (di_Platform device) (params_of device) w)"

definition resolveDevice :: "ext \<Rightarrow> uuid \<Rightarrow> DeviceInput \<Rightarrow> world \<Rightarrow> (auth_error + device) \<times> world" where
  "resolveDevice x uid device w =
     (if di_ID device = [] then create_device uid device w
      else case parseUUID x (di_ID device) of
        Inl _ \<Rightarrow> create_device uid device w
      | Inr i \<Rightarrow>
          (case UpdateDeviceMetadata i uid (params_of device) w of
             (Inr d, w) \<Rightarrow> (Inr d, w)
           | (Inl e, w) \<Rightarrow>
               if e \<noteq> NoRows then (Inl (Wrapped ''auth: update device metadata'' e), w)
               else create_device uid device w))"

text \<open>
  The password check: an account without a password or with a lock in force answers as for a
  wrong password; a wrong password is recorded.
\<close>

definition locked :: "time \<Rightarrow> user \<Rightarrow> bool" where
  "locked now u \<longleftrightarrow> (case us_locked_until u of None \<Rightarrow> False | Some l \<Rightarrow> now < l)"

definition check_password :: "service \<Rightarrow> crypto \<Rightarrow> time \<Rightarrow> string \<Rightarrow> user \<Rightarrow> world \<Rightarrow> (auth_error + unit) \<times> world" where
  "check_password s c now password u w =
     (case us_password_hash u of
        None \<Rightarrow> (Inl ErrInvalidCredentials, w)
      | Some h \<Rightarrow>
          if locked now u then (Inl ErrInvalidCredentials, w)
          else case VerifyPassword c h password of
            Inl _ \<Rightarrow> (Inl (Internal ''auth: verify password''), w)
          | Inr True \<Rightarrow> (Inr (), w)
          | Inr False \<Rightarrow>
              andthen (wrapped ''auth: record failed login attempt''
                        (RecordFailedLoginAttempt (us_id u) (wrap32 (lockoutThreshold s)) now
                          (lockoutBaseDuration s) (lockoutMaxDuration s) w))
                (\<lambda>_ w. (Inl ErrInvalidCredentials, w)))"

definition reset_lockout :: "time \<Rightarrow> user \<Rightarrow> world \<Rightarrow> (auth_error + user) \<times> world" where
  "reset_lockout now u w =
     (if 0 < us_failed_login_attempts u \<or> 0 < us_lockout_count u then
        andthen (wrapped ''auth: reset login lockout'' (ResetLoginLockout (us_id u) now w)) (\<lambda>_ w.
          (Inr (u\<lparr>us_failed_login_attempts := 0, us_lockout_count := 0, us_locked_until := None\<rparr>), w))
      else (Inr u, w))"

definition open_session :: "ext \<Rightarrow> crypto \<Rightarrow> DeviceInput \<Rightarrow> user \<Rightarrow> world \<Rightarrow> (auth_error + auth_result) \<times> world" where
  "open_session x c device u w =
     andthen (reset_lockout (clock c 0) u w) (\<lambda>u w.
     andthen (resolveDevice x (us_id u) device w) (\<lambda>d w.
     andthen (issueTokenPair x c 0 (clock c 1) u d w) (\<lambda>(access, refresh) w.
       (Inr (newResult u d access refresh), w))))"

definition Login :: "ext \<Rightarrow> service \<Rightarrow> crypto \<Rightarrow> string \<Rightarrow> string \<Rightarrow> DeviceInput \<Rightarrow> world \<Rightarrow> (auth_error + auth_result) \<times> world" where
  "Login x s c email password device w =
     (case validEmail c email of Inl e \<Rightarrow> (Inl e, w) | Inr normalizedEmail \<Rightarrow>
      if password = [] \<or> maxPasswordBytes < length password then (Inl ErrInvalidCredentials, w)
      else case validate device of Some e \<Rightarrow> (Inl e, w) | None \<Rightarrow>
      andthen (no_rows_as ErrInvalidCredentials ''auth: get user by email''
                 (GetUserByEmail (citext_lower c) (strPtr normalizedEmail) w)) (\<lambda>u w.
      andthen (check_password s c (clock c 0) password u w) (\<lambda>_ w.
        open_session x c device u w)))"

section \<open>Refresh\<close>

text \<open>
  The part both versions of the rotation share: the token's expiry, its user and device, the
  device's metadata, and the replacement in the same family.
\<close>

definition refresh_device :: "DeviceInput option \<Rightarrow> refresh_token \<Rightarrow> device \<Rightarrow> world \<Rightarrow> (auth_error + device) \<times> world" where
  "refresh_device device current d w =
     (case device of
        None \<Rightarrow> (Inr d, w)
      | Some di \<Rightarrow>
          (case validate di of
             Some e \<Rightarrow> (Inl e, w)
           | None \<Rightarrow> wrapped ''auth: update device metadata''
                       (UpdateDeviceMetadata (dev_id d) (rt_user_id current) (params_of di) w)))"

definition refresh_replacement :: "crypto \<Rightarrow> DeviceInput option \<Rightarrow> refresh_token \<Rightarrow> world \<Rightarrow> (auth_error + user \<times> device \<times> string \<times> refresh_token) \<times> world" where
  "refresh_replacement c device current w =
     (if rt_expires_at current < clock c 0 then (Inl ErrInvalidRefreshToken, w)
      else
        andthen (no_rows_as ErrInvalidRefreshToken ''auth: get user'' (GetUserByID (rt_user_id current) w)) (\<lambda>u w.
        andthen (no_rows_as ErrInvalidRefreshToken ''auth: get device''
                   (GetDeviceByID (rt_device_id current) (rt_user_id current) w)) (\<lambda>d0 w.
        andthen (refresh_device device current d0 w) (\<lambda>d w.
        andthen (need (Internal ''auth: generate refresh token'') (GenerateRefreshToken c 0) w) (\<lambda>newRefreshToken w.
        andthen (wrapped ''auth: create rotated refresh token''
                   (CreateRefreshToken
                     \<lparr>crt_UserID = rt_user_id current, crt_DeviceID = rt_device_id current,
                      crt_TokenHash = HashRefreshToken c newRefreshToken,
                      crt_FamilyID = rt_family_id current,
                      crt_ExpiresAt = clock c 0 + RefreshTokenTTL\<rparr> w)) (\<lambda>newRow w.
          (Inr (u, d, newRefreshToken, newRow), w)))))))"

text \<open>
  The lock on the presented token: an attempt without waiting, in a savepoint, then a waiting
  read when the row is held.  The flag says that it was.
\<close>

definition savepoint :: "world \<Rightarrow> (db_error + unit) \<times> world" where
  "savepoint = exec (\<lambda>w. (Inr (), w))"

definition refresh_lock :: "string \<Rightarrow> world \<Rightarrow> (auth_error + bool \<times> refresh_token) \<times> world" where
  "refresh_lock h w =
     andthen (wrapped ''auth: begin lock-attempt savepoint'' (savepoint w)) (\<lambda>_ w.
       case GetRefreshTokenByHashForUpdateNoWait h w of
         (Inr current, w) \<Rightarrow>
           andthen (wrapped ''auth: release lock-attempt savepoint'' (savepoint w)) (\<lambda>_ w.
             (Inr (False, current), w))
       | (Inl e, w) \<Rightarrow>
           (case savepoint w of (_, w) \<Rightarrow>
              (case e of
                 NoRows \<Rightarrow> (Inl ErrInvalidRefreshToken, w)
               | PgError code _ \<Rightarrow>
                   if code = ''55P03'' then
                     andthen (no_rows_as ErrInvalidRefreshToken ''auth: get refresh token (contended)''
                                (GetRefreshTokenByHashForUpdate h w)) (\<lambda>current w.
                       (Inr (True, current), w))
                   else (Inl (Wrapped ''auth: get refresh token'' e), w)
               | OtherError _ \<Rightarrow> (Inl (Wrapped ''auth: get refresh token'' e), w))))"

text \<open>The rest of the transaction.  \<^verbatim>\<open>ErrRefreshTokenReuse\<close> is the one
  error that is returned after a commit.\<close>

definition refresh_reuse :: "refresh_token \<Rightarrow> world \<Rightarrow> (auth_error + auth_result) \<times> world" where
  "refresh_reuse current w =
     andthen (wrapped ''auth: revoke refresh token family on reuse''
                (RevokeRefreshTokenFamily (rt_family_id current) w)) (\<lambda>_ w.
     andthen (wrapped ''auth: commit refresh token family revocation'' (commit_tx w)) (\<lambda>_ w.
       (Inl ErrRefreshTokenReuse, w)))"

definition refresh_rotate :: "ext \<Rightarrow> crypto \<Rightarrow> DeviceInput option \<Rightarrow> refresh_token \<Rightarrow> world \<Rightarrow> (auth_error + auth_result) \<times> world" where
  "refresh_rotate x c device current w =
     andthen (refresh_replacement c device current w) (\<lambda>(u, d, newRefreshToken, newRow) w.
     andthen (no_rows_as ErrInvalidRefreshToken ''auth: rotate refresh token''
                (RotateRefreshToken (rt_id current) (rt_id newRow) w)) (\<lambda>_ w.
     andthen (need (Internal ''auth: sign access token'')
                (IssueAccessToken c (uuid_string x (us_id u)) (us_role u) (uuid_string x (dev_id d)) (clock c 0)) w)
       (\<lambda>accessToken w.
     andthen (wrapped ''auth: commit refresh rotation'' (commit_tx w)) (\<lambda>_ w.
       (Inr (newResult u d accessToken newRefreshToken), w)))))"

definition refresh_body :: "ext \<Rightarrow> crypto \<Rightarrow> DeviceInput option \<Rightarrow> bool \<times> refresh_token \<Rightarrow> world \<Rightarrow> (auth_error + auth_result) \<times> world" where
  "refresh_body x c device lock w =
     (case lock of (contended, current) \<Rightarrow>
        if live_token current then refresh_rotate x c device current w
        else if contended then (Inl ErrInvalidRefreshToken, w)
        else refresh_reuse current w)"

text \<open>
  The transaction: nothing is written before the token is locked, so a rollback gives back the
  tables of that moment.
\<close>

definition refreshTx :: "ext \<Rightarrow> crypto \<Rightarrow> string \<Rightarrow> DeviceInput option \<Rightarrow> world \<Rightarrow> (auth_error + auth_result) \<times> world" where
  "refreshTx x c refreshToken device w =
     andthen (wrapped ''auth: begin refresh transaction'' (begin_tx w)) (\<lambda>_ w1.
       case refresh_lock (HashRefreshToken c refreshToken) w1 of
         (Inl e, w2) \<Rightarrow> (Inl e, w2\<lparr>in_tx := False\<rparr>)
       | (Inr lock, w2) \<Rightarrow>
           (case refresh_body x c device lock w2 of
              (Inl e, w3) \<Rightarrow> (Inl e, if e = ErrRefreshTokenReuse then w3 else rollback_to w2 w3)
            | (Inr res, w3) \<Rightarrow> (Inr res, w3)))"

text \<open>The version without transactions.\<close>

definition revoke_on_race :: "refresh_token \<Rightarrow> world \<Rightarrow> (auth_error + 'a) \<times> world" where
  "revoke_on_race current w =
     andthen (wrapped ''auth: revoke refresh token family on race''
                (RevokeRefreshTokenFamily (rt_family_id current) w)) (\<lambda>_ w.
       (Inl ErrRefreshTokenReuse, w))"

definition refreshNoTx :: "ext \<Rightarrow> crypto \<Rightarrow> string \<Rightarrow> DeviceInput option \<Rightarrow> world \<Rightarrow> (auth_error + auth_result) \<times> world" where
  "refreshNoTx x c refreshToken device w =
     andthen (no_rows_as ErrInvalidRefreshToken ''auth: get refresh token''
                (GetRefreshTokenByHash (HashRefreshToken c refreshToken) w)) (\<lambda>current w.
     if \<not> live_token current then
       andthen (wrapped ''auth: revoke refresh token family on reuse''
                  (RevokeRefreshTokenFamily (rt_family_id current) w)) (\<lambda>_ w.
         (Inl ErrRefreshTokenReuse, w))
     else
       andthen (refresh_replacement c device current w) (\<lambda>(u, d, newRefreshToken, newRow) w.
         case RotateRefreshToken (rt_id current) (rt_id newRow) w of
           (Inl e, w) \<Rightarrow>
             if e = NoRows then revoke_on_race current w
             else (Inl (Wrapped ''auth: rotate refresh token'' e), w)
         | (Inr _, w) \<Rightarrow>
             andthen (need (Internal ''auth: sign access token'')
                        (IssueAccessToken c (uuid_string x (us_id u)) (us_role u) (uuid_string x (dev_id d)) (clock c 0)) w)
               (\<lambda>accessToken w. (Inr (newResult u d accessToken newRefreshToken), w))))"

definition Refresh :: "ext \<Rightarrow> service \<Rightarrow> crypto \<Rightarrow> string \<Rightarrow> DeviceInput option \<Rightarrow> world \<Rightarrow> (auth_error + auth_result) \<times> world" where
  "Refresh x s c token0 device w =
     (let refreshToken = TrimSpace token0 in
      if refreshToken = [] then (Inl ErrInvalidRefreshToken, w)
      else if Pool_set s then refreshTx x c refreshToken device w
      else refreshNoTx x c refreshToken device w)"

definition Logout :: "ext \<Rightarrow> crypto \<Rightarrow> string \<Rightarrow> string \<Rightarrow> world \<Rightarrow> (auth_error + unit) \<times> world" where
  "Logout x c userID token0 w =
     (let refreshToken = TrimSpace token0 in
      if refreshToken = [] then (Inl ErrInvalidRefreshToken, w)
      else case parse_id x userID of Inl e \<Rightarrow> (Inl e, w) | Inr uid \<Rightarrow>
      andthen (no_rows_as ErrInvalidRefreshToken ''auth: get refresh token''
                 (GetRefreshTokenByHash (HashRefreshToken c refreshToken) w)) (\<lambda>current w.
        if rt_user_id current \<noteq> uid then (Inl ErrInvalidRefreshToken, w)
        else wrapped ''auth: revoke refresh token family''
               (RevokeRefreshTokenFamilyForUser (rt_family_id current) uid w)))"

section \<open>Profile and devices\<close>

definition GetProfile :: "ext \<Rightarrow> string \<Rightarrow> world \<Rightarrow> (auth_error + user) \<times> world" where
  "GetProfile x userID w =
     (case parse_id x userID of Inl e \<Rightarrow> (Inl e, w) | Inr uid \<Rightarrow>
      no_rows_as ErrUserNotFound ''auth: get user'' (GetUserByID uid w))"

record ProfileUpdate =
  pu_DisplayName :: "string option"
  pu_Timezone :: "string option"

text \<open>A field of the update: absent leaves the current value, present must not be blank.\<close>

definition patch_field :: "string \<Rightarrow> string option \<Rightarrow> string option \<Rightarrow> auth_error + string option" where
  "patch_field msg new current =
     (case new of
        None \<Rightarrow> Inr current
      | Some v \<Rightarrow>
          (let trimmed = TrimSpace v
           in if trimmed = [] then Inl (ErrValidation (Msg msg)) else Inr (Some trimmed)))"

definition UpdateProfile :: "ext \<Rightarrow> string \<Rightarrow> ProfileUpdate \<Rightarrow> world \<Rightarrow> (auth_error + user) \<times> world" where
  "UpdateProfile x userID update w =
     (case parse_id x userID of Inl e \<Rightarrow> (Inl e, w) | Inr uid \<Rightarrow>
      andthen (no_rows_as ErrUserNotFound ''auth: get user'' (GetUserByID uid w)) (\<lambda>current w.
        case patch_field ''display_name must not be blank'' (pu_DisplayName update) (us_display_name current) of
          Inl e \<Rightarrow> (Inl e, w)
        | Inr displayName \<Rightarrow>
            (case patch_field ''timezone must not be blank'' (pu_Timezone update) (us_timezone current) of
               Inl e \<Rightarrow> (Inl e, w)
             | Inr timezone \<Rightarrow>
                 no_rows_as ErrUserNotFound ''auth: update user profile''
                   (UpdateUserProfile uid displayName timezone w))))"

definition ListDevices :: "ext \<Rightarrow> string \<Rightarrow> world \<Rightarrow> (auth_error + device list) \<times> world" where
  "ListDevices x userID w =
     (case parse_id x userID of Inl e \<Rightarrow> (Inl e, w) | Inr uid \<Rightarrow>
      wrapped ''auth: list devices'' (ListDevicesByUser uid w))"

definition RenameDevice :: "ext \<Rightarrow> string \<Rightarrow> string \<Rightarrow> string \<Rightarrow> world \<Rightarrow> (auth_error + device) \<times> world" where
  "RenameDevice x userID deviceID name0 w =
     (case parse_id x userID of Inl e \<Rightarrow> (Inl e, w) | Inr uid \<Rightarrow>
      case parse_id x deviceID of Inl e \<Rightarrow> (Inl e, w) | Inr did \<Rightarrow>
      let name = TrimSpace name0 in
      if name = [] then (Inl (ErrValidation (Msg ''name is required'')), w)
      else no_rows_as ErrDeviceNotFound ''auth: rename device'' (UpdateDeviceName did uid name w))"

definition revoke_device_steps :: "uuid \<Rightarrow> uuid \<Rightarrow> world \<Rightarrow> (auth_error + unit) \<times> world" where
  "revoke_device_steps uid did w =
     andthen (no_rows_as ErrDeviceNotFound ''auth: get device'' (GetDeviceByID did uid w)) (\<lambda>_ w.
     andthen (wrapped ''auth: revoke device'' (RevokeDevice_q did uid w)) (\<lambda>_ w.
       wrapped ''auth: revoke device refresh tokens'' (RevokeRefreshTokensByDevice did uid w)))"

definition revokeDeviceTx :: "uuid \<Rightarrow> uuid \<Rightarrow> world \<Rightarrow> (auth_error + unit) \<times> world" where
  "revokeDeviceTx uid did w =
     andthen (wrapped ''auth: begin revoke device transaction'' (begin_tx w)) (\<lambda>_ w1.
       case andthen (revoke_device_steps uid did w1)
              (\<lambda>_ w. wrapped ''auth: commit revoke device'' (commit_tx w)) of
         (Inl e, w2) \<Rightarrow> (Inl e, rollback_to w1 w2)
       | (Inr _, w2) \<Rightarrow> (Inr (), w2))"

definition revokeDeviceNoTx :: "uuid \<Rightarrow> uuid \<Rightarrow> world \<Rightarrow> (auth_error + unit) \<times> world" where
  "revokeDeviceNoTx uid did w = revoke_device_steps uid did w"

definition RevokeDevice :: "ext \<Rightarrow> service \<Rightarrow> string \<Rightarrow> string \<Rightarrow> world \<Rightarrow> (auth_error + unit) \<times> world" where
  "RevokeDevice x s userID deviceID w =
     (case parse_id x userID of Inl e \<Rightarrow> (Inl e, w) | Inr uid \<Rightarrow>
      case parse_id x deviceID of Inl e \<Rightarrow> (Inl e, w) | Inr did \<Rightarrow>
      if Pool_set s then revokeDeviceTx uid did w else revokeDeviceNoTx uid did w)"

end
