(* ===== verification/CatalogStore.thy ===== *)
theory CatalogStore
  imports AuthStore
begin

text \<open>
  The queries behind the four groups of resources a user keeps:
  \<^verbatim>\<open>projects.sql.go\<close>, \<^verbatim>\<open>tags.sql.go\<close>,
  \<^verbatim>\<open>categories.sql.go\<close> and
  \<^verbatim>\<open>focus_sessions.sql.go\<close>, with the constraints and triggers of
  migrations 6, 9, 10, 12, 22 and 26.  The four tables differ in their columns and constraints
  only, so a statement is written once over a description of its table.
\<close>

section \<open>Statements on a table with triggers\<close>

record 'r table =
  etype :: string
  rows_of :: "db \<Rightarrow> 'r list"
  upd_rows :: "('r list \<Rightarrow> 'r list) \<Rightarrow> db \<Rightarrow> db"
  owner_of :: "'r \<Rightarrow> uuid option"
  key_of :: "'r \<Rightarrow> uuid"
  seq_of :: "'r \<Rightarrow> int"

text \<open>The row triggers draw the sequence number before the constraints are looked at.\<close>

definition insert_row :: "'r table \<Rightarrow> (db \<Rightarrow> 'r \<Rightarrow> db_error option) \<Rightarrow> (time \<Rightarrow> int \<Rightarrow> 'r) \<Rightarrow> world \<Rightarrow> (db_error + 'r) \<times> world" where
  "insert_row T refused mk w0 =
     (case next_server_seq w0 of (seq, w) \<Rightarrow>
        let row = mk (pg_ts (pg_now w)) seq in
        case refused (dbs w) row of
          Some e \<Rightarrow> (Inl e, w)
        | None \<Rightarrow>
            (Inr row, log_change (owner_of T row) (etype T) (key_of T row) None seq
               (w\<lparr>dbs := upd_rows T (\<lambda>rs. rs @ [row]) (dbs w)\<rparr>)))"

definition update_row :: "'r table \<Rightarrow> (db \<Rightarrow> 'r \<Rightarrow> db_error option) \<Rightarrow> ('r \<Rightarrow> bool) \<Rightarrow> (time \<Rightarrow> int \<Rightarrow> 'r \<Rightarrow> 'r) \<Rightarrow> world \<Rightarrow> (db_error + 'r) \<times> world" where
  "update_row T refused P upd w0 =
     (case filter P (rows_of T (dbs w0)) of
        [] \<Rightarrow> (Inl NoRows, w0)
      | r # _ \<Rightarrow>
          (case next_server_seq w0 of (seq, w) \<Rightarrow>
             let row = upd (pg_ts (pg_now w)) seq r in
             case refused (dbs w) row of
               Some e \<Rightarrow> (Inl e, w)
             | None \<Rightarrow>
                 (Inr row, log_change (owner_of T row) (etype T) (key_of T row) None seq
                    (w\<lparr>dbs := upd_rows T (update_where P (upd (pg_ts (pg_now w)) seq)) (dbs w)\<rparr>))))"

text \<open>\<^verbatim>\<open>RowsAffected\<close> of an update that hits at most one row.\<close>

definition rows_affected :: "(db_error + 'r) \<times> world \<Rightarrow> (db_error + int) \<times> world" where
  "rows_affected p =
     (case p of
        (Inl e, w) \<Rightarrow> (if e = NoRows then Inr 0 else Inl e, w)
      | (Inr _, w) \<Rightarrow> (Inr 1, w))"

definition list_rows :: "'r table \<Rightarrow> ('r \<Rightarrow> bool) \<Rightarrow> int \<Rightarrow> int \<Rightarrow> world \<Rightarrow> (db_error + 'r list) \<times> world" where
  "list_rows T P cursor lim w =
     (Inr (take (nat lim) (sort_key (seq_of T) (filter (\<lambda>r. P r \<and> cursor < seq_of T r) (rows_of T (dbs w))))), w)"

definition fk_error :: "(string \<times> bool) list \<Rightarrow> db_error option" where
  "fk_error fks = map_option (PgError ''23503'') (fk_violation fks)"

section \<open>Projects\<close>

definition project_table :: "project table" where
  "project_table =
     \<lparr>etype = ''projects'', rows_of = projects, upd_rows = projects_update,
      owner_of = (\<lambda>p. Some (pr_user_id p)), key_of = pr_id, seq_of = pr_server_seq\<rparr>"

definition live_project :: "uuid \<Rightarrow> uuid \<Rightarrow> project \<Rightarrow> bool" where
  "live_project i uid p \<longleftrightarrow> pr_id p = i \<and> pr_user_id p = uid \<and> pr_deleted_at p = None"

definition project_refused :: "db \<Rightarrow> project \<Rightarrow> db_error option" where
  "project_refused d row =
     (if pr_id row \<in> pr_id ` set (projects d) then Some (PgError ''23505'' ''projects_pkey'')
      else fk_error [(''projects_user_id_fkey'', user_exists d (pr_user_id row))])"

definition CreateProjectForUser :: "uuid \<Rightarrow> uuid \<Rightarrow> string \<Rightarrow> string \<Rightarrow> world \<Rightarrow> (db_error + project) \<times> world" where
  "CreateProjectForUser i uid name color =
     exec_txt [name, color] (insert_row project_table project_refused (\<lambda>now seq.
       \<lparr>pr_id = i, pr_user_id = uid, pr_name = name, pr_color = color, pr_created_at = now, pr_updated_at = now,
        pr_archived_at = None, pr_deleted_at = None, pr_server_seq = seq\<rparr>))"

definition GetProjectForUser :: "uuid \<Rightarrow> uuid \<Rightarrow> world \<Rightarrow> (db_error + project) \<times> world" where
  "GetProjectForUser i uid = exec (select_one projects (live_project i uid))"

definition ListProjectsForUser :: "uuid \<Rightarrow> int \<Rightarrow> int \<Rightarrow> world \<Rightarrow> (db_error + project list) \<times> world" where
  "ListProjectsForUser uid cursor lim =
     exec (list_rows project_table (\<lambda>p. pr_user_id p = uid \<and> pr_deleted_at p = None) cursor lim)"

definition SoftDeleteProjectForUser :: "uuid \<Rightarrow> uuid \<Rightarrow> world \<Rightarrow> (db_error + int) \<times> world" where
  "SoftDeleteProjectForUser i uid =
     exec (\<lambda>w. rows_affected (update_row project_table (\<lambda>_ _. None) (live_project i uid)
       (\<lambda>now seq p. p\<lparr>pr_deleted_at := Some now, pr_updated_at := now, pr_server_seq := seq\<rparr>) w))"

definition UpdateProjectForUser :: "uuid \<Rightarrow> uuid \<Rightarrow> string \<Rightarrow> string \<Rightarrow> time option \<Rightarrow> world \<Rightarrow> (db_error + project) \<times> world" where
  "UpdateProjectForUser i uid name color archivedAt =
     exec_txt [name, color] (update_row project_table (\<lambda>_ _. None) (live_project i uid)
       (\<lambda>now seq p. p\<lparr>pr_name := name, pr_color := color, pr_archived_at := map_option pg_ts archivedAt,
                      pr_updated_at := now, pr_server_seq := seq\<rparr>))"

section \<open>Tags\<close>

definition tag_table :: "tag table" where
  "tag_table =
     \<lparr>etype = ''tags'', rows_of = tags, upd_rows = tags_update,
      owner_of = (\<lambda>t. Some (tag_user_id t)), key_of = tag_id, seq_of = tag_server_seq\<rparr>"

definition live_tag :: "uuid \<Rightarrow> uuid \<Rightarrow> tag \<Rightarrow> bool" where
  "live_tag i uid t \<longleftrightarrow> tag_id t = i \<and> tag_user_id t = uid \<and> tag_deleted_at t = None"

text \<open>\<^verbatim>\<open>UNIQUE (user_id, name)\<close> is over all rows, the deleted ones too.\<close>

definition same_tag_name :: "tag \<Rightarrow> tag \<Rightarrow> bool" where
  "same_tag_name row t \<longleftrightarrow> tag_user_id t = tag_user_id row \<and> tag_name t = tag_name row"

definition tag_refused :: "db \<Rightarrow> tag \<Rightarrow> db_error option" where
  "tag_refused d row =
     (if tag_id row \<in> tag_id ` set (tags d) then Some (PgError ''23505'' ''tags_pkey'')
      else if list_ex (same_tag_name row) (tags d) then Some (PgError ''23505'' ''tags_user_id_name_key'')
      else if \<not> index_fits d [tag_name row] then Some (PgError ''54000'' '''')
      else fk_error [(''tags_user_id_fkey'', user_exists d (tag_user_id row))])"

definition tag_update_refused :: "db \<Rightarrow> tag \<Rightarrow> db_error option" where
  "tag_update_refused d row =
     (if list_ex (\<lambda>t. tag_id t \<noteq> tag_id row \<and> same_tag_name row t) (tags d)
      then Some (PgError ''23505'' ''tags_user_id_name_key'')
      else if \<not> index_fits d [tag_name row] then Some (PgError ''54000'' '''') else None)"

definition CreateTagForUser :: "uuid \<Rightarrow> uuid \<Rightarrow> string \<Rightarrow> world \<Rightarrow> (db_error + tag) \<times> world" where
  "CreateTagForUser i uid name =
     exec_txt [name] (insert_row tag_table tag_refused (\<lambda>now seq.
       \<lparr>tag_id = i, tag_user_id = uid, tag_name = name, tag_updated_at = now, tag_deleted_at = None,
        tag_server_seq = seq\<rparr>))"

definition GetTagForUser :: "uuid \<Rightarrow> uuid \<Rightarrow> world \<Rightarrow> (db_error + tag) \<times> world" where
  "GetTagForUser i uid = exec (select_one tags (live_tag i uid))"

definition ListTagsForUser :: "uuid \<Rightarrow> int \<Rightarrow> int \<Rightarrow> world \<Rightarrow> (db_error + tag list) \<times> world" where
  "ListTagsForUser uid cursor lim =
     exec (list_rows tag_table (\<lambda>t. tag_user_id t = uid \<and> tag_deleted_at t = None) cursor lim)"

definition SoftDeleteTagForUser :: "uuid \<Rightarrow> uuid \<Rightarrow> world \<Rightarrow> (db_error + int) \<times> world" where
  "SoftDeleteTagForUser i uid =
     exec (\<lambda>w. rows_affected (update_row tag_table (\<lambda>_ _. None) (live_tag i uid)
       (\<lambda>now seq t. t\<lparr>tag_deleted_at := Some now, tag_updated_at := now, tag_server_seq := seq\<rparr>) w))"

definition UpdateTagForUser :: "uuid \<Rightarrow> uuid \<Rightarrow> string \<Rightarrow> world \<Rightarrow> (db_error + tag) \<times> world" where
  "UpdateTagForUser i uid name =
     exec_txt [name] (update_row tag_table tag_update_refused (live_tag i uid)
       (\<lambda>now seq t. t\<lparr>tag_name := name, tag_updated_at := now, tag_server_seq := seq\<rparr>))"

section \<open>Categories\<close>

definition category_table :: "category table" where
  "category_table =
     \<lparr>etype = ''categories'', rows_of = categories, upd_rows = categories_update,
      owner_of = cat_user_id, key_of = cat_id, seq_of = cat_server_seq\<rparr>"

definition own_category :: "uuid \<Rightarrow> uuid \<Rightarrow> category \<Rightarrow> bool" where
  "own_category i uid c \<longleftrightarrow> cat_id c = i \<and> cat_user_id c = Some uid \<and> cat_deleted_at c = None"

definition readable_category :: "uuid \<Rightarrow> category \<Rightarrow> bool" where
  "readable_category uid c \<longleftrightarrow> (cat_user_id c = Some uid \<or> cat_user_id c = None) \<and> cat_deleted_at c = None"

definition category_check :: "category \<Rightarrow> db_error option" where
  "category_check row =
     (if - 2 \<le> cat_productivity row \<and> cat_productivity row \<le> 2 then None
      else Some (PgError ''23514'' ''categories_productivity_check''))"

definition category_refused :: "db \<Rightarrow> category \<Rightarrow> db_error option" where
  "category_refused d row =
     (if category_check row \<noteq> None then category_check row
      else if cat_id row \<in> cat_id ` set (categories d) then Some (PgError ''23505'' ''categories_pkey'')
      else fk_error [(''categories_user_id_fkey'', fk_opt (user_exists d) (cat_user_id row))])"

definition CreateCategoryForUser :: "uuid \<Rightarrow> string \<Rightarrow> string \<Rightarrow> int \<Rightarrow> world \<Rightarrow> (db_error + category) \<times> world" where
  "CreateCategoryForUser uid name color productivity =
     exec_txt [name, color] (\<lambda>w0.
       case gen_random_uuid w0 of (i, w) \<Rightarrow>
         insert_row category_table category_refused (\<lambda>now seq.
           \<lparr>cat_id = i, cat_user_id = Some uid, cat_name = name, cat_color = color, cat_productivity = productivity,
            cat_created_at = now, cat_updated_at = now, cat_deleted_at = None, cat_server_seq = seq\<rparr>) w)"

definition GetCategoryForUser :: "uuid \<Rightarrow> uuid \<Rightarrow> world \<Rightarrow> (db_error + category) \<times> world" where
  "GetCategoryForUser i uid = exec (select_one categories (\<lambda>c. cat_id c = i \<and> readable_category uid c))"

definition GetOwnCategoryForUser :: "uuid \<Rightarrow> uuid \<Rightarrow> world \<Rightarrow> (db_error + category) \<times> world" where
  "GetOwnCategoryForUser i uid = exec (select_one categories (own_category i uid))"

definition ListCategoriesForUser :: "uuid \<Rightarrow> int \<Rightarrow> int \<Rightarrow> world \<Rightarrow> (db_error + category list) \<times> world" where
  "ListCategoriesForUser uid cursor lim = exec (list_rows category_table (readable_category uid) cursor lim)"

definition SoftDeleteOwnCategoryForUser :: "uuid \<Rightarrow> uuid \<Rightarrow> world \<Rightarrow> (db_error + int) \<times> world" where
  "SoftDeleteOwnCategoryForUser i uid =
     exec (\<lambda>w. rows_affected (update_row category_table (\<lambda>_ _. None) (own_category i uid)
       (\<lambda>now seq c. c\<lparr>cat_deleted_at := Some now, cat_updated_at := now, cat_server_seq := seq\<rparr>) w))"

definition UpdateOwnCategoryForUser :: "uuid \<Rightarrow> uuid \<Rightarrow> string \<Rightarrow> string \<Rightarrow> int \<Rightarrow> world \<Rightarrow> (db_error + category) \<times> world" where
  "UpdateOwnCategoryForUser i uid name color productivity =
     exec_txt [name, color] (update_row category_table (\<lambda>_. category_check) (own_category i uid)
       (\<lambda>now seq c. c\<lparr>cat_name := name, cat_color := color, cat_productivity := productivity,
                      cat_updated_at := now, cat_server_seq := seq\<rparr>))"

section \<open>Focus sessions\<close>

definition focus_table :: "focus_session table" where
  "focus_table =
     \<lparr>etype = ''focus_sessions'', rows_of = focus_sessions, upd_rows = focus_sessions_update,
      owner_of = (\<lambda>f. Some (fs_user_id f)), key_of = fs_id, seq_of = fs_server_seq\<rparr>"

definition live_focus :: "uuid \<Rightarrow> uuid \<Rightarrow> focus_session \<Rightarrow> bool" where
  "live_focus i uid f \<longleftrightarrow> fs_id f = i \<and> fs_user_id f = uid \<and> fs_deleted_at f = None"

definition focus_check :: "focus_session \<Rightarrow> db_error option" where
  "focus_check row =
     (if fs_kind row \<notin> set focus_kinds then Some (PgError ''23514'' ''focus_sessions_kind_check'')
      else if fs_status row \<notin> set focus_statuses then Some (PgError ''23514'' ''focus_sessions_status_check'')
      else None)"

definition focus_references :: "db \<Rightarrow> focus_session \<Rightarrow> (string \<times> bool) list" where
  "focus_references d row =
     [(''focus_sessions_user_id_fkey'', user_exists d (fs_user_id row)),
      (''focus_sessions_device_id_fkey'', device_exists d (fs_device_id row)),
      (''focus_sessions_project_id_fkey'', fk_opt (project_exists d) (fs_project_id row))]"

definition focus_update_refused :: "db \<Rightarrow> focus_session \<Rightarrow> db_error option" where
  "focus_update_refused d row =
     (if focus_check row \<noteq> None then focus_check row else fk_error (focus_references d row))"

definition focus_refused :: "db \<Rightarrow> focus_session \<Rightarrow> db_error option" where
  "focus_refused d row =
     (if focus_check row \<noteq> None then focus_check row
      else if fs_id row \<in> fs_id ` set (focus_sessions d) then Some (PgError ''23505'' ''focus_sessions_pkey'')
      else fk_error (focus_references d row))"

record FocusSessionParams =
  fp_DeviceID :: uuid
  fp_ProjectID :: "uuid option"
  fp_Kind :: string
  fp_PlannedDurationS :: "int option"
  fp_StartedAt :: time
  fp_EndedAt :: "time option"
  fp_Status :: string
  fp_Note :: "string option"

definition focus_texts :: "FocusSessionParams \<Rightarrow> string list" where
  "focus_texts a = [fp_Kind a, fp_Status a] @ opt_text (fp_Note a)"

definition CreateFocusSessionForUser :: "uuid \<Rightarrow> uuid \<Rightarrow> FocusSessionParams \<Rightarrow> world \<Rightarrow> (db_error + focus_session) \<times> world" where
  "CreateFocusSessionForUser i uid a =
     exec_txt (focus_texts a) (insert_row focus_table focus_refused (\<lambda>now seq.
       \<lparr>fs_id = i, fs_user_id = uid, fs_device_id = fp_DeviceID a, fs_project_id = fp_ProjectID a,
        fs_kind = fp_Kind a, fs_planned_duration_s = fp_PlannedDurationS a, fs_started_at = pg_ts (fp_StartedAt a),
        fs_ended_at = map_option pg_ts (fp_EndedAt a), fs_status = fp_Status a, fs_note = fp_Note a,
        fs_created_at = now, fs_updated_at = now, fs_deleted_at = None, fs_server_seq = seq\<rparr>))"

definition GetFocusSessionForUser :: "uuid \<Rightarrow> uuid \<Rightarrow> world \<Rightarrow> (db_error + focus_session) \<times> world" where
  "GetFocusSessionForUser i uid = exec (select_one focus_sessions (live_focus i uid))"

definition ListFocusSessionsForUser :: "uuid \<Rightarrow> int \<Rightarrow> int \<Rightarrow> world \<Rightarrow> (db_error + focus_session list) \<times> world" where
  "ListFocusSessionsForUser uid cursor lim =
     exec (list_rows focus_table (\<lambda>f. fs_user_id f = uid \<and> fs_deleted_at f = None) cursor lim)"

definition SoftDeleteFocusSessionForUser :: "uuid \<Rightarrow> uuid \<Rightarrow> world \<Rightarrow> (db_error + int) \<times> world" where
  "SoftDeleteFocusSessionForUser i uid =
     exec (\<lambda>w. rows_affected (update_row focus_table (\<lambda>_ _. None) (live_focus i uid)
       (\<lambda>now seq f. f\<lparr>fs_deleted_at := Some now, fs_updated_at := now, fs_server_seq := seq\<rparr>) w))"

definition UpdateFocusSessionForUser :: "uuid \<Rightarrow> uuid \<Rightarrow> FocusSessionParams \<Rightarrow> world \<Rightarrow> (db_error + focus_session) \<times> world" where
  "UpdateFocusSessionForUser i uid a =
     exec_txt (focus_texts a) (update_row focus_table focus_update_refused (live_focus i uid) (\<lambda>now seq f.
       f\<lparr>fs_device_id := fp_DeviceID a, fs_project_id := fp_ProjectID a, fs_kind := fp_Kind a,
         fs_planned_duration_s := fp_PlannedDurationS a, fs_started_at := pg_ts (fp_StartedAt a),
         fs_ended_at := map_option pg_ts (fp_EndedAt a), fs_status := fp_Status a, fs_note := fp_Note a,
         fs_updated_at := now, fs_server_seq := seq\<rparr>))"

end
