(* ===== verification/Catalog.thy ===== *)
theory Catalog
  imports CatalogStore Password Seq
begin

text \<open>
  What the services of the projects, tags, categories and focus sessions share: the errors, the
  mapping of a query's error, and the operations whose code is the same in the four packages.
\<close>

section \<open>Errors\<close>

text \<open>The sentinels with their detail, and a wrapped driver or generator error.\<close>

datatype crud_error = CValidation detail | CNotFound | CConflict detail | CWrapped string db_error | CInternal string

definition found_row :: "string \<Rightarrow> (db_error + 'a) \<times> world \<Rightarrow> (crud_error + 'a) \<times> world" where
  "found_row msg p =
     (case p of
        (Inl e, w) \<Rightarrow> (Inl (if e = NoRows then CNotFound else CWrapped msg e), w)
      | (Inr a, w) \<Rightarrow> (Inr a, w))"

text \<open>The error of a write: a constraint's class decides, through the package's mapping.\<close>

definition write_error :: "(string \<times> detail \<Rightarrow> crud_error) \<Rightarrow> string \<Rightarrow> db_error \<Rightarrow> crud_error" where
  "write_error cv msg e = (case ConstraintViolation e of Some v \<Rightarrow> cv v | None \<Rightarrow> CWrapped msg e)"

definition created :: "(string \<times> detail \<Rightarrow> crud_error) \<Rightarrow> string \<Rightarrow> (db_error + 'a) \<times> world \<Rightarrow> (crud_error + 'a) \<times> world" where
  "created cv msg p = (case p of (Inl e, w) \<Rightarrow> (Inl (write_error cv msg e), w) | (Inr a, w) \<Rightarrow> (Inr a, w))"

definition updated :: "(string \<times> detail \<Rightarrow> crud_error) \<Rightarrow> string \<Rightarrow> (db_error + 'a) \<times> world \<Rightarrow> (crud_error + 'a) \<times> world" where
  "updated cv msg p =
     (case p of
        (Inl e, w) \<Rightarrow> (Inl (if e = NoRows then CNotFound else write_error cv msg e), w)
      | (Inr a, w) \<Rightarrow> (Inr a, w))"

text \<open>The mapping of the projects and tags, and that of the categories and focus sessions.\<close>

definition mapConstraintViolation :: "string \<times> detail \<Rightarrow> crud_error" where
  "mapConstraintViolation = (\<lambda>(code, message). if code = ''CONFLICT'' then CConflict message else CValidation message)"

definition validation_of :: "string \<times> detail \<Rightarrow> crud_error" where
  "validation_of = (\<lambda>(code, message). CValidation message)"

section \<open>Identifiers\<close>

definition user_of :: "ext \<Rightarrow> string \<Rightarrow> world \<Rightarrow> (crud_error + uuid) \<times> world" where
  "user_of x userID w =
     (case parseUUID x userID of
        Inl _ \<Rightarrow> (Inl (CValidation (Msg ''invalid authenticated user id'')), w)
      | Inr uid \<Rightarrow> (Inr uid, w))"

text \<open>An id in the path that does not parse names nothing.\<close>

definition path_id :: "ext \<Rightarrow> string \<Rightarrow> world \<Rightarrow> (crud_error + uuid) \<times> world" where
  "path_id x s w = (case parseUUID x s of Inl _ \<Rightarrow> (Inl CNotFound, w) | Inr i \<Rightarrow> (Inr i, w))"

text \<open>The id of a new row: the client's, or a random one.\<close>

definition new_id :: "ext \<Rightarrow> crypto \<Rightarrow> nat \<Rightarrow> string \<Rightarrow> string \<Rightarrow> world \<Rightarrow> (crud_error + uuid) \<times> world" where
  "new_id x c k msg s w =
     (if s \<noteq> [] then (case parseUUID x s of Inl d \<Rightarrow> (Inl (CValidation d), w) | Inr i \<Rightarrow> (Inr i, w))
      else (case newUUIDv4 c k of None \<Rightarrow> (Inl (CInternal msg), w) | Some i \<Rightarrow> (Inr i, w)))"

section \<open>Fields\<close>

text \<open>A field of a create request that may not be blank, and of a patch.\<close>

definition required :: "string \<Rightarrow> string \<Rightarrow> world \<Rightarrow> (crud_error + string) \<times> world" where
  "required msg s w = (let t = TrimSpace s in if t = [] then (Inl (CValidation (Msg msg)), w) else (Inr t, w))"

definition patched :: "string \<Rightarrow> string option \<Rightarrow> string \<Rightarrow> world \<Rightarrow> (crud_error + string) \<times> world" where
  "patched msg v cur w = (case v of None \<Rightarrow> (Inr cur, w) | Some s \<Rightarrow> required msg s w)"

definition check :: "bool \<Rightarrow> string \<Rightarrow> world \<Rightarrow> (crud_error + unit) \<times> world" where
  "check b msg w = (if b then (Inr (), w) else (Inl (CValidation (Msg msg)), w))"

section \<open>Operations with the same code in every package\<close>

definition defaultListLimit :: int where "defaultListLimit = 50"
definition maxListLimit :: int where "maxListLimit = 200"

definition crud_list :: "ext \<Rightarrow> string \<Rightarrow> (uuid \<Rightarrow> int \<Rightarrow> int \<Rightarrow> world \<Rightarrow> (db_error + 'r list) \<times> world) \<Rightarrow> ('r \<Rightarrow> int) \<Rightarrow>
    string \<Rightarrow> string \<Rightarrow> int \<Rightarrow> world \<Rightarrow> (crud_error + 'r list \<times> string \<times> bool) \<times> world" where
  "crud_list x msg query seq userID rawCursor rawLimit w =
     andthen (user_of x userID w) (\<lambda>uid w.
       case DecodeCursor rawCursor of
         Inl _ \<Rightarrow> (Inl (CValidation (Msg ''invalid cursor'')), w)
       | Inr cursor \<Rightarrow>
           let limit = clamp_limit defaultListLimit maxListLimit rawLimit in
           (case query uid cursor (LimitParam (limit + 1)) w of
              (Inl e, w) \<Rightarrow> (Inl (CWrapped msg e), w)
            | (Inr rows, w) \<Rightarrow>
                (case page_cut seq limit cursor rows of (kept, nextCursor, hasMore) \<Rightarrow>
                   (Inr (kept, EncodeCursor nextCursor, hasMore), w))))"

definition crud_get :: "ext \<Rightarrow> string \<Rightarrow> (uuid \<Rightarrow> uuid \<Rightarrow> world \<Rightarrow> (db_error + 'r) \<times> world) \<Rightarrow> string \<Rightarrow> string \<Rightarrow> world \<Rightarrow> (crud_error + 'r) \<times> world" where
  "crud_get x msg query userID rid w =
     andthen (user_of x userID w) (\<lambda>uid w. andthen (path_id x rid w) (\<lambda>i w. found_row msg (query i uid w)))"

definition crud_delete :: "ext \<Rightarrow> string \<Rightarrow> (uuid \<Rightarrow> uuid \<Rightarrow> world \<Rightarrow> (db_error + int) \<times> world) \<Rightarrow> string \<Rightarrow> string \<Rightarrow> world \<Rightarrow> (crud_error + unit) \<times> world" where
  "crud_delete x msg query userID rid w =
     andthen (user_of x userID w) (\<lambda>uid w. andthen (path_id x rid w) (\<lambda>i w.
       case query i uid w of
         (Inl e, w) \<Rightarrow> (Inl (CWrapped msg e), w)
       | (Inr rows, w) \<Rightarrow> if rows = 0 then (Inl CNotFound, w) else (Inr (), w)))"

end
