(* ===== verification/Projects.thy ===== *)
theory Projects
  imports Catalog
begin

text \<open>\<^verbatim>\<open>internal/projects/service.go\<close>.\<close>

record project_create = pc_ID :: string pc_Name :: string pc_Color :: string
record project_update = pu_Name :: "string option" pu_Color :: "string option" pu_Archived :: "bool option"

definition Create :: "ext \<Rightarrow> crypto \<Rightarrow> nat \<Rightarrow> string \<Rightarrow> project_create \<Rightarrow> world \<Rightarrow> (crud_error + project) \<times> world" where
  "Create x c k userID req w =
     andthen (user_of x userID w) (\<lambda>uid w.
     andthen (required ''name is required'' (pc_Name req) w) (\<lambda>name w.
     andthen (required ''color is required'' (pc_Color req) w) (\<lambda>color w.
     andthen (new_id x c k ''projects'' (pc_ID req) w) (\<lambda>i w.
       created mapConstraintViolation ''projects: create'' (CreateProjectForUser i uid name color w)))))"

definition List :: "ext \<Rightarrow> string \<Rightarrow> string \<Rightarrow> int \<Rightarrow> world \<Rightarrow> (crud_error + project list \<times> string \<times> bool) \<times> world" where
  "List x = crud_list x ''projects: list'' ListProjectsForUser pr_server_seq"

definition Get :: "ext \<Rightarrow> string \<Rightarrow> string \<Rightarrow> world \<Rightarrow> (crud_error + project) \<times> world" where
  "Get x = crud_get x ''projects: get'' GetProjectForUser"

text \<open>Read, merge, write; \<^verbatim>\<open>now\<close> is the server's clock.\<close>

definition Update :: "ext \<Rightarrow> time \<Rightarrow> string \<Rightarrow> string \<Rightarrow> project_update \<Rightarrow> world \<Rightarrow> (crud_error + project) \<times> world" where
  "Update x now userID projectID req w =
     andthen (Get x userID projectID w) (\<lambda>current w.
     andthen (patched ''name must not be blank'' (pu_Name req) (pr_name current) w) (\<lambda>name w.
     andthen (patched ''color must not be blank'' (pu_Color req) (pr_color current) w) (\<lambda>color w.
       let archivedAt = (case pu_Archived req of
                           None \<Rightarrow> pr_archived_at current
                         | Some b \<Rightarrow> if b then Some now else None) in
       andthen (user_of x userID w) (\<lambda>uid w. andthen (path_id x projectID w) (\<lambda>pid w.
         updated mapConstraintViolation ''projects: update'' (UpdateProjectForUser pid uid name color archivedAt w))))))"

definition Delete :: "ext \<Rightarrow> string \<Rightarrow> string \<Rightarrow> world \<Rightarrow> (crud_error + unit) \<times> world" where
  "Delete x = crud_delete x ''projects: delete'' SoftDeleteProjectForUser"

end
