(* ===== verification/Tags.thy ===== *)
theory Tags
  imports Catalog
begin

text \<open>\<^verbatim>\<open>internal/tags/service.go\<close>.\<close>

record tag_create = tc_ID :: string tc_Name :: string
record tag_update = tu_Name :: "string option"

definition Create :: "ext \<Rightarrow> crypto \<Rightarrow> nat \<Rightarrow> string \<Rightarrow> tag_create \<Rightarrow> world \<Rightarrow> (crud_error + tag) \<times> world" where
  "Create x c k userID req w =
     andthen (user_of x userID w) (\<lambda>uid w.
     andthen (required ''name is required'' (tc_Name req) w) (\<lambda>name w.
     andthen (new_id x c k ''tags'' (tc_ID req) w) (\<lambda>i w.
       created mapConstraintViolation ''tags: create'' (CreateTagForUser i uid name w))))"

definition List :: "ext \<Rightarrow> string \<Rightarrow> string \<Rightarrow> int \<Rightarrow> world \<Rightarrow> (crud_error + tag list \<times> string \<times> bool) \<times> world" where
  "List x = crud_list x ''tags: list'' ListTagsForUser tag_server_seq"

definition Get :: "ext \<Rightarrow> string \<Rightarrow> string \<Rightarrow> world \<Rightarrow> (crud_error + tag) \<times> world" where
  "Get x = crud_get x ''tags: get'' GetTagForUser"

definition Update :: "ext \<Rightarrow> string \<Rightarrow> string \<Rightarrow> tag_update \<Rightarrow> world \<Rightarrow> (crud_error + tag) \<times> world" where
  "Update x userID tagID req w =
     andthen (Get x userID tagID w) (\<lambda>current w.
     andthen (patched ''name must not be blank'' (tu_Name req) (tag_name current) w) (\<lambda>name w.
     andthen (user_of x userID w) (\<lambda>uid w. andthen (path_id x tagID w) (\<lambda>tid w.
       updated mapConstraintViolation ''tags: update'' (UpdateTagForUser tid uid name w)))))"

definition Delete :: "ext \<Rightarrow> string \<Rightarrow> string \<Rightarrow> world \<Rightarrow> (crud_error + unit) \<times> world" where
  "Delete x = crud_delete x ''tags: delete'' SoftDeleteTagForUser"

end
