(* ===== verification/Categories.thy ===== *)
theory Categories
  imports Catalog
begin

text \<open>
  \<^verbatim>\<open>internal/categories/service.go\<close>.  The request's productivity is a
  16-bit integer.
\<close>

record category_create = cc_Name :: string cc_Color :: string cc_Productivity :: int
record category_update = cu_Name :: "string option" cu_Color :: "string option" cu_Productivity :: "int option"

definition validateProductivity :: "int \<Rightarrow> world \<Rightarrow> (crud_error + unit) \<times> world" where
  "validateProductivity p = check (\<not> (p < - 2 \<or> 2 < p)) ''productivity must be between -2 and 2''"

definition Create :: "ext \<Rightarrow> string \<Rightarrow> category_create \<Rightarrow> world \<Rightarrow> (crud_error + category) \<times> world" where
  "Create x userID req w =
     andthen (user_of x userID w) (\<lambda>uid w.
     andthen (required ''name is required'' (cc_Name req) w) (\<lambda>name w.
     andthen (required ''color is required'' (cc_Color req) w) (\<lambda>color w.
     andthen (validateProductivity (cc_Productivity req) w) (\<lambda>_ w.
       created validation_of ''categories: create'' (CreateCategoryForUser uid name color (cc_Productivity req) w)))))"

definition List :: "ext \<Rightarrow> string \<Rightarrow> string \<Rightarrow> int \<Rightarrow> world \<Rightarrow> (crud_error + category list \<times> string \<times> bool) \<times> world" where
  "List x = crud_list x ''categories: list'' ListCategoriesForUser cat_server_seq"

definition Get :: "ext \<Rightarrow> string \<Rightarrow> string \<Rightarrow> world \<Rightarrow> (crud_error + category) \<times> world" where
  "Get x = crud_get x ''categories: get'' GetCategoryForUser"

definition Update :: "ext \<Rightarrow> string \<Rightarrow> string \<Rightarrow> category_update \<Rightarrow> world \<Rightarrow> (crud_error + category) \<times> world" where
  "Update x userID categoryID req w =
     andthen (user_of x userID w) (\<lambda>uid w.
     andthen (path_id x categoryID w) (\<lambda>cid w.
     andthen (found_row ''categories: get own'' (GetOwnCategoryForUser cid uid w)) (\<lambda>current w.
     andthen (patched ''name must not be blank'' (cu_Name req) (cat_name current) w) (\<lambda>name w.
     andthen (patched ''color must not be blank'' (cu_Color req) (cat_color current) w) (\<lambda>color w.
     andthen (case cu_Productivity req of
                None \<Rightarrow> (Inr (cat_productivity current), w)
              | Some p \<Rightarrow> andthen (validateProductivity p w) (\<lambda>_ w. (Inr p, w))) (\<lambda>productivity w.
       updated validation_of ''categories: update'' (UpdateOwnCategoryForUser cid uid name color productivity w)))))))"

definition Delete :: "ext \<Rightarrow> string \<Rightarrow> string \<Rightarrow> world \<Rightarrow> (crud_error + unit) \<times> world" where
  "Delete x = crud_delete x ''categories: delete'' SoftDeleteOwnCategoryForUser"

end
