(* ===== verification/FocusSessions.thy ===== *)
theory FocusSessions
  imports Catalog
begin

text \<open>\<^verbatim>\<open>internal/focussessions/service.go\<close>.\<close>

record focus_create =
  fc_ID :: string
  fc_DeviceID :: string
  fc_ProjectID :: string
  fc_Kind :: string
  fc_PlannedDurationS :: "int option"
  fc_StartedAt :: string
  fc_EndedAt :: string
  fc_Status :: string
  fc_Note :: "string option"

record focus_update =
  fu_DeviceID :: "string option"
  fu_ProjectID :: "string option"
  fu_ClearProjectID :: bool
  fu_Kind :: "string option"
  fu_PlannedDurationS :: "int option"
  fu_StartedAt :: "string option"
  fu_EndedAt :: "string option"
  fu_ClearEndedAt :: bool
  fu_Status :: "string option"
  fu_Note :: "string option"

definition validKind :: "string \<Rightarrow> bool" where
  "validKind k \<longleftrightarrow> k = ''focus'' \<or> k = ''break'' \<or> k = ''meeting''"

definition validStatus :: "string \<Rightarrow> bool" where
  "validStatus s \<longleftrightarrow> s = ''running'' \<or> s = ''completed'' \<or> s = ''abandoned''"

text \<open>A query whose missing row is a validation error.\<close>

definition owned_row :: "string \<Rightarrow> string \<Rightarrow> (db_error + 'a) \<times> world \<Rightarrow> (crud_error + 'a) \<times> world" where
  "owned_row missing msg p =
     (case p of
        (Inl e, w) \<Rightarrow> (Inl (if e = NoRows then CValidation (Msg missing) else CWrapped msg e), w)
      | (Inr a, w) \<Rightarrow> (Inr a, w))"

definition resolveDevice :: "ext \<Rightarrow> uuid \<Rightarrow> string \<Rightarrow> world \<Rightarrow> (crud_error + uuid) \<times> world" where
  "resolveDevice x uid deviceIDRaw w =
     (case parseUUID x deviceIDRaw of
        Inl _ \<Rightarrow> (Inl (CValidation (Msg ''device_id must be a valid UUID'')), w)
      | Inr did \<Rightarrow>
          andthen (owned_row ''device_id does not reference a device owned by this user'' ''focussessions: resolve device''
                    (GetDeviceByID did uid w)) (\<lambda>_ w. (Inr did, w)))"

definition resolveProject :: "ext \<Rightarrow> uuid \<Rightarrow> string \<Rightarrow> world \<Rightarrow> (crud_error + uuid option) \<times> world" where
  "resolveProject x uid projectIDRaw w =
     (case parseOptionalUUID x projectIDRaw of
        Inl _ \<Rightarrow> (Inl (CValidation (Msg ''project_id must be a valid UUID'')), w)
      | Inr None \<Rightarrow> (Inr None, w)
      | Inr (Some pid) \<Rightarrow>
          andthen (owned_row ''project_id does not reference a project owned by this user'' ''focussessions: resolve project''
                    (GetProjectByIDForUser pid uid w)) (\<lambda>_ w. (Inr (Some pid), w)))"

definition parseTimestamp :: "ext \<Rightarrow> string \<Rightarrow> world \<Rightarrow> (crud_error + time) \<times> world" where
  "parseTimestamp x raw w =
     (case rfc3339_parse x raw of None \<Rightarrow> (Inl (CValidation (BadTimestamp raw)), w) | Some t \<Rightarrow> (Inr t, w))"

definition kind_msg :: string where "kind_msg = ''kind must be one of focus, break, meeting''"
definition status_msg :: string where "status_msg = ''status must be one of running, completed, abandoned''"

definition Create :: "ext \<Rightarrow> crypto \<Rightarrow> nat \<Rightarrow> string \<Rightarrow> focus_create \<Rightarrow> world \<Rightarrow> (crud_error + focus_session) \<times> world" where
  "Create x c k userID req w =
     andthen (user_of x userID w) (\<lambda>uid w.
     andthen (resolveDevice x uid (fc_DeviceID req) w) (\<lambda>deviceID w.
     andthen (resolveProject x uid (fc_ProjectID req) w) (\<lambda>projectID w.
     andthen (check (validKind (fc_Kind req)) kind_msg w) (\<lambda>_ w.
     andthen (check (validStatus (fc_Status req)) status_msg w) (\<lambda>_ w.
     andthen (parseTimestamp x (fc_StartedAt req) w) (\<lambda>startedAt w.
     andthen (if fc_EndedAt req = [] then (Inr None, w)
              else andthen (parseTimestamp x (fc_EndedAt req) w) (\<lambda>t w. (Inr (Some t), w))) (\<lambda>endedAt w.
     andthen (new_id x c k ''focussessions'' (fc_ID req) w) (\<lambda>i w.
       created validation_of ''focussessions: create''
         (CreateFocusSessionForUser i uid
            \<lparr>fp_DeviceID = deviceID, fp_ProjectID = projectID, fp_Kind = fc_Kind req,
             fp_PlannedDurationS = fc_PlannedDurationS req, fp_StartedAt = startedAt, fp_EndedAt = endedAt,
             fp_Status = fc_Status req, fp_Note = map_option TrimSpace (fc_Note req)\<rparr> w)))))))))"

definition List :: "ext \<Rightarrow> string \<Rightarrow> string \<Rightarrow> int \<Rightarrow> world \<Rightarrow> (crud_error + focus_session list \<times> string \<times> bool) \<times> world" where
  "List x = crud_list x ''focussessions: list'' ListFocusSessionsForUser fs_server_seq"

definition Get :: "ext \<Rightarrow> string \<Rightarrow> string \<Rightarrow> world \<Rightarrow> (crud_error + focus_session) \<times> world" where
  "Get x = crud_get x ''focussessions: get'' GetFocusSessionForUser"

text \<open>Read, merge, write.\<close>

definition patch_device :: "ext \<Rightarrow> uuid \<Rightarrow> focus_update \<Rightarrow> focus_session \<Rightarrow> world \<Rightarrow> (crud_error + uuid) \<times> world" where
  "patch_device x uid req current w =
     (case fu_DeviceID req of None \<Rightarrow> (Inr (fs_device_id current), w) | Some s \<Rightarrow> resolveDevice x uid s w)"

definition patch_project :: "ext \<Rightarrow> uuid \<Rightarrow> focus_update \<Rightarrow> focus_session \<Rightarrow> world \<Rightarrow> (crud_error + uuid option) \<times> world" where
  "patch_project x uid req current w =
     (if fu_ClearProjectID req then (Inr None, w)
      else case fu_ProjectID req of None \<Rightarrow> (Inr (fs_project_id current), w) | Some s \<Rightarrow> resolveProject x uid s w)"

definition patch_choice :: "(string \<Rightarrow> bool) \<Rightarrow> string \<Rightarrow> string option \<Rightarrow> string \<Rightarrow> world \<Rightarrow> (crud_error + string) \<times> world" where
  "patch_choice valid msg v cur w =
     (case v of None \<Rightarrow> (Inr cur, w) | Some s \<Rightarrow> andthen (check (valid s) msg w) (\<lambda>_ w. (Inr s, w)))"

definition patch_start :: "ext \<Rightarrow> focus_update \<Rightarrow> focus_session \<Rightarrow> world \<Rightarrow> (crud_error + time) \<times> world" where
  "patch_start x req current w =
     (case fu_StartedAt req of None \<Rightarrow> (Inr (fs_started_at current), w) | Some s \<Rightarrow> parseTimestamp x s w)"

definition patch_end :: "ext \<Rightarrow> focus_update \<Rightarrow> focus_session \<Rightarrow> world \<Rightarrow> (crud_error + time option) \<times> world" where
  "patch_end x req current w =
     (if fu_ClearEndedAt req then (Inr None, w)
      else case fu_EndedAt req of
             None \<Rightarrow> (Inr (fs_ended_at current), w)
           | Some s \<Rightarrow> andthen (parseTimestamp x s w) (\<lambda>t w. (Inr (Some t), w)))"

definition Update :: "ext \<Rightarrow> string \<Rightarrow> string \<Rightarrow> focus_update \<Rightarrow> world \<Rightarrow> (crud_error + focus_session) \<times> world" where
  "Update x userID sessionID req w =
     andthen (user_of x userID w) (\<lambda>uid w.
     andthen (Get x userID sessionID w) (\<lambda>current w.
     andthen (patch_device x uid req current w) (\<lambda>deviceID w.
     andthen (patch_project x uid req current w) (\<lambda>projectID w.
     andthen (patch_choice validKind kind_msg (fu_Kind req) (fs_kind current) w) (\<lambda>kind w.
     andthen (patch_choice validStatus status_msg (fu_Status req) (fs_status current) w) (\<lambda>status w.
     let plannedDurationS = (case fu_PlannedDurationS req of None \<Rightarrow> fs_planned_duration_s current | Some s \<Rightarrow> Some s) in
     andthen (patch_start x req current w) (\<lambda>startedAt w.
     andthen (patch_end x req current w) (\<lambda>endedAt w.
     let note = (case fu_Note req of None \<Rightarrow> fs_note current | Some s \<Rightarrow> Some (TrimSpace s)) in
     andthen (path_id x sessionID w) (\<lambda>sid w.
       updated validation_of ''focussessions: update''
         (UpdateFocusSessionForUser sid uid
            \<lparr>fp_DeviceID = deviceID, fp_ProjectID = projectID, fp_Kind = kind, fp_PlannedDurationS = plannedDurationS,
             fp_StartedAt = startedAt, fp_EndedAt = endedAt, fp_Status = status, fp_Note = note\<rparr> w))))))))))"

definition Delete :: "ext \<Rightarrow> string \<Rightarrow> string \<Rightarrow> world \<Rightarrow> (crud_error + unit) \<times> world" where
  "Delete x = crud_delete x ''focussessions: delete'' SoftDeleteFocusSessionForUser"

end
