(* ===== verification/Requests.thy ===== *)
theory Requests
  imports Json SyncPush Auth Projects Tags Categories FocusSessions
begin

text \<open>
  The request bodies: the structures the handlers decode into
  (\<^verbatim>\<open>dto.go\<close> and \<^verbatim>\<open>handlers.go\<close> of each package), with
  the JSON tags of their fields.
\<close>

section \<open>Field types beside the ones of Json\<close>

definition get_bool_ptr :: "json \<Rightarrow> bool option option" where
  "get_bool_ptr j = (case j of JNull \<Rightarrow> Some None | JBool b \<Rightarrow> Some (Some b) | _ \<Rightarrow> None)"

definition get_int16 :: "json \<Rightarrow> int \<Rightarrow> int option" where
  "get_int16 j old =
     (case j of
        JNull \<Rightarrow> Some old
      | JNumber n \<Rightarrow>
          (case parse_int64 n of
             None \<Rightarrow> None
           | Some i \<Rightarrow> if - (2 ^ 15) \<le> i \<and> i < 2 ^ 15 then Some i else None)
      | _ \<Rightarrow> None)"

definition get_int16_ptr :: "json \<Rightarrow> int option option" where
  "get_int16_ptr j = (case j of JNull \<Rightarrow> Some None | _ \<Rightarrow> map_option Some (get_int16 j 0))"

text \<open>A structure inside a structure, and a pointer to one: decoded over what is there.\<close>

definition get_struct :: "string list \<Rightarrow> (string \<Rightarrow> json \<Rightarrow> 'd \<Rightarrow> 'd option) \<Rightarrow> json \<Rightarrow> 'd \<Rightarrow> 'd option" where
  "get_struct ftags set_f j old =
     (case j of JNull \<Rightarrow> Some old | JObject ms \<Rightarrow> set_members ftags set_f ms old | _ \<Rightarrow> None)"

definition get_struct_ptr :: "string list \<Rightarrow> (string \<Rightarrow> json \<Rightarrow> 'd \<Rightarrow> 'd option) \<Rightarrow> 'd \<Rightarrow> json \<Rightarrow> 'd option \<Rightarrow> 'd option option" where
  "get_struct_ptr ftags set_f zero j old =
     (case j of
        JNull \<Rightarrow> Some None
      | JObject ms \<Rightarrow>
          map_option Some (set_members ftags set_f ms (case old of None \<Rightarrow> zero | Some d \<Rightarrow> d))
      | _ \<Rightarrow> None)"

text \<open>
  A slice: the elements of the array are decoded one after the other over the elements of the
  slice's memory, which a repeated key finds as an earlier array left it; the memory's length is
  cut to the number of elements, but what lies behind it stays.
\<close>

fun get_elements :: "('d \<Rightarrow> json \<Rightarrow> 'd option) \<Rightarrow> 'd \<Rightarrow> json list \<Rightarrow> 'd list \<Rightarrow> 'd list option" where
  "get_elements get zero [] memory = Some memory"
| "get_elements get zero (j # js) memory =
     (case get (case memory of [] \<Rightarrow> zero | d # _ \<Rightarrow> d) j of
        None \<Rightarrow> None
      | Some d \<Rightarrow> map_option (\<lambda>ds. d # ds) (get_elements get zero js (tl memory)))"

definition get_slice :: "('d \<Rightarrow> json \<Rightarrow> 'd option) \<Rightarrow> 'd \<Rightarrow> json \<Rightarrow> nat \<times> 'd list \<Rightarrow> (nat \<times> 'd list) option" where
  "get_slice get zero j old =
     (case j of
        JNull \<Rightarrow> Some (0, [])
      | JArray [] \<Rightarrow> Some (0, [])
      | JArray js \<Rightarrow> map_option (\<lambda>memory. (length js, memory)) (get_elements get zero js (snd old))
      | _ \<Rightarrow> None)"

section \<open>internal/auth\<close>

record deviceDTO =
  dd_ID :: string
  dd_Platform :: string
  dd_Name :: string
  dd_Model :: string
  dd_OSVersion :: string
  dd_AppVersion :: string

definition toInput :: "deviceDTO \<Rightarrow> DeviceInput" where
  "toInput d =
     \<lparr>di_ID = dd_ID d, di_Platform = dd_Platform d, di_Name = dd_Name d, di_Model = dd_Model d,
      di_OSVersion = dd_OSVersion d, di_AppVersion = dd_AppVersion d\<rparr>"

definition zero_device :: deviceDTO where
  "zero_device = \<lparr>dd_ID = [], dd_Platform = [], dd_Name = [], dd_Model = [], dd_OSVersion = [], dd_AppVersion = []\<rparr>"

definition device_tags :: "string list" where
  "device_tags = [''id'', ''platform'', ''name'', ''model'', ''os_version'', ''app_version'']"

definition set_device :: "string \<Rightarrow> json \<Rightarrow> deviceDTO \<Rightarrow> deviceDTO option" where
  "set_device t j d =
     (if t = ''id'' then map_option (\<lambda>s. d\<lparr>dd_ID := s\<rparr>) (get_string j (dd_ID d))
      else if t = ''platform'' then map_option (\<lambda>s. d\<lparr>dd_Platform := s\<rparr>) (get_string j (dd_Platform d))
      else if t = ''name'' then map_option (\<lambda>s. d\<lparr>dd_Name := s\<rparr>) (get_string j (dd_Name d))
      else if t = ''model'' then map_option (\<lambda>s. d\<lparr>dd_Model := s\<rparr>) (get_string j (dd_Model d))
      else if t = ''os_version'' then map_option (\<lambda>s. d\<lparr>dd_OSVersion := s\<rparr>) (get_string j (dd_OSVersion d))
      else map_option (\<lambda>s. d\<lparr>dd_AppVersion := s\<rparr>) (get_string j (dd_AppVersion d)))"

record registerLoginRequest =
  rl_Email :: string
  rl_Password :: string
  rl_Device :: deviceDTO

definition set_register_login :: "string \<Rightarrow> json \<Rightarrow> registerLoginRequest \<Rightarrow> registerLoginRequest option" where
  "set_register_login t j q =
     (if t = ''email'' then map_option (\<lambda>s. q\<lparr>rl_Email := s\<rparr>) (get_string j (rl_Email q))
      else if t = ''password'' then map_option (\<lambda>s. q\<lparr>rl_Password := s\<rparr>) (get_string j (rl_Password q))
      else map_option (\<lambda>d. q\<lparr>rl_Device := d\<rparr>) (get_struct device_tags set_device j (rl_Device q)))"

definition unmarshal_register_login :: "json option \<Rightarrow> registerLoginRequest option" where
  "unmarshal_register_login =
     unmarshal [''email'', ''password'', ''device''] set_register_login
       \<lparr>rl_Email = [], rl_Password = [], rl_Device = zero_device\<rparr>"

record refreshRequest =
  rf_RefreshToken :: string
  rf_Device :: "deviceDTO option"

definition set_refresh :: "string \<Rightarrow> json \<Rightarrow> refreshRequest \<Rightarrow> refreshRequest option" where
  "set_refresh t j q =
     (if t = ''refresh_token'' then map_option (\<lambda>s. q\<lparr>rf_RefreshToken := s\<rparr>) (get_string j (rf_RefreshToken q))
      else map_option (\<lambda>d. q\<lparr>rf_Device := d\<rparr>) (get_struct_ptr device_tags set_device zero_device j (rf_Device q)))"

definition unmarshal_refresh :: "json option \<Rightarrow> refreshRequest option" where
  "unmarshal_refresh =
     unmarshal [''refresh_token'', ''device''] set_refresh \<lparr>rf_RefreshToken = [], rf_Device = None\<rparr>"

text \<open>A structure of one string field.\<close>

definition unmarshal_string :: "string \<Rightarrow> json option \<Rightarrow> string option" where
  "unmarshal_string t = unmarshal [t] (\<lambda>_ j s. get_string j s) []"

definition unmarshal_logout :: "json option \<Rightarrow> string option" where
  "unmarshal_logout = unmarshal_string ''refresh_token''"

definition unmarshal_patch_device :: "json option \<Rightarrow> string option" where
  "unmarshal_patch_device = unmarshal_string ''name''"

definition set_update_me :: "string \<Rightarrow> json \<Rightarrow> ProfileUpdate \<Rightarrow> ProfileUpdate option" where
  "set_update_me t j q =
     (if t = ''display_name'' then map_option (\<lambda>s. q\<lparr>pu_DisplayName := s\<rparr>) (get_string_ptr j)
      else map_option (\<lambda>s. q\<lparr>pu_Timezone := s\<rparr>) (get_string_ptr j))"

definition unmarshal_update_me :: "json option \<Rightarrow> ProfileUpdate option" where
  "unmarshal_update_me =
     unmarshal [''display_name'', ''timezone''] set_update_me \<lparr>pu_DisplayName = None, pu_Timezone = None\<rparr>"

section \<open>internal/sync\<close>

definition set_item :: "string \<Rightarrow> json \<Rightarrow> pushItem \<Rightarrow> pushItem option" where
  "set_item t j i =
     (if t = ''entity_type'' then map_option (\<lambda>s. i\<lparr>EntityType := s\<rparr>) (get_string j (EntityType i))
      else Some (i\<lparr>Data := Some j\<rparr>))"

definition zero_item :: pushItem where "zero_item = \<lparr>EntityType = [], Data = None\<rparr>"

definition get_item :: "pushItem \<Rightarrow> json \<Rightarrow> pushItem option" where
  "get_item old j = get_struct [''entity_type'', ''data''] set_item j old"

text \<open>The request while it is decoded: the device, and the slice with its memory.\<close>

definition set_push :: "string \<Rightarrow> json \<Rightarrow> string \<times> nat \<times> pushItem list \<Rightarrow> (string \<times> nat \<times> pushItem list) option" where
  "set_push t j q =
     (case q of (dev, items) \<Rightarrow>
        if t = ''device_id'' then map_option (\<lambda>s. (s, items)) (get_string j dev)
        else map_option (\<lambda>s. (dev, s)) (get_slice get_item zero_item j items))"

definition unmarshal_push :: "json option \<Rightarrow> pushRequest option" where
  "unmarshal_push raw =
     map_option (\<lambda>(dev, n, memory). \<lparr>DeviceID = dev, Items = take n memory\<rparr>)
       (unmarshal [''device_id'', ''items''] set_push ([], 0, []) raw)"

section \<open>The four catalog packages\<close>

definition set_project_create :: "string \<Rightarrow> json \<Rightarrow> project_create \<Rightarrow> project_create option" where
  "set_project_create t j q =
     (if t = ''id'' then map_option (\<lambda>s. q\<lparr>pc_ID := s\<rparr>) (get_string j (pc_ID q))
      else if t = ''name'' then map_option (\<lambda>s. q\<lparr>pc_Name := s\<rparr>) (get_string j (pc_Name q))
      else map_option (\<lambda>s. q\<lparr>pc_Color := s\<rparr>) (get_string j (pc_Color q)))"

definition unmarshal_project_create :: "json option \<Rightarrow> project_create option" where
  "unmarshal_project_create =
     unmarshal [''id'', ''name'', ''color''] set_project_create \<lparr>pc_ID = [], pc_Name = [], pc_Color = []\<rparr>"

definition set_project_update :: "string \<Rightarrow> json \<Rightarrow> project_update \<Rightarrow> project_update option" where
  "set_project_update t j q =
     (if t = ''name'' then map_option (\<lambda>s. q\<lparr>pu_Name := s\<rparr>) (get_string_ptr j)
      else if t = ''color'' then map_option (\<lambda>s. q\<lparr>pu_Color := s\<rparr>) (get_string_ptr j)
      else map_option (\<lambda>b. q\<lparr>pu_Archived := b\<rparr>) (get_bool_ptr j))"

definition unmarshal_project_update :: "json option \<Rightarrow> project_update option" where
  "unmarshal_project_update =
     unmarshal [''name'', ''color'', ''archived''] set_project_update
       \<lparr>pu_Name = None, pu_Color = None, pu_Archived = None\<rparr>"

definition set_tag_create :: "string \<Rightarrow> json \<Rightarrow> tag_create \<Rightarrow> tag_create option" where
  "set_tag_create t j q =
     (if t = ''id'' then map_option (\<lambda>s. q\<lparr>tc_ID := s\<rparr>) (get_string j (tc_ID q))
      else map_option (\<lambda>s. q\<lparr>tc_Name := s\<rparr>) (get_string j (tc_Name q)))"

definition unmarshal_tag_create :: "json option \<Rightarrow> tag_create option" where
  "unmarshal_tag_create = unmarshal [''id'', ''name''] set_tag_create \<lparr>tc_ID = [], tc_Name = []\<rparr>"

definition unmarshal_tag_update :: "json option \<Rightarrow> tag_update option" where
  "unmarshal_tag_update =
     unmarshal [''name''] (\<lambda>_ j q. map_option (\<lambda>s. q\<lparr>tu_Name := s\<rparr>) (get_string_ptr j)) \<lparr>tu_Name = None\<rparr>"

definition set_category_create :: "string \<Rightarrow> json \<Rightarrow> category_create \<Rightarrow> category_create option" where
  "set_category_create t j q =
     (if t = ''name'' then map_option (\<lambda>s. q\<lparr>cc_Name := s\<rparr>) (get_string j (cc_Name q))
      else if t = ''color'' then map_option (\<lambda>s. q\<lparr>cc_Color := s\<rparr>) (get_string j (cc_Color q))
      else map_option (\<lambda>i. q\<lparr>cc_Productivity := i\<rparr>) (get_int16 j (cc_Productivity q)))"

definition unmarshal_category_create :: "json option \<Rightarrow> category_create option" where
  "unmarshal_category_create =
     unmarshal [''name'', ''color'', ''productivity''] set_category_create
       \<lparr>cc_Name = [], cc_Color = [], cc_Productivity = 0\<rparr>"

definition set_category_update :: "string \<Rightarrow> json \<Rightarrow> category_update \<Rightarrow> category_update option" where
  "set_category_update t j q =
     (if t = ''name'' then map_option (\<lambda>s. q\<lparr>cu_Name := s\<rparr>) (get_string_ptr j)
      else if t = ''color'' then map_option (\<lambda>s. q\<lparr>cu_Color := s\<rparr>) (get_string_ptr j)
      else map_option (\<lambda>i. q\<lparr>cu_Productivity := i\<rparr>) (get_int16_ptr j))"

definition unmarshal_category_update :: "json option \<Rightarrow> category_update option" where
  "unmarshal_category_update =
     unmarshal [''name'', ''color'', ''productivity''] set_category_update
       \<lparr>cu_Name = None, cu_Color = None, cu_Productivity = None\<rparr>"

definition set_focus_create :: "string \<Rightarrow> json \<Rightarrow> focus_create \<Rightarrow> focus_create option" where
  "set_focus_create t j q =
     (if t = ''id'' then map_option (\<lambda>s. q\<lparr>fc_ID := s\<rparr>) (get_string j (fc_ID q))
      else if t = ''device_id'' then map_option (\<lambda>s. q\<lparr>fc_DeviceID := s\<rparr>) (get_string j (fc_DeviceID q))
      else if t = ''project_id'' then map_option (\<lambda>s. q\<lparr>fc_ProjectID := s\<rparr>) (get_string j (fc_ProjectID q))
      else if t = ''kind'' then map_option (\<lambda>s. q\<lparr>fc_Kind := s\<rparr>) (get_string j (fc_Kind q))
      else if t = ''planned_duration_s'' then map_option (\<lambda>i. q\<lparr>fc_PlannedDurationS := i\<rparr>) (get_int32_ptr j)
      else if t = ''started_at'' then map_option (\<lambda>s. q\<lparr>fc_StartedAt := s\<rparr>) (get_string j (fc_StartedAt q))
      else if t = ''ended_at'' then map_option (\<lambda>s. q\<lparr>fc_EndedAt := s\<rparr>) (get_string j (fc_EndedAt q))
      else if t = ''status'' then map_option (\<lambda>s. q\<lparr>fc_Status := s\<rparr>) (get_string j (fc_Status q))
      else map_option (\<lambda>s. q\<lparr>fc_Note := s\<rparr>) (get_string_ptr j))"

definition unmarshal_focus_create :: "json option \<Rightarrow> focus_create option" where
  "unmarshal_focus_create =
     unmarshal [''id'', ''device_id'', ''project_id'', ''kind'', ''planned_duration_s'', ''started_at'', ''ended_at'',
        ''status'', ''note''] set_focus_create
       \<lparr>fc_ID = [], fc_DeviceID = [], fc_ProjectID = [], fc_Kind = [], fc_PlannedDurationS = None,
        fc_StartedAt = [], fc_EndedAt = [], fc_Status = [], fc_Note = None\<rparr>"

definition set_focus_update :: "string \<Rightarrow> json \<Rightarrow> focus_update \<Rightarrow> focus_update option" where
  "set_focus_update t j q =
     (if t = ''device_id'' then map_option (\<lambda>s. q\<lparr>fu_DeviceID := s\<rparr>) (get_string_ptr j)
      else if t = ''project_id'' then map_option (\<lambda>s. q\<lparr>fu_ProjectID := s\<rparr>) (get_string_ptr j)
      else if t = ''clear_project_id'' then map_option (\<lambda>b. q\<lparr>fu_ClearProjectID := b\<rparr>) (get_bool j (fu_ClearProjectID q))
      else if t = ''kind'' then map_option (\<lambda>s. q\<lparr>fu_Kind := s\<rparr>) (get_string_ptr j)
      else if t = ''planned_duration_s'' then map_option (\<lambda>i. q\<lparr>fu_PlannedDurationS := i\<rparr>) (get_int32_ptr j)
      else if t = ''started_at'' then map_option (\<lambda>s. q\<lparr>fu_StartedAt := s\<rparr>) (get_string_ptr j)
      else if t = ''ended_at'' then map_option (\<lambda>s. q\<lparr>fu_EndedAt := s\<rparr>) (get_string_ptr j)
      else if t = ''clear_ended_at'' then map_option (\<lambda>b. q\<lparr>fu_ClearEndedAt := b\<rparr>) (get_bool j (fu_ClearEndedAt q))
      else if t = ''status'' then map_option (\<lambda>s. q\<lparr>fu_Status := s\<rparr>) (get_string_ptr j)
      else map_option (\<lambda>s. q\<lparr>fu_Note := s\<rparr>) (get_string_ptr j))"

definition unmarshal_focus_update :: "json option \<Rightarrow> focus_update option" where
  "unmarshal_focus_update =
     unmarshal [''device_id'', ''project_id'', ''clear_project_id'', ''kind'', ''planned_duration_s'', ''started_at'',
        ''ended_at'', ''clear_ended_at'', ''status'', ''note''] set_focus_update
       \<lparr>fu_DeviceID = None, fu_ProjectID = None, fu_ClearProjectID = False, fu_Kind = None,
        fu_PlannedDurationS = None, fu_StartedAt = None, fu_EndedAt = None, fu_ClearEndedAt = False,
        fu_Status = None, fu_Note = None\<rparr>"

end
