(* ===== verification/SyncPull.thy ===== *)
theory SyncPull
  imports SyncPush
begin

text \<open>
  The pull half of the sync protocol: \<^verbatim>\<open>internal/sync/pull.go\<close> with the
  queries of \<^verbatim>\<open>storedb/pull.sql.go\<close>.  One page is one keyset read of
  \<^verbatim>\<open>sync_changelog\<close>; every entity it names is resolved to its current state,
  once, in the same snapshot.
\<close>

section \<open>The queries\<close>

text \<open>A row's position: the writing transaction, then the sequence number.\<close>

definition ckey :: "sync_changelog \<Rightarrow> pull_cursor" where
  "ckey r = PullCursor (cl_xid8 r) (cl_server_seq r)"

text \<open>The rows a user may see, of transactions older than every one still in flight.\<close>

definition visible :: "uuid \<Rightarrow> world \<Rightarrow> sync_changelog \<Rightarrow> bool" where
  "visible uid w r \<longleftrightarrow>
     (cl_user_id r = Some uid \<or> cl_user_id r = None) \<and> cl_xid8 r < snapshot_xmin w"

definition changelog_page :: "uuid \<Rightarrow> pull_cursor \<Rightarrow> int \<Rightarrow> world \<Rightarrow> sync_changelog list" where
  "changelog_page uid c n w =
     take (nat n) (sort_key ckey (filter (\<lambda>r. visible uid w r \<and> c < ckey r) (changelog (dbs w))))"

definition ListChangelogPage :: "uuid \<Rightarrow> pull_cursor \<Rightarrow> int \<Rightarrow> world \<Rightarrow> (db_error + sync_changelog list) \<times> world" where
  "ListChangelogPage uid c n = exec (\<lambda>w. (Inr (changelog_page uid c n w), w))"

definition GetChangelogHorizon :: "world \<Rightarrow> (db_error + sync_changelog_horizon) \<times> world" where
  "GetChangelogHorizon = exec (\<lambda>w. (Inr (horizon (dbs w)), w))"

text \<open>The event with the bundle id and the category name it is joined with.\<close>

definition GetActivityEventForChangelogEntry :: "uuid \<Rightarrow> uuid \<Rightarrow> time option \<Rightarrow> world \<Rightarrow> (db_error + (activity_event \<times> string option \<times> string option)) \<times> world" where
  "GetActivityEventForChangelogEntry uid eid startedAt =
     exec (\<lambda>w.
       case select_one activity_events
              (\<lambda>e. ae_user_id e = uid \<and> ae_event_id e = eid \<and> Some (ae_started_at e) = startedAt) w of
         (Inl err, w) \<Rightarrow> (Inl err, w)
       | (Inr e, w) \<Rightarrow>
           (Inr (e,
             map_option app_bundle_id (find (\<lambda>a. Some (app_id a) = ae_app_id e) (apps (dbs w))),
             map_option cat_name (find (\<lambda>c. Some (cat_id c) = ae_category_id e) (categories (dbs w)))),
            w))"

definition GetFocusSessionForChangelogEntry :: "uuid \<Rightarrow> uuid \<Rightarrow> world \<Rightarrow> (db_error + focus_session) \<times> world" where
  "GetFocusSessionForChangelogEntry uid i =
     exec (select_one focus_sessions (\<lambda>f. fs_user_id f = uid \<and> fs_id f = i))"

definition GetProjectForChangelogEntry :: "uuid \<Rightarrow> uuid \<Rightarrow> world \<Rightarrow> (db_error + project) \<times> world" where
  "GetProjectForChangelogEntry uid i =
     exec (select_one projects (\<lambda>p. pr_user_id p = uid \<and> pr_id p = i))"

definition GetTagForChangelogEntry :: "uuid \<Rightarrow> uuid \<Rightarrow> world \<Rightarrow> (db_error + tag) \<times> world" where
  "GetTagForChangelogEntry uid i =
     exec (select_one tags (\<lambda>t. tag_user_id t = uid \<and> tag_id t = i))"

definition GetUserAppSettingForChangelogEntry :: "uuid \<Rightarrow> uuid \<Rightarrow> world \<Rightarrow> (db_error + user_app_setting) \<times> world" where
  "GetUserAppSettingForChangelogEntry uid aid =
     exec (select_one user_app_settings (\<lambda>s. uas_user_id s = uid \<and> uas_app_id s = aid))"

definition GetCategoryForChangelogEntry :: "uuid \<Rightarrow> uuid \<Rightarrow> world \<Rightarrow> (db_error + category) \<times> world" where
  "GetCategoryForChangelogEntry i uid =
     exec (select_one categories
       (\<lambda>c. cat_id c = i \<and> (cat_user_id c = Some uid \<or> cat_user_id c = None)))"

lemmas changelog_lookups =
  GetActivityEventForChangelogEntry_def GetFocusSessionForChangelogEntry_def
  GetProjectForChangelogEntry_def GetTagForChangelogEntry_def
  GetUserAppSettingForChangelogEntry_def GetCategoryForChangelogEntry_def

section \<open>The response\<close>

definition defaultPullLimit :: int where "defaultPullLimit = 200"
definition maxPullLimit :: int where "maxPullLimit = 500"

definition pullEntityTypes :: "string list" where
  "pullEntityTypes = [''activity_events'', ''focus_sessions'', ''projects'', ''tags'',
     ''user_app_settings'', ''categories'']"

text \<open>
  The upsert and tombstone objects, one constructor per DTO with its fields in the order of the
  struct; the last field is \<^verbatim>\<open>server_seq\<close>.
\<close>

datatype dto =
    ActivityEventUpsertDTO string string string "string option" "string option" string int
  | ActivityEventTombstoneDTO string int
  | FocusSessionUpsertDTO string string string "string option" "string option" string string
      "int option" "string option" int
  | FocusSessionTombstoneDTO string int
  | ProjectUpsertDTO string string string "string option" string int
  | ProjectTombstoneDTO string int
  | TagUpsertDTO string string string int
  | TagTombstoneDTO string int
  | UserAppSettingUpsertDTO string "string option" bool string int
  | CategoryUpsertDTO string string string int string int
  | CategoryTombstoneDTO string int

record changelogEntry =
  entityType :: string
  upsert :: "dto option"
  tombstone :: "dto option"

definition upsert_entry :: "string \<Rightarrow> dto \<Rightarrow> changelogEntry" where
  "upsert_entry t d = \<lparr>entityType = t, upsert = Some d, tombstone = None\<rparr>"

definition tombstone_entry :: "string \<Rightarrow> dto \<Rightarrow> changelogEntry" where
  "tombstone_entry t d = \<lparr>entityType = t, upsert = None, tombstone = Some d\<rparr>"

record changeSet =
  Upserts :: "dto list"
  Tombstones :: "dto list"

record pullResponse =
  Changes :: "string \<Rightarrow> changeSet option"
  NextCursor :: string
  HasMore :: bool

definition formatTs :: "ext \<Rightarrow> time option \<Rightarrow> string" where
  "formatTs x ts = (case ts of None \<Rightarrow> [] | Some t \<Rightarrow> rfc3339_format x t)"

definition formatOptionalTs :: "ext \<Rightarrow> time option \<Rightarrow> string option" where
  "formatOptionalTs x ts = (case ts of None \<Rightarrow> None | Some t \<Rightarrow> Some (rfc3339_format x t))"

definition formatOptionalUUID :: "ext \<Rightarrow> uuid option \<Rightarrow> string option" where
  "formatOptionalUUID x i = (case i of None \<Rightarrow> None | Some u \<Rightarrow> Some (uuid_string x u))"

text \<open>The object an entity's row is shown as.\<close>

definition activity_entry :: "ext \<Rightarrow> activity_event \<times> string option \<times> string option \<Rightarrow> changelogEntry" where
  "activity_entry x = (\<lambda>(r, bundle, cname).
     if ae_deleted r then
       tombstone_entry ''activity_events''
         (ActivityEventTombstoneDTO (uuid_string x (ae_event_id r)) (ae_server_seq r))
     else
       upsert_entry ''activity_events''
         (ActivityEventUpsertDTO (uuid_string x (ae_event_id r)) (formatTs x (Some (ae_started_at r)))
            (formatTs x (Some (ae_ended_at r))) bundle cname (ae_precision r) (ae_server_seq r)))"

definition focus_entry :: "ext \<Rightarrow> focus_session \<Rightarrow> changelogEntry" where
  "focus_entry x r =
     (if fs_deleted_at r \<noteq> None then
        tombstone_entry ''focus_sessions''
          (FocusSessionTombstoneDTO (uuid_string x (fs_id r)) (fs_server_seq r))
      else
        upsert_entry ''focus_sessions''
          (FocusSessionUpsertDTO (uuid_string x (fs_id r)) (formatTs x (Some (fs_updated_at r)))
             (formatTs x (Some (fs_started_at r))) (formatOptionalTs x (fs_ended_at r))
             (formatOptionalUUID x (fs_project_id r)) (fs_kind r) (fs_status r)
             (fs_planned_duration_s r) (fs_note r) (fs_server_seq r)))"

definition project_entry :: "ext \<Rightarrow> project \<Rightarrow> changelogEntry" where
  "project_entry x r =
     (if pr_deleted_at r \<noteq> None then
        tombstone_entry ''projects'' (ProjectTombstoneDTO (uuid_string x (pr_id r)) (pr_server_seq r))
      else
        upsert_entry ''projects''
          (ProjectUpsertDTO (uuid_string x (pr_id r)) (pr_name r) (pr_color r)
             (formatOptionalTs x (pr_archived_at r)) (formatTs x (Some (pr_updated_at r)))
             (pr_server_seq r)))"

definition tag_entry :: "ext \<Rightarrow> tag \<Rightarrow> changelogEntry" where
  "tag_entry x r =
     (if tag_deleted_at r \<noteq> None then
        tombstone_entry ''tags'' (TagTombstoneDTO (uuid_string x (tag_id r)) (tag_server_seq r))
      else
        upsert_entry ''tags''
          (TagUpsertDTO (uuid_string x (tag_id r)) (tag_name r) (formatTs x (Some (tag_updated_at r)))
             (tag_server_seq r)))"

definition setting_entry :: "ext \<Rightarrow> user_app_setting \<Rightarrow> changelogEntry" where
  "setting_entry x r =
     upsert_entry ''user_app_settings''
       (UserAppSettingUpsertDTO (uuid_string x (uas_app_id r)) (formatOptionalUUID x (uas_category_id r))
          (uas_excluded r) (formatTs x (Some (uas_updated_at r))) (uas_server_seq r))"

definition category_entry :: "ext \<Rightarrow> category \<Rightarrow> changelogEntry" where
  "category_entry x r =
     (if cat_deleted_at r \<noteq> None then
        tombstone_entry ''categories''
          (CategoryTombstoneDTO (uuid_string x (cat_id r)) (cat_server_seq r))
      else
        upsert_entry ''categories''
          (CategoryUpsertDTO (uuid_string x (cat_id r)) (cat_name r) (cat_color r) (cat_productivity r)
             (formatTs x (Some (cat_updated_at r))) (cat_server_seq r)))"

text \<open>A lookup that finds no row is not an error: the entity is left out.\<close>

definition found :: "('r \<Rightarrow> changelogEntry) \<Rightarrow> (db_error + 'r) \<times> world \<Rightarrow> (db_error + changelogEntry option) \<times> world" where
  "found entry res =
     (case res of
        (Inl err, w) \<Rightarrow> if err = NoRows then (Inr None, w) else (Inl err, w)
      | (Inr r, w) \<Rightarrow> (Inr (Some (entry r)), w))"

definition resolveChangelogEntry :: "ext \<Rightarrow> uuid \<Rightarrow> sync_changelog \<Rightarrow> world \<Rightarrow> (db_error + changelogEntry option) \<times> world" where
  "resolveChangelogEntry x uid row w =
     (let t = cl_entity_type row; i = cl_entity_id row in
      if t = ''activity_events'' then
        found (activity_entry x) (GetActivityEventForChangelogEntry uid i (cl_event_started_at row) w)
      else if t = ''focus_sessions'' then found (focus_entry x) (GetFocusSessionForChangelogEntry uid i w)
      else if t = ''projects'' then found (project_entry x) (GetProjectForChangelogEntry uid i w)
      else if t = ''tags'' then found (tag_entry x) (GetTagForChangelogEntry uid i w)
      else if t = ''user_app_settings'' then
        found (setting_entry x) (GetUserAppSettingForChangelogEntry uid i w)
      else if t = ''categories'' then found (category_entry x) (GetCategoryForChangelogEntry i uid w)
      else (Inl (OtherError ''unknown changelog entity_type''), w))"

section \<open>The page\<close>

definition entry_key :: "ext \<Rightarrow> sync_changelog \<Rightarrow> string" where
  "entry_key x row = cl_entity_type row @ '':'' @ uuid_string x (cl_entity_id row)"

text \<open>The keys in the order first seen, and the latest entry of each.\<close>

fun resolveRows :: "ext \<Rightarrow> uuid \<Rightarrow> sync_changelog list \<Rightarrow> string list \<Rightarrow> (string \<rightharpoonup> changelogEntry) \<Rightarrow> world \<Rightarrow> (db_error + string list \<times> (string \<rightharpoonup> changelogEntry)) \<times> world" where
  "resolveRows x uid [] ordered byKey w = (Inr (ordered, byKey), w)"
| "resolveRows x uid (row # rows) ordered byKey w =
     (let key = entry_key x row;
          ordered = (if byKey key = None then ordered @ [key] else ordered)
      in case resolveChangelogEntry x uid row w of
           (Inl err, w) \<Rightarrow> (Inl err, w)
         | (Inr None, w) \<Rightarrow> resolveRows x uid rows ordered (byKey(key := None)) w
         | (Inr (Some e), w) \<Rightarrow> resolveRows x uid rows ordered (byKey(key \<mapsto> e)) w)"

definition collect_changes :: "string list \<Rightarrow> (string \<rightharpoonup> changelogEntry) \<Rightarrow> string \<Rightarrow> changeSet option" where
  "collect_changes ordered byKey t =
     (if t \<in> set pullEntityTypes then
        let es = filter (\<lambda>e. entityType e = t) (List.map_filter byKey ordered) in
        Some \<lparr>Upserts = List.map_filter upsert (filter (\<lambda>e. tombstone e = None) es),
              Tombstones = List.map_filter tombstone es\<rparr>
      else None)"

definition pull_snapshot :: "ext \<Rightarrow> uuid \<Rightarrow> pull_cursor \<Rightarrow> int \<Rightarrow> world \<Rightarrow> (sync_error + pullResponse) \<times> world" where
  "pull_snapshot x uid c limit w =
     (case (if IsZero c then (Inr False, w)
            else case GetChangelogHorizon w of
                   (Inl e, w) \<Rightarrow> (Inl e, w)
                 | (Inr h, w) \<Rightarrow> (Inr (Less c (PullCursor (hz_xid8 h) (hz_server_seq h))), w)) of
        (Inl e, w) \<Rightarrow> (Inl (Internal e), w)
      | (Inr True, w) \<Rightarrow> (Inl ErrCursorExpired, w)
      | (Inr False, w) \<Rightarrow>
     (case ListChangelogPage uid c (LimitParam (limit + 1)) w of
        (Inl e, w) \<Rightarrow> (Inl (Internal e), w)
      | (Inr rows, w) \<Rightarrow>
     (case page_cut ckey limit c rows of
        (kept, nextPos, hasMore) \<Rightarrow>
     (case resolveRows x uid kept [] Map.empty w of
        (Inl e, w) \<Rightarrow> (Inl (Internal e), w)
      | (Inr (ordered, byKey), w) \<Rightarrow>
          (Inr \<lparr>Changes = collect_changes ordered byKey, NextCursor = EncodePullCursor nextPos,
                HasMore = hasMore\<rparr>, w)))))"

definition runInPullSnapshot :: "(world \<Rightarrow> (sync_error + 'a) \<times> world) \<Rightarrow> world \<Rightarrow> (sync_error + 'a) \<times> world" where
  "runInPullSnapshot f w =
     (case begin_tx w of
        (Inl e, w) \<Rightarrow> (Inl (Internal e), w)
      | (Inr _, w1) \<Rightarrow> (case f w1 of (r, w2) \<Rightarrow> (r, rollback_to w1 w2)))"

definition pull :: "ext \<Rightarrow> string \<Rightarrow> string \<Rightarrow> int \<Rightarrow> world \<Rightarrow> (sync_error + pullResponse) \<times> world" where
  "pull x userID rawCursor rawLimit w =
     (case parseUUID x userID of
        Inl _ \<Rightarrow> (Inl (ErrValidation (Msg ''invalid authenticated user id'')), w)
      | Inr uid \<Rightarrow>
     (case DecodePullCursor rawCursor of
        Inl _ \<Rightarrow> (Inl (ErrValidation (Msg ''invalid cursor'')), w)
      | Inr c \<Rightarrow>
          runInPullSnapshot (pull_snapshot x uid c (clamp_limit defaultPullLimit maxPullLimit rawLimit)) w))"

end
