(* ===== verification/Reports.thy ===== *)
theory Reports
  imports SyncStore "HOL-Library.List_Lexorder"
begin

text \<open>
  The reports: \<^verbatim>\<open>internal/reports/window.go\<close>, \<^verbatim>\<open>trim.go\<close>,
  \<^verbatim>\<open>dimension.go\<close> and \<^verbatim>\<open>service.go\<close> with the queries of
  \<^verbatim>\<open>activities.sql.go\<close>.  A total is the sum of an aggregate over the closed
  days of the range and of a pass over the raw events of the rest, in which overlapping events
  of one device count once.  The continuous aggregates (migrations 34 and 35) are modelled as
  what they are defined to hold; their refresh lag is not.
\<close>

section \<open>Windows\<close>

datatype window = Window (w_From: time) (w_To: time)

definition day :: duration where "day = 24 * hour"

definition dayStart :: "time \<Rightarrow> time" where
  "dayStart t = (t div day) * day"

definition minTime :: "time \<Rightarrow> time \<Rightarrow> time" where
  "minTime a b = (if a < b then a else b)"

text \<open>The closed window, when there is one, and the raw windows.\<close>

definition splitClosedOpen :: "time \<Rightarrow> time \<Rightarrow> time \<Rightarrow> window option \<times> window list" where
  "splitClosedOpen from to now =
     (let todayStart = dayStart now;
          effectiveClosedTo = (if todayStart < to then todayStart else to)
      in if \<not> from < effectiveClosedTo then (None, [Window from to])
         else
           let alignedFrom0 = dayStart from;
               alignedFrom = (if from \<noteq> alignedFrom0 then alignedFrom0 + day else alignedFrom0);
               lead = (if from \<noteq> alignedFrom0 then [Window from (minTime to alignedFrom)] else []);
               alignedTo = dayStart effectiveClosedTo;
               closed = (if alignedFrom < alignedTo then Some (Window alignedFrom alignedTo) else None);
               start = (if closed = None \<and> alignedTo < alignedFrom then alignedFrom else alignedTo);
               trail = (if alignedTo < to \<and> start < to then [Window start to] else [])
           in (closed, lead @ trail))"

section \<open>Overlap trimming\<close>

datatype interval = Interval (i_start: time) (i_end: time)

text \<open>
  \<^verbatim>\<open>int64(d.Seconds())\<close>: the whole seconds, except that a duration whose
  fraction is nearer to one than double precision resolves at its size is rounded up first.
\<close>

fun bits :: "nat \<Rightarrow> nat" where
  "bits n = (if n = 0 then 0 else Suc (bits (n div 2)))"

declare bits.simps [simp del]

definition trunc_seconds :: "duration \<Rightarrow> int" where
  "trunc_seconds d =
     (let sec = d div second; nsec = d mod second; m = bits (nat sec)
      in if nsec \<noteq> 0 \<and> (second - nsec) * 2 ^ (54 - m) \<le> second then sec + 1 else sec)"

definition clip :: "time \<Rightarrow> time \<Rightarrow> interval \<Rightarrow> interval" where
  "clip windowStart windowEnd ev =
     Interval (if i_start ev < windowStart then windowStart else i_start ev)
              (if windowEnd < i_end ev then windowEnd else i_end ev)"

definition clipToWindow :: "time \<Rightarrow> time \<Rightarrow> interval list \<Rightarrow> interval list" where
  "clipToWindow windowStart windowEnd events =
     filter (\<lambda>ev. i_start ev < i_end ev) (map (clip windowStart windowEnd) events)"

fun merge_loop :: "time \<Rightarrow> time \<Rightarrow> int \<Rightarrow> interval list \<Rightarrow> int" where
  "merge_loop curStart curEnd acc [] = acc + trunc_seconds (time_sub curEnd curStart)"
| "merge_loop curStart curEnd acc (ev # evs) =
     (if curEnd < i_start ev then
        merge_loop (i_start ev) (i_end ev) (acc + trunc_seconds (time_sub curEnd curStart)) evs
      else merge_loop curStart (if curEnd < i_end ev then i_end ev else curEnd) acc evs)"

definition mergeAndSum :: "interval list \<Rightarrow> int" where
  "mergeAndSum events =
     (case sort_key i_start events of
        [] \<Rightarrow> 0
      | ev # evs \<Rightarrow> merge_loop (i_start ev) (i_end ev) 0 evs)"

text \<open>The events of a bucket, by device.\<close>

definition perDeviceSeconds :: "time \<Rightarrow> time \<Rightarrow> (string \<times> interval list) list \<Rightarrow> int" where
  "perDeviceSeconds windowStart windowEnd byDevice =
     sum_list (map (\<lambda>(dev, events). mergeAndSum (clipToWindow windowStart windowEnd events)) byDevice)"

section \<open>The queries\<close>

record event_filter =
  ef_AppID :: "uuid option"
  ef_CategoryID :: "uuid option"
  ef_ProjectID :: "uuid option"
  ef_DeviceID :: "uuid option"
  ef_Precision :: "string option"

definition opt_match :: "'a option \<Rightarrow> 'a option \<Rightarrow> bool" where
  "opt_match p v = (p = None \<or> v = p)"

definition passes :: "event_filter \<Rightarrow> activity_event \<Rightarrow> bool" where
  "passes f e \<longleftrightarrow>
     opt_match (ef_AppID f) (ae_app_id e) \<and> opt_match (ef_CategoryID f) (ae_category_id e) \<and>
     opt_match (ef_ProjectID f) (ae_project_id e) \<and> opt_match (ef_DeviceID f) (Some (ae_device_id e)) \<and>
     opt_match (ef_Precision f) (Some (ae_precision e))"

record report_row =
  rr_DeviceID :: uuid
  rr_AppID :: "uuid option"
  rr_AppName :: "string option"
  rr_AppBundleID :: "string option"
  rr_CategoryID :: "uuid option"
  rr_CategoryName :: "string option"
  rr_ProjectID :: "uuid option"
  rr_ProjectName :: "string option"
  rr_StartedAt :: time
  rr_EndedAt :: time

text \<open>The left joins: at most one row has the key.\<close>

definition joined :: "('r \<Rightarrow> uuid) \<Rightarrow> 'r list \<Rightarrow> uuid option \<Rightarrow> 'r option" where
  "joined key rows i = (case i of None \<Rightarrow> None | Some i \<Rightarrow> find (\<lambda>r. key r = i) rows)"

definition report_row_of :: "db \<Rightarrow> activity_event \<Rightarrow> report_row" where
  "report_row_of d e =
     \<lparr>rr_DeviceID = ae_device_id e, rr_AppID = ae_app_id e,
      rr_AppName = map_option app_name (joined app_id (apps d) (ae_app_id e)),
      rr_AppBundleID = map_option app_bundle_id (joined app_id (apps d) (ae_app_id e)),
      rr_CategoryID = ae_category_id e,
      rr_CategoryName = map_option cat_name (joined cat_id (categories d) (ae_category_id e)),
      rr_ProjectID = ae_project_id e,
      rr_ProjectName = map_option pr_name (joined pr_id (projects d) (ae_project_id e)),
      rr_StartedAt = ae_started_at e, rr_EndedAt = ae_ended_at e\<rparr>"

definition overlapping :: "uuid \<Rightarrow> time \<Rightarrow> time \<Rightarrow> event_filter \<Rightarrow> activity_event \<Rightarrow> bool" where
  "overlapping uid fromTs toTs f e \<longleftrightarrow>
     ae_user_id e = uid \<and> \<not> ae_deleted e \<and> ae_started_at e < pg_ts toTs \<and> pg_ts fromTs < ae_ended_at e \<and> passes f e"

definition RawActivityEventsForReport :: "uuid \<Rightarrow> time \<Rightarrow> time \<Rightarrow> event_filter \<Rightarrow> world \<Rightarrow> (db_error + report_row list) \<times> world" where
  "RawActivityEventsForReport uid fromTs toTs f =
     exec_txt (opt_text (ef_Precision f)) (\<lambda>w.
       (Inr (map (report_row_of (dbs w))
          (sort_key ae_device_id (sort_key ae_started_at
             (filter (overlapping uid fromTs toTs f) (activity_events (dbs w)))))), w))"

text \<open>
  The aggregates: the durations of all events that started on a day, by key and device, the
  deleted ones too; the query caps each device's sum at the window.
\<close>

definition in_days :: "uuid \<Rightarrow> time \<Rightarrow> time \<Rightarrow> activity_event \<Rightarrow> bool" where
  "in_days uid fromDay toDay e \<longleftrightarrow>
     ae_user_id e = uid \<and> pg_ts fromDay \<le> dayStart (ae_started_at e) \<and> dayStart (ae_started_at e) < pg_ts toDay"

definition cagg_total :: "(activity_event \<Rightarrow> uuid option) \<Rightarrow> int \<Rightarrow> activity_event list \<Rightarrow> uuid option \<Rightarrow> int" where
  "cagg_total key windowSeconds evs k =
     (let mine = filter (\<lambda>e. key e = k) evs
      in sum_list (map (\<lambda>dev. min (sum_list (map ae_duration_s (filter (\<lambda>e. ae_device_id e = dev) mine))) windowSeconds)
           (remdups (map ae_device_id mine))))"

record app_total_row =
  at_AppID :: "uuid option"
  at_AppName :: "string option"
  at_AppBundleID :: "string option"
  at_TotalS :: int

definition AppTotalsForRange :: "uuid \<Rightarrow> time \<Rightarrow> time \<Rightarrow> int \<Rightarrow> world \<Rightarrow> (db_error + app_total_row list) \<times> world" where
  "AppTotalsForRange uid fromDay toDay windowSeconds =
     exec (\<lambda>w.
       let evs = filter (in_days uid fromDay toDay) (activity_events (dbs w)) in
       (Inr (map (\<lambda>k. \<lparr>at_AppID = k, at_AppName = map_option app_name (joined app_id (apps (dbs w)) k),
                      at_AppBundleID = map_option app_bundle_id (joined app_id (apps (dbs w)) k),
                      at_TotalS = cagg_total ae_app_id windowSeconds evs k\<rparr>)
          (remdups (map ae_app_id evs))), w))"

record category_total_row =
  ct_CategoryID :: "uuid option"
  ct_CategoryName :: "string option"
  ct_TotalS :: int

definition CategoryTotalsForRange :: "uuid \<Rightarrow> time \<Rightarrow> time \<Rightarrow> int \<Rightarrow> world \<Rightarrow> (db_error + category_total_row list) \<times> world" where
  "CategoryTotalsForRange uid fromDay toDay windowSeconds =
     exec (\<lambda>w.
       let evs = filter (in_days uid fromDay toDay) (activity_events (dbs w)) in
       (Inr (map (\<lambda>k. \<lparr>ct_CategoryID = k, ct_CategoryName = map_option cat_name (joined cat_id (categories (dbs w)) k),
                      ct_TotalS = cagg_total ae_category_id windowSeconds evs k\<rparr>)
          (remdups (map ae_category_id evs))), w))"

section \<open>Buckets\<close>

datatype dimension = dimCategory | dimApp | dimProject

record bucket =
  b_ID :: string
  b_Name :: string
  b_BundleID :: string
  b_Seconds :: int

text \<open>The map from id to bucket, as an association list.\<close>

fun mergeBucket :: "(string \<times> bucket) list \<Rightarrow> string \<Rightarrow> string \<Rightarrow> string \<Rightarrow> int \<Rightarrow> (string \<times> bucket) list" where
  "mergeBucket [] i name bundleID seconds =
     [(i, \<lparr>b_ID = i, b_Name = name, b_BundleID = bundleID, b_Seconds = seconds\<rparr>)]"
| "mergeBucket ((k, b) # dst) i name bundleID seconds =
     (if k = i then
        (k, b\<lparr>b_Name := if name \<noteq> [] then name else b_Name b,
              b_BundleID := if bundleID \<noteq> [] then bundleID else b_BundleID b,
              b_Seconds := b_Seconds b + seconds\<rparr>) # dst
      else (k, b) # mergeBucket dst i name bundleID seconds)"

text \<open>By descending total, then by id: a stable sort by total of a sort by id.\<close>

definition sortBucketsBySecondsDesc :: "bucket list \<Rightarrow> bucket list" where
  "sortBucketsBySecondsDesc bs = sort_key (\<lambda>b. - b_Seconds b) (sort_key b_ID bs)"

definition windowSeconds :: "window \<Rightarrow> int" where
  "windowSeconds w = (let seconds = trunc_seconds (time_sub (w_To w) (w_From w)) in if seconds < 1 then 1 else seconds)"

definition derefStr :: "string option \<Rightarrow> string" where
  "derefStr p = (case p of None \<Rightarrow> [] | Some s \<Rightarrow> s)"

section \<open>The service\<close>

datatype report_error = RValidation detail | RWrapped string db_error

record reportFilters =
  rf_AppID :: string
  rf_CategoryID :: string
  rf_ProjectID :: string
  rf_DeviceID :: string
  rf_Precision :: string

definition validPrecision :: "string \<Rightarrow> bool" where
  "validPrecision p \<longleftrightarrow> p = ''exact'' \<or> p = ''approximate''"

definition precision_msg :: report_error where
  "precision_msg = RValidation (Msg ''precision must be one of exact, approximate'')"

definition validatePrecision :: "reportFilters \<Rightarrow> report_error option" where
  "validatePrecision f = (if rf_Precision f \<noteq> [] \<and> \<not> validPrecision (rf_Precision f) then Some precision_msg else None)"

text \<open>The ids of the filters, in the order they are parsed.\<close>

definition parse_filter :: "ext \<Rightarrow> reportFilters \<Rightarrow> report_error + event_filter" where
  "parse_filter x f =
     (case parseOptionalUUID x (rf_AppID f) of Inl _ \<Rightarrow> Inl (RValidation (Msg ''app_id must be a valid UUID'')) | Inr appID \<Rightarrow>
     (case parseOptionalUUID x (rf_CategoryID f) of Inl _ \<Rightarrow> Inl (RValidation (Msg ''category_id must be a valid UUID'')) | Inr categoryID \<Rightarrow>
     (case parseOptionalUUID x (rf_ProjectID f) of Inl _ \<Rightarrow> Inl (RValidation (Msg ''project_id must be a valid UUID'')) | Inr projectID \<Rightarrow>
     (case parseOptionalUUID x (rf_DeviceID f) of Inl _ \<Rightarrow> Inl (RValidation (Msg ''device_id must be a valid UUID'')) | Inr deviceID \<Rightarrow>
      if rf_Precision f \<noteq> [] \<and> \<not> validPrecision (rf_Precision f) then Inl precision_msg
      else Inr \<lparr>ef_AppID = appID, ef_CategoryID = categoryID, ef_ProjectID = projectID, ef_DeviceID = deviceID,
                ef_Precision = if rf_Precision f \<noteq> [] then Some (rf_Precision f) else None\<rparr>))))"

text \<open>The id, name and bundle of a row in a dimension.\<close>

definition dim_of :: "ext \<Rightarrow> dimension \<Rightarrow> report_row \<Rightarrow> string \<times> string \<times> string" where
  "dim_of x dim r =
     (case dim of
        dimCategory \<Rightarrow> (case rr_CategoryID r of Some i \<Rightarrow> (uuid_string x i, derefStr (rr_CategoryName r), [])
                                            | None \<Rightarrow> ([], ''Uncategorized'', []))
      | dimApp \<Rightarrow> (case rr_AppID r of Some i \<Rightarrow> (uuid_string x i, derefStr (rr_AppName r), derefStr (rr_AppBundleID r))
                                   | None \<Rightarrow> ([], ''Unknown'', []))
      | dimProject \<Rightarrow> (case rr_ProjectID r of Some i \<Rightarrow> (uuid_string x i, derefStr (rr_ProjectName r), [])
                                          | None \<Rightarrow> ([], ''No Project'', [])))"

text \<open>
  The loop over the rows: per id the intervals of each device, and the name of the id's last
  row.
\<close>

definition grouped :: "ext \<Rightarrow> dimension \<Rightarrow> report_row list \<Rightarrow> string \<Rightarrow> (string \<times> interval list) list" where
  "grouped x dim rows i =
     (let mine = filter (\<lambda>r. fst (dim_of x dim r) = i) rows
      in map (\<lambda>dev. (dev, map (\<lambda>r. Interval (rr_StartedAt r) (rr_EndedAt r))
                          (filter (\<lambda>r. uuid_string x (rr_DeviceID r) = dev) mine)))
           (remdups (map (\<lambda>r. uuid_string x (rr_DeviceID r)) mine)))"

definition raw_bucket :: "ext \<Rightarrow> dimension \<Rightarrow> time \<Rightarrow> time \<Rightarrow> report_row list \<Rightarrow> string \<Rightarrow> bucket" where
  "raw_bucket x dim from to rows i =
     (case dim_of x dim (last (filter (\<lambda>r. fst (dim_of x dim r) = i) rows)) of
        (_, name, bundle) \<Rightarrow>
          \<lparr>b_ID = i, b_Name = name, b_BundleID = bundle,
           b_Seconds = perDeviceSeconds from to (grouped x dim rows i)\<rparr>)"

definition raw_buckets :: "ext \<Rightarrow> dimension \<Rightarrow> time \<Rightarrow> time \<Rightarrow> report_row list \<Rightarrow> (string \<times> bucket) list" where
  "raw_buckets x dim from to rows =
     map (\<lambda>i. (i, raw_bucket x dim from to rows i)) (remdups (map (\<lambda>r. fst (dim_of x dim r)) rows))"

definition rawTotals :: "ext \<Rightarrow> uuid \<Rightarrow> time \<Rightarrow> time \<Rightarrow> reportFilters \<Rightarrow> dimension \<Rightarrow> world \<Rightarrow> (report_error + (string \<times> bucket) list) \<times> world" where
  "rawTotals x uid from to f dim w =
     (case parse_filter x f of Inl e \<Rightarrow> (Inl e, w) | Inr ef \<Rightarrow>
      (case RawActivityEventsForReport uid from to ef w of
         (Inl e, w) \<Rightarrow> (Inl (RWrapped ''reports: raw totals'' e), w)
       | (Inr rows, w) \<Rightarrow> (Inr (raw_buckets x dim from to rows), w)))"

definition merge_buckets :: "(string \<times> bucket) list \<Rightarrow> (string \<times> bucket) list \<Rightarrow> (string \<times> bucket) list" where
  "merge_buckets raw dst = fold (\<lambda>(i, b) dst. mergeBucket dst i (b_Name b) (b_BundleID b) (b_Seconds b)) raw dst"

fun raw_windows :: "ext \<Rightarrow> uuid \<Rightarrow> reportFilters \<Rightarrow> dimension \<Rightarrow> window list \<Rightarrow> (string \<times> bucket) list \<Rightarrow> world \<Rightarrow> (report_error + (string \<times> bucket) list) \<times> world" where
  "raw_windows x uid f dim [] res w = (Inr res, w)"
| "raw_windows x uid f dim (v # vs) res w =
     (case rawTotals x uid (w_From v) (w_To v) f dim w of
        (Inl e, w) \<Rightarrow> (Inl e, w)
      | (Inr raw, w) \<Rightarrow> raw_windows x uid f dim vs (merge_buckets raw res) w)"

text \<open>The bucket of one id, when the request asks for one.\<close>

definition only_id :: "ext \<Rightarrow> string \<Rightarrow> string \<Rightarrow> (string \<times> bucket) list \<Rightarrow> report_error + (string \<times> bucket) list" where
  "only_id x msg raw res =
     (if raw = [] then Inr res
      else case parseUUID x raw of
             Inl _ \<Rightarrow> Inl (RValidation (Msg msg))
           | Inr i \<Rightarrow> Inr (filter (\<lambda>(k, b). k = uuid_string x i) res))"

definition category_rows :: "ext \<Rightarrow> category_total_row list \<Rightarrow> (string \<times> bucket) list" where
  "category_rows x rows =
     fold (\<lambda>row dst. case ct_CategoryID row of
             None \<Rightarrow> mergeBucket dst [] ''Uncategorized'' [] (ct_TotalS row)
           | Some i \<Rightarrow> mergeBucket dst (uuid_string x i) (derefStr (ct_CategoryName row)) [] (ct_TotalS row)) rows []"

definition categoryTotals :: "ext \<Rightarrow> time \<Rightarrow> uuid \<Rightarrow> time \<Rightarrow> time \<Rightarrow> reportFilters \<Rightarrow> world \<Rightarrow> (report_error + (string \<times> bucket) list) \<times> world" where
  "categoryTotals x now uid from to f w =
     (if rf_AppID f \<noteq> [] \<or> rf_ProjectID f \<noteq> [] \<or> rf_DeviceID f \<noteq> [] \<or> rf_Precision f \<noteq> [] then
        rawTotals x uid from to f dimCategory w
      else
        (case splitClosedOpen from to now of (closed, rawWindows) \<Rightarrow>
         (case (case closed of
                  None \<Rightarrow> (Inr [], w)
                | Some c \<Rightarrow> CategoryTotalsForRange uid (w_From c) (w_To c) (windowSeconds c) w) of
            (Inl e, w) \<Rightarrow> (Inl (RWrapped ''reports: category totals'' e), w)
          | (Inr rows, w) \<Rightarrow>
              (case raw_windows x uid f dimCategory rawWindows (category_rows x rows) w of
                 (Inl e, w) \<Rightarrow> (Inl e, w)
               | (Inr res, w) \<Rightarrow> (only_id x ''category_id must be a valid UUID'' (rf_CategoryID f) res, w)))))"

definition app_rows :: "ext \<Rightarrow> app_total_row list \<Rightarrow> (string \<times> bucket) list" where
  "app_rows x rows =
     fold (\<lambda>row dst. case at_AppID row of
             None \<Rightarrow> mergeBucket dst [] ''Unknown'' [] (at_TotalS row)
           | Some i \<Rightarrow> mergeBucket dst (uuid_string x i) (derefStr (at_AppName row)) (derefStr (at_AppBundleID row))
                        (at_TotalS row)) rows []"

definition appTotals :: "ext \<Rightarrow> time \<Rightarrow> uuid \<Rightarrow> time \<Rightarrow> time \<Rightarrow> reportFilters \<Rightarrow> world \<Rightarrow> (report_error + (string \<times> bucket) list) \<times> world" where
  "appTotals x now uid from to f w =
     (if rf_CategoryID f \<noteq> [] \<or> rf_ProjectID f \<noteq> [] \<or> rf_DeviceID f \<noteq> [] \<or> rf_Precision f \<noteq> [] then
        rawTotals x uid from to f dimApp w
      else
        (case splitClosedOpen from to now of (closed, rawWindows) \<Rightarrow>
         (case (case closed of
                  None \<Rightarrow> (Inr [], w)
                | Some c \<Rightarrow> AppTotalsForRange uid (w_From c) (w_To c) (windowSeconds c) w) of
            (Inl e, w) \<Rightarrow> (Inl (RWrapped ''reports: app totals'' e), w)
          | (Inr rows, w) \<Rightarrow>
              (case raw_windows x uid f dimApp rawWindows (app_rows x rows) w of
                 (Inl e, w) \<Rightarrow> (Inl e, w)
               | (Inr res, w) \<Rightarrow> (only_id x ''app_id must be a valid UUID'' (rf_AppID f) res, w)))))"

definition projectTotals :: "ext \<Rightarrow> uuid \<Rightarrow> time \<Rightarrow> time \<Rightarrow> reportFilters \<Rightarrow> world \<Rightarrow> (report_error + (string \<times> bucket) list) \<times> world" where
  "projectTotals x uid from to f w = rawTotals x uid from to f dimProject w"

text \<open>The zero \<^verbatim>\<open>time.Time\<close>, the first of January of the year 1.\<close>

definition zero_time :: time where
  "zero_time = - (62135596800 * second)"

definition sumSeconds :: "(string \<times> bucket) list \<Rightarrow> int" where
  "sumSeconds m = sum_list (map (\<lambda>(i, b). b_Seconds b) m)"

definition toSortedSlice :: "(string \<times> bucket) list \<Rightarrow> bucket list" where
  "toSortedSlice m = sortBucketsBySecondsDesc (map snd m)"

definition validateRange :: "time \<Rightarrow> time \<Rightarrow> report_error option" where
  "validateRange from to =
     (if from = zero_time \<or> to = zero_time then Some (RValidation (Msg ''from and to are required''))
      else map_option RValidation (ValidateRange from to))"

text \<open>The checks every report but the daily one makes, in order.\<close>

definition report_checks :: "ext \<Rightarrow> string \<Rightarrow> time \<Rightarrow> time \<Rightarrow> reportFilters \<Rightarrow> report_error + uuid" where
  "report_checks x userID from to f =
     (case parseUUID x userID of
        Inl _ \<Rightarrow> Inl (RValidation (Msg ''invalid authenticated user id''))
      | Inr uid \<Rightarrow>
          (case validateRange from to of
             Some e \<Rightarrow> Inl e
           | None \<Rightarrow> (case validatePrecision f of Some e \<Rightarrow> Inl e | None \<Rightarrow> Inr uid)))"

record report_result =
  rep_From :: time
  rep_To :: time
  rep_TotalTrackedSeconds :: int
  rep_Buckets :: "bucket list"

text \<open>A list report leaves the total out; the two that show it sum the buckets.\<close>

definition list_report :: "time \<Rightarrow> time \<Rightarrow> (report_error + (string \<times> bucket) list) \<times> world \<Rightarrow> (report_error + report_result) \<times> world" where
  "list_report from to p =
     (case p of
        (Inl e, w) \<Rightarrow> (Inl e, w)
      | (Inr m, w) \<Rightarrow>
          (Inr \<lparr>rep_From = from, rep_To = to, rep_TotalTrackedSeconds = 0, rep_Buckets = toSortedSlice m\<rparr>, w))"

definition total_report :: "time \<Rightarrow> time \<Rightarrow> (report_error + (string \<times> bucket) list) \<times> world \<Rightarrow> (report_error + report_result) \<times> world" where
  "total_report from to p =
     (case p of
        (Inl e, w) \<Rightarrow> (Inl e, w)
      | (Inr m, w) \<Rightarrow>
          (Inr \<lparr>rep_From = from, rep_To = to, rep_TotalTrackedSeconds = sumSeconds m, rep_Buckets = toSortedSlice m\<rparr>, w))"

definition Categories :: "ext \<Rightarrow> time \<Rightarrow> string \<Rightarrow> time \<Rightarrow> time \<Rightarrow> reportFilters \<Rightarrow> world \<Rightarrow> (report_error + report_result) \<times> world" where
  "Categories x now userID from to f w =
     (case report_checks x userID from to f of
        Inl e \<Rightarrow> (Inl e, w) | Inr uid \<Rightarrow> list_report from to (categoryTotals x now uid from to f w))"

definition Apps :: "ext \<Rightarrow> time \<Rightarrow> string \<Rightarrow> time \<Rightarrow> time \<Rightarrow> reportFilters \<Rightarrow> world \<Rightarrow> (report_error + report_result) \<times> world" where
  "Apps x now userID from to f w =
     (case report_checks x userID from to f of
        Inl e \<Rightarrow> (Inl e, w) | Inr uid \<Rightarrow> list_report from to (appTotals x now uid from to f w))"

definition Projects :: "ext \<Rightarrow> string \<Rightarrow> time \<Rightarrow> time \<Rightarrow> reportFilters \<Rightarrow> world \<Rightarrow> (report_error + report_result) \<times> world" where
  "Projects x userID from to f w =
     (case report_checks x userID from to f of
        Inl e \<Rightarrow> (Inl e, w) | Inr uid \<Rightarrow> list_report from to (projectTotals x uid from to f w))"

definition Summary :: "ext \<Rightarrow> time \<Rightarrow> string \<Rightarrow> time \<Rightarrow> time \<Rightarrow> reportFilters \<Rightarrow> world \<Rightarrow> (report_error + report_result) \<times> world" where
  "Summary x now userID from to f w =
     (case report_checks x userID from to f of
        Inl e \<Rightarrow> (Inl e, w) | Inr uid \<Rightarrow> total_report from to (categoryTotals x now uid from to f w))"

definition Daily :: "ext \<Rightarrow> time \<Rightarrow> string \<Rightarrow> time \<Rightarrow> reportFilters \<Rightarrow> world \<Rightarrow> (report_error + report_result) \<times> world" where
  "Daily x now userID date f w =
     (case parseUUID x userID of
        Inl _ \<Rightarrow> (Inl (RValidation (Msg ''invalid authenticated user id'')), w)
      | Inr uid \<Rightarrow>
          (case validatePrecision f of
             Some e \<Rightarrow> (Inl e, w)
           | None \<Rightarrow>
               let from = dayStart date; to = from + day
               in total_report from to (categoryTotals x now uid from to f w)))"

end
