(* ===== verification/Activities.thy ===== *)
theory Activities
  imports Reports Keyset "HOL-Library.Product_Lexorder"
begin

text \<open>
  The list of raw events: \<^verbatim>\<open>internal/activities/service.go\<close> with
  \<^verbatim>\<open>cursor.go\<close> and \<^verbatim>\<open>dto.go\<close>, the timeline of
  \<^verbatim>\<open>internal/reports/timeline.go\<close>, which repeats it over a copy of the
  cursor, and \<^verbatim>\<open>ListActivityEventsForUser\<close>.  Validation errors and wrapped
  database errors are those of the reports.
\<close>

section \<open>The query\<close>

definition event_pos :: "activity_event \<Rightarrow> time \<times> uuid" where
  "event_pos e = (ae_started_at e, ae_event_id e)"

definition listed :: "uuid \<Rightarrow> time \<Rightarrow> time \<Rightarrow> event_filter \<Rightarrow> activity_event \<Rightarrow> bool" where
  "listed uid fromTs toTs f e \<longleftrightarrow>
     ae_user_id e = uid \<and> \<not> ae_deleted e \<and> pg_ts fromTs \<le> ae_started_at e \<and> ae_started_at e < pg_ts toTs \<and> passes f e"

text \<open>The row comparison with the cursor; it is not true when the cursor's id is null and decides.\<close>

definition past_cursor :: "time \<Rightarrow> uuid option \<Rightarrow> activity_event \<Rightarrow> bool" where
  "past_cursor t i e \<longleftrightarrow>
     pg_ts t < ae_started_at e \<or> ae_started_at e = pg_ts t \<and> (case i of None \<Rightarrow> False | Some i \<Rightarrow> i < ae_event_id e)"

definition ListActivityEventsForUser :: "uuid \<Rightarrow> time \<Rightarrow> time \<Rightarrow> event_filter \<Rightarrow> time \<Rightarrow> uuid option \<Rightarrow> int \<Rightarrow> world \<Rightarrow> (db_error + activity_event list) \<times> world" where
  "ListActivityEventsForUser uid fromTs toTs f cursorStartedAt cursorEventID pageLimit =
     exec_txt (opt_text (ef_Precision f)) (\<lambda>w.
       (Inr (take (nat pageLimit) (sort_key event_pos
          (filter (\<lambda>e. listed uid fromTs toTs f e \<and> past_cursor cursorStartedAt cursorEventID e)
             (activity_events (dbs w))))), w))"

section \<open>The service\<close>

definition defaultListLimit :: int where "defaultListLimit = 50"
definition maxListLimit :: int where "maxListLimit = 200"

record ListParams =
  lp_From :: time
  lp_To :: time
  lp_AppID :: string
  lp_CategoryID :: string
  lp_ProjectID :: string
  lp_DeviceID :: string
  lp_Precision :: string
  lp_Cursor :: string
  lp_Limit :: int

definition cursor_uuid :: "ext \<Rightarrow> ev_cursor \<Rightarrow> uuid option" where
  "cursor_uuid x c = (case parseUUID x (cur_event_id c) of Inl _ \<Rightarrow> None | Inr i \<Rightarrow> Some i)"

type_synonym event_page = "activity_event list \<times> string \<times> bool"

text \<open>From the cursor to the answer, as both services have it.\<close>

definition list_page :: "ext \<Rightarrow> string \<Rightarrow> uuid \<Rightarrow> time \<Rightarrow> time \<Rightarrow> event_filter \<Rightarrow> string \<Rightarrow> int \<Rightarrow> world \<Rightarrow> (report_error + event_page) \<times> world" where
  "list_page x msg uid from to f rawCursor rawLimit w =
     (case decodeCursor x rawCursor of
        Inl e \<Rightarrow> (Inl (RValidation e), w)
      | Inr cur \<Rightarrow>
          let limit = clamp_limit defaultListLimit maxListLimit rawLimit in
          (case ListActivityEventsForUser uid from to f (cur_started_at cur) (cursor_uuid x cur) (LimitParam (limit + 1)) w of
             (Inl e, w) \<Rightarrow> (Inl (RWrapped msg e), w)
           | (Inr rows, w) \<Rightarrow>
               let hasMore = limit < int (length rows);
                   rows = (if hasMore then take (nat limit) rows else rows);
                   nextCursor = (if rows \<noteq> [] then
                       encodeCursor (EvCursor (ae_started_at (last rows)) (uuid_string x (ae_event_id (last rows))))
                     else rawCursor)
               in (Inr (rows, nextCursor, hasMore), w)))"

definition filters_of :: "ListParams \<Rightarrow> reportFilters" where
  "filters_of p =
     \<lparr>rf_AppID = lp_AppID p, rf_CategoryID = lp_CategoryID p, rf_ProjectID = lp_ProjectID p,
      rf_DeviceID = lp_DeviceID p, rf_Precision = lp_Precision p\<rparr>"

definition list_checks :: "ext \<Rightarrow> string \<Rightarrow> ListParams \<Rightarrow> report_error + uuid \<times> event_filter" where
  "list_checks x userID p =
     (case parseUUID x userID of
        Inl _ \<Rightarrow> Inl (RValidation (Msg ''invalid authenticated user id''))
      | Inr uid \<Rightarrow>
          if lp_From p = zero_time \<or> lp_To p = zero_time then Inl (RValidation (Msg ''from and to are required''))
          else (case ValidateRange (lp_From p) (lp_To p) of
                  Some e \<Rightarrow> Inl (RValidation e)
                | None \<Rightarrow> map_sum id (Pair uid) (parse_filter x (filters_of p))))"

definition List :: "ext \<Rightarrow> string \<Rightarrow> ListParams \<Rightarrow> world \<Rightarrow> (report_error + event_page) \<times> world" where
  "List x userID p w =
     (case list_checks x userID p of
        Inl e \<Rightarrow> (Inl e, w)
      | Inr (uid, f) \<Rightarrow>
          list_page x ''activities: list'' uid (lp_From p) (lp_To p) f (lp_Cursor p) (lp_Limit p) w)"

definition Timeline :: "ext \<Rightarrow> string \<Rightarrow> time \<Rightarrow> time \<Rightarrow> reportFilters \<Rightarrow> string \<Rightarrow> int \<Rightarrow> world \<Rightarrow> (report_error + event_page) \<times> world" where
  "Timeline x userID from to f rawCursor rawLimit w =
     (case report_checks x userID from to f of
        Inl e \<Rightarrow> (Inl e, w)
      | Inr uid \<Rightarrow>
          (case parse_filter x f of
             Inl e \<Rightarrow> (Inl e, w)
           | Inr ef \<Rightarrow> list_page x ''reports: timeline'' uid from to ef rawCursor rawLimit w))"

section \<open>What a client is shown\<close>

record eventDTO =
  ev_EventID :: string
  ev_DeviceID :: string
  ev_StartedAt :: string
  ev_EndedAt :: string
  ev_DurationS :: int
  ev_Type :: string
  ev_Source :: string
  ev_Precision :: string
  ev_AppID :: "string option"
  ev_RawBundleID :: "string option"
  ev_WindowTitle :: "string option"
  ev_URL :: "string option"
  ev_CategoryID :: "string option"
  ev_ProjectID :: "string option"

definition toDTO :: "ext \<Rightarrow> activity_event \<Rightarrow> eventDTO" where
  "toDTO x e =
     \<lparr>ev_EventID = uuid_string x (ae_event_id e), ev_DeviceID = uuid_string x (ae_device_id e),
      ev_StartedAt = rfc3339_format x (ae_started_at e), ev_EndedAt = rfc3339_format x (ae_ended_at e),
      ev_DurationS = ae_duration_s e, ev_Type = ae_type e, ev_Source = ae_source e,
      ev_Precision = ae_precision e, ev_AppID = map_option (uuid_string x) (ae_app_id e),
      ev_RawBundleID = ae_raw_bundle_id e, ev_WindowTitle = ae_window_title e, ev_URL = ae_url e,
      ev_CategoryID = map_option (uuid_string x) (ae_category_id e),
      ev_ProjectID = map_option (uuid_string x) (ae_project_id e)\<rparr>"

end
