(* ===== verification/Dtos.thy ===== *)
theory Dtos
  imports Requests SyncPull Activities
begin

text \<open>
  What clients are shown: the response structures of each package's \<^verbatim>\<open>dto.go\<close>
  and the conversions of rows into them.  Instants are shown to the second, identifiers in their
  canonical text; a null column that the tag marks \<^verbatim>\<open>omitempty\<close> is an absent
  option.
\<close>

section \<open>Accounts and devices\<close>

definition deviceToDTO :: "ext \<Rightarrow> device \<Rightarrow> deviceDTO" where
  "deviceToDTO x d =
     \<lparr>dd_ID = uuid_string x (dev_id d), dd_Platform = dev_platform d, dd_Name = dev_name d,
      dd_Model = dev_model d, dd_OSVersion = dev_os_version d, dd_AppVersion = dev_app_version d\<rparr>"

record userDTO =
  ud_ID :: string
  ud_Email :: "string option"
  ud_DisplayName :: "string option"
  ud_Timezone :: "string option"
  ud_Role :: string
  ud_CreatedAt :: string

definition userToDTO :: "ext \<Rightarrow> user \<Rightarrow> userDTO" where
  "userToDTO x u =
     \<lparr>ud_ID = uuid_string x (us_id u), ud_Email = us_email u, ud_DisplayName = us_display_name u,
      ud_Timezone = us_timezone u, ud_Role = us_role u, ud_CreatedAt = rfc3339_format x (us_created_at u)\<rparr>"

record authResponse =
  ar_AccessToken :: string
  ar_RefreshToken :: string
  ar_TokenType :: string
  ar_ExpiresIn :: int
  ar_User :: userDTO
  ar_Device :: deviceDTO

definition toAuthResponse :: "ext \<Rightarrow> auth_result \<Rightarrow> authResponse" where
  "toAuthResponse x res =
     \<lparr>ar_AccessToken = AccessToken (res_Tokens res), ar_RefreshToken = RefreshToken (res_Tokens res),
      ar_TokenType = ''Bearer'', ar_ExpiresIn = AccessExpiresIn (res_Tokens res),
      ar_User = userToDTO x (res_User res), ar_Device = deviceToDTO x (res_Device res)\<rparr>"

section \<open>Catalog\<close>

text \<open>The envelope of every list.\<close>

record 'a listResponse =
  lr_Data :: "'a list"
  lr_NextCursor :: string
  lr_HasMore :: bool

definition list_response :: "('r \<Rightarrow> 'a) \<Rightarrow> 'r list \<times> string \<times> bool \<Rightarrow> 'a listResponse" where
  "list_response to_dto p =
     (case p of (items, nextCursor, hasMore) \<Rightarrow>
        \<lparr>lr_Data = map to_dto items, lr_NextCursor = nextCursor, lr_HasMore = hasMore\<rparr>)"

record projectDTO =
  pd_ID :: string
  pd_Name :: string
  pd_Color :: string
  pd_ArchivedAt :: "string option"
  pd_CreatedAt :: string
  pd_UpdatedAt :: string
  pd_ServerSeq :: int

definition project_toDTO :: "ext \<Rightarrow> project \<Rightarrow> projectDTO" where
  "project_toDTO x p =
     \<lparr>pd_ID = uuid_string x (pr_id p), pd_Name = pr_name p, pd_Color = pr_color p,
      pd_ArchivedAt = map_option (rfc3339_format x) (pr_archived_at p),
      pd_CreatedAt = rfc3339_format x (pr_created_at p), pd_UpdatedAt = rfc3339_format x (pr_updated_at p),
      pd_ServerSeq = pr_server_seq p\<rparr>"

record tagDTO =
  td_ID :: string
  td_Name :: string
  td_UpdatedAt :: string
  td_ServerSeq :: int

definition tag_toDTO :: "ext \<Rightarrow> tag \<Rightarrow> tagDTO" where
  "tag_toDTO x t =
     \<lparr>td_ID = uuid_string x (tag_id t), td_Name = tag_name t,
      td_UpdatedAt = rfc3339_format x (tag_updated_at t), td_ServerSeq = tag_server_seq t\<rparr>"

record categoryDTO =
  cd_ID :: string
  cd_Name :: string
  cd_Color :: string
  cd_Productivity :: int
  cd_System :: bool
  cd_UpdatedAt :: string
  cd_ServerSeq :: int

definition category_toDTO :: "ext \<Rightarrow> category \<Rightarrow> categoryDTO" where
  "category_toDTO x c =
     \<lparr>cd_ID = uuid_string x (cat_id c), cd_Name = cat_name c, cd_Color = cat_color c,
      cd_Productivity = cat_productivity c, cd_System = (cat_user_id c = None),
      cd_UpdatedAt = rfc3339_format x (cat_updated_at c), cd_ServerSeq = cat_server_seq c\<rparr>"

record focusSessionDTO =
  fd'_ID :: string
  fd'_DeviceID :: string
  fd'_ProjectID :: "string option"
  fd'_Kind :: string
  fd'_PlannedDurationS :: "int option"
  fd'_StartedAt :: string
  fd'_EndedAt :: "string option"
  fd'_Status :: string
  fd'_Note :: "string option"
  fd'_UpdatedAt :: string
  fd'_ServerSeq :: int

definition focus_toDTO :: "ext \<Rightarrow> focus_session \<Rightarrow> focusSessionDTO" where
  "focus_toDTO x f =
     \<lparr>fd'_ID = uuid_string x (fs_id f), fd'_DeviceID = uuid_string x (fs_device_id f),
      fd'_ProjectID = map_option (uuid_string x) (fs_project_id f), fd'_Kind = fs_kind f,
      fd'_PlannedDurationS = fs_planned_duration_s f, fd'_StartedAt = rfc3339_format x (fs_started_at f),
      fd'_EndedAt = map_option (rfc3339_format x) (fs_ended_at f), fd'_Status = fs_status f,
      fd'_Note = fs_note f, fd'_UpdatedAt = rfc3339_format x (fs_updated_at f),
      fd'_ServerSeq = fs_server_seq f\<rparr>"

section \<open>Reports\<close>

record categoryBreakdownDTO = cb_Category :: string cb_Seconds :: int
record appBreakdownDTO = ab_App :: string ab_BundleID :: string ab_Seconds :: int
record projectBreakdownDTO = pb_Project :: string pb_Seconds :: int

definition toCategoryBreakdown :: "bucket list \<Rightarrow> categoryBreakdownDTO list" where
  "toCategoryBreakdown = map (\<lambda>b. \<lparr>cb_Category = b_Name b, cb_Seconds = b_Seconds b\<rparr>)"

definition toAppBreakdown :: "bucket list \<Rightarrow> appBreakdownDTO list" where
  "toAppBreakdown = map (\<lambda>b. \<lparr>ab_App = b_Name b, ab_BundleID = b_BundleID b, ab_Seconds = b_Seconds b\<rparr>)"

definition toProjectBreakdown :: "bucket list \<Rightarrow> projectBreakdownDTO list" where
  "toProjectBreakdown = map (\<lambda>b. \<lparr>pb_Project = b_Name b, pb_Seconds = b_Seconds b\<rparr>)"

record summaryDTO =
  sd_From :: string
  sd_To :: string
  sd_TotalTrackedSeconds :: int
  sd_Categories :: "categoryBreakdownDTO list"

record dailyDTO =
  dy_Date :: string
  dy_TotalTrackedSeconds :: int
  dy_Categories :: "categoryBreakdownDTO list"

record categoriesDTO =
  cs_From :: string
  cs_To :: string
  cs_Categories :: "categoryBreakdownDTO list"

record appsDTO =
  as_From :: string
  as_To :: string
  as_Apps :: "appBreakdownDTO list"

record projectsDTO =
  ps_From :: string
  ps_To :: string
  ps_Projects :: "projectBreakdownDTO list"

record timelineEventDTO =
  tl_EventID :: string
  tl_DeviceID :: string
  tl_StartedAt :: string
  tl_EndedAt :: string
  tl_DurationS :: int
  tl_Type :: string
  tl_Source :: string
  tl_Precision :: string
  tl_AppID :: "string option"
  tl_CategoryID :: "string option"
  tl_ProjectID :: "string option"

definition toTimelineEventDTO :: "ext \<Rightarrow> activity_event \<Rightarrow> timelineEventDTO" where
  "toTimelineEventDTO x e =
     \<lparr>tl_EventID = uuid_string x (ae_event_id e), tl_DeviceID = uuid_string x (ae_device_id e),
      tl_StartedAt = rfc3339_format x (ae_started_at e), tl_EndedAt = rfc3339_format x (ae_ended_at e),
      tl_DurationS = ae_duration_s e, tl_Type = ae_type e, tl_Source = ae_source e,
      tl_Precision = ae_precision e, tl_AppID = map_option (uuid_string x) (ae_app_id e),
      tl_CategoryID = map_option (uuid_string x) (ae_category_id e),
      tl_ProjectID = map_option (uuid_string x) (ae_project_id e)\<rparr>"

section \<open>The body of a successful response\<close>

datatype payload =
    PAuth authResponse
  | PUser userDTO
  | PDevice deviceDTO
  | PDevices "deviceDTO list"
  | PPush "pushResult list"
  | PPull pullResponse
  | PProject projectDTO
  | PProjects "projectDTO listResponse"
  | PTag tagDTO
  | PTags "tagDTO listResponse"
  | PCategory categoryDTO
  | PCategories "categoryDTO listResponse"
  | PFocus focusSessionDTO
  | PFocuses "focusSessionDTO listResponse"
  | PActivities "eventDTO listResponse"
  | PSummary summaryDTO
  | PDaily dailyDTO
  | PCategoryTotals categoriesDTO
  | PAppTotals appsDTO
  | PProjectTotals projectsDTO
  | PTimeline "timelineEventDTO listResponse"
  | PHealth "(string \<times> string) list"

end
