(* ===== verification/Handlers.thy ===== *)
theory Handlers
  imports Http Dtos
begin

text \<open>
  The HTTP handlers: \<^verbatim>\<open>handlers.go\<close> of the packages auth, sync, projects, tags,
  categories, focussessions, activities and reports, and \<^verbatim>\<open>auth/stubs.go\<close>.  A
  handler checks the identity, decodes the body or the query, calls its service and maps the
  error or the result to a response.
\<close>

text \<open>What the handlers are given: the code outside the repository, and the settings.\<close>

record api =
  ap_ext :: ext
  ap_crypto :: crypto
  ap_service :: service
  ap_jwt :: jwt_parse
  ap_render :: "detail \<Rightarrow> string"
  ap_date_parse :: "string \<Rightarrow> time option"
  ap_date_format :: "time \<Rightarrow> string"

section \<open>internal/auth\<close>

definition auth_problem :: "(detail \<Rightarrow> string) \<Rightarrow> http_request \<Rightarrow> auth_error \<Rightarrow> 'p response" where
  "auth_problem render r e =
     (case e of
        ErrValidation d \<Rightarrow> WriteError render r 400 (errNS @ ''validation-error'') ''Validation Error'' d
      | ErrEmailTaken \<Rightarrow> WriteError render r 409 (errNS @ ''email-already-registered'') ''Email Already Registered''
          (Msg ''An account with this email already exists.'')
      | ErrInvalidCredentials \<Rightarrow> WriteError render r 401 (errNS @ ''invalid-credentials'') ''Invalid Credentials''
          (Msg ''The email or password provided is incorrect.'')
      | ErrInvalidRefreshToken \<Rightarrow> WriteError render r 401 (errNS @ ''invalid-refresh-token'') ''Invalid Refresh Token''
          (Msg ''The refresh token is missing, unknown, or expired.'')
      | ErrRefreshTokenReuse \<Rightarrow> WriteError render r 401 (errNS @ ''refresh-token-reuse-detected'')
          ''Refresh Token Reuse Detected''
          (Msg ''This refresh token has already been used; the session has been revoked. Please sign in again.'')
      | ErrDeviceNotFound \<Rightarrow> WriteError render r 404 (errNS @ ''device-not-found'') ''Device Not Found''
          (Msg ''No matching device was found for this account.'')
      | ErrUserNotFound \<Rightarrow> WriteError render r 404 (errNS @ ''user-not-found'') ''User Not Found''
          (Msg ''No matching user was found.'')
      | _ \<Rightarrow> internal_error render r)"

definition handle_register :: "api \<Rightarrow> payload handler" where
  "handle_register a ident params r =
     decodeJSON (ap_render a) unmarshal_register_login r (\<lambda>req w.
       respond (auth_problem (ap_render a) r) (\<lambda>res. WriteJSON r 201 (PAuth (toAuthResponse (ap_ext a) res)))
         (Register (ap_ext a) (ap_crypto a) (rl_Email req) (rl_Password req) (toInput (rl_Device req)) w))"

definition handle_login :: "api \<Rightarrow> payload handler" where
  "handle_login a ident params r =
     decodeJSON (ap_render a) unmarshal_register_login r (\<lambda>req w.
       respond (auth_problem (ap_render a) r) (\<lambda>res. WriteJSON r 200 (PAuth (toAuthResponse (ap_ext a) res)))
         (Login (ap_ext a) (ap_service a) (ap_crypto a) (rl_Email req) (rl_Password req) (toInput (rl_Device req)) w))"

definition handle_refresh :: "api \<Rightarrow> payload handler" where
  "handle_refresh a ident params r =
     decodeJSON (ap_render a) unmarshal_refresh r (\<lambda>req w.
       respond (auth_problem (ap_render a) r) (\<lambda>res. WriteJSON r 200 (PAuth (toAuthResponse (ap_ext a) res)))
         (Refresh (ap_ext a) (ap_service a) (ap_crypto a) (rf_RefreshToken req)
            (map_option toInput (rf_Device req)) w))"

definition handle_logout :: "api \<Rightarrow> payload handler" where
  "handle_logout a = with_identity (ap_render a) (\<lambda>i params r.
     decodeJSON (ap_render a) unmarshal_logout r (\<lambda>req w.
       respond (auth_problem (ap_render a) r) (\<lambda>_. WriteHeader 204)
         (Logout (ap_ext a) (ap_crypto a) (id_UserID i) req w)))"

definition handle_get_me :: "api \<Rightarrow> payload handler" where
  "handle_get_me a = with_identity (ap_render a) (\<lambda>i params r w.
     respond (auth_problem (ap_render a) r) (\<lambda>u. WriteJSON r 200 (PUser (userToDTO (ap_ext a) u)))
       (GetProfile (ap_ext a) (id_UserID i) w))"

definition handle_patch_me :: "api \<Rightarrow> payload handler" where
  "handle_patch_me a = with_identity (ap_render a) (\<lambda>i params r.
     decodeJSON (ap_render a) unmarshal_update_me r (\<lambda>req w.
       respond (auth_problem (ap_render a) r) (\<lambda>u. WriteJSON r 200 (PUser (userToDTO (ap_ext a) u)))
         (UpdateProfile (ap_ext a) (id_UserID i) req w)))"

definition handle_list_devices :: "api \<Rightarrow> payload handler" where
  "handle_list_devices a = with_identity (ap_render a) (\<lambda>i params r w.
     respond (auth_problem (ap_render a) r)
       (\<lambda>ds. WriteJSON r 200 (PDevices (map (deviceToDTO (ap_ext a)) ds)))
       (ListDevices (ap_ext a) (id_UserID i) w))"

definition handle_patch_device :: "api \<Rightarrow> payload handler" where
  "handle_patch_device a = with_identity (ap_render a) (\<lambda>i params r.
     decodeJSON (ap_render a) unmarshal_patch_device r (\<lambda>req w.
       respond (auth_problem (ap_render a) r) (\<lambda>d. WriteJSON r 200 (PDevice (deviceToDTO (ap_ext a) d)))
         (RenameDevice (ap_ext a) (id_UserID i) (params ''id'') req w)))"

definition handle_delete_device :: "api \<Rightarrow> payload handler" where
  "handle_delete_device a = with_identity (ap_render a) (\<lambda>i params r w.
     respond (auth_problem (ap_render a) r) (\<lambda>_. WriteHeader 204)
       (RevokeDevice (ap_ext a) (ap_service a) (id_UserID i) (params ''id'') w))"

definition notImplementedStub :: "api \<Rightarrow> string \<Rightarrow> payload handler" where
  "notImplementedStub a det ident params r w =
     (WriteError (ap_render a) r 501 (errNS @ ''not-implemented'') ''Not Implemented'' (Msg det), w)"

section \<open>internal/sync\<close>

definition sync_problem :: "(detail \<Rightarrow> string) \<Rightarrow> http_request \<Rightarrow> sync_error \<Rightarrow> 'p response" where
  "sync_problem render r e =
     (case e of
        ErrBatchTooLarge \<Rightarrow> WriteError render r 400 (errNS @ ''batch-too-large'') ''Batch Too Large''
          (Msg ''A push batch must not contain more than 500 items; split the outbox into sequential batches.'')
      | sync_error.ErrDeviceNotFound \<Rightarrow> WriteError render r 403 (errNS @ ''device-not-found'') ''Device Not Found''
          (Msg ''device_id does not resolve to a device owned by the authenticated user.'')
      | ErrCursorExpired \<Rightarrow> WriteError render r 410 (errNS @ ''cursor-expired'') ''Cursor Expired''
          (Msg ''The supplied cursor is older than this server's retained change history. Reset your cursor to empty and re-pull from the beginning; pulls are idempotent so this is always safe.'')
      | sync_error.ErrValidation d \<Rightarrow> WriteError render r 400 (errNS @ ''validation-error'') ''Validation Error'' d
      | _ \<Rightarrow> internal_error render r)"

definition handle_push :: "api \<Rightarrow> payload handler" where
  "handle_push a = with_identity (ap_render a) (\<lambda>i params r.
     decodeJSON (ap_render a) unmarshal_push r (\<lambda>req w.
       respond (sync_problem (ap_render a) r) (\<lambda>results. WriteJSON r 200 (PPush results))
         (push (ap_ext a) (clock (ap_crypto a)) (id_UserID i) req w)))"

definition handle_pull :: "api \<Rightarrow> payload handler" where
  "handle_pull a = with_identity (ap_render a) (\<lambda>i params r w.
     case query_limit (hr_Query r ''limit'') of
       None \<Rightarrow> (writeValidationError (ap_render a) r (Msg ''limit must be a positive integer.''), w)
     | Some limit \<Rightarrow>
         respond (sync_problem (ap_render a) r) (\<lambda>resp. WriteJSON r 200 (PPull resp))
           (pull (ap_ext a) (id_UserID i) (hr_Query r ''cursor'') limit w))"

section \<open>The four catalog packages\<close>

text \<open>The error mapping, with the package's type, title and detail of a missing row.\<close>

definition crud_problem :: "string \<times> string \<times> string \<Rightarrow> (detail \<Rightarrow> string) \<Rightarrow> http_request \<Rightarrow> crud_error \<Rightarrow> 'p response" where
  "crud_problem missing render r e =
     (case e of
        CNotFound \<Rightarrow>
          (case missing of (ty, title, det) \<Rightarrow> WriteError render r 404 (errNS @ ty) title (Msg det))
      | CConflict d \<Rightarrow> WriteError render r 409 (errNS @ ''conflict'') ''Conflict'' d
      | CValidation d \<Rightarrow> WriteError render r 400 (errNS @ ''validation-error'') ''Validation Error'' d
      | _ \<Rightarrow> internal_error render r)"

definition no_project :: "string \<times> string \<times> string" where
  "no_project = (''project-not-found'', ''Project Not Found'', ''No project with that id exists for the authenticated user.'')"

definition no_tag :: "string \<times> string \<times> string" where
  "no_tag = (''tag-not-found'', ''Tag Not Found'', ''No tag with that id exists for the authenticated user.'')"

definition no_category :: "string \<times> string \<times> string" where
  "no_category =
     (''category-not-found'', ''Category Not Found'', ''No editable category with that id exists for the authenticated user.'')"

definition no_focus_session :: "string \<times> string \<times> string" where
  "no_focus_session =
     (''focus-session-not-found'', ''Focus Session Not Found'', ''No focus session with that id exists for the authenticated user.'')"

text \<open>The five handlers of a package, the same text in each.\<close>

definition catalog_list :: "api \<Rightarrow> string \<times> string \<times> string \<Rightarrow> ('r listResponse \<Rightarrow> payload) \<Rightarrow> ('row \<Rightarrow> 'r) \<Rightarrow>
    (string \<Rightarrow> string \<Rightarrow> int \<Rightarrow> world \<Rightarrow> (crud_error + 'row list \<times> string \<times> bool) \<times> world) \<Rightarrow> payload handler" where
  "catalog_list a missing wrap to_dto list_op = with_identity (ap_render a) (\<lambda>i params r w.
     case query_limit (hr_Query r ''limit'') of
       None \<Rightarrow> (writeValidationError (ap_render a) r (Msg ''limit must be a positive integer.''), w)
     | Some limit \<Rightarrow>
         respond (crud_problem missing (ap_render a) r) (\<lambda>page. WriteJSON r 200 (wrap (list_response to_dto page)))
           (list_op (id_UserID i) (hr_Query r ''cursor'') limit w))"

definition catalog_create :: "api \<Rightarrow> string \<times> string \<times> string \<Rightarrow> (json option \<Rightarrow> 'q option) \<Rightarrow> ('row \<Rightarrow> payload) \<Rightarrow>
    (string \<Rightarrow> 'q \<Rightarrow> world \<Rightarrow> (crud_error + 'row) \<times> world) \<Rightarrow> payload handler" where
  "catalog_create a missing unm show_row create_op = with_identity (ap_render a) (\<lambda>i params r.
     decodeJSON (ap_render a) unm r (\<lambda>req w.
       respond (crud_problem missing (ap_render a) r) (\<lambda>row. WriteJSON r 201 (show_row row))
         (create_op (id_UserID i) req w)))"

definition catalog_get :: "api \<Rightarrow> string \<times> string \<times> string \<Rightarrow> ('row \<Rightarrow> payload) \<Rightarrow>
    (string \<Rightarrow> string \<Rightarrow> world \<Rightarrow> (crud_error + 'row) \<times> world) \<Rightarrow> payload handler" where
  "catalog_get a missing show_row get_op = with_identity (ap_render a) (\<lambda>i params r w.
     respond (crud_problem missing (ap_render a) r) (\<lambda>row. WriteJSON r 200 (show_row row))
       (get_op (id_UserID i) (params ''id'') w))"

definition catalog_patch :: "api \<Rightarrow> string \<times> string \<times> string \<Rightarrow> (json option \<Rightarrow> 'q option) \<Rightarrow> ('row \<Rightarrow> payload) \<Rightarrow>
    (string \<Rightarrow> string \<Rightarrow> 'q \<Rightarrow> world \<Rightarrow> (crud_error + 'row) \<times> world) \<Rightarrow> payload handler" where
  "catalog_patch a missing unm show_row update_op = with_identity (ap_render a) (\<lambda>i params r.
     decodeJSON (ap_render a) unm r (\<lambda>req w.
       respond (crud_problem missing (ap_render a) r) (\<lambda>row. WriteJSON r 200 (show_row row))
         (update_op (id_UserID i) (params ''id'') req w)))"

definition catalog_delete :: "api \<Rightarrow> string \<times> string \<times> string \<Rightarrow>
    (string \<Rightarrow> string \<Rightarrow> world \<Rightarrow> (crud_error + unit) \<times> world) \<Rightarrow> payload handler" where
  "catalog_delete a missing delete_op = with_identity (ap_render a) (\<lambda>i params r w.
     respond (crud_problem missing (ap_render a) r) (\<lambda>_. WriteHeader 204)
       (delete_op (id_UserID i) (params ''id'') w))"

datatype crud_action = ListAll | CreateOne | GetOne | PatchOne | DeleteOne

definition handle_projects :: "api \<Rightarrow> crud_action \<Rightarrow> payload handler" where
  "handle_projects a act =
     (let x = ap_ext a; c = ap_crypto a; shown = (\<lambda>p. PProject (project_toDTO x p)) in
      case act of
        ListAll \<Rightarrow> catalog_list a no_project PProjects (project_toDTO x) (Projects.List x)
      | CreateOne \<Rightarrow> catalog_create a no_project unmarshal_project_create shown (Projects.Create x c 0)
      | GetOne \<Rightarrow> catalog_get a no_project shown (Projects.Get x)
      | PatchOne \<Rightarrow> catalog_patch a no_project unmarshal_project_update shown (Projects.Update x (clock c 0))
      | DeleteOne \<Rightarrow> catalog_delete a no_project (Projects.Delete x))"

definition handle_tags :: "api \<Rightarrow> crud_action \<Rightarrow> payload handler" where
  "handle_tags a act =
     (let x = ap_ext a; c = ap_crypto a; shown = (\<lambda>t. PTag (tag_toDTO x t)) in
      case act of
        ListAll \<Rightarrow> catalog_list a no_tag PTags (tag_toDTO x) (Tags.List x)
      | CreateOne \<Rightarrow> catalog_create a no_tag unmarshal_tag_create shown (Tags.Create x c 0)
      | GetOne \<Rightarrow> catalog_get a no_tag shown (Tags.Get x)
      | PatchOne \<Rightarrow> catalog_patch a no_tag unmarshal_tag_update shown (Tags.Update x)
      | DeleteOne \<Rightarrow> catalog_delete a no_tag (Tags.Delete x))"

definition handle_categories :: "api \<Rightarrow> crud_action \<Rightarrow> payload handler" where
  "handle_categories a act =
     (let x = ap_ext a; shown = (\<lambda>c. PCategory (category_toDTO x c)) in
      case act of
        ListAll \<Rightarrow> catalog_list a no_category PCategories (category_toDTO x) (Categories.List x)
      | CreateOne \<Rightarrow> catalog_create a no_category unmarshal_category_create shown (Categories.Create x)
      | GetOne \<Rightarrow> catalog_get a no_category shown (Categories.Get x)
      | PatchOne \<Rightarrow> catalog_patch a no_category unmarshal_category_update shown (Categories.Update x)
      | DeleteOne \<Rightarrow> catalog_delete a no_category (Categories.Delete x))"

definition handle_focus_sessions :: "api \<Rightarrow> crud_action \<Rightarrow> payload handler" where
  "handle_focus_sessions a act =
     (let x = ap_ext a; c = ap_crypto a; shown = (\<lambda>f. PFocus (focus_toDTO x f)) in
      case act of
        ListAll \<Rightarrow> catalog_list a no_focus_session PFocuses (focus_toDTO x) (FocusSessions.List x)
      | CreateOne \<Rightarrow> catalog_create a no_focus_session unmarshal_focus_create shown (FocusSessions.Create x c 0)
      | GetOne \<Rightarrow> catalog_get a no_focus_session shown (FocusSessions.Get x)
      | PatchOne \<Rightarrow> catalog_patch a no_focus_session unmarshal_focus_update shown (FocusSessions.Update x)
      | DeleteOne \<Rightarrow> catalog_delete a no_focus_session (FocusSessions.Delete x))"

section \<open>internal/activities and internal/reports\<close>

definition report_problem :: "(detail \<Rightarrow> string) \<Rightarrow> http_request \<Rightarrow> report_error \<Rightarrow> 'p response" where
  "report_problem render r e =
     (case e of
        RValidation d \<Rightarrow> WriteError render r 400 (errNS @ ''validation-error'') ''Validation Error'' d
      | _ \<Rightarrow> internal_error render r)"

definition parseRequiredTime :: "ext \<Rightarrow> string \<Rightarrow> time option" where
  "parseRequiredTime x raw = (if raw = [] then None else rfc3339_parse x raw)"

definition handle_activities :: "api \<Rightarrow> payload handler" where
  "handle_activities a = with_identity (ap_render a) (\<lambda>i params r w.
     let q = hr_Query r; x = ap_ext a in
     case parseRequiredTime x (q ''from'') of
       None \<Rightarrow> (writeValidationError (ap_render a) r (Msg ''from must be an RFC3339 timestamp''), w)
     | Some from \<Rightarrow>
     (case parseRequiredTime x (q ''to'') of
        None \<Rightarrow> (writeValidationError (ap_render a) r (Msg ''to must be an RFC3339 timestamp''), w)
      | Some to \<Rightarrow>
     (case query_limit (q ''limit'') of
        None \<Rightarrow> (writeValidationError (ap_render a) r (Msg ''limit must be a positive integer''), w)
      | Some limit \<Rightarrow>
          respond (report_problem (ap_render a) r)
            (\<lambda>page. WriteJSON r 200 (PActivities (list_response (toDTO x) page)))
            (Activities.List x (id_UserID i)
               \<lparr>lp_From = from, lp_To = to, lp_AppID = q ''app_id'', lp_CategoryID = q ''category_id'',
                lp_ProjectID = q ''project_id'', lp_DeviceID = q ''device_id'', lp_Precision = q ''precision'',
                lp_Cursor = q ''cursor'', lp_Limit = limit\<rparr> w))))"

definition filtersFromQuery :: "(string \<Rightarrow> string) \<Rightarrow> reportFilters" where
  "filtersFromQuery q =
     \<lparr>rf_AppID = q ''app_id'', rf_CategoryID = q ''category_id'', rf_ProjectID = q ''project_id'',
      rf_DeviceID = q ''device_id'', rf_Precision = q ''precision''\<rparr>"

definition parseFromTo :: "ext \<Rightarrow> (string \<Rightarrow> string) \<Rightarrow> string + time \<times> time" where
  "parseFromTo x q =
     (if q ''from'' = [] \<or> q ''to'' = [] then Inl ''from and to are required''
      else case rfc3339_parse x (q ''from'') of
        None \<Rightarrow> Inl ''from must be an RFC3339 timestamp''
      | Some from \<Rightarrow>
          (case rfc3339_parse x (q ''to'') of
             None \<Rightarrow> Inl ''to must be an RFC3339 timestamp''
           | Some to \<Rightarrow> Inr (from, to)))"

text \<open>The handlers of the four reports over a range, which differ in the service call and in
  the body.\<close>

definition range_report :: "api \<Rightarrow> (string \<Rightarrow> time \<Rightarrow> time \<Rightarrow> reportFilters \<Rightarrow> world \<Rightarrow> (report_error + report_result) \<times> world) \<Rightarrow> (report_result \<Rightarrow> payload) \<Rightarrow> payload handler" where
  "range_report a report show_report = with_identity (ap_render a) (\<lambda>i params r w.
     case parseFromTo (ap_ext a) (hr_Query r) of
       Inl m \<Rightarrow> (writeValidationError (ap_render a) r (Msg m), w)
     | Inr (from, to) \<Rightarrow>
         respond (report_problem (ap_render a) r) (\<lambda>res. WriteJSON r 200 (show_report res))
           (report (id_UserID i) from to (filtersFromQuery (hr_Query r)) w))"

definition handle_summary :: "api \<Rightarrow> payload handler" where
  "handle_summary a =
     (let x = ap_ext a in range_report a (Summary x (clock (ap_crypto a) 0)) (\<lambda>res. PSummary
        \<lparr>sd_From = rfc3339_format x (rep_From res), sd_To = rfc3339_format x (rep_To res),
         sd_TotalTrackedSeconds = rep_TotalTrackedSeconds res,
         sd_Categories = toCategoryBreakdown (rep_Buckets res)\<rparr>))"

definition handle_categories_report :: "api \<Rightarrow> payload handler" where
  "handle_categories_report a =
     (let x = ap_ext a in range_report a (Reports.Categories x (clock (ap_crypto a) 0)) (\<lambda>res. PCategoryTotals
        \<lparr>cs_From = rfc3339_format x (rep_From res), cs_To = rfc3339_format x (rep_To res),
         cs_Categories = toCategoryBreakdown (rep_Buckets res)\<rparr>))"

definition handle_apps_report :: "api \<Rightarrow> payload handler" where
  "handle_apps_report a =
     (let x = ap_ext a in range_report a (Apps x (clock (ap_crypto a) 0)) (\<lambda>res. PAppTotals
        \<lparr>as_From = rfc3339_format x (rep_From res), as_To = rfc3339_format x (rep_To res),
         as_Apps = toAppBreakdown (rep_Buckets res)\<rparr>))"

definition handle_projects_report :: "api \<Rightarrow> payload handler" where
  "handle_projects_report a =
     (let x = ap_ext a in range_report a (Reports.Projects x) (\<lambda>res. PProjectTotals
        \<lparr>ps_From = rfc3339_format x (rep_From res), ps_To = rfc3339_format x (rep_To res),
         ps_Projects = toProjectBreakdown (rep_Buckets res)\<rparr>))"

definition handle_daily :: "api \<Rightarrow> payload handler" where
  "handle_daily a = with_identity (ap_render a) (\<lambda>i params r w.
     case ap_date_parse a (hr_Query r ''date'') of
       None \<Rightarrow> (writeValidationError (ap_render a) r (Msg ''date must be formatted as YYYY-MM-DD''), w)
     | Some date \<Rightarrow>
         respond (report_problem (ap_render a) r)
           (\<lambda>res. WriteJSON r 200 (PDaily
              \<lparr>dy_Date = ap_date_format a (rep_From res), dy_TotalTrackedSeconds = rep_TotalTrackedSeconds res,
               dy_Categories = toCategoryBreakdown (rep_Buckets res)\<rparr>))
           (Daily (ap_ext a) (clock (ap_crypto a) 0) (id_UserID i) date (filtersFromQuery (hr_Query r)) w))"

definition handle_timeline :: "api \<Rightarrow> payload handler" where
  "handle_timeline a = with_identity (ap_render a) (\<lambda>i params r w.
     case parseFromTo (ap_ext a) (hr_Query r) of
       Inl m \<Rightarrow> (writeValidationError (ap_render a) r (Msg m), w)
     | Inr (from, to) \<Rightarrow>
     (case query_limit (hr_Query r ''limit'') of
        None \<Rightarrow> (writeValidationError (ap_render a) r (Msg ''limit must be a positive integer''), w)
      | Some limit \<Rightarrow>
          respond (report_problem (ap_render a) r)
            (\<lambda>page. WriteJSON r 200 (PTimeline (list_response (toTimelineEventDTO (ap_ext a)) page)))
            (Timeline (ap_ext a) (id_UserID i) from to (filtersFromQuery (hr_Query r)) (hr_Query r ''cursor'') limit w)))"

end
