(* ===== verification/PullProps.thy ===== *)
theory PullProps
  imports SyncPull Sample
begin

text \<open>
  What the pull promises: a client that follows \<^verbatim>\<open>next_cursor\<close> until
  \<^verbatim>\<open>has_more\<close> is false receives the current state of every entity its user
  may see and that changed after its cursor; nothing of another user; and a cursor behind the
  retention horizon is refused.
\<close>

section \<open>Resolving a row\<close>

text \<open>The current state of the entity a changelog row names, as the user sees it.\<close>

definition entity_now :: "ext \<Rightarrow> uuid \<Rightarrow> world \<Rightarrow> sync_changelog \<Rightarrow> changelogEntry option" where
  "entity_now x uid w row = projr (fst (resolveChangelogEntry x uid row w))"

lemma found_select:
  "found entry (one_row rs, w) = (Inr (case rs of [] \<Rightarrow> None | r # _ \<Rightarrow> Some (entry r)), w)"
  by (auto simp: found_def one_row_def split: list.splits)

lemma resolve_quiet:
  assumes "hazards w = []" and "cl_entity_type row \<in> set pullEntityTypes"
  shows "resolveChangelogEntry x uid row w = (Inr (entity_now x uid w row), w)"
proof -
  have "\<exists>r. resolveChangelogEntry x uid row w = (Inr r, w)"
    using assms
    by (auto simp: resolveChangelogEntry_def changelog_lookups pullEntityTypes_def select_one_def
        found_select) (auto simp: found_def one_row_def split: list.splits)
  then show ?thesis by (auto simp: entity_now_def)
qed

lemma entity_now_in_tx:
  "hazards w = [] \<Longrightarrow> cl_entity_type row \<in> set pullEntityTypes
   \<Longrightarrow> entity_now x uid (w\<lparr>in_tx := b\<rparr>) row = entity_now x uid w row"
  unfolding entity_now_def
  by (auto simp: resolveChangelogEntry_def changelog_lookups pullEntityTypes_def select_one_def
      found_select Let_def) (auto simp: found_def one_row_def split: list.splits)

text \<open>What a resolved entry is: of the row's type, one of upsert and tombstone, and made from a
  row of the user's (or a system category).\<close>

lemma entity_now_entry:
  assumes "hazards w = []" and "cl_entity_type row \<in> set pullEntityTypes"
    and "entity_now x uid w row = Some e"
  shows "entityType e = cl_entity_type row \<and> (upsert e = None) \<noteq> (tombstone e = None)"
  using assms
  by (auto simp: entity_now_def resolveChangelogEntry_def changelog_lookups pullEntityTypes_def
      select_one_def found_select activity_entry_def focus_entry_def project_entry_def tag_entry_def
      setting_entry_def category_entry_def upsert_entry_def tombstone_entry_def
      Let_def split: list.splits if_splits)
    (auto simp: found_def one_row_def activity_entry_def upsert_entry_def tombstone_entry_def
      Let_def split: list.splits if_splits)

text \<open>The objects a user may be shown: of the user's own rows, and of the system categories.\<close>

definition user_entries :: "ext \<Rightarrow> uuid \<Rightarrow> db \<Rightarrow> changelogEntry set" where
  "user_entries x uid d =
     {activity_entry x (e, b, c) |e b c. e \<in> set (activity_events d) \<and> ae_user_id e = uid} \<union>
     focus_entry x ` {f \<in> set (focus_sessions d). fs_user_id f = uid} \<union>
     project_entry x ` {p \<in> set (projects d). pr_user_id p = uid} \<union>
     tag_entry x ` {t \<in> set (tags d). tag_user_id t = uid} \<union>
     setting_entry x ` {s \<in> set (user_app_settings d). uas_user_id s = uid} \<union>
     category_entry x ` {c \<in> set (categories d). cat_user_id c = Some uid \<or> cat_user_id c = None}"

lemma found_lookup:
  "hazards w = [] \<Longrightarrow> found entry (exec (select_one tab P) w) = (Inr (Some e), w')
   \<Longrightarrow> \<exists>r\<in>set (tab (dbs w)). P r \<and> e = entry r"
  by (cases "filter P (tab (dbs w))")
    (auto simp: select_one_def found_select dest!: filter_eq_ConsD)

lemma entity_now_user:
  assumes "hazards w = []" and "cl_entity_type row \<in> set pullEntityTypes"
    and "entity_now x uid w row = Some e"
  shows "e \<in> user_entries x uid (dbs w)"
proof -
  have run: "resolveChangelogEntry x uid row w = (Inr (Some e), w)"
    using resolve_quiet[OF assms(1,2)] assms(3) by simp
  have act: "\<exists>ev b c. ev \<in> set (activity_events (dbs w)) \<and> ae_user_id ev = uid \<and> e = activity_entry x (ev, b, c)"
    if "found (activity_entry x) (GetActivityEventForChangelogEntry uid i st w) = (Inr (Some e), w)" for i st
  proof (cases "select_one activity_events
      (\<lambda>e. ae_user_id e = uid \<and> ae_event_id e = i \<and> Some (ae_started_at e) = st) w")
    case (Pair r w')
    show ?thesis
    proof (cases r)
      case (Inl err)
      then show ?thesis using that Pair assms(1)
        by (simp add: GetActivityEventForChangelogEntry_def found_def split: if_splits)
    next
      case (Inr ev)
      then show ?thesis using that Pair assms(1) select_one_Inr[of activity_events _ w ev w']
        by (auto simp: GetActivityEventForChangelogEntry_def found_def)
    qed
  qed
  consider "cl_entity_type row = ''activity_events''" | "cl_entity_type row = ''focus_sessions''"
    | "cl_entity_type row = ''projects''" | "cl_entity_type row = ''tags''"
    | "cl_entity_type row = ''user_app_settings''" | "cl_entity_type row = ''categories''"
    using assms(2) by (auto simp: pullEntityTypes_def)
  then show ?thesis
  proof cases
    case 1
    then have "found (activity_entry x) (GetActivityEventForChangelogEntry uid (cl_entity_id row)
        (cl_event_started_at row) w) = (Inr (Some e), w)"
      using run by (simp add: resolveChangelogEntry_def Let_def)
    from act[OF this] show ?thesis unfolding user_entries_def by blast
  next
    case 2
    then have "found (focus_entry x) (GetFocusSessionForChangelogEntry uid (cl_entity_id row) w) = (Inr (Some e), w)"
      using run by (simp add: resolveChangelogEntry_def Let_def)
    from found_lookup[OF assms(1) this[unfolded GetFocusSessionForChangelogEntry_def]] show ?thesis
      unfolding user_entries_def by blast
  next
    case 3
    then have "found (project_entry x) (GetProjectForChangelogEntry uid (cl_entity_id row) w) = (Inr (Some e), w)"
      using run by (simp add: resolveChangelogEntry_def Let_def)
    from found_lookup[OF assms(1) this[unfolded GetProjectForChangelogEntry_def]] show ?thesis
      unfolding user_entries_def by blast
  next
    case 4
    then have "found (tag_entry x) (GetTagForChangelogEntry uid (cl_entity_id row) w) = (Inr (Some e), w)"
      using run by (simp add: resolveChangelogEntry_def Let_def)
    from found_lookup[OF assms(1) this[unfolded GetTagForChangelogEntry_def]] show ?thesis
      unfolding user_entries_def by blast
  next
    case 5
    then have "found (setting_entry x) (GetUserAppSettingForChangelogEntry uid (cl_entity_id row) w) = (Inr (Some e), w)"
      using run by (simp add: resolveChangelogEntry_def Let_def)
    from found_lookup[OF assms(1) this[unfolded GetUserAppSettingForChangelogEntry_def]] show ?thesis
      unfolding user_entries_def by blast
  next
    case 6
    then have "found (category_entry x) (GetCategoryForChangelogEntry (cl_entity_id row) uid w) = (Inr (Some e), w)"
      using run by (simp add: resolveChangelogEntry_def Let_def)
    from found_lookup[OF assms(1) this[unfolded GetCategoryForChangelogEntry_def]] show ?thesis
      unfolding user_entries_def by blast
  qed
qed

text \<open>The latest entry of each key, after some rows.\<close>

definition latest :: "ext \<Rightarrow> uuid \<Rightarrow> world \<Rightarrow> sync_changelog list \<Rightarrow> (string \<rightharpoonup> changelogEntry) \<Rightarrow> (string \<rightharpoonup> changelogEntry)" where
  "latest x uid w rows m = fold (\<lambda>r m. m(entry_key x r := entity_now x uid w r)) rows m"

lemma latest_simps [simp]:
  "latest x uid w [] m = m"
  "latest x uid w (r # rows) m = latest x uid w rows (m(entry_key x r := entity_now x uid w r))"
  by (simp_all add: latest_def)

lemma latest_same:
  assumes "\<forall>r\<in>set rows. entity_now x uid w r = g (entry_key x r)"
  shows "latest x uid w rows m k = (if k \<in> entry_key x ` set rows then g k else m k)"
  using assms by (induction rows arbitrary: m) auto

lemma latest_from:
  "latest x uid w rows m k = Some e
   \<Longrightarrow> m k = Some e \<or> (\<exists>r\<in>set rows. entry_key x r = k \<and> entity_now x uid w r = Some e)"
proof (induction rows arbitrary: m)
  case Nil
  then show ?case by simp
next
  case (Cons a rows)
  from Cons.prems have "latest x uid w rows (m(entry_key x a := entity_now x uid w a)) k = Some e"
    by (simp only: latest_simps)
  from Cons.IH[OF this] show ?case by (auto split: if_splits)
qed

lemma resolveRows_quiet:
  assumes "hazards w = []" and "\<forall>r\<in>set rows. cl_entity_type r \<in> set pullEntityTypes"
  shows "\<exists>ks. resolveRows x uid rows ordered byKey w = (Inr (ks, latest x uid w rows byKey), w) \<and>
    set ordered \<subseteq> set ks \<and> (\<forall>r\<in>set rows. entry_key x r \<in> set ks \<or> entry_key x r \<in> dom byKey)"
  using assms(2)
proof (induction rows arbitrary: ordered byKey)
  case Nil
  then show ?case by auto
next
  case (Cons row rows)
  let ?k = "entry_key x row" and ?e = "entity_now x uid w row"
  let ?o = "if byKey ?k = None then ordered @ [?k] else ordered"
  have prem: "\<forall>r\<in>set rows. cl_entity_type r \<in> set pullEntityTypes" using Cons.prems by simp
  from Cons.IH[OF prem, of ?o "byKey(?k := ?e)"]
  obtain ks where ih: "resolveRows x uid rows ?o (byKey(?k := ?e)) w
      = (Inr (ks, latest x uid w rows (byKey(?k := ?e))), w)"
    "set ?o \<subseteq> set ks"
    "\<forall>r\<in>set rows. entry_key x r \<in> set ks \<or> entry_key x r \<in> dom (byKey(?k := ?e))"
    by (elim exE conjE)
  have step: "resolveRows x uid (row # rows) ordered byKey w = resolveRows x uid rows ?o (byKey(?k := ?e)) w"
    using resolve_quiet[OF assms(1), of row x uid] Cons.prems
    by (cases ?e) (simp_all add: Let_def)
  have k: "?k \<in> set ks \<or> ?k \<in> dom byKey" using ih(2) by (auto split: if_splits)
  have "entry_key x r \<in> set ks \<or> entry_key x r \<in> dom byKey" if "r \<in> set (row # rows)" for r
  proof (cases "entry_key x r = ?k")
    case True
    then show ?thesis using k by simp
  next
    case False
    then have "entry_key x r \<in> set ks \<or> entry_key x r \<in> dom (byKey(?k := ?e))" using that ih(3) by auto
    then show ?thesis using False by (auto simp: dom_def split: if_splits)
  qed
  moreover have "set ordered \<subseteq> set ks" using ih(2) by (auto split: if_splits)
  moreover have "resolveRows x uid (row # rows) ordered byKey w = (Inr (ks, latest x uid w (row # rows) byKey), w)"
    using step ih(1) by (simp only: latest_simps)
  ultimately show ?case by blast
qed

section \<open>One page\<close>

text \<open>An entry is delivered when the object that shows it is listed under its type.\<close>

definition delivered :: "pullResponse \<Rightarrow> changelogEntry \<Rightarrow> bool" where
  "delivered resp e \<longleftrightarrow>
     (case Changes resp (entityType e) of
        None \<Rightarrow> False
      | Some cs \<Rightarrow>
          (case tombstone e of
             Some t \<Rightarrow> t \<in> set (Tombstones cs)
           | None \<Rightarrow> (case upsert e of Some u \<Rightarrow> u \<in> set (Upserts cs) | None \<Rightarrow> False)))"

lemma collect_delivers:
  assumes "byKey k = Some e" and "k \<in> set ordered" and "entityType e \<in> set pullEntityTypes"
    and "(upsert e = None) \<noteq> (tombstone e = None)" and "Changes resp = collect_changes ordered byKey"
  shows "delivered resp e"
proof -
  let ?es = "filter (\<lambda>e'. entityType e' = entityType e) (List.map_filter byKey ordered)"
  have e: "e \<in> set ?es" using assms(1,2) by (force simp: List.map_filter_def)
  show ?thesis
  proof (cases "tombstone e")
    case None
    then obtain u where "upsert e = Some u" using assms(4) by auto
    moreover have "u \<in> set (List.map_filter upsert (filter (\<lambda>e. tombstone e = None) ?es))"
      using e None calculation by (force simp: List.map_filter_def)
    ultimately show ?thesis using None assms(3,5) by (simp add: delivered_def collect_changes_def Let_def)
  next
    case (Some t)
    have "t \<in> set (List.map_filter tombstone ?es)" using e Some by (force simp: List.map_filter_def)
    then show ?thesis using Some assms(3,5) by (simp add: delivered_def collect_changes_def Let_def)
  qed
qed


section \<open>The feed\<close>

text \<open>
  The changelog as its triggers keep it: positions are unique and encodable, and the entity types
  are the six that the pull knows.
\<close>

definition changelog_wf :: "db \<Rightarrow> bool" where
  "changelog_wf d \<longleftrightarrow>
     distinct (map ckey (changelog d)) \<and>
     (\<forall>r\<in>set (changelog d). pull_valid (ckey r) \<and> cl_entity_type r \<in> set pullEntityTypes)"

definition feed_rows :: "uuid \<times> world \<Rightarrow> sync_changelog list" where
  "feed_rows s = sort_key ckey (filter (visible (fst s) (snd s)) (changelog (dbs (snd s))))"

definition feed_page :: "pull_cursor \<Rightarrow> int \<Rightarrow> uuid \<times> world \<Rightarrow> sync_changelog list" where
  "feed_page c n s = changelog_page (fst s) c n (snd s)"

definition feed_wf :: "uuid \<times> world \<Rightarrow> bool" where
  "feed_wf s \<longleftrightarrow> changelog_wf (dbs (snd s))"

interpretation pull_feed: keyset_feed ckey feed_rows feed_page feed_wf
proof
  fix s assume "feed_wf s"
  then have "distinct (map ckey (filter (visible (fst s) (snd s)) (changelog (dbs (snd s)))))"
    by (simp add: feed_wf_def changelog_wf_def distinct_map_filter)
  then show "sorted_wrt (<) (map ckey (feed_rows s))"
    unfolding feed_rows_def by (rule sorted_wrt_sort_key)
next
  fix s c n
  show "feed_page c n s = take (nat n) (filter (\<lambda>r. c < ckey r) (feed_rows s))"
    unfolding feed_page_def changelog_page_def feed_rows_def sort_filter_commute ..
qed

lemma snapshot_xmin_in_tx [simp]: "snapshot_xmin (w\<lparr>in_tx := b\<rparr>) = snapshot_xmin w"
  by (simp add: snapshot_xmin_def)

lemma changelog_page_in_tx [simp]: "changelog_page uid c n (w\<lparr>in_tx := b\<rparr>) = changelog_page uid c n w"
  by (simp add: changelog_page_def visible_def)

lemma changelog_page_rows: "set (changelog_page uid c n w) \<subseteq> {r \<in> set (changelog (dbs w)). visible uid w r}"
  by (auto simp: changelog_page_def dest!: in_set_takeD)

lemma latest_in_tx:
  "hazards w = [] \<Longrightarrow> \<forall>r\<in>set rows. cl_entity_type r \<in> set pullEntityTypes
   \<Longrightarrow> latest x uid (w\<lparr>in_tx := b\<rparr>) rows m = latest x uid w rows m"
  by (induction rows arbitrary: m) (simp_all add: entity_now_in_tx del: fun_upd_apply)

text \<open>A cursor that the retention check lets through.\<close>

definition horizon_key :: "db \<Rightarrow> pull_cursor" where
  "horizon_key d = PullCursor (hz_xid8 (horizon d)) (hz_server_seq (horizon d))"

definition servable :: "pull_cursor \<Rightarrow> db \<Rightarrow> bool" where
  "servable c d \<longleftrightarrow> IsZero c \<or> horizon_key d \<le> c"

lemma Less_horizon: "Less c (PullCursor (hz_xid8 (horizon d)) (hz_server_seq (horizon d))) \<longleftrightarrow> \<not> horizon_key d \<le> c"
  by (simp add: horizon_key_def less_pull_cursor_def[symmetric] not_le)

lemma pull_limit: "1 \<le> clamp_limit defaultPullLimit maxPullLimit n" "clamp_limit defaultPullLimit maxPullLimit n < 2 ^ 31 - 1"
  by (auto simp: clamp_limit_def defaultPullLimit_def maxPullLimit_def Let_def)

lemma page_cut_subset: "page_cut key l c rows = (kept, nxt, hm) \<Longrightarrow> set kept \<subseteq> set rows"
  by (auto simp: page_cut_def Let_def dest!: in_set_takeD split: if_splits)

text \<open>One request that is served.\<close>

lemma pull_quiet:
  assumes q: "quiet w" and tx: "\<not> in_tx w" and uid: "parseUUID x userID = Inr uid"
    and c: "DecodePullCursor rawCursor = Inr c" and wf: "changelog_wf (dbs w)"
    and srv: "servable c (dbs w)"
    and cut: "page_cut ckey (clamp_limit defaultPullLimit maxPullLimit n) c
        (changelog_page uid c (LimitParam (clamp_limit defaultPullLimit maxPullLimit n + 1)) w) = (kept, nxt, hm)"
  shows "\<exists>ks. pull x userID rawCursor n w
      = (Inr \<lparr>Changes = collect_changes ks (latest x uid w kept Map.empty), NextCursor = EncodePullCursor nxt,
              HasMore = hm\<rparr>, w) \<and> (\<forall>r\<in>set kept. entry_key x r \<in> set ks)"
proof -
  have h: "hazards w = []" using q by (simp add: quiet_def)
  have types: "\<forall>r\<in>set kept. cl_entity_type r \<in> set pullEntityTypes"
    using page_cut_subset[OF cut] changelog_page_rows[of uid c _ w] wf by (fastforce simp: changelog_wf_def)
  let ?w = "w\<lparr>in_tx := True\<rparr>"
  from resolveRows_quiet[of ?w kept x uid "[]" Map.empty] h types
  obtain ks where ks: "resolveRows x uid kept [] Map.empty ?w = (Inr (ks, latest x uid w kept Map.empty), ?w)"
    "\<forall>r\<in>set kept. entry_key x r \<in> set ks"
    using latest_in_tx[OF h types] by auto
  have "pull_snapshot x uid c (clamp_limit defaultPullLimit maxPullLimit n) ?w
      = (Inr \<lparr>Changes = collect_changes ks (latest x uid w kept Map.empty), NextCursor = EncodePullCursor nxt,
              HasMore = hm\<rparr>, ?w)"
    using srv ks(1) cut h
    by (cases "IsZero c") (simp_all add: pull_snapshot_def GetChangelogHorizon_def ListChangelogPage_def
        servable_def Less_horizon)
  then have "pull x userID rawCursor n w
      = (Inr \<lparr>Changes = collect_changes ks (latest x uid w kept Map.empty), NextCursor = EncodePullCursor nxt,
              HasMore = hm\<rparr>, w)"
    using uid c h tx by (simp add: pull_def runInPullSnapshot_def begin_tx_def rollback_to_def)
  then show ?thesis using ks(2) by blast
qed


section \<open>Following the cursors\<close>

text \<open>The client repeats the request at the cursor it was given until there is no more.\<close>

fun pull_all :: "ext \<Rightarrow> string \<Rightarrow> int \<Rightarrow> nat \<Rightarrow> string \<Rightarrow> world \<Rightarrow> pullResponse list option" where
  "pull_all x userID n 0 cur w = None"
| "pull_all x userID n (Suc fuel) cur w =
     (case pull x userID cur n w of
        (Inl _, _) \<Rightarrow> None
      | (Inr resp, w') \<Rightarrow>
          if HasMore resp then map_option (\<lambda>rs. resp # rs) (pull_all x userID n fuel (NextCursor resp) w')
          else Some [resp])"

text \<open>
  An entity's rows in the changelog agree on the start of the event they name.  The response is
  keyed by type and id alone, so without this two events under one id hide one another.
\<close>

definition starts_unique :: "db \<Rightarrow> bool" where
  "starts_unique d \<longleftrightarrow>
     (\<forall>r\<in>set (changelog d). \<forall>s\<in>set (changelog d).
        cl_entity_type r = cl_entity_type s \<and> cl_entity_id r = cl_entity_id s
        \<longrightarrow> cl_event_started_at r = cl_event_started_at s)"

lemma entry_key_inj:
  assumes "inj (uuid_string x)" and "cl_entity_type r \<in> set pullEntityTypes" "cl_entity_type s \<in> set pullEntityTypes"
    and "entry_key x r = entry_key x s"
  shows "cl_entity_type r = cl_entity_type s \<and> cl_entity_id r = cl_entity_id s"
proof -
  have no: "CHR '':'' \<notin> set t" if "t \<in> set pullEntityTypes" for t
    using that by (auto simp: pullEntityTypes_def)
  have "split2 (CHR '':'') (entry_key x r) = [cl_entity_type r, uuid_string x (cl_entity_id r)]"
    and "split2 (CHR '':'') (entry_key x s) = [cl_entity_type s, uuid_string x (cl_entity_id s)]"
    using no[OF assms(2)] no[OF assms(3)] by (simp_all add: entry_key_def)
  then show ?thesis using assms(1,4) by (simp add: inj_eq)
qed

lemma entity_now_cong:
  "cl_entity_type r = cl_entity_type s \<Longrightarrow> cl_entity_id r = cl_entity_id s
   \<Longrightarrow> cl_event_started_at r = cl_event_started_at s \<Longrightarrow> entity_now x uid w r = entity_now x uid w s"
  by (simp add: entity_now_def resolveChangelogEntry_def Let_def)

text \<open>One page shows the current state of every entity it names.\<close>

lemma page_delivers:
  assumes h: "hazards w = []" and wf: "changelog_wf (dbs w)" and inj: "inj (uuid_string x)"
    and starts: "starts_unique (dbs w)" and sub: "set kept \<subseteq> set (changelog (dbs w))"
    and ks: "\<forall>r\<in>set kept. entry_key x r \<in> set ks"
    and resp: "Changes resp = collect_changes ks (latest x uid w kept Map.empty)"
    and r: "r \<in> set kept" "entity_now x uid w r = Some e"
  shows "delivered resp e"
proof -
  have types: "cl_entity_type s \<in> set pullEntityTypes" if "s \<in> set kept" for s
    using that sub wf by (auto simp: changelog_wf_def)
  have same: "entity_now x uid w s = entity_now x uid w s'"
    if "s \<in> set kept" "s' \<in> set kept" "entry_key x s = entry_key x s'" for s s'
  proof -
    have "cl_entity_type s = cl_entity_type s'" "cl_entity_id s = cl_entity_id s'"
      using entry_key_inj[OF inj types[OF that(1)] types[OF that(2)] that(3)] by simp_all
    then show ?thesis
      using starts sub that unfolding starts_unique_def by (intro entity_now_cong) auto
  qed
  define g where "g k = entity_now x uid w (SOME s. s \<in> set kept \<and> entry_key x s = k)" for k
  have "\<forall>s\<in>set kept. entity_now x uid w s = g (entry_key x s)"
  proof
    fix s assume s: "s \<in> set kept"
    have "(SOME s'. s' \<in> set kept \<and> entry_key x s' = entry_key x s) \<in> set kept \<and>
        entry_key x (SOME s'. s' \<in> set kept \<and> entry_key x s' = entry_key x s) = entry_key x s"
      by (rule someI[of _ s]) (simp add: s)
    then show "entity_now x uid w s = g (entry_key x s)"
      unfolding g_def using same[OF s] by metis
  qed
  from latest_same[OF this, of Map.empty "entry_key x r"] r this
  have "latest x uid w kept Map.empty (entry_key x r) = Some e" by simp
  then show ?thesis
    by (rule collect_delivers[OF _ _ _ _ resp])
      (use ks r entity_now_entry[OF h types[OF r(1)] r(2)] types[OF r(1)] in auto)
qed

lemma pull_all_delivers:
  assumes q: "quiet w" and tx: "\<not> in_tx w" and uid: "parseUUID x userID = Inr uid"
    and wf: "changelog_wf (dbs w)" and inj: "inj (uuid_string x)" and starts: "starts_unique (dbs w)"
  shows "DecodePullCursor cur = Inr c \<Longrightarrow>
    horizon_key (dbs w) \<le> c \<or> (IsZero c \<and> (\<forall>r\<in>set (changelog (dbs w)). horizon_key (dbs w) \<le> ckey r)) \<Longrightarrow>
    length (filter (\<lambda>r. c < ckey r) (feed_rows (uid, w))) < fuel \<Longrightarrow>
    \<exists>resps. pull_all x userID n fuel cur w = Some resps \<and>
      (\<forall>r\<in>set (feed_rows (uid, w)). c < ckey r \<longrightarrow>
         (\<forall>e. entity_now x uid w r = Some e \<longrightarrow> (\<exists>resp\<in>set resps. delivered resp e)))"
proof (induction fuel arbitrary: c cur)
  case 0
  then show ?case by simp
next
  case (Suc fuel)
  let ?A = "\<lambda>c. filter (\<lambda>r. c < ckey r) (feed_rows (uid, w))"
  let ?l = "clamp_limit defaultPullLimit maxPullLimit n"
  obtain kept nxt hm where cut: "page_cut ckey ?l c (changelog_page uid c (LimitParam (?l + 1)) w) = (kept, nxt, hm)"
    by (metis prod_cases3)
  have fwf: "feed_wf (uid, w)" using wf by (simp add: feed_wf_def)
  have facts: "kept = take (nat ?l) (?A c)" "hm \<longleftrightarrow> nat ?l < length (?A c)"
    "hm \<Longrightarrow> ?A nxt = drop (nat ?l) (?A c) \<and> c < nxt"
    using pull_feed.page_complete[OF fwf pull_limit, of n c kept nxt hm] cut by (simp_all add: feed_page_def)
  have feed_set: "set (feed_rows (uid, w)) \<subseteq> set (changelog (dbs w))" by (auto simp: feed_rows_def)
  have srv: "servable c (dbs w)" using Suc.prems(2) by (auto simp: servable_def)
  obtain ks where run: "pull x userID cur n w
      = (Inr \<lparr>Changes = collect_changes ks (latest x uid w kept Map.empty), NextCursor = EncodePullCursor nxt,
              HasMore = hm\<rparr>, w)" (is "_ = (Inr ?resp, w)") and ks: "\<forall>r\<in>set kept. entry_key x r \<in> set ks"
    using pull_quiet[OF q tx uid Suc.prems(1) wf srv cut] by blast
  have sub: "set kept \<subseteq> set (changelog (dbs w))"
  proof -
    have "set kept \<subseteq> set (?A c)" unfolding facts(1) by (rule set_take_subset)
    then show ?thesis using feed_set by auto
  qed
  have here: "delivered ?resp e" if "r \<in> set kept" "entity_now x uid w r = Some e" for r e
    by (rule page_delivers[OF _ wf inj starts sub ks _ that]) (use q in \<open>simp_all add: quiet_def\<close>)
  show ?case
  proof (cases hm)
    case False
    then have "kept = ?A c" using facts by simp
    then show ?thesis using run False here by auto
  next
    case True
    then have nxt: "?A nxt = drop (nat ?l) (?A c)" "c < nxt" using facts(3) by auto
    have "kept \<noteq> []" using True facts(1,2) pull_limit(1)[of n] by auto
    then have nk: "nxt = ckey (last kept)" and lk: "last kept \<in> set kept"
      using cut by (auto simp: page_cut_def Let_def split: if_splits)
    have "pull_valid nxt" using nk lk sub wf by (auto simp: changelog_wf_def)
    then have dec: "DecodePullCursor (EncodePullCursor nxt) = Inr nxt" by (rule pull_codec.decode_encode)
    have hz: "horizon_key (dbs w) \<le> nxt"
      using Suc.prems(2) nxt(2) nk lk sub by (auto dest: order.strict_implies_order order_trans)
    have "0 < nat ?l" using pull_limit(1)[of n] by simp
    then have "length (?A nxt) < fuel" using nxt(1) Suc.prems(3) True facts(2) by simp
    from Suc.IH[OF dec _ this] hz obtain resps where
      rest: "pull_all x userID n fuel (EncodePullCursor nxt) w = Some resps"
      "\<forall>r\<in>set (feed_rows (uid, w)). nxt < ckey r \<longrightarrow>
         (\<forall>e. entity_now x uid w r = Some e \<longrightarrow> (\<exists>resp\<in>set resps. delivered resp e))" by blast
    have "r \<in> set kept \<or> nxt < ckey r" if "r \<in> set (feed_rows (uid, w))" "c < ckey r" for r
    proof -
      have "r \<in> set (take (nat ?l) (?A c)) \<union> set (drop (nat ?l) (?A c))"
        unfolding set_append[symmetric] append_take_drop_id using that by simp
      then show ?thesis using facts(1) nxt(1)[symmetric] by auto
    qed
    then show ?thesis using run True rest here by (intro exI[of _ "?resp # resps"]) auto
  qed
qed

text \<open>C4: completeness.  A client that follows the cursors, however small its pages, stops and
  has then been shown the current state of every entity whose change its user may see and that lies
  after its cursor.\<close>

theorem pull_delivers_everything:
  assumes "quiet w" and "\<not> in_tx w" and "parseUUID x userID = Inr uid"
    and "changelog_wf (dbs w)" and "inj (uuid_string x)" and "starts_unique (dbs w)"
    and "DecodePullCursor cur = Inr c"
    and "horizon_key (dbs w) \<le> c \<or>
         (IsZero c \<and> (\<forall>r\<in>set (changelog (dbs w)). horizon_key (dbs w) \<le> ckey r))"
    and "length (changelog (dbs w)) < fuel"
  shows "\<exists>resps. pull_all x userID n fuel cur w = Some resps \<and>
      (\<forall>r\<in>set (changelog (dbs w)). visible uid w r \<and> c < ckey r \<longrightarrow>
         (\<forall>e. entity_now x uid w r = Some e \<longrightarrow> (\<exists>resp\<in>set resps. delivered resp e)))"
proof -
  have "length (filter (\<lambda>r. c < ckey r) (feed_rows (uid, w))) \<le> length (changelog (dbs w))"
    unfolding feed_rows_def
    by (rule order_trans[OF length_filter_le]) simp
  then have "length (filter (\<lambda>r. c < ckey r) (feed_rows (uid, w))) < fuel" using assms(9) by simp
  from pull_all_delivers[OF assms(1-8) this, of n] show ?thesis
    by (auto simp: feed_rows_def)
qed


section \<open>Tenant isolation\<close>

text \<open>Inside the snapshot a read sees the same tables whatever else happens.\<close>

lemma found_in_tx:
  assumes tx: "in_tx w" and run: "found entry (exec (select_one tab P) w) = (r, w')"
  shows "same_tables w w' \<and> (\<forall>e. r = Inr (Some e) \<longrightarrow> (\<exists>row\<in>set (tab (dbs w)). P row \<and> e = entry row))"
proof -
  obtain r1 w1 where e: "exec (select_one tab P) w = (r1, w1)" by (rule prod.exhaust)
  from exec_in_tx[OF tx e] show ?thesis
  proof
    assume "\<exists>v. same_tables w v \<and> select_one tab P v = (r1, w1)"
    then obtain v where "same_tables w v" "select_one tab P v = (r1, w1)" by blast
    then show ?thesis using run e one_row_Inr[of "filter P (tab (dbs v))"]
      by (auto simp: found_def select_one_def same_tables_def split: sum.splits if_splits)
  next
    assume "same_tables w w1 \<and> (\<exists>e. r1 = Inl e)"
    then show ?thesis using run e by (auto simp: found_def split: if_splits)
  qed
qed

lemma activity_in_tx:
  assumes tx: "in_tx w"
    and run: "found (activity_entry x) (GetActivityEventForChangelogEntry uid i st w) = (r, w')"
  shows "same_tables w w' \<and> (\<forall>e. r = Inr (Some e) \<longrightarrow>
    (\<exists>ev b c. ev \<in> set (activity_events (dbs w)) \<and> ae_user_id ev = uid \<and> e = activity_entry x (ev, b, c)))"
proof -
  obtain r1 w1 where e: "GetActivityEventForChangelogEntry uid i st w = (r1, w1)" by (rule prod.exhaust)
  from exec_in_tx[OF tx e[unfolded GetActivityEventForChangelogEntry_def]] show ?thesis
  proof (elim disjE exE conjE)
    fix v assume v: "same_tables w v"
      and q: "(case select_one activity_events
              (\<lambda>e. ae_user_id e = uid \<and> ae_event_id e = i \<and> Some (ae_started_at e) = st) v of
         (Inl err, w) \<Rightarrow> (Inl err, w)
       | (Inr e, w) \<Rightarrow>
           (Inr (e,
             map_option app_bundle_id (find (\<lambda>a. Some (app_id a) = ae_app_id e) (apps (dbs w))),
             map_option cat_name (find (\<lambda>c. Some (cat_id c) = ae_category_id e) (categories (dbs w)))),
            w)) = (r1, w1)"
    let ?rows = "filter (\<lambda>e. ae_user_id e = uid \<and> ae_event_id e = i \<and> Some (ae_started_at e) = st) (activity_events (dbs v))"
    have "w1 = v \<and> (\<forall>ev b c. r1 = Inr (ev, b, c) \<longrightarrow> ev \<in> set (activity_events (dbs v)) \<and> ae_user_id ev = uid)"
    proof (cases "one_row ?rows")
      case (Inl err)
      then show ?thesis using q by (auto simp: select_one_def)
    next
      case (Inr ev)
      have "ev \<in> set (activity_events (dbs v)) \<and> ae_user_id ev = uid"
        using one_row_Inr[OF Inr] by simp
      then show ?thesis using q Inr by (auto simp: select_one_def)
    qed
    then show ?thesis using run e v
      by (cases r1) (auto simp: found_def same_tables_def split: if_splits)
  next
    fix err assume "same_tables w w1" "r1 = Inl err"
    then show ?thesis using run e by (auto simp: found_def split: if_splits)
  qed
qed

lemma resolve_in_tx:
  assumes tx: "in_tx w" and run: "resolveChangelogEntry x uid row w = (r, w')"
  shows "same_tables w w' \<and> (\<forall>e. r = Inr (Some e) \<longrightarrow> e \<in> user_entries x uid (dbs w))"
proof -
  let ?t = "cl_entity_type row"
  consider "?t = ''activity_events''" | "?t = ''focus_sessions''" | "?t = ''projects''" | "?t = ''tags''"
    | "?t = ''user_app_settings''" | "?t = ''categories''" | "?t \<notin> set pullEntityTypes"
    by (auto simp: pullEntityTypes_def)
  then show ?thesis
  proof cases
    case 1
    then have "found (activity_entry x) (GetActivityEventForChangelogEntry uid (cl_entity_id row)
        (cl_event_started_at row) w) = (r, w')"
      using run by (simp add: resolveChangelogEntry_def Let_def)
    from activity_in_tx[OF tx this] show ?thesis unfolding user_entries_def by blast
  next
    case 2
    then have "found (focus_entry x) (GetFocusSessionForChangelogEntry uid (cl_entity_id row) w) = (r, w')"
      using run by (simp add: resolveChangelogEntry_def Let_def)
    from found_in_tx[OF tx this[unfolded GetFocusSessionForChangelogEntry_def]] show ?thesis
      unfolding user_entries_def by blast
  next
    case 3
    then have "found (project_entry x) (GetProjectForChangelogEntry uid (cl_entity_id row) w) = (r, w')"
      using run by (simp add: resolveChangelogEntry_def Let_def)
    from found_in_tx[OF tx this[unfolded GetProjectForChangelogEntry_def]] show ?thesis
      unfolding user_entries_def by blast
  next
    case 4
    then have "found (tag_entry x) (GetTagForChangelogEntry uid (cl_entity_id row) w) = (r, w')"
      using run by (simp add: resolveChangelogEntry_def Let_def)
    from found_in_tx[OF tx this[unfolded GetTagForChangelogEntry_def]] show ?thesis
      unfolding user_entries_def by blast
  next
    case 5
    then have "found (setting_entry x) (GetUserAppSettingForChangelogEntry uid (cl_entity_id row) w) = (r, w')"
      using run by (simp add: resolveChangelogEntry_def Let_def)
    from found_in_tx[OF tx this[unfolded GetUserAppSettingForChangelogEntry_def]] show ?thesis
      unfolding user_entries_def by blast
  next
    case 6
    then have "found (category_entry x) (GetCategoryForChangelogEntry (cl_entity_id row) uid w) = (r, w')"
      using run by (simp add: resolveChangelogEntry_def Let_def)
    from found_in_tx[OF tx this[unfolded GetCategoryForChangelogEntry_def]] show ?thesis
      unfolding user_entries_def by blast
  next
    case 7
    then show ?thesis
      using run by (auto simp: resolveChangelogEntry_def pullEntityTypes_def same_tables_def)
  qed
qed

lemma resolveRows_in_tx:
  "in_tx w \<Longrightarrow> ran byKey \<subseteq> user_entries x uid (dbs w)
   \<Longrightarrow> resolveRows x uid rows ordered byKey w = (r, w')
   \<Longrightarrow> same_tables w w' \<and> (\<forall>ks m. r = Inr (ks, m) \<longrightarrow> ran m \<subseteq> user_entries x uid (dbs w))"
proof (induction rows arbitrary: ordered byKey w)
  case Nil
  then show ?case by (auto simp: same_tables_def)
next
  case (Cons row rows)
  obtain o1 w1 where one: "resolveChangelogEntry x uid row w = (o1, w1)" by (rule prod.exhaust)
  note s = resolve_in_tx[OF Cons.prems(1) one]
  let ?k = "entry_key x row" and ?o = "if byKey (entry_key x row) = None then ordered @ [entry_key x row] else ordered"
  show ?case
  proof (cases o1)
    case (Inl err)
    then show ?thesis using Cons.prems(3) one s by (auto simp: Let_def)
  next
    case (Inr oe)
    have run: "resolveRows x uid rows ?o (byKey(?k := oe)) w1 = (r, w')"
      using Cons.prems(3) one Inr by (cases oe) (simp_all add: Let_def)
    have "ran (byKey(?k := oe)) \<subseteq> user_entries x uid (dbs w1)"
      using Cons.prems(2) s Inr by (auto simp: ran_def same_tables_def split: if_splits)
    from Cons.IH[OF _ this run] show ?thesis using s Cons.prems(1) by (simp add: same_tables_def)
  qed
qed

lemma collect_shows:
  assumes "collect_changes ks m t = Some cs" and "d \<in> set (Upserts cs) \<union> set (Tombstones cs)"
  shows "\<exists>e\<in>ran m. upsert e = Some d \<or> tombstone e = Some d"
proof -
  let ?es = "filter (\<lambda>e. entityType e = t) (List.map_filter m ks)"
  have cs: "cs = \<lparr>Upserts = List.map_filter upsert (filter (\<lambda>e. tombstone e = None) ?es),
              Tombstones = List.map_filter tombstone ?es\<rparr>"
    using assms(1) by (simp add: collect_changes_def Let_def split: if_splits)
  have es: "e \<in> ran m" if "e \<in> set ?es" for e
    using that by (auto simp: List.map_filter_def ran_def)
  show ?thesis
    using assms(2) es unfolding cs
    by (force simp: List.map_filter_def)
qed

text \<open>C12: tenant isolation.  Whatever other sessions do and whichever statements fail, every
  object a pull answers with shows a row of the authenticated user, or a system category.\<close>

theorem pull_shows_only_own:
  assumes "parseUUID x userID = Inr uid" and "pull x userID cur n w = (Inr resp, w')"
    and "Changes resp t = Some cs" and "d \<in> set (Upserts cs) \<union> set (Tombstones cs)"
  shows "\<exists>e\<in>user_entries x uid (dbs w'). upsert e = Some d \<or> tombstone e = Some d"
proof -
  from assms(1,2) obtain c w1 w2 where
    b: "begin_tx w = (Inr (), w1)" and
    snap: "pull_snapshot x uid c (clamp_limit defaultPullLimit maxPullLimit n) w1 = (Inr resp, w2)"
    and w': "w' = rollback_to w1 w2"
    by (auto simp: pull_def runInPullSnapshot_def split: sum.splits prod.splits)
  have tx: "in_tx w1"
    using b by (auto simp: begin_tx_def exec_def Let_def split: list.splits hazard.splits if_splits)
  have horizon_tx: "same_tables v v'" if "in_tx v" "GetChangelogHorizon v = (r, v')" for v v' r
    using exec_in_tx[OF that(1) that(2)[unfolded GetChangelogHorizon_def]] by (auto simp: same_tables_def)
  have page_tx: "same_tables v v'" if "in_tx v" "ListChangelogPage uid c l v = (r, v')" for v v' r l
    using exec_in_tx[OF that(1) that(2)[unfolded ListChangelogPage_def]] by (auto simp: same_tables_def)
  from snap obtain v v2 rows kept nxt hm ks m where
    v: "v = w1 \<or> (\<exists>h. GetChangelogHorizon w1 = (Inr h, v))" and
    pg: "ListChangelogPage uid c (LimitParam (clamp_limit defaultPullLimit maxPullLimit n + 1)) v = (Inr rows, v2)" and
    rs: "resolveRows x uid kept [] Map.empty v2 = (Inr (ks, m), w2)" and
    ch: "Changes resp = collect_changes ks m"
    by (auto simp: pull_snapshot_def split: sum.splits prod.splits if_splits bool.splits) blast+
  have "same_tables w1 v" using v horizon_tx[OF tx] by (auto simp: same_tables_def)
  then have st: "same_tables w1 v2" using page_tx[OF _ pg] tx by (simp add: same_tables_def)
  then have "ran m \<subseteq> user_entries x uid (dbs w1)"
    using resolveRows_in_tx[OF _ _ rs] tx by (simp add: same_tables_def)
  moreover have "dbs w' = dbs w1" by (simp add: w' rollback_to_def)
  ultimately show ?thesis using collect_shows[OF assms(3)[unfolded ch] assms(4)] by auto
qed


section \<open>Worked instances\<close>

definition sample_tag :: "uuid \<Rightarrow> uuid \<Rightarrow> tag" where
  "sample_tag i u =
     \<lparr>tag_id = i, tag_user_id = u, tag_name = ''t'', tag_updated_at = 0, tag_deleted_at = None,
      tag_server_seq = 1\<rparr>"

definition sample_change :: "uuid \<Rightarrow> string \<Rightarrow> uuid \<Rightarrow> time option \<Rightarrow> nat \<Rightarrow> sync_changelog" where
  "sample_change u t i st k =
     \<lparr>cl_changelog_id = int k, cl_user_id = Some u, cl_entity_type = t, cl_entity_id = i,
      cl_event_started_at = st, cl_server_seq = int k, cl_created_at = 0, cl_xid8 = k\<rparr>"

definition feed_db :: db where
  "feed_db =
     sample_db\<lparr>tags := [sample_tag 21 1, sample_tag 22 1, sample_tag 23 2],
               changelog := [sample_change 1 ''tags'' 21 None 1, sample_change 1 ''tags'' 22 None 2,
                             sample_change 2 ''tags'' 23 None 3]\<rparr>"

definition feed_session :: world where
  "feed_session = (session feed_db)\<lparr>next_xid := 10\<rparr>"

lemma sample_uuid_inj: "inj (uuid_string sample_ext)"
proof (rule injI)
  fix a b :: uuid assume "uuid_string sample_ext a = uuid_string sample_ext b"
  then have "parse_digits 0 (format_nat (unat a)) = parse_digits 0 (format_nat (unat b))"
    by (simp add: sample_ext_def)
  then show "a = b" by (simp add: word_unat_eq_iff)
qed

lemma feed_session_facts:
  "quiet feed_session" "\<not> in_tx feed_session" "hazards feed_session = []" "dbs feed_session = feed_db"
  by (simp_all add: feed_session_def session_def quiet_def)

lemma feed_db_facts:
  "starts_unique feed_db"
  "\<forall>r\<in>set (changelog feed_db). horizon_key feed_db \<le> ckey r" "length (changelog feed_db) < 5"
  "parseUUID sample_ext ''1'' = Inr 1" "DecodePullCursor [] = Inr (PullCursor 0 0)"
  by code_simp+

lemma feed_db_wf: "changelog_wf feed_db"
  by (simp add: changelog_wf_def feed_db_def sample_change_def ckey_def pull_valid_def seq_valid_def
      int64_ok_def int64_min_def int64_max_def pullEntityTypes_def)

lemma pull_delivers_everything_witness:
  "\<exists>resps. pull_all sample_ext ''1'' 1 5 [] feed_session = Some resps \<and>
     (\<exists>resp\<in>set resps. delivered resp (tag_entry sample_ext (sample_tag 22 1)))"
proof -
  have "\<exists>resps. pull_all sample_ext ''1'' 1 5 [] feed_session = Some resps \<and>
      (\<forall>r\<in>set (changelog (dbs feed_session)). visible 1 feed_session r \<and> PullCursor 0 0 < ckey r \<longrightarrow>
         (\<forall>e. entity_now sample_ext 1 feed_session r = Some e \<longrightarrow> (\<exists>resp\<in>set resps. delivered resp e)))"
    by (rule pull_delivers_everything)
      (use feed_session_facts feed_db_facts feed_db_wf sample_uuid_inj in \<open>simp_all add: IsZero_def\<close>)
  moreover have "sample_change 1 ''tags'' 22 None 2 \<in> set (changelog (dbs feed_session))"
    by (simp add: feed_session_facts feed_db_def)
  moreover have "visible 1 feed_session (sample_change 1 ''tags'' 22 None 2)"
    "PullCursor 0 0 < ckey (sample_change 1 ''tags'' 22 None 2)"
    by code_simp+
  moreover have "entity_now sample_ext 1 feed_session (sample_change 1 ''tags'' 22 None 2)
      = Some (tag_entry sample_ext (sample_tag 22 1))"
    by code_simp
  ultimately show ?thesis by blast
qed

lemma pull_shows_only_own_witness:
  "\<exists>resp w'. pull sample_ext ''1'' [] 10 feed_session = (Inr resp, w') \<and>
     (\<exists>e\<in>user_entries sample_ext 1 (dbs w'). \<exists>d. upsert e = Some d \<or> tombstone e = Some d)"
proof -
  have "map_sum id (\<lambda>resp. map_option (\<lambda>cs. length (Upserts cs)) (Changes resp ''tags''))
      (fst (pull sample_ext ''1'' [] 10 feed_session)) = Inr (Some 2)"
    by code_simp
  from run_Inr[OF this] obtain resp w' cs where
    run: "pull sample_ext ''1'' [] 10 feed_session = (Inr resp, w')"
    and cs: "Changes resp ''tags'' = Some cs" "length (Upserts cs) = 2"
    by (auto simp: map_option_case split: option.splits)
  then obtain d where d: "d \<in> set (Upserts cs) \<union> set (Tombstones cs)" by (cases "Upserts cs") auto
  have "parseUUID sample_ext ''1'' = Inr 1" by (rule feed_db_facts)
  from pull_shows_only_own[OF this run cs(1) d] show ?thesis using run by blast
qed

definition twin_event :: "time \<Rightarrow> int \<Rightarrow> activity_event" where
  "twin_event st seq =
     \<lparr>ae_event_id = 7, ae_user_id = 1, ae_device_id = 11, ae_started_at = st,
      ae_ended_at = st + 10 ^ 9, ae_duration_s = 1, ae_type = ''manual'', ae_source = ''desktop'',
      ae_precision = ''exact'', ae_app_id = None, ae_raw_bundle_id = None, ae_window_title = None,
      ae_url = None, ae_category_id = None, ae_project_id = None, ae_deleted = False,
      ae_inserted_at = 0, ae_server_seq = seq\<rparr>"

definition twin_session :: world where
  "twin_session =
     (session (sample_db\<lparr>activity_events := [twin_event 0 1, twin_event (5 * 10 ^ 9) 2],
        changelog := [sample_change 1 ''activity_events'' 7 (Some 0) 1,
                      sample_change 1 ''activity_events'' 7 (Some (5 * 10 ^ 9)) 2]\<rparr>))\<lparr>next_xid := 10\<rparr>"

section \<open>Two events under one id\<close>

definition shown_event :: "ext \<Rightarrow> db \<Rightarrow> activity_event \<Rightarrow> changelogEntry" where
  "shown_event x d e =
     activity_entry x (e,
       map_option app_bundle_id (find (\<lambda>a. Some (app_id a) = ae_app_id e) (apps d)),
       map_option cat_name (find (\<lambda>c. Some (cat_id c) = ae_category_id e) (categories d)))"

lemma filter_unique:
  assumes "distinct (map f xs)" and "y \<in> set xs" and "P y" and "\<And>z. P z \<Longrightarrow> f z = f y"
  shows "filter P xs = [y]"
proof -
  have "filter P xs = filter (\<lambda>z. z = y) xs"
    by (rule filter_cong[OF refl]) (use assms in \<open>auto dest: distinct_map[THEN iffD1] inj_onD\<close>)
  also have "\<dots> = [y]"
    using distinct_map[THEN iffD1, OF assms(1), THEN conjunct1] assms(2) by (induction xs) (auto simp: filter_empty_conv)
  finally show ?thesis .
qed

lemma found_row:
  assumes "hazards w = []" and "distinct (map f (tab (dbs w)))" and "y \<in> set (tab (dbs w))" "P y" and "\<And>z. P z \<Longrightarrow> f z = f y"
  shows "exec (select_one tab P) w = (Inr y, w)"
  using assms(1) filter_unique[of f "tab (dbs w)" y P, OF assms(2-5)] by (simp add: select_one_def one_row_def)

lemma event_now:
  assumes h: "hazards w = []" and keys: "distinct (map event_key (activity_events (dbs w)))"
    and e: "e \<in> set (activity_events (dbs w))" "ae_user_id e = uid"
    and r: "cl_entity_type r = ''activity_events''" "cl_entity_id r = ae_event_id e" "cl_event_started_at r = Some (ae_started_at e)"
  shows "entity_now x uid w r = Some (shown_event x (dbs w) e)"
  using found_row[of w event_key activity_events e
      "\<lambda>e'. ae_user_id e' = uid \<and> ae_event_id e' = ae_event_id e \<and> Some (ae_started_at e') = Some (ae_started_at e)", OF h keys e(1)] e(2) r h
  by (simp add: entity_now_def resolveChangelogEntry_def changelog_lookups found_def event_key_def shown_event_def)

lemma latest_other: "\<forall>r\<in>set rows. entry_key x r \<noteq> k \<Longrightarrow> latest x uid w rows m k = m k"
  by (induction rows arbitrary: m) auto

lemma latest_last:
  assumes "r \<in> set rows" and "sorted_wrt (\<lambda>a b. ckey a < ckey b) rows"
    and "\<forall>s\<in>set rows. entry_key x s = entry_key x r \<longrightarrow> ckey s \<le> ckey r"
  shows "latest x uid w rows m (entry_key x r) = entity_now x uid w r"
proof -
  obtain xs ys where rows: "rows = xs @ r # ys" using assms(1) by (meson split_list)
  have "entry_key x s \<noteq> entry_key x r" if "s \<in> set ys" for s
    using assms(2,3) that unfolding rows by (force simp: sorted_wrt_append)
  then have "\<forall>s\<in>set ys. entry_key x s \<noteq> entry_key x r" by blast
  then show ?thesis unfolding rows by (simp add: latest_def[of _ _ _ "xs @ r # ys"] latest_def[symmetric] latest_other)
qed

text \<open>An event is shown under the id of its row.\<close>

lemma shown_id:
  assumes "hazards w = []" and "cl_entity_type r \<in> set pullEntityTypes" and "entity_now x uid w r = Some e'"
    and "entityType e' = ''activity_events''" and "inj (uuid_string x)"
    and "upsert e' = upsert (shown_event x d e) \<and> upsert e' \<noteq> None \<or> tombstone e' = tombstone (shown_event x d e) \<and> tombstone e' \<noteq> None"
  shows "cl_entity_type r = ''activity_events'' \<and> cl_entity_id r = ae_event_id e"
proof -
  have t: "cl_entity_type r = ''activity_events''" using entity_now_entry[OF assms(1-3)] assms(4) by simp
  then have "found (activity_entry x) (GetActivityEventForChangelogEntry uid (cl_entity_id r) (cl_event_started_at r) w) = (Inr (Some e'), w)"
    using resolve_quiet[OF assms(1,2), of x uid] assms(3) by (simp add: resolveChangelogEntry_def Let_def)
  then obtain ev b c where "ae_event_id ev = cl_entity_id r" "e' = activity_entry x (ev, b, c)"
    using assms(1) by (auto simp: found_def GetActivityEventForChangelogEntry_def split: prod.splits sum.splits if_splits dest!: select_one_Inr)
  then show ?thesis using assms(5,6) t
    by (auto simp: shown_event_def activity_entry_def upsert_entry_def tombstone_entry_def inj_eq split: if_splits)
qed

lemma delivered_collected:
  assumes "delivered resp e" and "Changes resp = collect_changes ks byKey"
  shows "\<exists>k e'. byKey k = Some e' \<and> entityType e' = entityType e \<and>
    (upsert e' = upsert e \<and> upsert e' \<noteq> None \<or> tombstone e' = tombstone e \<and> tombstone e' \<noteq> None)"
  using assms
  by (fastforce simp: delivered_def collect_changes_def Let_def List.map_filter_def split: option.splits if_splits)

lemma last_page:
  assumes q: "quiet w" "\<not> in_tx w" and uid: "parseUUID x userID = Inr uid" and wf: "changelog_wf (dbs w)"
    and c: "DecodePullCursor cur = Inr c" "servable c (dbs w)" and run: "pull x userID cur n w = (Inr resp, w')" "\<not> HasMore resp"
  shows "\<exists>ks. Changes resp = collect_changes ks (latest x uid w (filter (\<lambda>r. c < ckey r) (feed_rows (uid, w))) Map.empty) \<and>
    (\<forall>r\<in>set (feed_rows (uid, w)). c < ckey r \<longrightarrow> entry_key x r \<in> set ks)"
proof -
  let ?l = "clamp_limit defaultPullLimit maxPullLimit n"
  let ?page = "changelog_page uid c (LimitParam (?l + 1)) w"
  obtain kept nxt hm where cut: "page_cut ckey ?l c ?page = (kept, nxt, hm)" by (metis prod_cases3)
  obtain ks where ks: "pull x userID cur n w
      = (Inr \<lparr>Changes = collect_changes ks (latest x uid w kept Map.empty), NextCursor = EncodePullCursor nxt, HasMore = hm\<rparr>, w)"
    "\<forall>r\<in>set kept. entry_key x r \<in> set ks"
    using pull_quiet[OF q uid c(1) wf c(2) cut] by blast
  have "\<not> hm" using ks(1) run by simp
  then have short: "kept = ?page" "int (length ?page) \<le> ?l" using cut by (auto simp: page_cut_def Let_def split: if_splits)
  have "LimitParam (?l + 1) = ?l + 1" using pull_limit[of n] by (simp add: LimitParam_def wrap32_def)
  then have page: "?page = take (nat (?l + 1)) (filter (\<lambda>r. c < ckey r) (feed_rows (uid, w)))"
    by (simp add: changelog_page_def feed_rows_def sort_filter_commute)
  then have "length (filter (\<lambda>r. c < ckey r) (feed_rows (uid, w))) \<le> nat (?l + 1)"
    using short(2) pull_limit(1)[of n] by (simp add: min_def split: if_splits)
  then have "kept = filter (\<lambda>r. c < ckey r) (feed_rows (uid, w))" using short(1) page by simp
  then show ?thesis using ks run by (intro exI[of _ ks]) auto
qed

text \<open>C34: two events of one user under one id, with different starts, in one page: the response
  keys them alike, and the one that was logged first is not shown.  The page is the last one, so the
  client stops without it.\<close>

theorem pull_hides_events_with_same_id:
  assumes q: "quiet w" "\<not> in_tx w" and uid: "parseUUID x userID = Inr uid" and inj: "inj (uuid_string x)"
    and wf: "changelog_wf (dbs w)" and keys: "distinct (map event_key (activity_events (dbs w)))"
    and c: "DecodePullCursor cur = Inr c" "servable c (dbs w)"
    and run: "pull x userID cur n w = (Inr resp, w')" "\<not> HasMore resp"
    and e1: "e1 \<in> set (activity_events (dbs w))" "ae_user_id e1 = uid"
    and e2: "e2 \<in> set (activity_events (dbs w))" "ae_user_id e2 = uid" "ae_event_id e2 = ae_event_id e1"
    and shown: "shown_event x (dbs w) e1 \<noteq> shown_event x (dbs w) e2"
    and r2: "r2 \<in> set (feed_rows (uid, w))" "c < ckey r2" "cl_entity_type r2 = ''activity_events''"
      "cl_entity_id r2 = ae_event_id e2" "cl_event_started_at r2 = Some (ae_started_at e2)"
    and later: "\<forall>r\<in>set (feed_rows (uid, w)). cl_entity_type r = ''activity_events'' \<and> cl_entity_id r = ae_event_id e2 \<longrightarrow> ckey r \<le> ckey r2"
  shows "delivered resp (shown_event x (dbs w) e2) \<and> \<not> delivered resp (shown_event x (dbs w) e1)"
proof -
  let ?kept = "filter (\<lambda>r. c < ckey r) (feed_rows (uid, w))" and ?s1 = "shown_event x (dbs w) e1" and ?s2 = "shown_event x (dbs w) e2"
  obtain ks where ks: "Changes resp = collect_changes ks (latest x uid w ?kept Map.empty)" "entry_key x r2 \<in> set ks"
    using last_page[OF q uid wf c run] r2(1,2) by blast
  have h: "hazards w = []" using q by (simp add: quiet_def)
  have types: "cl_entity_type r \<in> set pullEntityTypes" if "r \<in> set ?kept" for r
    using that wf by (auto simp: feed_rows_def changelog_wf_def)
  have r2k: "r2 \<in> set ?kept" using r2(1,2) by simp
  have sorted: "sorted_wrt (\<lambda>a b. ckey a < ckey b) ?kept"
    using pull_feed.after_sorted[of "(uid, w)" c] wf by (simp add: feed_wf_def sorted_wrt_map)
  have "\<forall>s\<in>set ?kept. entry_key x s = entry_key x r2 \<longrightarrow> ckey s \<le> ckey r2"
    using later entry_key_inj[OF inj types types[OF r2k]] r2(3,4) by auto
  from latest_last[OF r2k sorted this] have now: "latest x uid w ?kept Map.empty (entry_key x r2) = Some ?s2"
    using event_now[OF h keys e2(1,2) r2(3,4,5)] by simp
  have "delivered resp ?s2"
    by (rule collect_delivers[OF now ks(2) _ _ ks(1)])
      (simp_all add: shown_event_def activity_entry_def upsert_entry_def tombstone_entry_def pullEntityTypes_def)
  moreover have "\<not> delivered resp ?s1"
  proof
    assume "delivered resp ?s1"
    from delivered_collected[OF this ks(1)] obtain k e' where e': "latest x uid w ?kept Map.empty k = Some e'"
      "entityType e' = entityType ?s1"
      "upsert e' = upsert ?s1 \<and> upsert e' \<noteq> None \<or> tombstone e' = tombstone ?s1 \<and> tombstone e' \<noteq> None" by blast
    obtain r where r: "r \<in> set ?kept" "entry_key x r = k" "entity_now x uid w r = Some e'" using latest_from[OF e'(1)] by auto
    have t1: "entityType ?s1 = ''activity_events''"
      by (simp add: shown_event_def activity_entry_def upsert_entry_def tombstone_entry_def)
    have "cl_entity_type r = ''activity_events'' \<and> cl_entity_id r = ae_event_id e1"
      by (rule shown_id[OF h types[OF r(1)] r(3) _ inj e'(3)]) (simp add: e'(2) t1)
    then have "k = entry_key x r2" using r(2) r2(3,4) e2(3) by (simp add: entry_key_def)
    then have "e' = ?s2" using e'(1) now by simp
    then have "?s1 = ?s2" using e'(3) by (auto simp: shown_event_def activity_entry_def upsert_entry_def tombstone_entry_def split: if_splits)
    then show False using shown by simp
  qed
  ultimately show ?thesis by simp
qed

lemma twin_facts:
  "(case pull sample_ext ''1'' [] 10 twin_session of (Inr resp, w) \<Rightarrow> \<not> HasMore resp | _ \<Rightarrow> False)"
  "feed_rows (1, twin_session) = changelog (dbs twin_session)"
  "shown_event sample_ext (dbs twin_session) (twin_event 0 1) \<noteq> shown_event sample_ext (dbs twin_session) (twin_event (5 * 10 ^ 9) 2)"
  by code_simp+

lemma pull_hides_events_with_same_id_witness:
  "\<exists>resp w'. pull sample_ext ''1'' [] 10 twin_session = (Inr resp, w') \<and> \<not> HasMore resp \<and>
     delivered resp (shown_event sample_ext (dbs twin_session) (twin_event (5 * 10 ^ 9) 2)) \<and>
     \<not> delivered resp (shown_event sample_ext (dbs twin_session) (twin_event 0 1))"
proof -
  obtain resp w' where run: "pull sample_ext ''1'' [] 10 twin_session = (Inr resp, w')" "\<not> HasMore resp"
    using twin_facts(1) by (auto split: prod.splits sum.splits)
  let ?r2 = "sample_change 1 ''activity_events'' 7 (Some (5 * 10 ^ 9)) 2"
  have t: "quiet twin_session" "\<not> in_tx twin_session"
    "activity_events (dbs twin_session) = [twin_event 0 1, twin_event (5 * 10 ^ 9) 2]"
    "changelog (dbs twin_session) = [sample_change 1 ''activity_events'' 7 (Some 0) 1, ?r2]"
    by (simp_all add: twin_session_def session_def quiet_def)
  have wf: "changelog_wf (dbs twin_session)"
    by (simp add: changelog_wf_def t(4) sample_change_def ckey_def pull_valid_def seq_valid_def pullEntityTypes_def int64_ok_def int64_min_def int64_max_def)
  have "delivered resp (shown_event sample_ext (dbs twin_session) (twin_event (5 * 10 ^ 9) 2)) \<and>
     \<not> delivered resp (shown_event sample_ext (dbs twin_session) (twin_event 0 1))"
    by (rule pull_hides_events_with_same_id[where c = "PullCursor 0 0" and ?r2.0 = ?r2, OF t(1,2) parse_one sample_uuid_inj wf _ _ _ run
          _ _ _ _ _ twin_facts(3)])
      (simp_all add: t twin_facts(2) twin_event_def event_key_def DecodePullCursor_def servable_def IsZero_def sample_change_def ckey_def
        pull_cursor_less pull_cursor_less_eq)
  then show ?thesis using run by blast
qed

end
