(* ===== verification/Retention.thy ===== *)
theory Retention
  imports PullProps
begin

text \<open>
  Age-based retention of the changelog: \<^verbatim>\<open>internal/sync/retention.go\<close> with
  \<^verbatim>\<open>storedb/sync_retention.sql.go\<close> (migration 29).  A tick selects a batch of
  old rows, deletes it and advances the horizon in one transaction; the pull refuses the cursors
  behind the horizon.
\<close>

section \<open>The queries\<close>

text \<open>A negative \<^verbatim>\<open>LIMIT\<close> is an error of the statement.\<close>

definition SelectChangelogPruneBatch :: "time \<Rightarrow> int \<Rightarrow> world \<Rightarrow> (db_error + sync_changelog list) \<times> world" where
  "SelectChangelogPruneBatch cutoff batchLimit =
     exec (\<lambda>w.
       if batchLimit < 0 then (Inl (PgError ''2201W'' ''''), w)
       else (Inr (take (nat batchLimit)
              (sort_key cl_changelog_id (filter (\<lambda>r. cl_created_at r < pg_ts cutoff) (changelog (dbs w))))), w))"

definition DeleteChangelogRows :: "int list \<Rightarrow> world \<Rightarrow> (db_error + int) \<times> world" where
  "DeleteChangelogRows ids =
     exec (\<lambda>w.
       let hit = (\<lambda>r. cl_changelog_id r \<in> set ids); d = dbs w in
       (Inr (int (length (filter hit (changelog d)))),
        w\<lparr>dbs := d\<lparr>changelog := filter (\<lambda>r. \<not> hit r) (changelog d)\<rparr>\<rparr>))"

definition AdvanceChangelogHorizon :: "nat \<Rightarrow> int \<Rightarrow> world \<Rightarrow> (db_error + sync_changelog_horizon) \<times> world" where
  "AdvanceChangelogHorizon xid8 serverSeq =
     exec (\<lambda>w.
       let d = dbs w;
           h = \<lparr>hz_xid8 = max (hz_xid8 (horizon d)) xid8,
                hz_server_seq = max (hz_server_seq (horizon d)) serverSeq\<rparr> in
       (Inr h, w\<lparr>dbs := d\<lparr>horizon := h\<rparr>\<rparr>))"

section \<open>The pruner\<close>

datatype prune_error = Misconfigured string | Store db_error

text \<open>The greatest transaction and the greatest sequence number of the batch, each on its own.\<close>

fun batch_max :: "sync_changelog list \<Rightarrow> nat option \<Rightarrow> int \<Rightarrow> nat option \<times> int" where
  "batch_max [] maxXid8 maxServerSeq = (maxXid8, maxServerSeq)"
| "batch_max (v # vs) maxXid8 maxServerSeq =
     batch_max vs
       (case maxXid8 of None \<Rightarrow> Some (cl_xid8 v) | Some m \<Rightarrow> if m < cl_xid8 v then Some (cl_xid8 v) else Some m)
       (if maxServerSeq < cl_server_seq v then cl_server_seq v else maxServerSeq)"

text \<open>
  The body of the transaction, and the transaction around it: committed, or rolled back to the
  tables it began with.  The row count is 0 when nothing is due.
\<close>

definition prune_body :: "time \<Rightarrow> int \<Rightarrow> world \<Rightarrow> (db_error + int) \<times> world" where
  "prune_body cutoff batchSize w =
     (case SelectChangelogPruneBatch cutoff (wrap32 batchSize) w of
        (Inl e, w) \<Rightarrow> (Inl e, w)
      | (Inr victims, w) \<Rightarrow>
          if victims = [] then
            (case commit_tx w of (Inl e, w) \<Rightarrow> (Inl e, w) | (Inr _, w) \<Rightarrow> (Inr 0, w))
          else
            (case batch_max victims None 0 of
               (maxXid8, maxServerSeq) \<Rightarrow>
            (case DeleteChangelogRows (map cl_changelog_id victims) w of
               (Inl e, w) \<Rightarrow> (Inl e, w)
             | (Inr deleted, w) \<Rightarrow>
            (case AdvanceChangelogHorizon (case maxXid8 of None \<Rightarrow> 0 | Some m \<Rightarrow> m) maxServerSeq w of
               (Inl e, w) \<Rightarrow> (Inl e, w)
             | (Inr _, w) \<Rightarrow>
                 (case commit_tx w of (Inl e, w) \<Rightarrow> (Inl e, w) | (Inr _, w) \<Rightarrow> (Inr deleted, w))))))"

definition PruneOnce :: "duration \<Rightarrow> int \<Rightarrow> time \<Rightarrow> world \<Rightarrow> (prune_error + int) \<times> world" where
  "PruneOnce maxAge batchSize now w =
     (if maxAge \<le> 0 then (Inl (Misconfigured ''MaxAge must be positive''), w)
      else if batchSize \<le> 0 then (Inl (Misconfigured ''BatchSize must be positive''), w)
      else case begin_tx w of
        (Inl e, w) \<Rightarrow> (Inl (Store e), w)
      | (Inr _, w1) \<Rightarrow>
          (case prune_body (now - maxAge) batchSize w1 of
             (Inl e, w2) \<Rightarrow> (Inl (Store e), rollback_to w1 w2)
           | (Inr n, w2) \<Rightarrow> (Inr n, w2)))"

section \<open>One committed tick\<close>

text \<open>
  What a tick does to the tables when it commits: it removes exactly a batch of old rows and the
  horizon covers them.
\<close>

definition pruned :: "time \<Rightarrow> int \<Rightarrow> sync_changelog list \<Rightarrow> db \<Rightarrow> db \<Rightarrow> bool" where
  "pruned cutoff batchSize victims d d' \<longleftrightarrow>
     (\<exists>h. d' = d\<lparr>changelog := filter (\<lambda>r. cl_changelog_id r \<notin> cl_changelog_id ` set victims) (changelog d),
                 horizon := h\<rparr> \<and>
       hz_xid8 (horizon d) \<le> hz_xid8 h \<and> hz_server_seq (horizon d) \<le> hz_server_seq h \<and>
       (\<forall>r\<in>set victims. cl_xid8 r \<le> hz_xid8 h \<and> cl_server_seq r \<le> hz_server_seq h)) \<and>
     set victims \<subseteq> {r \<in> set (changelog d). cl_created_at r < pg_ts cutoff} \<and>
     int (length victims) \<le> batchSize"

lemma batch_max_upper:
  "batch_max vs m s = (m', s') \<Longrightarrow> s \<le> s' \<and> (\<forall>v\<in>set vs. cl_server_seq v \<le> s') \<and>
     (\<forall>k. m = Some k \<longrightarrow> (\<exists>k'. m' = Some k' \<and> k \<le> k')) \<and>
     (\<forall>v\<in>set vs. \<exists>k'. m' = Some k' \<and> cl_xid8 v \<le> k')"
proof (induction vs arbitrary: m s)
  case Nil
  then show ?case by simp
next
  case (Cons v vs)
  from Cons.IH[OF Cons.prems[simplified]] show ?case
    by (cases m) (force split: if_splits)+
qed

lemma prune_body_Inr:
  assumes tx: "in_tx w" and size: "0 < batchSize" "batchSize < 2 ^ 31"
    and run: "prune_body cutoff batchSize w = (Inr n, w')"
  shows "\<exists>victims. pruned cutoff batchSize victims (dbs w) (dbs w') \<and> \<not> in_tx w' \<and>
    n = int (length (filter (\<lambda>r. cl_changelog_id r \<in> cl_changelog_id ` set victims) (changelog (dbs w))))"
proof -
  have w32: "wrap32 batchSize = batchSize" using size by (simp add: wrap32_id)
  from run obtain victims w1 where sel: "SelectChangelogPruneBatch cutoff batchSize w = (Inr victims, w1)"
    by (auto simp: prune_body_def w32 split: sum.splits prod.splits)
  have s1: "same_tables w w1" and vic: "victims = take (nat batchSize)
      (sort_key cl_changelog_id (filter (\<lambda>r. cl_created_at r < pg_ts cutoff) (changelog (dbs w))))"
    using exec_tx_Inr[OF tx sel[unfolded SelectChangelogPruneBatch_def]] size
    by (auto simp: same_tables_def split: if_splits)
  have sub: "set victims \<subseteq> {r \<in> set (changelog (dbs w)). cl_created_at r < pg_ts cutoff}"
    unfolding vic by (rule order_trans[OF set_take_subset]) auto
  have len: "int (length victims) \<le> batchSize" using size vic by simp
  show ?thesis
  proof (cases "victims = []")
    case True
    then obtain u where "commit_tx w1 = (Inr u, w')" "n = 0"
      using run sel by (auto simp: prune_body_def w32 split: sum.splits prod.splits)
    then have "dbs w' = dbs w" "\<not> in_tx w'" using commit_Inr s1 tx by (auto simp: same_tables_def)
    moreover have "pruned cutoff batchSize [] (dbs w) (dbs w)"
      using size by (auto simp: pruned_def intro!: exI[of _ "horizon (dbs w)"])
    ultimately show ?thesis using \<open>n = 0\<close> by (intro exI[of _ "[]"]) simp
  next
    case False
    obtain mx ms where mx: "batch_max victims None 0 = (mx, ms)" by (rule prod.exhaust)
    let ?x = "case mx of None \<Rightarrow> 0 | Some m \<Rightarrow> m"
    from run sel False mx obtain w2 h w3 u where
      del: "DeleteChangelogRows (map cl_changelog_id victims) w1 = (Inr n, w2)" and
      adv: "AdvanceChangelogHorizon ?x ms w2 = (Inr h, w3)" and com: "commit_tx w3 = (Inr u, w')"
      by (auto simp: prune_body_def w32 split: sum.splits prod.splits)
    have tx1: "in_tx w1" using s1 tx by (simp add: same_tables_def)
    obtain v1 where v1: "same_tables w1 v1" and d1: "w2 = v1\<lparr>dbs := (dbs v1)\<lparr>changelog :=
        filter (\<lambda>r. cl_changelog_id r \<notin> cl_changelog_id ` set victims) (changelog (dbs v1))\<rparr>\<rparr>"
      "n = int (length (filter (\<lambda>r. cl_changelog_id r \<in> cl_changelog_id ` set victims) (changelog (dbs v1))))"
      using exec_tx_Inr[OF tx1 del[unfolded DeleteChangelogRows_def]] by (auto simp: Let_def)
    have tx2: "in_tx w2" using d1 v1 tx1 by (simp add: same_tables_def)
    obtain v2 where v2: "same_tables w2 v2" and d2: "w3 = v2\<lparr>dbs := (dbs v2)\<lparr>horizon :=
        \<lparr>hz_xid8 = max (hz_xid8 (horizon (dbs v2))) ?x, hz_server_seq = max (hz_server_seq (horizon (dbs v2))) ms\<rparr>\<rparr>\<rparr>"
      using exec_tx_Inr[OF tx2 adv[unfolded AdvanceChangelogHorizon_def]] by (auto simp: Let_def)
    have tx3: "in_tx w3" using d2 v2 tx2 by (simp add: same_tables_def)
    have fin: "dbs w' = dbs w3" "\<not> in_tx w'" using commit_Inr[OF com tx3] by simp_all
    have up: "cl_xid8 r \<le> ?x \<and> cl_server_seq r \<le> ms" if "r \<in> set victims" for r
      using batch_max_upper[OF mx] that by force
    let ?h = "\<lparr>hz_xid8 = max (hz_xid8 (horizon (dbs w))) ?x, hz_server_seq = max (hz_server_seq (horizon (dbs w))) ms\<rparr>"
    have dbs: "dbs v1 = dbs w" "dbs v2 = dbs w2" using v1 v2 s1 by (simp_all add: same_tables_def)
    have d': "dbs w' = (dbs w)\<lparr>changelog := filter (\<lambda>r. cl_changelog_id r \<notin> cl_changelog_id ` set victims)
        (changelog (dbs w)), horizon := ?h\<rparr>"
      using fin(1) d2 d1(1) dbs by simp
    have "pruned cutoff batchSize victims (dbs w) (dbs w')"
      unfolding pruned_def
    proof (intro conjI exI)
      show "dbs w' = (dbs w)\<lparr>changelog := filter (\<lambda>r. cl_changelog_id r \<notin> cl_changelog_id ` set victims)
        (changelog (dbs w)), horizon := ?h\<rparr>" by (rule d')
      show "\<forall>r\<in>set victims. cl_xid8 r \<le> hz_xid8 ?h \<and> cl_server_seq r \<le> hz_server_seq ?h"
        using up by (auto intro: le_max_iff_disj[THEN iffD2])
    qed (use sub len in simp_all)
    then show ?thesis using fin(2) d1(2) dbs by auto
  qed
qed


section \<open>Properties\<close>

lemma PruneOnce_cases:
  assumes "isolated w" and "PruneOnce maxAge batchSize now w = (r, w')"
  obtains (config) m where "r = Inl (Misconfigured m)" "w' = w"
  | (failed) e where "r = Inl (Store e)" "dbs w' = dbs w"
  | (committed) n w1 where "r = Inr n" "0 < maxAge" "0 < batchSize" "in_tx w1" "dbs w1 = dbs w"
      "prune_body (now - maxAge) batchSize w1 = (Inr n, w')"
proof -
  obtain rb w1 where b: "begin_tx w = (rb, w1)" by (rule prod.exhaust)
  note bi = begin_isolated[OF assms(1) b]
  show ?thesis
    using assms(2) b bi
    by (auto simp: PruneOnce_def rollback_to_def split: if_splits sum.splits prod.splits
        intro: config failed committed)
qed

text \<open>C25: a tick is all or nothing.  It fails and leaves the tables as they were, or it removes
  exactly one batch of rows older than the cutoff, at most the batch size, reports their number,
  and leaves a horizon that has not moved back and covers them.\<close>

theorem prune_all_or_nothing:
  assumes "isolated w" and "batchSize < 2 ^ 31" and "PruneOnce maxAge batchSize now w = (r, w')"
  shows "case r of
      Inl e \<Rightarrow> dbs w' = dbs w
    | Inr n \<Rightarrow> \<exists>victims. pruned (now - maxAge) batchSize victims (dbs w) (dbs w') \<and>
        n = int (length (filter (\<lambda>r. cl_changelog_id r \<in> cl_changelog_id ` set victims) (changelog (dbs w))))"
  using assms(1,3)
proof (cases rule: PruneOnce_cases)
  case (committed n w1)
  then show ?thesis using prune_body_Inr[OF committed(4) committed(3) assms(2) committed(6)] by auto
qed simp_all

text \<open>A pull that is answered has passed the check of its cursor.\<close>

lemma horizon_isolated:
  "isolated w \<Longrightarrow> GetChangelogHorizon w = (Inr h, w') \<Longrightarrow> h = horizon (dbs w)"
  unfolding GetChangelogHorizon_def by (erule exec_isolated, assumption) auto

lemma pull_accepted:
  assumes "isolated w" and "DecodePullCursor cur = Inr c" and "pull x userID cur n w = (Inr resp, w')"
  shows "servable c (dbs w)"
proof (cases "IsZero c")
  case True
  then show ?thesis by (simp add: servable_def)
next
  case False
  from assms(2,3) obtain uid w1 w2 where b: "begin_tx w = (Inr (), w1)" and
    snap: "pull_snapshot x uid c (clamp_limit defaultPullLimit maxPullLimit n) w1 = (Inr resp, w2)"
    by (auto simp: pull_def runInPullSnapshot_def split: sum.splits prod.splits)
  have w1: "isolated w1" "dbs w1 = dbs w" using begin_isolated[OF assms(1) b] by simp_all
  from snap False obtain h v where "GetChangelogHorizon w1 = (Inr h, v)"
    "\<not> Less c (PullCursor (hz_xid8 h) (hz_server_seq h))"
    by (auto simp: pull_snapshot_def split: sum.splits prod.splits if_splits bool.splits)
  then have "\<not> Less c (PullCursor (hz_xid8 (horizon (dbs w))) (hz_server_seq (horizon (dbs w))))"
    using horizon_isolated[OF w1(1)] w1(2) by auto
  then show ?thesis by (simp add: Less_horizon servable_def)
qed

text \<open>C11: no silent gap.  After a tick, a client whose cursor is not the beginning and whose
  pull is answered has every pruned row behind its cursor: it already had it.\<close>

theorem accepted_cursor_misses_no_pruned_row:
  assumes "isolated w" and "batchSize < 2 ^ 31" and "distinct (map cl_changelog_id (changelog (dbs w)))"
    and "PruneOnce maxAge batchSize now w = (Inr k, w1)"
    and "r \<in> set (changelog (dbs w))" and "r \<notin> set (changelog (dbs w1))"
    and "isolated w2" and "horizon (dbs w2) = horizon (dbs w1)"
    and "DecodePullCursor cur = Inr c" and "\<not> IsZero c" and "pull x userID cur n w2 = (Inr resp, w3)"
  shows "ckey r \<le> c"
proof -
  obtain victims where p: "pruned (now - maxAge) batchSize victims (dbs w) (dbs w1)"
    using prune_all_or_nothing[OF assms(1,2,4)] by auto
  then have cl: "changelog (dbs w1) = filter (\<lambda>r. cl_changelog_id r \<notin> cl_changelog_id ` set victims) (changelog (dbs w))"
    and hz: "\<forall>v\<in>set victims. cl_xid8 v \<le> hz_xid8 (horizon (dbs w1)) \<and> cl_server_seq v \<le> hz_server_seq (horizon (dbs w1))"
    and sub: "set victims \<subseteq> set (changelog (dbs w))"
    by (auto simp: pruned_def)
  from assms(5,6) cl obtain v where v: "v \<in> set victims" "cl_changelog_id v = cl_changelog_id r" by auto
  then have "v = r" using assms(3,5) sub by (metis distinct_map inj_onD subsetD)
  then have "ckey r \<le> horizon_key (dbs w1)"
    using hz v by (auto simp: ckey_def horizon_key_def pull_cursor_less_eq)
  moreover have "horizon_key (dbs w1) \<le> c"
    using pull_accepted[OF assms(7,9,11)] assms(8,10) by (simp add: servable_def horizon_key_def)
  ultimately show ?thesis by simp
qed

text \<open>The retention check is exact.  Run alone, a pull answers 'cursor expired' exactly when
  its cursor is not the beginning and lies behind the horizon.\<close>

lemma cursor_expired_iff:
  assumes "quiet w" and "parseUUID x userID = Inr uid" and "DecodePullCursor cur = Inr c"
    and "changelog_wf (dbs w)" and "\<not> in_tx w"
  shows "fst (pull x userID cur n w) = Inl ErrCursorExpired \<longleftrightarrow> \<not> servable c (dbs w)"
proof
  assume "fst (pull x userID cur n w) = Inl ErrCursorExpired"
  moreover obtain kept nxt hm where "page_cut ckey (clamp_limit defaultPullLimit maxPullLimit n) c
      (changelog_page uid c (LimitParam (clamp_limit defaultPullLimit maxPullLimit n + 1)) w) = (kept, nxt, hm)"
    by (metis prod_cases3)
  ultimately show "\<not> servable c (dbs w)"
    using pull_quiet[OF assms(1,5,2,3,4)] by fastforce
next
  assume "\<not> servable c (dbs w)"
  then show "fst (pull x userID cur n w) = Inl ErrCursorExpired"
    using assms(1-3)
    by (simp add: pull_def runInPullSnapshot_def begin_tx_def quiet_def pull_snapshot_def servable_def
        GetChangelogHorizon_def Less_horizon)
qed


section \<open>Draining\<close>

definition due :: "time \<Rightarrow> db \<Rightarrow> sync_changelog list" where
  "due cutoff d = filter (\<lambda>r. cl_created_at r < pg_ts cutoff) (changelog d)"

lemma PruneOnce_quiet:
  assumes q: "quiet w" and size: "0 < maxAge" "0 < batchSize" "batchSize < 2 ^ 31"
  shows "\<exists>n w'. PruneOnce maxAge batchSize now w = (Inr n, w') \<and> quiet w' \<and>
    changelog (dbs w') = filter (\<lambda>r. cl_changelog_id r \<notin> cl_changelog_id `
      set (take (nat batchSize) (sort_key cl_changelog_id (due (now - maxAge) (dbs w))))) (changelog (dbs w))"
proof -
  let ?due = "due (now - maxAge) (dbs w)"
  let ?victims = "take (nat batchSize) (sort_key cl_changelog_id ?due)"
  have h: "hazards w = []" using q by (simp add: quiet_def)
  have w32: "wrap32 batchSize = batchSize" using size by (simp add: wrap32_id)
  have sel: "SelectChangelogPruneBatch (now - maxAge) batchSize (w\<lparr>in_tx := True\<rparr>) = (Inr ?victims, w\<lparr>in_tx := True\<rparr>)"
    using h size by (simp add: SelectChangelogPruneBatch_def due_def)
  show ?thesis
  proof (cases "?victims = []")
    case True
    then show ?thesis using sel h size w32
      by (simp add: PruneOnce_def begin_tx_def prune_body_def commit_tx_def quiet_def)
  next
    case False
    let ?cl = "filter (\<lambda>r. cl_changelog_id r \<notin> cl_changelog_id ` set ?victims) (changelog (dbs w))"
    obtain mx ms where mx: "batch_max ?victims None 0 = (mx, ms)" by (rule prod.exhaust)
    let ?hz = "\<lparr>hz_xid8 = max (hz_xid8 (horizon (dbs w))) (case mx of None \<Rightarrow> 0 | Some m \<Rightarrow> m),
        hz_server_seq = max (hz_server_seq (horizon (dbs w))) ms\<rparr>"
    have "\<exists>n. PruneOnce maxAge batchSize now w
        = (Inr n, w\<lparr>dbs := (dbs w)\<lparr>changelog := ?cl, horizon := ?hz\<rparr>, in_tx := False\<rparr>)"
      using False sel h size w32 mx
      by (simp add: PruneOnce_def begin_tx_def prune_body_def commit_tx_def DeleteChangelogRows_def
          AdvanceChangelogHorizon_def Let_def)
    then show ?thesis using h by (auto simp: quiet_def)
  qed
qed

text \<open>
  A tick without faults empties the backlog of its cutoff, or takes a whole batch off the backlog
  of every later cutoff; no backlog grows.
\<close>

lemma due_after:
  assumes "changelog d' = filter P (changelog d)"
  shows "due c d' = filter P (due c d)"
  using assms by (auto simp: due_def conj_commute intro: filter_cong)

lemma due_mono: "c \<le> c' \<Longrightarrow> set (due c d) \<subseteq> set (due c' d)"
  using pg_ts_mono[of c c'] by (auto simp: due_def)

lemma PruneOnce_progress:
  assumes "quiet w" and "0 < maxAge" "0 < batchSize" "batchSize < 2 ^ 31"
    and ids: "distinct (map cl_changelog_id (changelog (dbs w)))"
  shows "\<exists>n w'. PruneOnce maxAge batchSize now w = (Inr n, w') \<and> quiet w' \<and>
    distinct (map cl_changelog_id (changelog (dbs w'))) \<and>
    (\<forall>c. set (due c (dbs w')) \<subseteq> set (due c (dbs w))) \<and>
    (due (now - maxAge) (dbs w') = [] \<or>
     (\<forall>T\<ge>now. length (due (T - maxAge) (dbs w')) + nat batchSize \<le> length (due (T - maxAge) (dbs w))))"
proof -
  let ?due = "due (now - maxAge) (dbs w)"
  let ?victims = "take (nat batchSize) (sort_key cl_changelog_id ?due)"
  let ?P = "\<lambda>r. cl_changelog_id r \<notin> cl_changelog_id ` set ?victims"
  obtain n w' where run: "PruneOnce maxAge batchSize now w = (Inr n, w')" "quiet w'"
    and cl: "changelog (dbs w') = filter ?P (changelog (dbs w))"
    using PruneOnce_quiet[OF assms(1-4), of now] by blast
  note after = due_after[OF cl]
  have "due (now - maxAge) (dbs w') = [] \<or>
      (\<forall>T\<ge>now. length (due (T - maxAge) (dbs w')) + nat batchSize \<le> length (due (T - maxAge) (dbs w)))"
  proof (cases "length ?due \<le> nat batchSize")
    case True
    then have "set ?victims = set ?due" by simp
    then show ?thesis unfolding after by (simp add: filter_empty_conv)
  next
    case False
    show ?thesis
    proof (intro disjI2 allI impI)
      fix T assume T: "now \<le> T"
      let ?D = "due (T - maxAge) (dbs w)"
      have dD: "distinct (map cl_changelog_id ?D)" using ids by (simp add: due_def distinct_map_filter)
      have "distinct (map cl_changelog_id ?due)" using ids by (simp add: due_def distinct_map_filter)
      then have "distinct (map cl_changelog_id (sort_key cl_changelog_id ?due))"
        by (metis distinct_map distinct_sort set_sort)
      then have "distinct (map cl_changelog_id ?victims)" by (metis distinct_take take_map)
      then have "card (cl_changelog_id ` set ?victims) = nat batchSize"
        using False by (metis distinct_card length_map length_sort length_take list.set_map min.absorb2 nat_le_linear)
      moreover have "cl_changelog_id ` set ?victims \<subseteq> cl_changelog_id ` set (filter (\<lambda>r. \<not> ?P r) ?D)"
        using due_mono[of "now - maxAge" "T - maxAge" "dbs w"] T by (fastforce dest: in_set_takeD)
      ultimately have "nat batchSize \<le> length (filter (\<lambda>r. \<not> ?P r) ?D)"
        by (metis (no_types, lifting) List.finite_set card_image_le card_length card_mono finite_imageI order_trans)
      moreover have "length (filter ?P ?D) + length (filter (\<lambda>r. \<not> ?P r) ?D) = length ?D"
        by (rule sum_length_filter_compl)
      ultimately show "length (due (T - maxAge) (dbs w')) + nat batchSize \<le> length ?D"
        unfolding after by linarith
    qed
  qed
  moreover have "distinct (map cl_changelog_id (changelog (dbs w')))"
    unfolding cl using ids by (rule distinct_map_filter)
  ultimately show ?thesis using run after by auto
qed

section \<open>Worked instances\<close>

text \<open>Three rows, two of them due; the batch size is one.\<close>

definition old_session :: world where
  "old_session =
     (session (feed_db\<lparr>changelog := [sample_change 1 ''tags'' 21 None 1, sample_change 1 ''tags'' 22 None 2,
        (sample_change 2 ''tags'' 23 None 3)\<lparr>cl_created_at := 900 * 10 ^ 9\<rparr>]\<rparr>))\<lparr>next_xid := 10\<rparr>"

lemma old_session_facts:
  "quiet old_session" "isolated old_session" "\<not> in_tx old_session"
  by (simp_all add: old_session_def session_def quiet_def isolated_def)

lemma old_session_ids: "distinct (map cl_changelog_id (changelog (dbs old_session)))"
  by code_simp

lemma old_session_due: "length (due (1000 * 10 ^ 9 - 500 * 10 ^ 9) (dbs old_session)) \<le> 2 * nat 1"
  by code_simp

lemma prune_all_or_nothing_witness:
  "\<exists>n w' victims. PruneOnce (500 * 10 ^ 9) 1 (1000 * 10 ^ 9) old_session = (Inr n, w') \<and>
     pruned (1000 * 10 ^ 9 - 500 * 10 ^ 9) 1 victims (dbs old_session) (dbs w')"
proof -
  have "map_sum id id (fst (PruneOnce (500 * 10 ^ 9) 1 (1000 * 10 ^ 9) old_session)) = Inr 1" by code_simp
  from run_Inr[OF this] obtain n w' where
    run: "PruneOnce (500 * 10 ^ 9) 1 (1000 * 10 ^ 9) old_session = (Inr n, w')" by blast
  then show ?thesis using prune_all_or_nothing[OF old_session_facts(2) _ run] by auto
qed

lemma accepted_cursor_misses_no_pruned_row_witness:
  "ckey (sample_change 1 ''tags'' 21 None 1) \<le> PullCursor 1 1"
proof -
  let ?p = "PruneOnce (500 * 10 ^ 9) 1 (1000 * 10 ^ 9) old_session"
  have "map_sum id id (fst ?p) = Inr 1" by code_simp
  from run_Inr[OF this] obtain k w1 where run: "?p = (Inr k, w1)" by blast
  have c: "DecodePullCursor (EncodePullCursor (PullCursor 1 1)) = Inr (PullCursor 1 1)"
    by (rule pull_codec.decode_encode) (simp add: pull_valid_def seq_valid_def int64_ok_def int64_min_def int64_max_def)
  have hz: "horizon (dbs (snd ?p)) = \<lparr>hz_xid8 = 1, hz_server_seq = 1\<rparr>"
    and cl: "map cl_changelog_id (changelog (dbs (snd ?p))) = [2, 3]"
    by code_simp+
  let ?w2 = "session (feed_db\<lparr>horizon := \<lparr>hz_xid8 = 1, hz_server_seq = 1\<rparr>\<rparr>)"
  have "changelog_wf (dbs ?w2)" using feed_db_wf by (simp add: changelog_wf_def)
  moreover have "servable (PullCursor 1 1) (dbs ?w2)" by (simp add: servable_def horizon_key_def)
  moreover obtain kept nxt hm where "page_cut ckey (clamp_limit defaultPullLimit maxPullLimit 10) (PullCursor 1 1)
      (changelog_page 1 (PullCursor 1 1) (LimitParam (clamp_limit defaultPullLimit maxPullLimit 10 + 1)) ?w2) = (kept, nxt, hm)"
    by (metis prod_cases3)
  ultimately obtain resp where
    pull: "pull sample_ext ''1'' (EncodePullCursor (PullCursor 1 1)) 10 ?w2 = (Inr resp, ?w2)"
    using pull_quiet[OF session_quiet(1) _ feed_db_facts(4) c] by (fastforce simp: session_def)
  have r: "sample_change 1 ''tags'' 21 None 1 \<in> set (changelog (dbs old_session))"
    by (simp add: old_session_def)
  have nr: "sample_change 1 ''tags'' 21 None 1 \<notin> set (changelog (dbs w1))"
    using cl run by (force simp: sample_change_def)
  show ?thesis
    by (rule accepted_cursor_misses_no_pruned_row[OF old_session_facts(2) _ old_session_ids run r nr _ _ c _ pull])
      (use hz run in \<open>simp_all add: IsZero_def\<close>)
qed

lemma cursor_expired_iff_witness:
  "fst (pull sample_ext ''1'' (EncodePullCursor (PullCursor 1 1)) 10
     (session (feed_db\<lparr>horizon := \<lparr>hz_xid8 = 2, hz_server_seq = 2\<rparr>\<rparr>))) = Inl ErrCursorExpired"
proof -
  let ?w = "session (feed_db\<lparr>horizon := \<lparr>hz_xid8 = 2, hz_server_seq = 2\<rparr>\<rparr>)"
  have c: "DecodePullCursor (EncodePullCursor (PullCursor 1 1)) = Inr (PullCursor 1 1)"
    by (rule pull_codec.decode_encode) (simp add: pull_valid_def seq_valid_def int64_ok_def int64_min_def int64_max_def)
  have "changelog_wf (dbs ?w)" using feed_db_wf by (simp add: changelog_wf_def)
  moreover have "\<not> servable (PullCursor 1 1) (dbs ?w)"
    by (simp add: servable_def horizon_key_def IsZero_def pull_cursor_less_eq)
  ultimately show ?thesis
    using cursor_expired_iff[OF session_quiet(1) feed_db_facts(4) c, of "feed_db\<lparr>horizon := \<lparr>hz_xid8 = 2, hz_server_seq = 2\<rparr>\<rparr>" 10]
    by (simp add: session_def)
qed

end
