(* ===== verification/Config.thy ===== *)
theory Config
  imports Retention Password
begin

text \<open>
  The process configuration, \<^verbatim>\<open>internal/config/config.go\<close>: the
  \<^verbatim>\<open>Config\<close> structure, its defaults, and \<^verbatim>\<open>Load\<close>, which
  reads the environment (a map of the variables that are set) and rejects what it cannot use.
  The number of hours or seconds is checked before it is multiplied into a
  \<^verbatim>\<open>time.Duration\<close>, and that multiplication wraps at 64 bits.
\<close>

section \<open>time.ParseDuration\<close>

text \<open>
  \<^verbatim>\<open>time.ParseDuration\<close>: an optional sign, then the single digit 0 or a
  non-empty sequence of decimal numbers with units.  The decimals after a point are scaled in
  floating point; that product is the argument \<^verbatim>\<open>frac\<close> (the digits read, how
  many of them, the unit).
\<close>

definition unit_ns :: "string \<Rightarrow> nat option" where
  "unit_ns u =
     (if u = ''ns'' then Some 1
      else if u = ''us'' \<or> u = [char_of (0xC2::nat), char_of (0xB5::nat), CHR ''s''] \<or>
              u = [char_of (0xCE::nat), char_of (0xBC::nat), CHR ''s''] then Some 1000
      else if u = ''ms'' then Some 1000000
      else if u = ''s'' then Some 1000000000
      else if u = ''m'' then Some 60000000000
      else if u = ''h'' then Some 3600000000000
      else None)"

definition is_digit :: "char \<Rightarrow> bool" where "is_digit c \<longleftrightarrow> char_digit c \<noteq> None"

fun leadingInt :: "nat \<Rightarrow> string \<Rightarrow> (nat \<times> string) option" where
  "leadingInt x [] = Some (x, [])"
| "leadingInt x (c # cs) =
     (case char_digit c of
        None \<Rightarrow> Some (x, c # cs)
      | Some d \<Rightarrow>
          if 2 ^ 63 div 10 < x \<or> 2 ^ 63 < 10 * x + d then None else leadingInt (10 * x + d) cs)"

fun leadingFraction :: "nat \<Rightarrow> nat \<Rightarrow> bool \<Rightarrow> string \<Rightarrow> (nat \<times> nat) \<times> string" where
  "leadingFraction x n overflow [] = ((x, n), [])"
| "leadingFraction x n overflow (c # cs) =
     (case char_digit c of
        None \<Rightarrow> ((x, n), c # cs)
      | Some d \<Rightarrow>
          if overflow \<or> (2 ^ 63 - 1) div 10 < x \<or> 2 ^ 63 < 10 * x + d then leadingFraction x n True cs
          else leadingFraction (10 * x + d) (Suc n) False cs)"

text \<open>One number with its unit: the nanoseconds, and the rest of the input.\<close>

definition duration_item :: "(nat \<Rightarrow> nat \<Rightarrow> nat \<Rightarrow> nat) \<Rightarrow> string \<Rightarrow> (nat \<times> string) option" where
  "duration_item frac s =
     (if s = [] \<or> \<not> (hd s = CHR ''.'' \<or> is_digit (hd s)) then None
      else case leadingInt 0 s of
        None \<Rightarrow> None
      | Some (v, s1) \<Rightarrow>
          (case (if s1 \<noteq> [] \<and> hd s1 = CHR ''.'' then
                   (case leadingFraction 0 0 False (tl s1) of (f, s2) \<Rightarrow> (f, s2, length s2 \<noteq> length (tl s1)))
                 else ((0, 0), s1, False)) of
             ((f, n), s2, post) \<Rightarrow>
               if length s1 = length s \<and> \<not> post then None
               else case unit_ns (takeWhile (\<lambda>c. \<not> (c = CHR ''.'' \<or> is_digit c)) s2) of
                 None \<Rightarrow> None
               | Some unit \<Rightarrow>
                   if 2 ^ 63 div unit < v then None
                   else (let v' = v * unit + (if 0 < f then frac f n unit else 0) in
                     if 0 < f \<and> 2 ^ 63 < v' then None
                     else Some (v', dropWhile (\<lambda>c. \<not> (c = CHR ''.'' \<or> is_digit c)) s2))))"

lemma leadingInt_suffix: "leadingInt x s = Some (v, t) \<Longrightarrow> suffix t s"
  by (induction x s rule: leadingInt.induct) (auto simp: suffix_Cons simp del: power_Suc split: option.splits if_splits)

lemma leadingFraction_suffix: "suffix (snd (leadingFraction x n overflow s)) s"
  by (induction x n overflow s rule: leadingFraction.induct)
    (auto simp: suffix_Cons split: option.splits)

lemma dropWhile_shorter: "takeWhile P s \<noteq> [] \<Longrightarrow> length (dropWhile P s) < length s"
  by (cases s) (auto simp: le_imp_less_Suc length_dropWhile_le split: if_splits)

lemma duration_item_shorter:
  assumes "duration_item frac s = Some (v, s')"
  shows "length s' < length s"
proof -
  let ?P = "\<lambda>c. \<not> (c = CHR ''.'' \<or> is_digit c)"
  obtain n s1 where s1: "leadingInt 0 s = Some (n, s1)"
    using assms by (auto simp: duration_item_def split: if_splits option.splits prod.splits)
  define q where "q = (if s1 \<noteq> [] \<and> hd s1 = CHR ''.'' then
      (case leadingFraction 0 0 False (tl s1) of (f, s2) \<Rightarrow> (f, s2, length s2 \<noteq> length (tl s1)))
      else ((0, 0), s1, False))"
  obtain f k s2 post where s2: "q = ((f, k), s2, post)"
    by (cases q) auto
  have "length s2 \<le> length s1"
    using s2[unfolded q_def] suffix_length_le[OF leadingFraction_suffix[of 0 0 False "tl s1"]]
    by (auto split: if_splits prod.splits)
  moreover have "takeWhile ?P s2 \<noteq> [] \<and> s' = dropWhile ?P s2"
    using assms by (auto simp: duration_item_def s1 s2 q_def[symmetric] unit_ns_def Let_def split: if_splits)
  ultimately show ?thesis
    using suffix_length_le[OF leadingInt_suffix[OF s1]] dropWhile_shorter[of ?P s2] by auto
qed

function duration_items :: "(nat \<Rightarrow> nat \<Rightarrow> nat \<Rightarrow> nat) \<Rightarrow> nat \<Rightarrow> string \<Rightarrow> nat option" where
  "duration_items frac d s =
     (if s = [] then Some d
      else case duration_item frac s of
        None \<Rightarrow> None
      | Some (v, s') \<Rightarrow>
          let d' = (d + v) mod 2 ^ 64 in if 2 ^ 63 < d' then None else duration_items frac d' s')"
  by pat_completeness auto
termination
  by (relation "measure (\<lambda>(frac, d, s). length s)") (auto dest: duration_item_shorter)

declare duration_items.simps [simp del]

definition ParseDuration :: "(nat \<Rightarrow> nat \<Rightarrow> nat \<Rightarrow> nat) \<Rightarrow> string \<Rightarrow> duration option" where
  "ParseDuration frac s =
     (let neg = (s \<noteq> [] \<and> hd s = CHR ''-'');
          t = (if s \<noteq> [] \<and> (hd s = CHR ''-'' \<or> hd s = CHR ''+'') then tl s else s)
      in if t = ''0'' then Some 0
         else if t = [] then None
         else case duration_items frac 0 t of
                None \<Rightarrow> None
              | Some d \<Rightarrow>
                  if neg then Some (dur_neg (wrap64 (int d)))
                  else if 2 ^ 63 - 1 < d then None
                  else Some (int d))"

section \<open>Config and Load\<close>

record Config =
  HTTPPort :: string
  Environment :: string
  DatabaseURL :: string
  JWTSigningKey :: string
  CORSAllowedOrigins :: "string list"
  RateLimitRequestsPerMinute :: int
  ShutdownTimeout :: duration
  ReadyzDBPingTimeout :: duration
  ReadTimeout :: duration
  WriteTimeout :: duration
  IdleTimeout :: duration
  AuthLockoutThreshold :: int
  AuthLockoutBaseDuration :: duration
  AuthLockoutMaxDuration :: duration
  SyncChangelogMaxAge :: duration
  SyncChangelogPruneInterval :: duration
  SyncChangelogPruneBatchSize :: int
  SentryDSN :: string
  SentryRelease :: string

text \<open>The causes of a failed load; the strings are the variable and its value.\<close>

datatype config_error =
    Unparsable string string
  | MustBePositive string string
  | MaxBelowBase duration duration
  | PortEmpty
  | UnknownEnvironment string
  | WildcardOrigins string

type_synonym environ = "string \<rightharpoonup> string"

definition DefaultHTTPPort :: string where "DefaultHTTPPort = ''8080''"
definition DefaultEnvironment :: string where "DefaultEnvironment = ''development''"
definition DefaultCORSAllowedOrigins :: string where "DefaultCORSAllowedOrigins = ''*''"
definition corsWildcard :: string where "corsWildcard = ''*''"

text \<open>\<^verbatim>\<open>os.Getenv\<close>: unset reads as empty.\<close>

definition getenv :: "environ \<Rightarrow> string \<Rightarrow> string" where
  "getenv env key = (case env key of None \<Rightarrow> [] | Some v \<Rightarrow> v)"

definition getEnvDefault :: "environ \<Rightarrow> string \<Rightarrow> string \<Rightarrow> string" where
  "getEnvDefault env key def =
     (case env key of None \<Rightarrow> def | Some v \<Rightarrow> if v \<noteq> [] then v else def)"

definition parseCSV :: "string \<Rightarrow> string list" where
  "parseCSV v = filter (\<lambda>p. p \<noteq> []) (map TrimSpace (split_all (CHR '','') v))"

definition containsWildcard :: "string list \<Rightarrow> bool" where
  "containsWildcard origins \<longleftrightarrow> list_ex (\<lambda>o'. o' = corsWildcard) origins"

definition validEnvironments :: "string list" where
  "validEnvironments = [DefaultEnvironment, ''staging'', ''production'']"

definition default_config :: "environ \<Rightarrow> Config" where
  "default_config env =
     \<lparr>HTTPPort = getEnvDefault env ''PORT'' DefaultHTTPPort,
      Environment = getEnvDefault env ''ENVIRONMENT'' DefaultEnvironment,
      DatabaseURL = getenv env ''DATABASE_URL'',
      JWTSigningKey = getenv env ''JWT_SIGNING_KEY'',
      CORSAllowedOrigins = parseCSV (getEnvDefault env ''CORS_ALLOWED_ORIGINS'' DefaultCORSAllowedOrigins),
      RateLimitRequestsPerMinute = 100,
      ShutdownTimeout = 10 * second,
      ReadyzDBPingTimeout = 5 * second,
      ReadTimeout = 10 * second,
      WriteTimeout = 30 * second,
      IdleTimeout = 120 * second,
      AuthLockoutThreshold = 10,
      AuthLockoutBaseDuration = 15 * minute,
      AuthLockoutMaxDuration = 24 * hour,
      SyncChangelogMaxAge = wrap64 (90 * 24 * hour),
      SyncChangelogPruneInterval = wrap64 (3600 * second),
      SyncChangelogPruneBatchSize = 5000,
      SentryDSN = getenv env ''SENTRY_DSN'',
      SentryRelease = getenv env ''SENTRY_RELEASE''\<rparr>"

text \<open>
  The block that repeats for every numeric variable: unset or empty keeps the default, a value
  that does not parse or is not positive stops the load.
\<close>

definition override ::
  "(string \<Rightarrow> int option) \<Rightarrow> string \<Rightarrow> (int \<Rightarrow> Config \<Rightarrow> Config) \<Rightarrow> environ \<Rightarrow> Config \<Rightarrow> config_error + Config" where
  "override parse key put env c =
     (let v = getenv env key in
      if v = [] then Inr c
      else case parse v of
             None \<Rightarrow> Inl (Unparsable key v)
           | Some n \<Rightarrow> if n \<le> 0 then Inl (MustBePositive key v) else Inr (put n c))"

definition demand :: "(Config \<Rightarrow> bool) \<Rightarrow> (Config \<Rightarrow> config_error) \<Rightarrow> Config \<Rightarrow> config_error + Config" where
  "demand ok e c = (if ok c then Inr c else Inl (e c))"

text \<open>The steps of \<^verbatim>\<open>Load\<close> in its order; the first error is the result.\<close>

fun run_steps :: "('a \<Rightarrow> 'e + 'a) list \<Rightarrow> 'a \<Rightarrow> 'e + 'a" where
  "run_steps [] c = Inr c"
| "run_steps (f # fs) c = (case f c of Inl e \<Rightarrow> Inl e | Inr d \<Rightarrow> run_steps fs d)"

definition load_steps :: "(nat \<Rightarrow> nat \<Rightarrow> nat \<Rightarrow> nat) \<Rightarrow> environ \<Rightarrow> (Config \<Rightarrow> config_error + Config) list" where
  "load_steps frac env =
     [override parse_int64 ''RATE_LIMIT_REQUESTS_PER_MINUTE''
        (\<lambda>n c. c\<lparr>RateLimitRequestsPerMinute := n\<rparr>) env,
      override parse_int64 ''SHUTDOWN_TIMEOUT_SECONDS''
        (\<lambda>n c. c\<lparr>ShutdownTimeout := wrap64 (n * second)\<rparr>) env,
      override parse_int64 ''AUTH_LOCKOUT_THRESHOLD''
        (\<lambda>n c. c\<lparr>AuthLockoutThreshold := n\<rparr>) env,
      override (ParseDuration frac) ''AUTH_LOCKOUT_BASE_DURATION''
        (\<lambda>d c. c\<lparr>AuthLockoutBaseDuration := d\<rparr>) env,
      override (ParseDuration frac) ''AUTH_LOCKOUT_MAX_DURATION''
        (\<lambda>d c. c\<lparr>AuthLockoutMaxDuration := d\<rparr>) env,
      demand (\<lambda>c. AuthLockoutBaseDuration c \<le> AuthLockoutMaxDuration c)
        (\<lambda>c. MaxBelowBase (AuthLockoutMaxDuration c) (AuthLockoutBaseDuration c)),
      override parse_int64 ''SYNC_CHANGELOG_MAX_AGE''
        (\<lambda>n c. c\<lparr>SyncChangelogMaxAge := wrap64 (n * hour)\<rparr>) env,
      override parse_int64 ''SYNC_CHANGELOG_PRUNE_INTERVAL_SECONDS''
        (\<lambda>n c. c\<lparr>SyncChangelogPruneInterval := wrap64 (n * second)\<rparr>) env,
      override parse_int64 ''SYNC_CHANGELOG_PRUNE_BATCH_SIZE''
        (\<lambda>n c. c\<lparr>SyncChangelogPruneBatchSize := n\<rparr>) env,
      demand (\<lambda>c. HTTPPort c \<noteq> []) (\<lambda>c. PortEmpty),
      demand (\<lambda>c. Environment c \<in> set validEnvironments) (\<lambda>c. UnknownEnvironment (Environment c)),
      demand (\<lambda>c. \<not> (Environment c \<noteq> DefaultEnvironment \<and> containsWildcard (CORSAllowedOrigins c)))
        (\<lambda>c. WildcardOrigins (Environment c))]"

definition Load :: "(nat \<Rightarrow> nat \<Rightarrow> nat \<Rightarrow> nat) \<Rightarrow> environ \<Rightarrow> config_error + Config" where
  "Load frac env = run_steps (load_steps frac env) (default_config env)"

text \<open>
  A step that succeeds either keeps the configuration or sets one field from the parsed value of
  its variable.
\<close>

lemma override_Inr:
  "override parse key put env c = Inr d \<longleftrightarrow>
     (if getenv env key = [] then d = c
      else \<exists>n. parse (getenv env key) = Some n \<and> 0 < n \<and> d = put n c)"
  by (auto simp: override_def Let_def split: option.splits)

lemma demand_Inr: "demand ok e c = Inr d \<longleftrightarrow> ok c \<and> d = c"
  by (auto simp: demand_def)

lemma run_steps_Cons: "run_steps (f # fs) c = Inr d \<longleftrightarrow> (\<exists>m. f c = Inr m \<and> run_steps fs m = Inr d)"
  by (simp split: sum.splits)

text \<open>A property of the configuration that the steps keep holds of the result.\<close>

lemma run_steps_keep:
  assumes "run_steps fs c = Inr d" and "P c"
    and "\<And>f c d. f \<in> set fs \<Longrightarrow> P c \<Longrightarrow> f c = Inr d \<Longrightarrow> P d"
  shows "P d"
  using assms
proof (induction fs arbitrary: c)
  case (Cons f fs)
  from Cons.prems(1) obtain m where m: "f c = Inr m" "run_steps fs m = Inr d"
    by (auto split: sum.splits)
  have "P m" using Cons.prems(2,3) m(1) by auto
  then show ?case using Cons.IH[OF m(2)] Cons.prems(3) by auto
qed simp

lemma run_steps_append:
  "run_steps (fs @ gs) c = (case run_steps fs c of Inl e \<Rightarrow> Inl e | Inr d \<Rightarrow> run_steps gs d)"
  by (induction fs arbitrary: c) (auto split: sum.splits)

lemma ParseDuration_ok: "ParseDuration frac s = Some d \<Longrightarrow> int64_ok d"
  by (auto simp: ParseDuration_def Let_def dur_neg_def wrap64_def int64_ok_def int64_min_def int64_max_def
      split: option.splits if_splits)

section \<open>What a loaded configuration satisfies\<close>

definition valid_config :: "Config \<Rightarrow> bool" where
  "valid_config c \<longleftrightarrow>
     HTTPPort c \<noteq> [] \<and> Environment c \<in> {''development'', ''staging'', ''production''} \<and>
     (Environment c \<noteq> ''development'' \<longrightarrow> corsWildcard \<notin> set (CORSAllowedOrigins c)) \<and>
     0 < RateLimitRequestsPerMinute c \<and> 0 < AuthLockoutThreshold c \<and>
     0 < AuthLockoutBaseDuration c \<and> AuthLockoutBaseDuration c \<le> AuthLockoutMaxDuration c \<and>
     0 < SyncChangelogPruneBatchSize c"

text \<open>The numbers that were given are positive at every step, and the three wrapped
  durations are what their variables say.\<close>

definition wrapped_setting :: "environ \<Rightarrow> string \<Rightarrow> duration \<Rightarrow> duration \<Rightarrow> duration \<Rightarrow> bool" where
  "wrapped_setting env key unit dflt d \<longleftrightarrow>
     d = dflt \<or> (\<exists>n>0. parse_int64 (getenv env key) = Some n \<and> d = wrap64 (n * unit))"

definition load_inv :: "environ \<Rightarrow> Config \<Rightarrow> bool" where
  "load_inv env c \<longleftrightarrow>
     0 < RateLimitRequestsPerMinute c \<and> 0 < AuthLockoutThreshold c \<and> 0 < AuthLockoutBaseDuration c \<and>
     0 < AuthLockoutMaxDuration c \<and> 0 < SyncChangelogPruneBatchSize c \<and>
     wrapped_setting env ''SHUTDOWN_TIMEOUT_SECONDS'' second (10 * second) (ShutdownTimeout c) \<and>
     wrapped_setting env ''SYNC_CHANGELOG_MAX_AGE'' hour (90 * 24 * hour) (SyncChangelogMaxAge c) \<and>
     wrapped_setting env ''SYNC_CHANGELOG_PRUNE_INTERVAL_SECONDS'' second (3600 * second) (SyncChangelogPruneInterval c)"

lemma override_cases:
  assumes "override parse key put env c = Inr d"
  obtains (keep) "d = c" | (set) n where "parse (getenv env key) = Some n" "0 < n" "d = put n c"
  using assms by (auto simp: override_Inr split: if_splits)

text \<open>Every step keeps the configuration or sets one field.\<close>

definition one_setting :: "environ \<Rightarrow> Config \<Rightarrow> Config \<Rightarrow> bool" where
  "one_setting env c d \<longleftrightarrow> d = c \<or> (\<exists>n>0.
     d \<in> {c\<lparr>RateLimitRequestsPerMinute := n\<rparr>, c\<lparr>AuthLockoutThreshold := n\<rparr>, c\<lparr>AuthLockoutBaseDuration := n\<rparr>,
           c\<lparr>AuthLockoutMaxDuration := n\<rparr>, c\<lparr>SyncChangelogPruneBatchSize := n\<rparr>} \<or>
     (parse_int64 (getenv env ''SHUTDOWN_TIMEOUT_SECONDS'') = Some n \<and> d = c\<lparr>ShutdownTimeout := wrap64 (n * second)\<rparr>) \<or>
     (parse_int64 (getenv env ''SYNC_CHANGELOG_MAX_AGE'') = Some n \<and> d = c\<lparr>SyncChangelogMaxAge := wrap64 (n * hour)\<rparr>) \<or>
     (parse_int64 (getenv env ''SYNC_CHANGELOG_PRUNE_INTERVAL_SECONDS'') = Some n \<and>
        d = c\<lparr>SyncChangelogPruneInterval := wrap64 (n * second)\<rparr>))"

lemma one_setting_step:
  assumes "f \<in> set (load_steps frac env)" and "f c = Inr d"
  shows "one_setting env c d"
proof -
  have demand: "demand ok e c = Inr d \<Longrightarrow> one_setting env c d" for ok e
    by (simp add: demand_Inr one_setting_def)
  have "list_all (\<lambda>f. f c = Inr d \<longrightarrow> one_setting env c d) (load_steps frac env)"
    unfolding load_steps_def list.pred_inject
    by (intro conjI impI TrueI; (erule override_cases | erule demand)?)
      (auto simp: one_setting_def)
  then show ?thesis using assms by (auto simp: list_all_iff)
qed

lemma wrapped_setting_given:
  "parse_int64 (getenv env key) = Some n \<Longrightarrow> 0 < n \<Longrightarrow> wrapped_setting env key unit dflt (wrap64 (n * unit))"
  by (auto simp: wrapped_setting_def)

lemma load_inv_step: "one_setting env c d \<Longrightarrow> load_inv env c \<Longrightarrow> load_inv env d"
  unfolding one_setting_def
  by (elim disjE exE conjE insertE emptyE) (simp_all add: load_inv_def wrapped_setting_given)

lemma Load_inv: "Load frac env = Inr cfg \<Longrightarrow> load_inv env cfg"
  unfolding Load_def
proof (rule run_steps_keep[where P = "load_inv env"])
  show "load_inv env (default_config env)"
    by (simp add: load_inv_def default_config_def wrapped_setting_def duration_units wrap64_def)
qed (auto intro: load_inv_step one_setting_step)

definition last_demands :: "(Config \<Rightarrow> config_error + Config) list" where
  "last_demands =
     [demand (\<lambda>c. HTTPPort c \<noteq> []) (\<lambda>c. PortEmpty),
      demand (\<lambda>c. Environment c \<in> set validEnvironments) (\<lambda>c. UnknownEnvironment (Environment c)),
      demand (\<lambda>c. \<not> (Environment c \<noteq> DefaultEnvironment \<and> containsWildcard (CORSAllowedOrigins c)))
        (\<lambda>c. WildcardOrigins (Environment c))]"

lemma drop_demands: "drop 9 (load_steps frac env) = last_demands"
  by (simp add: load_steps_def last_demands_def)

lemma Load_demands:
  assumes "Load frac env = Inr cfg"
  shows "HTTPPort cfg \<noteq> []" "Environment cfg \<in> set validEnvironments"
    "Environment cfg \<noteq> DefaultEnvironment \<longrightarrow> \<not> containsWildcard (CORSAllowedOrigins cfg)"
proof -
  have split: "load_steps frac env = take 9 (load_steps frac env) @ last_demands"
    unfolding drop_demands[of frac env, symmetric] by (rule append_take_drop_id[symmetric])
  obtain c where "run_steps last_demands c = Inr cfg"
    using assms unfolding Load_def by (subst (asm) split, unfold run_steps_append) (auto split: sum.splits)
  then show "HTTPPort cfg \<noteq> []" "Environment cfg \<in> set validEnvironments"
    "Environment cfg \<noteq> DefaultEnvironment \<longrightarrow> \<not> containsWildcard (CORSAllowedOrigins cfg)"
    unfolding last_demands_def by (auto simp: demand_def split: if_splits)
qed

lemma Load_lockout:
  assumes "Load frac env = Inr cfg"
  shows "AuthLockoutBaseDuration cfg \<le> AuthLockoutMaxDuration cfg"
proof -
  let ?P = "\<lambda>c. AuthLockoutBaseDuration c \<le> AuthLockoutMaxDuration c"
  have split: "load_steps frac env =
      take 5 (load_steps frac env) @ demand ?P (\<lambda>c. MaxBelowBase (AuthLockoutMaxDuration c) (AuthLockoutBaseDuration c)) #
        drop 6 (load_steps frac env)"
    by (simp add: load_steps_def)
  obtain c where c: "?P c" "run_steps (drop 6 (load_steps frac env)) c = Inr cfg"
    using assms unfolding Load_def
    by (subst (asm) split, unfold run_steps_append) (auto simp: demand_Inr split: sum.splits)
  show ?thesis
  proof (rule run_steps_keep[where P = ?P, OF c(2,1)])
    fix f c d assume f: "f \<in> set (drop 6 (load_steps frac env))" and P: "?P c" and step: "f c = Inr d"
    have "drop 6 (load_steps frac env) = drop 6 (take 9 (load_steps frac env)) @ last_demands"
      unfolding drop_demands[of frac env, symmetric] by (simp add: load_steps_def)
    with f have "f \<in> set (drop 6 (take 9 (load_steps frac env))) \<or> f \<in> set last_demands" by simp
    then show "?P d"
    proof
      assume "f \<in> set last_demands"
      then show ?thesis using step P by (auto simp: last_demands_def demand_Inr)
    next
      assume "f \<in> set (drop 6 (take 9 (load_steps frac env)))"
      then show ?thesis using step P
        by (simp add: load_steps_def) (elim disjE; auto simp: override_Inr split: if_splits)
    qed
  qed
qed

lemma Load_valid: "Load frac env = Inr cfg \<Longrightarrow> valid_config cfg"
  using Load_inv[of frac env cfg] Load_demands[of frac env cfg] Load_lockout[of frac env cfg]
  by (auto simp: load_inv_def valid_config_def validEnvironments_def DefaultEnvironment_def containsWildcard_def list_ex_iff)

lemma wrapped_setting_positive:
  assumes "wrapped_setting env key unit dflt d" and "0 < dflt" and "0 < unit" and "b * unit < 2 ^ 63"
  shows "d \<le> 0 \<longrightarrow> (\<exists>n>b. parse_int64 (getenv env key) = Some n)"
proof
  assume "d \<le> 0"
  with assms(1,2) obtain n where n: "0 < n" "parse_int64 (getenv env key) = Some n" "d = wrap64 (n * unit)"
    by (auto simp: wrapped_setting_def)
  have "0 < n * unit" using n(1) assms(3) by simp
  then have "\<not> n * unit < 2 ^ 63"
    using n(3) \<open>d \<le> 0\<close> by (auto simp: int64_ok_def int64_min_def int64_max_def)
  then have "b * unit < n * unit" using assms(4) by linarith
  then have "b < n" using assms(3) by simp
  with n(2) show "\<exists>n>b. parse_int64 (getenv env key) = Some n" by auto
qed

text \<open>A configuration that loads is fit to serve with: the environment is known, no
  wildcard origin outside development, every count positive and the lockout's base within its
  maximum.  The three durations that are multiplied after their check are positive unless the
  product leaves 64 bits.\<close>

lemma loaded_config_valid:
  assumes "Load frac env = Inr cfg"
  shows "valid_config cfg \<and>
    (SyncChangelogMaxAge cfg \<le> 0 \<longrightarrow>
       (\<exists>n>2562047. parse_int64 (getenv env ''SYNC_CHANGELOG_MAX_AGE'') = Some n)) \<and>
    (SyncChangelogPruneInterval cfg \<le> 0 \<longrightarrow>
       (\<exists>n>9223372036. parse_int64 (getenv env ''SYNC_CHANGELOG_PRUNE_INTERVAL_SECONDS'') = Some n)) \<and>
    (ShutdownTimeout cfg \<le> 0 \<longrightarrow>
       (\<exists>n>9223372036. parse_int64 (getenv env ''SHUTDOWN_TIMEOUT_SECONDS'') = Some n))"
proof -
  note inv = Load_inv[OF assms, unfolded load_inv_def]
  have "valid_config cfg" by (rule Load_valid[OF assms])
  moreover have "SyncChangelogMaxAge cfg \<le> 0 \<longrightarrow>
      (\<exists>n>2562047. parse_int64 (getenv env ''SYNC_CHANGELOG_MAX_AGE'') = Some n)"
    using inv by (intro wrapped_setting_positive[where unit = hour]) (auto simp: duration_units)
  moreover have "SyncChangelogPruneInterval cfg \<le> 0 \<longrightarrow>
      (\<exists>n>9223372036. parse_int64 (getenv env ''SYNC_CHANGELOG_PRUNE_INTERVAL_SECONDS'') = Some n)"
    using inv by (intro wrapped_setting_positive[where unit = second]) (auto simp: duration_units)
  moreover have "ShutdownTimeout cfg \<le> 0 \<longrightarrow>
      (\<exists>n>9223372036. parse_int64 (getenv env ''SHUTDOWN_TIMEOUT_SECONDS'') = Some n)"
    using inv by (intro wrapped_setting_positive[where unit = second]) (auto simp: duration_units)
  ultimately show ?thesis by (intro conjI)
qed

definition only_max_age :: "string \<Rightarrow> environ" where
  "only_max_age v = (\<lambda>k. if k = ''SYNC_CHANGELOG_MAX_AGE'' then Some v else None)"

lemma parse_ages:
  "parse_int64 ''2562047'' = Some 2562047" "parse_int64 ''2562048'' = Some 2562048"
  "parse_int64 ''1450916808208653'' = Some 1450916808208653"
  by (simp_all add: parse_int64_def char_digit_def int64_ok_def int64_min_def int64_max_def)

lemma only_max_age_env:
  "getenv (only_max_age v) k = (if k = ''SYNC_CHANGELOG_MAX_AGE'' then v else [])"
  "k \<noteq> ''SYNC_CHANGELOG_MAX_AGE'' \<Longrightarrow> getEnvDefault (only_max_age v) k d = d"
  by (simp_all add: getenv_def getEnvDefault_def only_max_age_def)

lemma only_max_age_loads:
  assumes "parse_int64 v = Some n" and "0 < n" and "v \<noteq> []"
  shows "\<exists>cfg. Load frac (only_max_age v) = Inr cfg \<and> SyncChangelogMaxAge cfg = wrap64 (n * hour)"
  using assms
  by (simp add: Load_def load_steps_def override_def demand_def only_max_age_env default_config_def
      validEnvironments_def DefaultEnvironment_def DefaultHTTPPort_def duration_units)

text \<open>
  An age of 2562048 hours loads as a negative duration, and no tick prunes anything; one of
  1450916808208653 hours (more than a hundred billion years) loads as 8192 nanoseconds, and a
  tick prunes rows of the same second.
\<close>

lemma wrapped_age_disables_retention:
  "\<exists>cfg. Load frac (only_max_age ''2562048'') = Inr cfg \<and> SyncChangelogMaxAge cfg < 0 \<and>
     (\<forall>now w. PruneOnce (SyncChangelogMaxAge cfg) (SyncChangelogPruneBatchSize cfg) now w =
        (Inl (Misconfigured ''MaxAge must be positive''), w))"
proof -
  obtain cfg where cfg: "Load frac (only_max_age ''2562048'') = Inr cfg" "SyncChangelogMaxAge cfg = wrap64 (2562048 * hour)"
    using only_max_age_loads[OF parse_ages(2), of frac] by auto
  then have "SyncChangelogMaxAge cfg < 0" by (simp add: duration_units wrap64_def)
  then show ?thesis using cfg(1) by (auto simp: PruneOnce_def)
qed

lemma wrapped_age_prunes_fresh_rows:
  "\<exists>cfg. Load frac (only_max_age ''1450916808208653'') = Inr cfg \<and> SyncChangelogMaxAge cfg = 8192"
  using only_max_age_loads[OF parse_ages(3), of frac] by (auto simp: duration_units wrap64_def)
end
