(* ===== verification/Pruner.thy ===== *)
theory Pruner
  imports Config
begin

text \<open>
  The background goroutine of retention: \<^verbatim>\<open>Pruner.Run\<close> in
  \<^verbatim>\<open>internal/sync/retention.go\<close>, started by \<^verbatim>\<open>serve\<close> in
  \<^verbatim>\<open>cmd/api/main.go\<close> with the settings of the configuration.  The loop is a
  function of the sequence of its wake-ups: the ticks with the clock they read, and the
  cancellation of its context; when both are ready Go picks either, so every interleaving is a
  sequence.
\<close>

datatype wakeup = Cancelled | Tick time

datatype prune_log = TickFailed prune_error | TickDeleted int | TickNothing

text \<open>How the goroutine stands after the wake-ups: waiting for the next one, returned, or
  panicked in \<^verbatim>\<open>time.NewTicker\<close>, which takes no interval below 1.\<close>

datatype run_state = Waiting | Returned | Panicked

definition context_error :: "prune_error \<Rightarrow> bool" where
  "context_error e \<longleftrightarrow>
     (case e of
        Store (OtherError m) \<Rightarrow> m \<in> {''context canceled'', ''context deadline exceeded''}
      | _ \<Rightarrow> False)"

fun prune_loop :: "duration \<Rightarrow> int \<Rightarrow> wakeup list \<Rightarrow> world \<Rightarrow> (prune_log list \<times> run_state) \<times> world" where
  "prune_loop maxAge batchSize [] w = (([], Waiting), w)"
| "prune_loop maxAge batchSize (Cancelled # es) w = (([], Returned), w)"
| "prune_loop maxAge batchSize (Tick now # es) w =
     (case PruneOnce maxAge batchSize now w of
        (Inl e, w) \<Rightarrow>
          if context_error e then (([], Returned), w)
          else (case prune_loop maxAge batchSize es w of ((logs, st), w) \<Rightarrow> ((TickFailed e # logs, st), w))
      | (Inr deleted, w) \<Rightarrow>
          (case prune_loop maxAge batchSize es w of ((logs, st), w) \<Rightarrow>
             (((if 0 < deleted then TickDeleted deleted else TickNothing) # logs, st), w)))"

definition run_pruner :: "duration \<Rightarrow> int \<Rightarrow> duration \<Rightarrow> wakeup list \<Rightarrow> world \<Rightarrow> (prune_log list \<times> run_state) \<times> world" where
  "run_pruner maxAge batchSize interval es w =
     (if interval \<le> 0 then (([], Panicked), w) else prune_loop maxAge batchSize es w)"

text \<open>The goroutine as \<^verbatim>\<open>serve\<close> starts it, when there is a pool.\<close>

definition start_pruner :: "Config \<Rightarrow> bool \<Rightarrow> wakeup list \<Rightarrow> world \<Rightarrow> ((prune_log list \<times> run_state) \<times> world) option" where
  "start_pruner cfg pool es w =
     (if pool then
        Some (run_pruner (SyncChangelogMaxAge cfg) (SyncChangelogPruneBatchSize cfg)
                (SyncChangelogPruneInterval cfg) es w)
      else None)"

lemma due_sub: "set (due c d') \<subseteq> set (due c d) \<Longrightarrow> due c d = [] \<Longrightarrow> due c d' = []"
  by auto

lemma prune_loop_drains:
  assumes size: "0 < maxAge" "0 < batchSize" "batchSize < 2 ^ 31"
  shows "quiet w \<Longrightarrow> distinct (map cl_changelog_id (changelog (dbs w))) \<Longrightarrow>
    \<forall>t\<in>set ts. t0 \<le> t \<and> t \<le> T \<Longrightarrow>
    due (t0 - maxAge) (dbs w) = [] \<or> length (due (T - maxAge) (dbs w)) \<le> length ts * nat batchSize \<Longrightarrow>
    t0 \<le> T \<Longrightarrow>
    \<exists>logs w'. prune_loop maxAge batchSize (map Tick ts) w = ((logs, Waiting), w') \<and>
      TickFailed e \<notin> set logs \<and> due (t0 - maxAge) (dbs w') = []"
proof (induction ts arbitrary: w)
  case Nil
  then show ?case
    using due_mono[of "t0 - maxAge" "T - maxAge" "dbs w"] by auto
next
  case (Cons t ts)
  from PruneOnce_progress[OF Cons.prems(1) size Cons.prems(2), of t] obtain n w' where
    run: "PruneOnce maxAge batchSize t w = (Inr n, w')" "quiet w'"
    "distinct (map cl_changelog_id (changelog (dbs w')))"
    and sub: "\<forall>c. set (due c (dbs w')) \<subseteq> set (due c (dbs w))"
    and step: "due (t - maxAge) (dbs w') = [] \<or>
      (\<forall>T\<ge>t. length (due (T - maxAge) (dbs w')) + nat batchSize \<le> length (due (T - maxAge) (dbs w)))"
    by blast
  have "due (t0 - maxAge) (dbs w') = [] \<or> length (due (T - maxAge) (dbs w')) \<le> length ts * nat batchSize"
  proof (cases "due (t - maxAge) (dbs w') = []")
    case True
    then show ?thesis using Cons.prems(3) due_mono[of "t0 - maxAge" "t - maxAge" "dbs w'"] by auto
  next
    case False
    then have "length (due (T - maxAge) (dbs w')) + nat batchSize \<le> length (due (T - maxAge) (dbs w))"
      using step Cons.prems(3) by simp
    moreover have "due (t0 - maxAge) (dbs w) = [] \<longrightarrow> due (t0 - maxAge) (dbs w') = []"
      using sub due_sub by blast
    ultimately show ?thesis using Cons.prems(4) by auto
  qed
  then show ?case
    using Cons.IH[OF run(2,3)] Cons.prems(3,5) run(1) by fastforce
qed

text \<open>C26: retention keeps up.  With a configuration that loads, whose maximum age and interval
  did not wrap and whose batch size fits 32 bits, the pruner that is started removes every row
  that was overdue when it began once it has had as many ticks as there are batches of rows
  overdue by its last one, and no tick fails.\<close>

theorem retention_keeps_up:
  assumes "Load frac env = Inr cfg" and "0 < SyncChangelogMaxAge cfg" and "0 < SyncChangelogPruneInterval cfg"
    and "SyncChangelogPruneBatchSize cfg < 2 ^ 31"
    and "quiet w" and "distinct (map cl_changelog_id (changelog (dbs w)))"
    and "\<forall>t\<in>set ts. t0 \<le> t \<and> t \<le> T" and "t0 \<le> T"
    and "length (due (T - SyncChangelogMaxAge cfg) (dbs w)) \<le> length ts * nat (SyncChangelogPruneBatchSize cfg)"
  shows "\<exists>logs w'. start_pruner cfg True (map Tick ts) w = Some ((logs, Waiting), w') \<and>
    (\<forall>e. TickFailed e \<notin> set logs) \<and> due (t0 - SyncChangelogMaxAge cfg) (dbs w') = []"
proof -
  have "0 < SyncChangelogPruneBatchSize cfg"
    using Load_inv[OF assms(1)] by (simp add: load_inv_def)
  from prune_loop_drains[OF assms(2) this assms(4,5,6,7) disjI2[OF assms(9)] assms(8)]
  have "\<exists>logs w'. prune_loop (SyncChangelogMaxAge cfg) (SyncChangelogPruneBatchSize cfg) (map Tick ts) w =
      ((logs, Waiting), w') \<and> TickFailed e \<notin> set logs \<and> due (t0 - SyncChangelogMaxAge cfg) (dbs w') = []" for e .
  then have "\<exists>logs w'. prune_loop (SyncChangelogMaxAge cfg) (SyncChangelogPruneBatchSize cfg) (map Tick ts) w =
      ((logs, Waiting), w') \<and> (\<forall>e. TickFailed e \<notin> set logs) \<and> due (t0 - SyncChangelogMaxAge cfg) (dbs w') = []"
    by (metis Pair_inject)
  then show ?thesis using assms(3) by (simp add: start_pruner_def run_pruner_def)
qed

text \<open>Whatever fails, the loop only ever removes committed batches: it stops at a
  cancellation, and a failed tick leaves the tables as they were and does not end it.\<close>

lemma prune_loop_failed_tick:
  assumes "PruneOnce maxAge batchSize now w = (Inl e, w1)" and "\<not> context_error e"
    and "prune_loop maxAge batchSize es w1 = ((logs, st), w2)"
  shows "prune_loop maxAge batchSize (Tick now # es) w = ((TickFailed e # logs, st), w2)"
  using assms by simp

text \<open>The hour as maximum age; three rows, all older than that at the tick.\<close>

lemma parse_one_hour: "parse_int64 ''1'' = Some 1"
  by (simp add: parse_int64_def char_digit_def int64_ok_def int64_min_def int64_max_def)

lemma only_max_age_others:
  assumes "Load frac (only_max_age v) = Inr cfg"
  shows "SyncChangelogPruneBatchSize cfg = 5000 \<and> SyncChangelogPruneInterval cfg = 3600 * second"
proof -
  have "map_sum id (\<lambda>c. (SyncChangelogPruneBatchSize c, SyncChangelogPruneInterval c)) (Load frac (only_max_age v)) =
      Inr (5000, 3600 * second)"
    using assms
    by (auto simp: Load_def load_steps_def override_def demand_def only_max_age_env default_config_def
        duration_units wrap64_def Let_def split: if_splits option.splits)
  with assms show ?thesis by simp
qed

lemma retention_keeps_up_witness:
  "\<exists>cfg logs w'. Load (\<lambda>_ _ _. 0) (only_max_age ''1'') = Inr cfg \<and>
     start_pruner cfg True [Tick (5000 * second)] old_session = Some ((logs, Waiting), w') \<and>
     due (5000 * second - SyncChangelogMaxAge cfg) (dbs w') = []"
proof -
  obtain cfg where cfg: "Load (\<lambda>_ _ _. 0) (only_max_age ''1'') = Inr cfg" "SyncChangelogMaxAge cfg = wrap64 (1 * hour)"
    using only_max_age_loads[OF parse_one_hour, of "\<lambda>_ _ _. 0"] by auto
  have age: "SyncChangelogMaxAge cfg = 3600 * 10 ^ 9" using cfg(2) by (simp add: duration_units wrap64_def)
  note rest = only_max_age_others[OF cfg(1)]
  have len: "length (due c (dbs old_session)) \<le> 3" for c
    unfolding due_def by (rule order_trans[OF length_filter_le]) (simp add: old_session_def session_def)
  show ?thesis
    using retention_keeps_up[OF cfg(1) _ _ _ old_session_facts(1) old_session_ids,
        of "[5000 * second]" "5000 * second" "5000 * second"] age rest len[of "5000 * second - SyncChangelogMaxAge cfg"] cfg(1)
    by (auto simp: duration_units)
qed

end
