(* ===== verification/Api.thy ===== *)
theory Api
  imports Handlers Pruner
begin

text \<open>
  The HTTP surface: the route tables (\<^verbatim>\<open>routes.go\<close> of every package), the
  middleware stack and the router of \<^verbatim>\<open>newRouter\<close> in
  \<^verbatim>\<open>cmd/api/main.go\<close>, the request metrics of
  \<^verbatim>\<open>internal/httpx/metrics.go\<close>, the recovery of panics in
  \<^verbatim>\<open>internal/middleware/recoverer.go\<close>, and how the process starts
  (\<^verbatim>\<open>main\<close>, \<^verbatim>\<open>loadOrGenerateSigningKey\<close>,
  \<^verbatim>\<open>internal/auth/keys.go\<close>).  The matching of paths, the CORS and rate limit
  libraries and the parsers of keys are code outside the repository; the options the code hands them
  are not.
\<close>

section \<open>Route tables\<close>

datatype guard = NeedsToken | NeedsAdmin

definition guarded :: "api \<Rightarrow> guard list \<Rightarrow> payload handler \<Rightarrow> payload handler" where
  "guarded a gs h =
     foldr (\<lambda>g. case g of
                 NeedsToken \<Rightarrow> Authenticate (ap_jwt a) (ap_render a)
               | NeedsAdmin \<Rightarrow> RequireRole (ap_render a) ''admin'') gs h"

text \<open>
  A route: its method, its pattern inside the group, the guards of an inline group, the handler.
  A group: its prefix, the guards of its router, its routes.
\<close>

type_synonym route = "string \<times> string \<times> guard list \<times> payload handler"
type_synonym route_group = "string \<times> guard list \<times> route list"

definition auth_groups :: "api \<Rightarrow> route_group list" where
  "auth_groups a =
     [(''/auth'', [],
        [(''POST'', ''/register'', [], handle_register a),
         (''POST'', ''/login'', [], handle_login a),
         (''POST'', ''/refresh'', [], handle_refresh a),
         (''POST'', ''/apple'', [], notImplementedStub a ''Sign in with Apple is not implemented yet.''),
         (''POST'', ''/password/forgot'', [], notImplementedStub a ''Password reset is not implemented yet.''),
         (''POST'', ''/password/reset'', [], notImplementedStub a ''Password reset is not implemented yet.''),
         (''POST'', ''/logout'', [NeedsToken], handle_logout a)]),
      (''/users/me'', [NeedsToken],
        [(''GET'', ''/'', [], handle_get_me a),
         (''PATCH'', ''/'', [], handle_patch_me a),
         (''DELETE'', ''/'', [], notImplementedStub a ''Account deletion is not implemented yet.''),
         (''POST'', ''/export'', [], notImplementedStub a ''Data export is not implemented yet.'')]),
      (''/devices'', [NeedsToken],
        [(''GET'', ''/'', [], handle_list_devices a),
         (''PATCH'', ''/{id}'', [], handle_patch_device a),
         (''DELETE'', ''/{id}'', [], handle_delete_device a)]),
      (''/admin'', [NeedsToken, NeedsAdmin],
        [(''GET'', ''/users'', [], notImplementedStub a ''Admin user listing is not implemented yet.''),
         (''PATCH'', ''/users/{id}'', [], notImplementedStub a ''Admin user update is not implemented yet.'')])]"

definition sync_group :: "api \<Rightarrow> route_group" where
  "sync_group a =
     (''/sync'', [NeedsToken],
        [(''POST'', ''/events'', [], handle_push a), (''GET'', ''/changes'', [], handle_pull a)])"

text \<open>The routes of a catalog package.\<close>

definition crud_routes :: "(crud_action \<Rightarrow> payload handler) \<Rightarrow> route list" where
  "crud_routes h =
     [(''GET'', ''/'', [], h ListAll), (''POST'', ''/'', [], h CreateOne), (''GET'', ''/{id}'', [], h GetOne),
      (''PATCH'', ''/{id}'', [], h PatchOne), (''DELETE'', ''/{id}'', [], h DeleteOne)]"

definition projects_group :: "api \<Rightarrow> route_group" where
  "projects_group a = (''/projects'', [NeedsToken], crud_routes (handle_projects a))"

definition tags_group :: "api \<Rightarrow> route_group" where
  "tags_group a = (''/tags'', [NeedsToken], crud_routes (handle_tags a))"

definition categories_group :: "api \<Rightarrow> route_group" where
  "categories_group a = (''/categories'', [NeedsToken], crud_routes (handle_categories a))"

definition focus_sessions_group :: "api \<Rightarrow> route_group" where
  "focus_sessions_group a = (''/focus-sessions'', [NeedsToken], crud_routes (handle_focus_sessions a))"

definition activities_group :: "api \<Rightarrow> route_group" where
  "activities_group a = (''/activities'', [NeedsToken], [(''GET'', ''/'', [], handle_activities a)])"

definition reports_group :: "api \<Rightarrow> route_group" where
  "reports_group a =
     (''/reports'', [NeedsToken],
        [(''GET'', ''/summary'', [], handle_summary a), (''GET'', ''/daily'', [], handle_daily a),
         (''GET'', ''/categories'', [], handle_categories_report a), (''GET'', ''/apps'', [], handle_apps_report a),
         (''GET'', ''/projects'', [], handle_projects_report a), (''GET'', ''/timeline'', [], handle_timeline a)])"

definition v1_groups :: "api \<Rightarrow> route_group list" where
  "v1_groups a =
     auth_groups a @
     [sync_group a, projects_group a, tags_group a, categories_group a, focus_sessions_group a,
      activities_group a, reports_group a]"

section \<open>Dispatch\<close>

definition notFoundHandler :: "api \<Rightarrow> payload handler" where
  "notFoundHandler a ident params r w =
     (WriteError (ap_render a) r 404 (errNS @ ''not-found'') ''Not Found''
        (Msg ''The requested resource does not exist.''), w)"

definition methodNotAllowedHandler :: "api \<Rightarrow> payload handler" where
  "methodNotAllowedHandler a ident params r w =
     (WriteError (ap_render a) r 405 (errNS @ ''method-not-allowed'') ''Method Not Allowed''
        (Msg ''The HTTP method is not allowed for the requested resource.''), w)"

definition rateLimitedHandler :: "api \<Rightarrow> payload handler" where
  "rateLimitedHandler a ident params r w =
     (WriteError (ap_render a) r 429 (errNS @ ''rate-limit-exceeded'') ''Too Many Requests''
        (Msg ''Request rate limit exceeded. Retry after the window indicated by the Retry-After header.''), w)"

text \<open>
  What chi finds for a method and a path: one of the three operational endpoints; inside
  \<^verbatim>\<open>/v1\<close>, a route of a group with the parameters of the path, or a group's router
  that has no such path or no such method; or no router at all.  The guards of a group's router
  run before it looks for the route.
\<close>

datatype miss = NoPath | NoMethod

datatype routed =
    Healthz | Readyz | MetricsPage
  | InGroup nat nat "string \<Rightarrow> string"
  | GroupMiss nat miss
  | V1Miss miss
  | RootMiss miss

definition missed :: "api \<Rightarrow> miss \<Rightarrow> payload handler" where
  "missed a m = (case m of NoPath \<Rightarrow> notFoundHandler a | NoMethod \<Rightarrow> methodNotAllowedHandler a)"

text \<open>
  The options that are handed to go-chi/cors, and what httprate is asked: a budget of requests in
  a minute for the address of the TCP peer, brought to its canonical form, whatever headers the
  request carries.
\<close>

record cors_options =
  co_AllowedOrigins :: "string list"
  co_AllowedMethods :: "string list"
  co_AllowedHeaders :: "string list"
  co_ExposedHeaders :: "string list"
  co_AllowCredentials :: bool
  co_MaxAge :: int

definition CORS :: "string list \<Rightarrow> cors_options" where
  "CORS origins =
     \<lparr>co_AllowedOrigins = origins,
      co_AllowedMethods = [''GET'', ''POST'', ''PATCH'', ''DELETE'', ''OPTIONS''],
      co_AllowedHeaders = [''Accept'', ''Authorization'', ''Content-Type'', ''X-Request-Id''],
      co_ExposedHeaders = [''X-Request-Id''], co_AllowCredentials = False, co_MaxAge = 300\<rparr>"

text \<open>The two libraries, over connections of their own type: does CORS answer the request itself,
  the address of the peer, its canonical form, and is the budget of a key spent.\<close>

record 'c edge_library =
  el_preflight :: "cors_options \<Rightarrow> 'c \<Rightarrow> bool"
  el_RemoteAddr :: "'c \<Rightarrow> string"
  el_CanonicalizeIP :: "string \<Rightarrow> string"
  el_spent :: "int \<Rightarrow> duration \<Rightarrow> string \<Rightarrow> bool"

definition RateLimit :: "'c edge_library \<Rightarrow> int \<Rightarrow> 'c \<Rightarrow> bool" where
  "RateLimit el requestsPerMinute c =
     el_spent el requestsPerMinute minute (el_CanonicalizeIP el (el_RemoteAddr el c))"

text \<open>
  The part of the stack below \<^verbatim>\<open>/v1\<close>: CORS answers a preflight itself, the rate
  limiter may refuse; both decisions are made by their libraries.
\<close>

record edge =
  ed_preflight :: bool
  ed_limited :: bool

definition edge_of :: "'c edge_library \<Rightarrow> Config \<Rightarrow> 'c \<Rightarrow> edge" where
  "edge_of el cfg c =
     \<lparr>ed_preflight = el_preflight el (CORS (CORSAllowedOrigins cfg)) c,
      ed_limited = RateLimit el (RateLimitRequestsPerMinute cfg) c\<rparr>"

definition in_group :: "api \<Rightarrow> nat \<Rightarrow> (guard list \<Rightarrow> route list \<Rightarrow> payload handler) \<Rightarrow> payload handler" where
  "in_group a g k =
     (if g < length (v1_groups a) then (case v1_groups a ! g of (base, gs, rs) \<Rightarrow> guarded a gs (k gs rs))
      else notFoundHandler a)"

definition v1_endpoint :: "api \<Rightarrow> routed \<Rightarrow> payload handler" where
  "v1_endpoint a rt =
     (case rt of
        InGroup g i params \<Rightarrow>
          in_group a g (\<lambda>gs rs.
            if i < length rs then
              (case rs ! i of (method, pattern, gs', h) \<Rightarrow> guarded a gs' (\<lambda>ident _. h ident params))
            else notFoundHandler a)
      | GroupMiss g m \<Rightarrow> in_group a g (\<lambda>_ _. missed a m)
      | V1Miss m \<Rightarrow> missed a m
      | _ \<Rightarrow> notFoundHandler a)"

definition serve_v1 :: "api \<Rightarrow> edge \<Rightarrow> routed \<Rightarrow> http_request \<Rightarrow> world \<Rightarrow> payload response \<times> world" where
  "serve_v1 a e rt r w =
     (if ed_preflight e then (WriteHeader 200, w)
      else if ed_limited e then rateLimitedHandler a None (\<lambda>_. []) r w
      else v1_endpoint a rt None (\<lambda>_. []) r w)"

text \<open>Liveness and readiness; \<^verbatim>\<open>ping\<close> is the answer of the database to the
  probe, when a pool is configured.\<close>

definition healthzHandler :: "http_request \<Rightarrow> payload response" where
  "healthzHandler r = WriteJSON r 200 (PHealth [(''status'', ''ok'')])"

definition readyzHandler :: "bool option \<Rightarrow> http_request \<Rightarrow> payload response" where
  "readyzHandler ping r =
     (case ping of
        None \<Rightarrow> WriteJSON r 200 (PHealth [(''status'', ''ok''), (''db'', ''not_configured'')])
      | Some False \<Rightarrow> WriteJSON r 503 (PHealth [(''status'', ''unavailable''), (''db'', ''unreachable'')])
      | Some True \<Rightarrow> WriteJSON r 200 (PHealth [(''status'', ''ok''), (''db'', ''ok'')]))"

definition serve_api :: "api \<Rightarrow> bool option \<Rightarrow> edge \<Rightarrow> routed \<Rightarrow> http_request \<Rightarrow> world \<Rightarrow> payload response \<times> world" where
  "serve_api a ping e rt r w =
     (case rt of
        Healthz \<Rightarrow> (healthzHandler r, w)
      | Readyz \<Rightarrow> (readyzHandler ping r, w)
      | MetricsPage \<Rightarrow> (WriteHeader 200, w)
      | RootMiss m \<Rightarrow> missed a m None (\<lambda>_. []) r w
      | _ \<Rightarrow> serve_v1 a e rt r w)"

section \<open>The outer middleware\<close>

text \<open>How the inner handler ends: with a response, or with a panic, which may be
  \<^verbatim>\<open>http.ErrAbortHandler\<close>.\<close>

datatype outcome = Finished "payload response" | Panic bool

definition unmatchedRouteLabel :: string where "unmatchedRouteLabel = ''unmatched''"

definition routePattern :: "string option \<Rightarrow> string" where
  "routePattern pattern =
     (case pattern of None \<Rightarrow> unmatchedRouteLabel | Some p \<Rightarrow> if p \<noteq> [] then p else unmatchedRouteLabel)"

text \<open>The series a request is counted in: method, route pattern and status.  The statement
  after \<^verbatim>\<open>next.ServeHTTP\<close> is not reached when that panics.\<close>

type_synonym series = "string \<times> string \<times> nat"

definition Metrics :: "string \<Rightarrow> string option \<Rightarrow> outcome \<Rightarrow> series list" where
  "Metrics method pattern out =
     (case out of
        Finished resp \<Rightarrow> [(method, routePattern pattern, rs_Status resp)]
      | Panic _ \<Rightarrow> [])"

text \<open>A recovered panic is reported and answered with a bare 500, unless the connection is an
  upgrade; the abort is passed on.\<close>

definition Recoverer :: "bool \<Rightarrow> outcome \<Rightarrow> outcome \<times> bool" where
  "Recoverer upgrade out =
     (case out of
        Finished resp \<Rightarrow> (Finished resp, False)
      | Panic abort \<Rightarrow>
          if abort then (Panic True, False)
          else (Finished (WriteHeader (if upgrade then 0 else 500)), True))"

text \<open>The log line: method, path and status.\<close>

definition Logging :: "string \<Rightarrow> string \<Rightarrow> outcome \<Rightarrow> (string \<times> string \<times> nat) list" where
  "Logging method path out =
     (case out of Finished resp \<Rightarrow> [(method, path, rs_Status resp)] | Panic _ \<Rightarrow> [])"

record observed =
  ob_log :: "(string \<times> string \<times> nat) list"
  ob_series :: "series list"
  ob_reported :: bool

text \<open>RequestID, Logging, Recoverer and Metrics, in that order, around an outcome.\<close>

definition outer_stack :: "string \<Rightarrow> string \<Rightarrow> string option \<Rightarrow> bool \<Rightarrow> outcome \<Rightarrow> outcome \<times> observed" where
  "outer_stack method path pattern upgrade out =
     (case Recoverer upgrade out of
        (out', reported) \<Rightarrow>
          (out', \<lparr>ob_log = Logging method path out', ob_series = Metrics method pattern out,
                  ob_reported = reported\<rparr>))"

section \<open>Starting the process\<close>

text \<open>\<^verbatim>\<open>crypto/x509\<close> and \<^verbatim>\<open>encoding/pem\<close>, with a key type
  of their own; a PKCS8 key may be of another kind than RSA.\<close>

record 'k key_library =
  kl_pem :: "string \<Rightarrow> string option"
  kl_pkcs1 :: "string \<Rightarrow> 'k option"
  kl_pkcs8 :: "string \<Rightarrow> 'k option option"
  kl_generate :: "'k option"

datatype key_error = KeyEmpty | NotPEM | KeyUnparsable | NotRSA | KeyGeneration | KeyRequired string

definition LoadSigningKey :: "'k key_library \<Rightarrow> string \<Rightarrow> key_error + 'k" where
  "LoadSigningKey kl pemData =
     (if pemData = [] then Inl KeyEmpty
      else case kl_pem kl pemData of
        None \<Rightarrow> Inl NotPEM
      | Some block \<Rightarrow>
          (case kl_pkcs1 kl block of
             Some key \<Rightarrow> Inr key
           | None \<Rightarrow>
               (case kl_pkcs8 kl block of
                  None \<Rightarrow> Inl KeyUnparsable
                | Some None \<Rightarrow> Inl NotRSA
                | Some (Some key) \<Rightarrow> Inr key)))"

definition GenerateSigningKey :: "'k key_library \<Rightarrow> key_error + 'k" where
  "GenerateSigningKey kl = (case kl_generate kl of None \<Rightarrow> Inl KeyGeneration | Some key \<Rightarrow> Inr key)"

definition loadOrGenerateSigningKey :: "'k key_library \<Rightarrow> Config \<Rightarrow> key_error + 'k" where
  "loadOrGenerateSigningKey kl cfg =
     (if JWTSigningKey cfg \<noteq> [] then LoadSigningKey kl (JWTSigningKey cfg)
      else if Environment cfg \<noteq> DefaultEnvironment then Inl (KeyRequired (Environment cfg))
      else GenerateSigningKey kl)"

text \<open>\<^verbatim>\<open>store.NewPool\<close>: no pool for an empty address, else the driver's answer.\<close>

definition NewPool :: "(string \<Rightarrow> bool) \<Rightarrow> string \<Rightarrow> bool option" where
  "NewPool connect url = (if url = [] then Some False else if connect url then Some True else None)"

text \<open>The process: it exits when the configuration or the pool fails, panics without a key, and
  else runs with the settings of the configuration.\<close>

datatype 'k process =
    Exited config_error
  | NoDatabase
  | KeyPanic key_error
  | Running Config bool 'k service

definition auth_service :: "Config \<Rightarrow> bool \<Rightarrow> service" where
  "auth_service cfg pool =
     \<lparr>LockoutThreshold = AuthLockoutThreshold cfg, LockoutBaseDuration = AuthLockoutBaseDuration cfg,
      LockoutMaxDuration = AuthLockoutMaxDuration cfg, Pool_set = pool\<rparr>"

definition boot :: "(nat \<Rightarrow> nat \<Rightarrow> nat \<Rightarrow> nat) \<Rightarrow> 'k key_library \<Rightarrow> (string \<Rightarrow> bool) \<Rightarrow> environ \<Rightarrow> 'k process" where
  "boot frac kl connect env =
     (case Load frac env of
        Inl e \<Rightarrow> Exited e
      | Inr cfg \<Rightarrow>
          (case NewPool connect (DatabaseURL cfg) of
             None \<Rightarrow> NoDatabase
           | Some pool \<Rightarrow>
               (case loadOrGenerateSigningKey kl cfg of
                  Inl e \<Rightarrow> KeyPanic e
                | Inr key \<Rightarrow> Running cfg pool key (auth_service cfg pool))))"

end
