(* ===== verification/PushProps.thy ===== *)
theory PushProps
  imports SyncPush Sample
begin

text \<open>
  What the push promises: one result per item, tenant isolation, append-only events, a batch
  that can be replayed, and the errors that can abort a batch.
\<close>

section \<open>Results\<close>

lemma applyItem_result:
  "applyItem x clock uid dev pl src index item w = (Inr r, w')
   \<Longrightarrow> r_Index r = index \<and> r_EntityType r = EntityType item"
  by (auto simp: applyItem_def applyActivityEvent_def applyFocusSession_def storeActivityEvent_def
      storeFocusSession_def push_results Let_def
      split: if_splits option.splits sum.splits prod.splits)

lemma applyItems_results:
  assumes "\<And>index item w r w'. step index item w = (Inr r, w') \<Longrightarrow> R index item r"
  shows "applyItems step index items w = (Inr rs, w')
    \<Longrightarrow> length rs = length items \<and> (\<forall>i<length items. R (index + i) (items ! i) (rs ! i))"
proof (induction items arbitrary: index w rs)
  case Nil
  then show ?case by simp
next
  case (Cons item items)
  from Cons.prems obtain r w1 rs' where
    step: "step index item w = (Inr r, w1)" and
    rest: "applyItems step (Suc index) items w1 = (Inr rs', w')" and rs: "rs = r # rs'"
    by (auto split: prod.splits sum.splits)
  show ?case
    using Cons.IH[OF rest] assms[OF step] rs by (auto simp: less_Suc_eq_0_disj)
qed

text \<open>A push that succeeds answers every item, in order: the i-th result carries index i and
  the item's entity type.\<close>

lemma push_answers_every_item:
  assumes "push x clock userID req w = (Inr rs, w')"
  shows "length rs = length (Items req) \<and>
         (\<forall>i<length (Items req).
            r_Index (rs ! i) = i \<and> r_EntityType (rs ! i) = EntityType (Items req ! i))"
proof -
  obtain uid dev pl src v where
    "applyItems (applyItem x clock uid dev pl src) 0 (Items req) v = (Inr rs, w')"
    using assms by (auto simp: push_def Let_def split: if_splits sum.splits prod.splits)
  from applyItems_results[OF _ this, of "\<lambda>i item r. r_Index r = i \<and> r_EntityType r = EntityType item"]
  show ?thesis by (auto dest: applyItem_result)
qed


text \<open>The worked instance: user 1 pushes from device 11.\<close>

definition sample_event :: "string \<Rightarrow> string \<Rightarrow> string \<Rightarrow> bool \<Rightarrow> pushItem" where
  "sample_event i s e del =
     \<lparr>EntityType = ''activity_event'',
      Data = Some (JObject [(''event_id'', JString i), (''started_at'', JString s),
        (''ended_at'', JString e), (''app_bundle_id'', JString ''com.app''),
        (''precision'', JString ''exact''), (''type'', JString ''app_active''),
        (''deleted'', JBool del)])\<rparr>"

definition sample_focus :: "string \<Rightarrow> string \<Rightarrow> pushItem" where
  "sample_focus i u =
     \<lparr>EntityType = ''focus_session'',
      Data = Some (JObject [(''id'', JString i), (''updated_at'', JString u),
        (''started_at'', JString ''100''), (''kind'', JString ''focus''),
        (''status'', JString ''running'')])\<rparr>"

definition sample_clock :: "nat \<Rightarrow> time" where
  "sample_clock _ = 1000 * 10 ^ 9"

definition sample_request :: pushRequest where
  "sample_request =
     \<lparr>DeviceID = ''11'',
      Items = [sample_event ''7'' ''100'' ''200'' False, sample_focus ''5'' ''900'',
               sample_event ''7'' ''100'' ''200'' True]\<rparr>"

lemma sample_push_status:
  "map_sum id (map r_Status) (fst (push sample_ext sample_clock ''1'' sample_request (session sample_db)))
   = Inr [''applied'', ''applied'', ''applied'']"
  by code_simp


lemma sample_push_runs:
  "\<exists>rs w'. push sample_ext sample_clock ''1'' sample_request (session sample_db) = (Inr rs, w') \<and>
           map r_Status rs = [''applied'', ''applied'', ''applied'']"
  by (rule run_Inr[OF sample_push_status])

lemma sample_request_items: "length (Items sample_request) = 3"
  by (simp add: sample_request_def)

section \<open>Isolation and append-only events\<close>

text \<open>Whatever the request says and whichever statements fail, a push by one user leaves
  every other user's events and focus sessions, and all accounts, devices, tokens, settings,
  categories, projects and tags as they were; its changelog rows are the pusher's.\<close>

lemma push_isolates_tenants:
  assumes "parseUUID x userID = Inr uid" and "isolated w"
    and "push x clock userID req w = (r, w')"
  shows "filter (\<lambda>e. ae_user_id e \<noteq> uid) (activity_events (dbs w'))
           = filter (\<lambda>e. ae_user_id e \<noteq> uid) (activity_events (dbs w))
       \<and> filter (\<lambda>f. fs_user_id f \<noteq> uid) (focus_sessions (dbs w'))
           = filter (\<lambda>f. fs_user_id f \<noteq> uid) (focus_sessions (dbs w))
       \<and> filter (\<lambda>c. cl_user_id c \<noteq> Some uid) (changelog (dbs w'))
           = filter (\<lambda>c. cl_user_id c \<noteq> Some uid) (changelog (dbs w))
       \<and> dbs w' = (dbs w)\<lparr>apps := apps (dbs w'), activity_events := activity_events (dbs w'),
                           focus_sessions := focus_sessions (dbs w'), changelog := changelog (dbs w')\<rparr>"
proof -
  have frame: "push_frame uid (dbs w) (dbs w')"
    using framed.push[OF assms(1,3)] assms(2) by (simp add: pushes_def)
  have "filter (\<lambda>e. ae_user_id e \<noteq> uid) (activity_events (dbs w'))
           = filter (\<lambda>e. ae_user_id e \<noteq> uid) (activity_events (dbs w))"
    by (rule evolves_filter_untouched[where own = "\<lambda>e. ae_user_id e = uid" and step = "event_step uid"])
      (use frame in \<open>auto simp: push_frame_def event_step_def\<close>)
  moreover have "filter (\<lambda>f. fs_user_id f \<noteq> uid) (focus_sessions (dbs w'))
           = filter (\<lambda>f. fs_user_id f \<noteq> uid) (focus_sessions (dbs w))"
    by (rule evolves_filter_untouched[where own = "\<lambda>f. fs_user_id f = uid" and step = "focus_step uid"])
      (use frame in \<open>auto simp: push_frame_def focus_step_def\<close>)
  moreover have "filter (\<lambda>c. cl_user_id c \<noteq> Some uid) (changelog (dbs w'))
           = filter (\<lambda>c. cl_user_id c \<noteq> Some uid) (changelog (dbs w))"
    by (rule evolves_filter_untouched[where own = "\<lambda>c. cl_user_id c = Some uid" and step = "(=)"])
      (use frame in \<open>auto simp: push_frame_def\<close>)
  ultimately show ?thesis using frame by (simp add: push_frame_def)
qed

text \<open>C13: events are append-only.  After a push every stored event is still there, with the
  same fields but for the tombstone flag, which may only be raised and only by the event's own
  user, and the sequence number that then marks the change.\<close>

theorem push_events_append_only:
  assumes "parseUUID x userID = Inr uid" and "isolated w"
    and "push x clock userID req w = (r, w')" and "i < length (activity_events (dbs w))"
  shows "i < length (activity_events (dbs w')) \<and>
     (let e = activity_events (dbs w) ! i; e' = activity_events (dbs w') ! i in
        e' = e \<or>
        (ae_user_id e = uid \<and> \<not> ae_deleted e \<and> ae_deleted e' \<and>
         e'\<lparr>ae_deleted := False, ae_server_seq := ae_server_seq e\<rparr> = e))"
proof -
  have frame: "push_frame uid (dbs w) (dbs w')"
    using framed.push[OF assms(1,3)] assms(2) by (simp add: pushes_def)
  then have len: "i < length (activity_events (dbs w'))"
    and "event_step uid (activity_events (dbs w) ! i) (activity_events (dbs w') ! i)"
    using assms(4) by (auto simp: push_frame_def evolves_def list_all2_conv_all_nth)
  then show ?thesis by (auto simp: event_step_def Let_def)
qed


section \<open>The sequential run of one item\<close>

text \<open>The keys are unique and the foreign keys that the push copies into an event hold.\<close>

definition store_wf :: "db \<Rightarrow> bool" where
  "store_wf d \<longleftrightarrow>
     db_keys d \<and>
     (\<forall>s\<in>set (user_app_settings d). fk_opt (category_exists d) (uas_category_id s)) \<and>
     (\<forall>a\<in>set (apps d). fk_opt (category_exists d) (app_default_category_id a)) \<and>
     (\<forall>v\<in>set (devices d). user_exists d (dev_user_id v))"

lemma push_frame_fields:
  assumes "push_frame uid d d'"
  shows "users d' = users d" "devices d' = devices d" "categories d' = categories d"
    "projects d' = projects d" "user_app_settings d' = user_app_settings d"
proof -
  have "d' = d\<lparr>apps := apps d', activity_events := activity_events d',
            focus_sessions := focus_sessions d', changelog := changelog d'\<rparr>"
    using assms by (simp add: push_frame_def)
  then show "users d' = users d" "devices d' = devices d" "categories d' = categories d"
    "projects d' = projects d" "user_app_settings d' = user_app_settings d"
    by (cases d; cases d'; simp)+
qed

lemma store_wf_frame: "push_frame uid d d' \<Longrightarrow> store_wf d \<Longrightarrow> store_wf d'"
proof -
  assume f: "push_frame uid d d'" and wf: "store_wf d"
  have ev: "evolves (=) (\<lambda>a. app_default_category_id a = None) (apps d) (apps d')"
    using f by (simp add: push_frame_def)
  have "fk_opt (category_exists d) (app_default_category_id a)" if "a \<in> set (apps d')" for a
  proof -
    have "a \<in> set (take (length (apps d)) (apps d')) \<or> a \<in> set (drop (length (apps d)) (apps d'))"
      using that by (metis UnE append_take_drop_id set_append)
    moreover have "take (length (apps d)) (apps d') = apps d"
      using ev by (simp add: evolves_def list.rel_eq)
    ultimately show ?thesis
      using ev wf by (auto simp: evolves_def list_all_iff store_wf_def fk_opt_def)
  qed
  then show ?thesis
    using f wf push_frame_fields[OF f]
    by (auto simp: store_wf_def push_frame_def category_exists_def[abs_def] user_exists_def)
qed

lemma exec_txt_quiet:
  "hazards w = [] \<Longrightarrow> exec_txt ts q w = (if list_all text_ok ts then q w else (Inl (PgError ''22021'' ''''), w))"
  by (simp add: exec_txt_def)

text \<open>The errors that abort a batch when nothing but the request is at fault, and the
  clash of a generated identifier.\<close>

definition data_errors :: "db_error set" where
  "data_errors = {PgError ''22021'' '''', PgError ''22003'' ''''}"

definition abort_errors :: "db_error set" where
  "abort_errors = {PgError ''23505'' ''apps_pkey'', PgError ''54000'' ''''} \<union> data_errors"

lemma resolveApp_quiet:
  assumes "quiet w" and "resolveApp b p w = (r, w')"
  shows "quiet w'" and "case r of
      Inl e \<Rightarrow> e \<in> abort_errors
    | Inr a \<Rightarrow> a \<in> set (apps (dbs w')) \<and> app_bundle_id a = b \<and> app_platform a = p \<and>
        text_ok b \<and> text_ok p"
  using assms
  by (auto simp: resolveApp_def GetAppByBundleID_def CreateApp_def exec_txt_quiet select_one_def
      one_row_def gen_random_uuid_def Let_def quiet_def abort_errors_def data_errors_def filter_empty_conv
      split: if_splits list.splits dest: filter_eq_ConsD)

lemma resolveCategory_quiet:
  assumes "quiet w" and "store_wf (dbs w)" and "a \<in> set (apps (dbs w))"
    and "resolveCategory u a w = (r, w')"
  shows "w' = w \<and> (\<exists>c. r = Inr c \<and> fk_opt (category_exists (dbs w)) c)"
  using assms
  by (auto simp: resolveCategory_def GetUserAppSettingByUserAndApp_def select_one_def one_row_def
      quiet_def store_wf_def split: list.splits option.splits dest!: filter_eq_ConsD)


text \<open>The parameters the service sends: everything the table checks holds.\<close>

definition event_ok :: "db \<Rightarrow> InsertActivityEventParams \<Rightarrow> bool" where
  "event_ok d arg \<longleftrightarrow>
     ia_Type arg \<in> set activity_types \<and> ia_Source arg \<in> set activity_sources \<and>
     ia_Precision arg \<in> set activity_precisions \<and> user_exists d (ia_UserID arg) \<and>
     device_exists d (ia_DeviceID arg) \<and> fk_opt (app_exists d) (ia_AppID arg) \<and>
     fk_opt (category_exists d) (ia_CategoryID arg) \<and> fk_opt (project_exists d) (ia_ProjectID arg)"

definition event_stored :: "uuid \<Rightarrow> uuid \<Rightarrow> time \<Rightarrow> bool \<Rightarrow> db \<Rightarrow> bool" where
  "event_stored uid eid startedAt del d \<longleftrightarrow>
     (\<exists>e\<in>set (activity_events d). event_key e = (uid, eid, pg_ts startedAt) \<and> (del \<longrightarrow> ae_deleted e))"

definition event_texts :: "InsertActivityEventParams \<Rightarrow> string list" where
  "event_texts arg = [ia_Type arg, ia_Source arg, ia_Precision arg] @ opt_text (ia_RawBundleID arg) @
     opt_text (ia_WindowTitle arg) @ opt_text (ia_Url arg)"

definition event_storable :: "InsertActivityEventParams \<Rightarrow> bool" where
  "event_storable arg \<longleftrightarrow>
     list_all text_ok (event_texts arg) \<and>
     int4_ok (epoch_s (pg_ts (ia_EndedAt arg) - pg_ts (ia_StartedAt arg)))"

lemma event_key_row: "event_key (event_row arg now seq) = (ia_UserID arg, ia_EventID arg, pg_ts (ia_StartedAt arg))"
  by (simp add: event_key_def event_row_def)

lemma dbs_log_change [simp]:
  "activity_events (dbs (log_change u t i st seq w)) = activity_events (dbs w)"
  "focus_sessions (dbs (log_change u t i st seq w)) = focus_sessions (dbs w)"
  "apps (dbs (log_change u t i st seq w)) = apps (dbs w)"
  "hazards (log_change u t i st seq w) = hazards w"
  by (simp_all add: log_change_def)

lemma InsertActivityEvent_quiet:
  assumes "quiet w" and ok: "event_ok (dbs w) arg" and run: "InsertActivityEvent arg w = (r, w')"
  shows "quiet w' \<and> (case r of
      Inl e \<Rightarrow>
        if e = NoRows then
          event_storable arg \<and> dbs w' = dbs w \<and>
          event_stored (ia_UserID arg) (ia_EventID arg) (ia_StartedAt arg) False (dbs w)
        else e \<in> data_errors \<and> \<not> event_storable arg
    | Inr row \<Rightarrow>
        event_storable arg \<and>
        event_stored (ia_UserID arg) (ia_EventID arg) (ia_StartedAt arg) (ia_Deleted arg) (dbs w'))"
proof -
  have h: "hazards w = []" using assms(1) by (simp add: quiet_def)
  have dur: "ae_duration_s (event_row arg now seq) = epoch_s (pg_ts (ia_EndedAt arg) - pg_ts (ia_StartedAt arg))"
    and del: "ae_deleted (event_row arg now seq) = ia_Deleted arg" for now seq
    by (simp_all add: event_row_def)
  show ?thesis
    using run ok h
    unfolding InsertActivityEvent_def
    by (auto simp: exec_txt_quiet next_server_seq_def Let_def event_key_row dur fk_violation_def quiet_def
        event_storable_def event_texts_def data_errors_def event_stored_def event_ok_def del
        split: if_splits)
qed

lemma TombstoneActivityEvent_quiet:
  assumes q: "quiet w" and st: "event_stored uid eid startedAt False (dbs w)"
    and run: "TombstoneActivityEvent uid eid startedAt w = (r, w')"
  shows "quiet w' \<and> (r = Inl NoRows \<or> (\<exists>e. r = Inr e)) \<and>
    event_stored uid eid startedAt True (dbs w')"
proof -
  let ?hit = "\<lambda>e. event_key e = (uid, eid, pg_ts startedAt) \<and> \<not> ae_deleted e"
  from st obtain e where e: "e \<in> set (activity_events (dbs w))" "event_key e = (uid, eid, pg_ts startedAt)"
    by (auto simp: event_stored_def)
  show ?thesis
  proof (cases "filter ?hit (activity_events (dbs w))")
    case Nil
    then have "ae_deleted e" using e by (auto simp: filter_empty_conv)
    then have "event_stored uid eid startedAt True (dbs w)"
      unfolding event_stored_def using e by blast
    then show ?thesis using Nil q run
      by (simp add: TombstoneActivityEvent_def quiet_def)
  next
    case (Cons h hs)
    then have h: "h \<in> set (activity_events (dbs w))" "?hit h" by (auto dest: filter_eq_ConsD)
    let ?s = "server_seq_global w + 1"
    let ?upd = "\<lambda>r. if ?hit r then r\<lparr>ae_deleted := True, ae_server_seq := ?s\<rparr> else r"
    have res: "r = Inr (h\<lparr>ae_deleted := True, ae_server_seq := ?s\<rparr>)"
      and w': "log_change (Some uid) ''activity_events'' eid (Some (pg_ts startedAt)) ?s
        (w\<lparr>server_seq_global := ?s, dbs := (dbs w)\<lparr>activity_events :=
            map ?upd (activity_events (dbs w))\<rparr>\<rparr>) = w'"
      using Cons q run by (simp_all add: TombstoneActivityEvent_def quiet_def Let_def next_server_seq_def)
    have ev: "activity_events (dbs w') = map ?upd (activity_events (dbs w))" and "quiet w'"
      using q by (simp_all add: w'[symmetric] quiet_def)
    have "?upd h \<in> set (activity_events (dbs w'))"
      unfolding ev set_map using h(1) by (rule imageI)
    moreover have "event_key (?upd h) = (uid, eid, pg_ts startedAt) \<and> ae_deleted (?upd h)"
      using h(2) by simp
    ultimately have "event_stored uid eid startedAt True (dbs w')"
      unfolding event_stored_def by blast
    with \<open>quiet w'\<close> res show ?thesis by simp
  qed
qed

text \<open>Storing an item leaves its key stored (and deleted, when the item says so).\<close>

lemma storeActivityEvent_quiet:
  assumes q: "quiet w" and ok: "event_ok (dbs w) arg"
    and run: "storeActivityEvent index t arg w = (r, w')"
  shows "quiet w' \<and> (case r of
      Inl e \<Rightarrow> \<exists>err\<in>abort_errors. e = Internal err
    | Inr res \<Rightarrow>
        event_storable arg \<and> r_Status res \<noteq> ''invalid'' \<and>
        event_stored (ia_UserID arg) (ia_EventID arg) (ia_StartedAt arg) (ia_Deleted arg) (dbs w'))"
proof (cases "InsertActivityEvent arg w")
  case (Pair ri w1)
  note ins = InsertActivityEvent_quiet[OF q ok Pair]
  show ?thesis
  proof (cases ri)
    case (Inr row)
    then show ?thesis using ins run Pair by (auto simp: storeActivityEvent_def push_results)
  next
    case (Inl e)
    show ?thesis
    proof (cases "e = NoRows")
      case False
      then have "e \<in> data_errors" "constraintViolationResult e = None"
        using ins Inl by (auto simp: data_errors_def constraintViolationResult_def)
      then show ?thesis using ins run Pair Inl False
        by (auto simp: storeActivityEvent_def abort_errors_def)
    next
      case True
      show ?thesis
      proof (cases "ia_Deleted arg")
        case False
        then show ?thesis using True ins run Pair Inl
          by (auto simp: storeActivityEvent_def push_results event_stored_def)
      next
        case del: True
        have t: "TombstoneActivityEvent (ia_UserID arg) (ia_EventID arg) (ia_StartedAt arg) w1 = (rt, w2)
          \<Longrightarrow> quiet w2 \<and> (rt = Inl NoRows \<or> (\<exists>e. rt = Inr e)) \<and>
              event_stored (ia_UserID arg) (ia_EventID arg) (ia_StartedAt arg) True (dbs w2)" for rt w2
          by (rule TombstoneActivityEvent_quiet) (use ins Inl True in simp_all)
        show ?thesis using True del ins run Pair Inl t
          by (auto simp: storeActivityEvent_def push_results split: prod.splits sum.splits if_splits)
      qed
    qed
  qed
qed


section \<open>Replaying a batch\<close>

text \<open>
  An item is settled in a database when applying it is a no-op there: it is invalid, or its app
  and its event are stored.  Applying an item settles it, nothing later unsettles it, and a
  settled item changes no table.
\<close>

definition settled :: "ext \<Rightarrow> uuid \<Rightarrow> string \<Rightarrow> json option \<Rightarrow> db \<Rightarrow> bool" where
  "settled x uid platform raw d \<longleftrightarrow>
     (case unmarshal_activity raw of
        None \<Rightarrow> True
      | Some data \<Rightarrow>
          (case checkActivityEvent x data of
             Inl _ \<Rightarrow> True
           | Inr (eid, startedAt, endedAt, t) \<Rightarrow>
               list_all text_ok ([platform, ad_AppBundleID data] @ opt_text (ad_WindowTitle data)) \<and>
               int4_ok (epoch_s (pg_ts endedAt - pg_ts startedAt)) \<and>
               (\<exists>a\<in>set (apps d). app_bundle_id a = ad_AppBundleID data \<and> app_platform a = platform) \<and>
               event_stored uid eid startedAt (ad_Deleted data) d))"

lemma event_stored_frame:
  assumes "push_frame u d d'" and "event_stored uid eid st del d"
  shows "event_stored uid eid st del d'"
proof -
  from assms(2) obtain e where e: "e \<in> set (activity_events d)" "event_key e = (uid, eid, pg_ts st)"
    "del \<longrightarrow> ae_deleted e" by (auto simp: event_stored_def)
  have "evolves (event_step u) (\<lambda>e. ae_user_id e = u) (activity_events d) (activity_events d')"
    using assms(1) by (simp add: push_frame_def)
  from evolves_in[OF this e(1)] obtain e' where e': "e' \<in> set (activity_events d')" "event_step u e e'"
    by blast
  then have "event_key e' = event_key e" "ae_deleted e \<longrightarrow> ae_deleted e'"
    by (auto simp: event_step_def)
  then show ?thesis using e e' unfolding event_stored_def by metis
qed

lemma settled_frame: "push_frame u d d' \<Longrightarrow> settled x uid pl raw d \<Longrightarrow> settled x uid pl raw d'"
proof -
  assume f: "push_frame u d d'" and st: "settled x uid pl raw d"
  have "set (apps d) \<subseteq> set (apps d')"
  proof -
    have "evolves (=) (\<lambda>a. app_default_category_id a = None) (apps d) (apps d')"
      using f by (simp add: push_frame_def)
    then show ?thesis using evolves_in by fastforce
  qed
  then show ?thesis using st event_stored_frame[OF f]
    by (auto simp: settled_def split: option.splits sum.splits)
qed

text \<open>The parsed fields pass the table's checks.\<close>

lemma checkActivityEvent_Inr:
  "checkActivityEvent x data = Inr (eid, st, en, t)
   \<Longrightarrow> t \<in> set activity_types \<and> ad_Precision data \<in> set activity_precisions \<and> st \<le> en"
  by (auto simp: checkActivityEvent_def defaultActivityType_def activity_types_def
      split: sum.splits option.splits if_splits)

text \<open>The caller, once the device has been found.\<close>

definition push_ctx :: "uuid \<Rightarrow> uuid \<Rightarrow> string \<Rightarrow> db \<Rightarrow> bool" where
  "push_ctx uid dev source d \<longleftrightarrow>
     store_wf d \<and> user_exists d uid \<and> device_exists d dev \<and> source \<in> set activity_sources"

lemma push_ctx_frame: "push_frame u d d' \<Longrightarrow> push_ctx uid dev src d \<Longrightarrow> push_ctx uid dev src d'"
  using store_wf_frame[of u d d'] push_frame_fields[of u d d']
  by (simp add: push_ctx_def user_exists_def device_exists_def)

lemma quiet_isolated: "quiet w \<Longrightarrow> isolated w"
  by (simp add: quiet_def isolated_def)

lemma pushes_ctx: "pushes u w w' \<Longrightarrow> quiet w \<Longrightarrow> push_ctx uid dev src (dbs w) \<Longrightarrow> push_ctx uid dev src (dbs w')"
  using push_ctx_frame quiet_isolated by (auto simp: pushes_def)

definition malformed :: "ext \<Rightarrow> json option \<Rightarrow> bool" where
  "malformed x raw \<longleftrightarrow>
     (case unmarshal_activity raw of
        None \<Rightarrow> True
      | Some data \<Rightarrow> (case checkActivityEvent x data of Inl _ \<Rightarrow> True | Inr _ \<Rightarrow> False))"

lemma applyActivityEvent_quiet:
  assumes q: "quiet w" and ctx: "push_ctx uid dev src (dbs w)"
    and run: "applyActivityEvent x uid dev pl src index raw w = (r, w')"
  shows "quiet w' \<and> (case r of
      Inl e \<Rightarrow> \<exists>err\<in>abort_errors. e = Internal err
    | Inr res \<Rightarrow> settled x uid pl raw (dbs w') \<and> (r_Status res = ''invalid'' \<longleftrightarrow> malformed x raw))"
proof (cases "unmarshal_activity raw")
  case None
  then show ?thesis using run q
    by (auto simp: applyActivityEvent_def settled_def malformed_def push_results)
next
  case (Some data)
  show ?thesis
  proof (cases "checkActivityEvent x data")
    case (Inl m)
    then show ?thesis using run q Some
      by (auto simp: applyActivityEvent_def settled_def malformed_def push_results)
  next
    case (Inr ck)
    obtain eid st en t where ck: "checkActivityEvent x data = Inr (eid, st, en, t)"
      using Inr by (cases ck) auto
    note fields = checkActivityEvent_Inr[OF ck]
    obtain ra w1 where app: "resolveApp (ad_AppBundleID data) pl w = (ra, w1)" by (rule prod.exhaust)
    note q1 = resolveApp_quiet[OF q app]
    show ?thesis
    proof (cases ra)
      case (Inl e)
      then show ?thesis using run Some ck app q1 by (auto simp: applyActivityEvent_def)
    next
      case (Inr a)
      obtain rc w2 where cat: "resolveCategory uid a w1 = (rc, w2)" by (rule prod.exhaust)
      have ctx1: "push_ctx uid dev src (dbs w1)"
        using pushes_ctx[OF framed.resolveApp[OF app, where uid = uid] q ctx] .
      then obtain c where c: "w2 = w1" "rc = Inr c" "fk_opt (category_exists (dbs w1)) c"
        using resolveCategory_quiet[OF q1(1) _ _ cat] q1(2) Inr by (auto simp: push_ctx_def)
      define arg where "arg = \<lparr>ia_EventID = eid, ia_UserID = uid, ia_DeviceID = dev,
             ia_StartedAt = st, ia_EndedAt = en, ia_Type = t,
             ia_Source = src, ia_Precision = ad_Precision data, ia_AppID = Some (app_id a),
             ia_RawBundleID = Some (ad_AppBundleID data), ia_WindowTitle = ad_WindowTitle data,
             ia_Url = None, ia_CategoryID = c, ia_ProjectID = None, ia_Deleted = ad_Deleted data\<rparr>"
      have store: "storeActivityEvent index (ad_EventID data) arg w1 = (r, w')"
        using run Some ck app Inr cat c by (simp add: applyActivityEvent_def arg_def)
      have ok: "event_ok (dbs w1) arg"
        using fields ctx1 c q1(2) Inr
        by (auto simp: event_ok_def arg_def push_ctx_def fk_opt_def app_exists_def)
      note st = storeActivityEvent_quiet[OF q1(1) ok store]
      have "pushes uid w1 w'" using framed.storeActivityEvent[OF store] by (simp add: arg_def)
      then have "push_frame uid (dbs w1) (dbs w')"
        using q1(1) quiet_isolated by (simp add: pushes_def)
      then have "set (apps (dbs w1)) \<subseteq> set (apps (dbs w'))"
        using evolves_in by (fastforce simp: push_frame_def)
      then show ?thesis
        using st Some ck q1(2) Inr
        by (auto simp: settled_def arg_def event_storable_def event_texts_def opt_text_def malformed_def
            split: sum.splits option.splits)
    qed
  qed
qed


lemma resolveApp_found:
  assumes "quiet w" and "a \<in> set (apps (dbs w))" and "app_bundle_id a = b" and "app_platform a = p"
    and "text_ok b" and "text_ok p"
  obtains a' where "resolveApp b p w = (Inr a', w)" "a' \<in> set (apps (dbs w))"
proof -
  let ?P = "\<lambda>a. app_bundle_id a = b \<and> app_platform a = p"
  have "filter ?P (apps (dbs w)) \<noteq> []" using assms(2-4) by (auto simp: filter_empty_conv)
  then obtain a' as where f: "filter ?P (apps (dbs w)) = a' # as" by (cases "filter ?P (apps (dbs w))") auto
  then have "a' \<in> set (apps (dbs w))" by (auto dest: filter_eq_ConsD)
  moreover have "resolveApp b p w = (Inr a', w)"
    using assms f by (simp add: resolveApp_def GetAppByBundleID_def quiet_def select_one_def one_row_def)
  ultimately show ?thesis using that by blast
qed

lemma event_stored_unique:
  assumes "db_keys d" and "event_stored uid eid st True d" and "e \<in> set (activity_events d)"
    and "event_key e = (uid, eid, pg_ts st)"
  shows "ae_deleted e"
proof -
  from assms(2) obtain f where f: "f \<in> set (activity_events d)" "event_key f = (uid, eid, pg_ts st)" "ae_deleted f"
    by (auto simp: event_stored_def)
  have "inj_on event_key (set (activity_events d))" using assms(1) by (simp add: db_keys_def distinct_map)
  then have "e = f" using f assms(3,4) by (metis inj_onD)
  then show ?thesis using f by simp
qed

text \<open>A stored event replayed: the insert finds the conflict, the tombstone nothing to do.\<close>

lemma storeActivityEvent_replay:
  assumes q: "quiet w" and keys: "db_keys (dbs w)" and ok: "event_ok (dbs w) arg"
    and storable: "event_storable arg"
    and st: "event_stored (ia_UserID arg) (ia_EventID arg) (ia_StartedAt arg) (ia_Deleted arg) (dbs w)"
  obtains w' where "storeActivityEvent index t arg w = (Inr (duplicateActivityEvent index t), w')"
    "quiet w'" "dbs w' = dbs w"
proof -
  let ?s = "server_seq_global w + 1"
  let ?w = "w\<lparr>server_seq_global := ?s\<rparr>"
  have ex: "\<exists>e\<in>set (activity_events (dbs w)). event_key e = (ia_UserID arg, ia_EventID arg, pg_ts (ia_StartedAt arg))"
    using st by (auto simp: event_stored_def)
  have dur: "ae_duration_s (event_row arg n seq) = epoch_s (pg_ts (ia_EndedAt arg) - pg_ts (ia_StartedAt arg))" for n seq
    by (simp add: event_row_def)
  have ins: "InsertActivityEvent arg w = (Inl NoRows, ?w)"
    using q ok storable ex
    by (simp add: InsertActivityEvent_def quiet_def event_storable_def event_texts_def event_ok_def
        next_server_seq_def Let_def event_key_row dur)
  show ?thesis
  proof (cases "ia_Deleted arg")
    case False
    show ?thesis
      by (rule that[of ?w]) (use False ins q in \<open>simp_all add: storeActivityEvent_def quiet_def\<close>)
  next
    case True
    have "filter (\<lambda>e. event_key e = (ia_UserID arg, ia_EventID arg, pg_ts (ia_StartedAt arg)) \<and> \<not> ae_deleted e)
            (activity_events (dbs w)) = []"
      using event_stored_unique[OF keys] st True by (auto simp: filter_empty_conv)
    then have "TombstoneActivityEvent (ia_UserID arg) (ia_EventID arg) (ia_StartedAt arg) ?w = (Inl NoRows, ?w)"
      using q by (simp add: TombstoneActivityEvent_def quiet_def Let_def)
    then show ?thesis
      by (intro that[of ?w]) (use True ins q in \<open>simp_all add: storeActivityEvent_def quiet_def\<close>)
  qed
qed

lemma applyActivityEvent_replay:
  assumes q: "quiet w" and ctx: "push_ctx uid dev src (dbs w)" and st: "settled x uid pl raw (dbs w)"
  obtains res w' where "applyActivityEvent x uid dev pl src index raw w = (Inr res, w')"
    "quiet w'" "dbs w' = dbs w"
    "r_Status res = (if malformed x raw then ''invalid'' else ''duplicate'')"
proof (cases "malformed x raw")
  case True
  then obtain res where "applyActivityEvent x uid dev pl src index raw w = (Inr res, w)"
    "r_Status res = ''invalid''"
    by (auto simp: malformed_def applyActivityEvent_def push_results split: option.splits sum.splits)
  then show ?thesis using that True q by simp
next
  case False
  then obtain data eid st en t where data: "unmarshal_activity raw = Some data"
    and ck: "checkActivityEvent x data = Inr (eid, st, en, t)"
    by (auto simp: malformed_def split: option.splits sum.splits)
  from st data ck obtain a where a: "a \<in> set (apps (dbs w))" "app_bundle_id a = ad_AppBundleID data"
      "app_platform a = pl"
    and txts: "list_all text_ok ([pl, ad_AppBundleID data] @ opt_text (ad_WindowTitle data))"
    and dur: "int4_ok (epoch_s (pg_ts en - pg_ts st))"
    and stored: "event_stored uid eid st (ad_Deleted data) (dbs w)"
    by (auto simp: settled_def)
  obtain a' where app: "resolveApp (ad_AppBundleID data) pl w = (Inr a', w)" "a' \<in> set (apps (dbs w))"
    by (rule resolveApp_found[OF q a]) (use txts in simp_all)
  obtain rc w2 where cat0: "resolveCategory uid a' w = (rc, w2)" by (rule prod.exhaust)
  then obtain c where cat: "resolveCategory uid a' w = (Inr c, w)" "fk_opt (category_exists (dbs w)) c"
    using resolveCategory_quiet[OF q _ app(2) cat0] ctx by (auto simp: push_ctx_def)
  define arg where "arg = \<lparr>ia_EventID = eid, ia_UserID = uid, ia_DeviceID = dev,
             ia_StartedAt = st, ia_EndedAt = en, ia_Type = t,
             ia_Source = src, ia_Precision = ad_Precision data, ia_AppID = Some (app_id a'),
             ia_RawBundleID = Some (ad_AppBundleID data), ia_WindowTitle = ad_WindowTitle data,
             ia_Url = None, ia_CategoryID = c, ia_ProjectID = None, ia_Deleted = ad_Deleted data\<rparr>"
  have ok: "event_ok (dbs w) arg"
    using checkActivityEvent_Inr[OF ck] ctx cat app
    by (auto simp: event_ok_def arg_def push_ctx_def fk_opt_def app_exists_def)
  have texts: "text_ok t" "text_ok src" "text_ok (ad_Precision data)"
    using ok by (auto simp: event_ok_def arg_def activity_types_def activity_sources_def
        activity_precisions_def text_ok_def)
  obtain w' where "storeActivityEvent index (ad_EventID data) arg w
      = (Inr (duplicateActivityEvent index (ad_EventID data)), w')" "quiet w'" "dbs w' = dbs w"
    by (rule storeActivityEvent_replay[OF q _ ok])
      (use ctx texts txts dur stored in
        \<open>auto simp: push_ctx_def store_wf_def event_storable_def event_texts_def arg_def opt_text_def\<close>)
  then show ?thesis
    using that[of "duplicateActivityEvent index (ad_EventID data)" w'] False data ck app(1) cat(1)
    by (simp add: applyActivityEvent_def arg_def push_results)
qed


section \<open>The sequential run of a focus session\<close>

lemma UpsertFocusSession_quiet:
  assumes q: "quiet w" and "up_Kind arg \<in> set focus_kinds" "up_Status arg \<in> set focus_statuses"
    and fks: "list_all snd (focus_fks (dbs w) arg)"
    and run: "UpsertFocusSession arg w = (r, w')"
  shows "quiet w' \<and> (case r of
      Inl e \<Rightarrow>
        if e = NoRows then \<exists>f\<in>set (focus_sessions (dbs w')). fs_id f = up_ID arg else e \<in> data_errors
    | Inr f \<Rightarrow> True)"
proof -
  have "fk_violation (focus_fks (dbs w) arg) = None" using fks by (simp add: fk_violation_None)
  then show ?thesis
    using run q assms(2,3)
    by (auto simp: UpsertFocusSession_def exec_txt_quiet quiet_def next_server_seq_def Let_def
        data_errors_def find_Some_iff split: if_splits option.splits intro!: bexI[OF _ nth_mem])
qed

lemma storeFocusSession_quiet:
  assumes q: "quiet w" and kinds: "up_Kind arg \<in> set focus_kinds" "up_Status arg \<in> set focus_statuses"
    and fks: "list_all snd (focus_fks (dbs w) arg)"
    and run: "storeFocusSession index t arg w = (r, w')"
  shows "quiet w' \<and> (case r of Inl e \<Rightarrow> \<exists>err\<in>data_errors. e = Internal err | Inr res \<Rightarrow> True)"
proof -
  obtain ru w1 where up: "UpsertFocusSession arg w = (ru, w1)" by (rule prod.exhaust)
  note u = UpsertFocusSession_quiet[OF q kinds fks up]
  show ?thesis
  proof (cases "ru = Inl NoRows")
    case True
    then obtain f where "f \<in> set (focus_sessions (dbs w1))" "fs_id f = up_ID arg" using u by auto
    then have "filter (\<lambda>f. fs_id f = up_ID arg) (focus_sessions (dbs w1)) \<noteq> []"
      by (auto simp: filter_empty_conv)
    then obtain g where "GetFocusSessionByID (up_ID arg) w1 = (Inr g, w1)"
      using u by (cases "filter (\<lambda>f. fs_id f = up_ID arg) (focus_sessions (dbs w1))")
        (auto simp: GetFocusSessionByID_def select_one_def one_row_def quiet_def)
    then show ?thesis using run up True u by (auto simp: storeFocusSession_def split: if_splits)
  next
    case False
    then show ?thesis using run up u
      by (auto simp: storeFocusSession_def data_errors_def constraintViolationResult_def
          split: sum.splits if_splits)
  qed
qed

lemma checkFocusSession_project:
  "quiet w \<Longrightarrow> GetProjectByIDForUser p u w = (r, w') \<Longrightarrow>
     w' = w \<and> (r = Inl NoRows \<or> (\<exists>row. r = Inr row \<and> project_exists (dbs w) p))"
  by (auto simp: GetProjectByIDForUser_def select_one_def one_row_def quiet_def project_exists_def
      split: list.splits dest!: filter_eq_ConsD)

lemma applyFocusSession_quiet:
  assumes q: "quiet w" and ctx: "push_ctx uid dev src (dbs w)"
    and run: "applyFocusSession x clock uid dev index raw w = (r, w')"
  shows "quiet w' \<and> (case r of Inl e \<Rightarrow> \<exists>err\<in>data_errors. e = Internal err | Inr res \<Rightarrow> True)"
proof (cases "unmarshal_focus raw")
  case None
  then show ?thesis using run q by (auto simp: applyFocusSession_def)
next
  case (Some data)
  show ?thesis
  proof (cases "checkFocusSession x data")
    case (Inl m)
    then show ?thesis using run q Some by (auto simp: applyFocusSession_def)
  next
    case (Inr ck)
    obtain i u s e p where ck: "checkFocusSession x data = Inr (i, u, s, e, p)"
      using Inr by (cases ck) auto
    define v where "v = clampUpdatedAt (clock index) u"
    define arg where "arg = \<lparr>up_ID = i, up_UserID = uid, up_DeviceID = dev, up_ProjectID = p,
               up_Kind = fd_Kind data, up_PlannedDurationS = fd_PlannedDurationS data,
               up_StartedAt = s, up_EndedAt = e, up_Status = fd_Status data,
               up_Note = fd_Note data, up_UpdatedAt = v,
               up_DeletedAt = (if fd_Deleted data then Some v else None)\<rparr>"
    have store: "quiet w' \<and> (case r of Inl e \<Rightarrow> \<exists>err\<in>data_errors. e = Internal err | Inr res \<Rightarrow> True)"
      if "fk_opt (project_exists (dbs w)) p" "fd_Kind data \<in> set focus_kinds"
        "fd_Status data \<in> set focus_statuses"
        "storeFocusSession index (fd_ID data) arg w = (r, w')"
      by (rule storeFocusSession_quiet[OF q _ _ _ that(4)])
        (use that ctx in \<open>simp_all add: arg_def focus_fks_def push_ctx_def\<close>)
    show ?thesis
    proof (cases p)
      case None
      then show ?thesis using run q Some ck store
        by (auto simp: applyFocusSession_def Let_def fk_opt_def arg_def v_def split: if_splits)
    next
      case (Some pid)
      obtain rp w1 where get: "GetProjectByIDForUser pid uid w = (rp, w1)" by (rule prod.exhaust)
      note g = checkFocusSession_project[OF q get]
      show ?thesis
      proof (cases rp)
        case (Inl err)
        then show ?thesis using run q \<open>unmarshal_focus raw = Some data\<close> ck Some get g
          by (auto simp: applyFocusSession_def)
      next
        case (Inr row)
        then show ?thesis using run q \<open>unmarshal_focus raw = Some data\<close> ck Some get g store
          by (auto simp: applyFocusSession_def Let_def fk_opt_def arg_def v_def split: if_splits)
      qed
    qed
  qed
qed

section \<open>The sequential run of a batch\<close>

lemma applyItem_quiet:
  assumes "quiet w" and "push_ctx uid dev src (dbs w)"
    and "applyItem x clock uid dev pl src index item w = (r, w')"
  shows "quiet w' \<and> push_ctx uid dev src (dbs w') \<and>
    (\<forall>e. r = Inl e \<longrightarrow> (\<exists>err\<in>abort_errors. e = Internal err)) \<and>
    (\<forall>res. r = Inr res \<and> EntityType item = ''activity_event'' \<longrightarrow>
       settled x uid pl (Data item) (dbs w') \<and>
       (r_Status res = ''invalid'' \<longleftrightarrow> malformed x (Data item)))"
proof -
  have "push_ctx uid dev src (dbs w')"
    by (rule pushes_ctx[OF framed.applyItem[OF assms(3)] assms(1,2)])
  moreover have "data_errors \<subseteq> abort_errors" by (auto simp: abort_errors_def)
  ultimately show ?thesis
    using assms applyActivityEvent_quiet[OF assms(1,2), of x pl index "Data item" r w']
      applyFocusSession_quiet[OF assms(1,2), of x clock index "Data item" r w']
    by (auto simp: applyItem_def split: if_splits sum.splits)
qed

lemma applyItems_quiet:
  assumes "quiet w" and "push_ctx uid dev src (dbs w)"
    and "applyItems (applyItem x clock uid dev pl src) index items w = (r, w')"
  shows "quiet w' \<and> push_ctx uid dev src (dbs w') \<and>
    (\<forall>e. r = Inl e \<longrightarrow> (\<exists>err\<in>abort_errors. e = Internal err)) \<and>
    (\<forall>rs. r = Inr rs \<longrightarrow>
       list_all2 (\<lambda>item res. EntityType item = ''activity_event'' \<longrightarrow>
         settled x uid pl (Data item) (dbs w') \<and>
         (r_Status res = ''invalid'' \<longleftrightarrow> malformed x (Data item))) items rs)"
  using assms
proof (induction items arbitrary: index w r)
  case Nil
  then show ?case by auto
next
  case (Cons item items)
  obtain r1 w1 where one: "applyItem x clock uid dev pl src index item w = (r1, w1)" by (rule prod.exhaust)
  note s = applyItem_quiet[OF Cons.prems(1,2) one]
  show ?case
  proof (cases r1)
    case (Inl e)
    then show ?thesis using s Cons.prems(3) one by auto
  next
    case (Inr res)
    obtain r2 w2 where rest: "applyItems (applyItem x clock uid dev pl src) (Suc index) items w1 = (r2, w2)"
      by (rule prod.exhaust)
    have w2: "w2 = w'" using Cons.prems(3) one Inr rest by (auto split: sum.splits)
    note ih = Cons.IH[OF _ _ rest[unfolded w2]]
    have "push_frame uid (dbs w1) (dbs w')"
      using framed.applyItems[OF rest] s w2 quiet_isolated by (auto simp: pushes_def)
    then show ?thesis
      using ih s Cons.prems(3) one Inr rest w2 settled_frame by (auto split: sum.splits)
  qed
qed

lemma applyItems_replay:
  assumes "quiet w" and "push_ctx uid dev src (dbs w)"
    and "\<forall>item\<in>set items. EntityType item = ''activity_event'' \<and> settled x uid pl (Data item) (dbs w)"
  shows "\<exists>rs w'. applyItems (applyItem x clock uid dev pl src) index items w = (Inr rs, w') \<and>
    dbs w' = dbs w \<and> quiet w' \<and>
    map r_Status rs = map (\<lambda>item. if malformed x (Data item) then ''invalid'' else ''duplicate'') items"
  using assms
proof (induction items arbitrary: index w)
  case Nil
  then show ?case by simp
next
  case (Cons item items)
  obtain res w1 where one: "applyActivityEvent x uid dev pl src index (Data item) w = (Inr res, w1)"
    "quiet w1" "dbs w1 = dbs w" "r_Status res = (if malformed x (Data item) then ''invalid'' else ''duplicate'')"
    by (rule applyActivityEvent_replay[OF Cons.prems(1,2), of x pl "Data item" index]) (use Cons.prems(3) in auto)
  have "\<exists>rs w'. applyItems (applyItem x clock uid dev pl src) (Suc index) items w1 = (Inr rs, w') \<and>
    dbs w' = dbs w1 \<and> quiet w' \<and>
    map r_Status rs = map (\<lambda>item. if malformed x (Data item) then ''invalid'' else ''duplicate'') items"
    by (rule Cons.IH) (use one Cons.prems in auto)
  then obtain rs w' where rest: "applyItems (applyItem x clock uid dev pl src) (Suc index) items w1 = (Inr rs, w')"
    "dbs w' = dbs w1" "quiet w'"
    "map r_Status rs = map (\<lambda>item. if malformed x (Data item) then ''invalid'' else ''duplicate'') items"
    by blast
  have "applyItem x clock uid dev pl src index item w = (Inr res, w1)"
    using one(1) Cons.prems(3) by (simp add: applyItem_def)
  then show ?case using one rest by (intro exI[of _ "res # rs"] exI[of _ w']) simp
qed


lemma push_Inr_run:
  assumes "quiet w" and "store_wf (dbs w)" and "parseUUID x userID = Inr uid"
    and "parseUUID x (DeviceID req) = Inr dev" and "length (Items req) \<le> maxBatchItems"
  obtains (no_device) "push x clock userID req w = (Inl ErrDeviceNotFound, w)"
      "\<forall>v\<in>set (devices (dbs w)). \<not> (dev_id v = dev \<and> dev_user_id v = uid \<and> dev_revoked_at v = None)"
  | (device) pl src where "push_ctx uid dev src (dbs w)"
      "\<And>w' clock'. quiet w' \<Longrightarrow> devices (dbs w') = devices (dbs w) \<Longrightarrow>
         push x clock' userID req w' = applyItems (applyItem x clock' uid dev pl src) 0 (Items req) w'"
proof -
  let ?P = "\<lambda>v. dev_id v = dev \<and> dev_user_id v = uid \<and> dev_revoked_at v = None"
  show ?thesis
  proof (cases "filter ?P (devices (dbs w))")
    case Nil
    show ?thesis
      by (rule no_device)
        (use Nil assms in \<open>simp_all add: push_def GetDeviceByID_def quiet_def select_one_def one_row_def
          filter_empty_conv\<close>)
  next
    case (Cons v vs)
    then have v: "v \<in> set (devices (dbs w))" "?P v" by (auto dest: filter_eq_ConsD)
    let ?src = "case platformSource (dev_platform v) of None \<Rightarrow> ''manual'' | Some s \<Rightarrow> s"
    show ?thesis
    proof (rule device)
      show "push_ctx uid dev ?src (dbs w)"
        using v assms(2)
        by (auto simp: push_ctx_def store_wf_def device_exists_def platformSource_def activity_sources_def
            split: option.splits)
      show "push x clock' userID req w' = applyItems (applyItem x clock' uid dev (dev_platform v) ?src) 0 (Items req) w'"
        if "quiet w'" "devices (dbs w') = devices (dbs w)" for w' clock'
        using Cons assms that
        by (simp add: push_def GetDeviceByID_def quiet_def select_one_def one_row_def)
    qed
  qed
qed

lemma push_Inr_args:
  "push x clock userID req w = (Inr rs, w') \<Longrightarrow>
     \<exists>uid dev. parseUUID x userID = Inr uid \<and> parseUUID x (DeviceID req) = Inr dev \<and>
       length (Items req) \<le> maxBatchItems"
  by (auto simp: push_def split: if_splits sum.splits)

text \<open>C5: replaying a batch of activity events is harmless.  When a batch has been answered, the
  same request again is answered too, no table changes at all, and every item that was applied or
  duplicate is now a duplicate, and every invalid one invalid again.\<close>

theorem push_replay_idempotent:
  assumes "quiet w" and "store_wf (dbs w)"
    and "list_all (\<lambda>item. EntityType item = ''activity_event'') (Items req)"
    and "push x clock userID req w = (Inr rs, w1)"
  shows "\<exists>rs2 w2. push x clock2 userID req w1 = (Inr rs2, w2) \<and> dbs w2 = dbs w1 \<and>
     map r_Status rs2 = map (\<lambda>r. if r_Status r = ''invalid'' then ''invalid'' else ''duplicate'') rs"
proof -
  obtain uid dev where args: "parseUUID x userID = Inr uid" "parseUUID x (DeviceID req) = Inr dev"
      "length (Items req) \<le> maxBatchItems"
    using push_Inr_args[OF assms(4)] by blast
  show ?thesis
  proof (rule push_Inr_run[OF assms(1,2) args, of clock], goal_cases)
    case 1
    then show ?thesis using assms(4) by simp
  next
    case device: (2 pl src)
    have run: "applyItems (applyItem x clock uid dev pl src) 0 (Items req) w = (Inr rs, w1)"
      using device(2)[OF assms(1) refl] assms(4) by simp
    note first = applyItems_quiet[OF assms(1) device(1) run]
    have sets: "list_all2 (\<lambda>item res. settled x uid pl (Data item) (dbs w1) \<and>
         (r_Status res = ''invalid'' \<longleftrightarrow> malformed x (Data item))) (Items req) rs"
      using first assms(3) by (auto simp: list_all2_conv_all_nth list_all_length)
    have "push_frame uid (dbs w) (dbs w1)"
      using framed.applyItems[OF run] quiet_isolated[OF assms(1)] by (simp add: pushes_def)
    then have "devices (dbs w1) = devices (dbs w)" by (rule push_frame_fields)
    then have again: "push x clock2 userID req w1
        = applyItems (applyItem x clock2 uid dev pl src) 0 (Items req) w1"
      using device(2) first by blast
    have "map (\<lambda>item. if malformed x (Data item) then ''invalid'' else ''duplicate'') (Items req)
        = map (\<lambda>r. if r_Status r = ''invalid'' then ''invalid'' else ''duplicate'') rs"
      using sets by (induction rule: list_all2_induct) auto
    moreover have "list_all (\<lambda>item. settled x uid pl (Data item) (dbs w1)) (Items req)"
      using sets by (induction rule: list_all2_induct) auto
    then have "\<forall>item\<in>set (Items req). EntityType item = ''activity_event'' \<and>
        settled x uid pl (Data item) (dbs w1)"
      using assms(3) by (simp add: list_all_iff)
    from applyItems_replay[OF _ _ this, of dev src clock2 0] first obtain rs2 w2 where
      "applyItems (applyItem x clock2 uid dev pl src) 0 (Items req) w1 = (Inr rs2, w2)" "dbs w2 = dbs w1"
      "map r_Status rs2 = map (\<lambda>item. if malformed x (Data item) then ''invalid'' else ''duplicate'') (Items req)"
      by blast
    ultimately show ?thesis using again by simp
  qed
qed

text \<open>C31: run alone on a well-formed database, with no statement failing for a reason outside the
  request, a push is refused as a whole only for its envelope (size, user, device), for a zero byte
  in a text, for an event longer than the 32-bit duration, for an application whose bundle id is too long for the
  index, or for a clash of a generated app id; any other fault of an item is that item's result.  The
  database stays well formed.\<close>

theorem push_abort_causes:
  assumes "quiet w" and "store_wf (dbs w)" and "push x clock userID req w = (r, w')"
  shows "store_wf (dbs w') \<and>
     (\<forall>e. r = Inl e \<longrightarrow>
        e = ErrBatchTooLarge \<or> e = ErrDeviceNotFound \<or>
        e = ErrValidation (Msg ''invalid authenticated user id'') \<or>
        e = Internal (PgError ''22021'' '''') \<or> e = Internal (PgError ''22003'' '''') \<or>
        e = Internal (PgError ''23505'' ''apps_pkey'') \<or> e = Internal (PgError ''54000'' ''''))"
proof (cases "maxBatchItems < length (Items req) \<or> (\<exists>d. parseUUID x userID = Inl d) \<or>
    (\<exists>d. parseUUID x (DeviceID req) = Inl d)")
  case True
  then show ?thesis using assms by (auto simp: push_def split: if_splits sum.splits)
next
  case False
  then obtain uid dev where args: "parseUUID x userID = Inr uid" "parseUUID x (DeviceID req) = Inr dev"
      "length (Items req) \<le> maxBatchItems"
    by (cases "parseUUID x userID"; cases "parseUUID x (DeviceID req)") auto
  show ?thesis
  proof (rule push_Inr_run[OF assms(1,2) args, of clock], goal_cases)
    case 1
    then show ?thesis using assms by simp
  next
    case device: (2 pl src)
    have run: "applyItems (applyItem x clock uid dev pl src) 0 (Items req) w = (r, w')"
      using device(2)[OF assms(1) refl] assms(3) by simp
    then show ?thesis
      using applyItems_quiet[OF assms(1) device(1) run]
      by (auto simp: abort_errors_def data_errors_def push_ctx_def)
  qed
qed


text \<open>C32: one event that is too long for the 32-bit duration column makes the whole batch fail,
  however valid the other items are: no request that contains it is ever answered.\<close>

theorem push_overlong_event_rejects_batch:
  assumes "quiet w" and "store_wf (dbs w)" and "item \<in> set (Items req)"
    and "EntityType item = ''activity_event''" and "unmarshal_activity (Data item) = Some data"
    and "checkActivityEvent x data = Inr (eid, st, en, t)"
    and "\<not> int4_ok (epoch_s (pg_ts en - pg_ts st))"
  shows "push x clock userID req w \<noteq> (Inr rs, w')"
proof
  assume run0: "push x clock userID req w = (Inr rs, w')"
  obtain uid dev where args: "parseUUID x userID = Inr uid" "parseUUID x (DeviceID req) = Inr dev"
      "length (Items req) \<le> maxBatchItems"
    using push_Inr_args[OF run0] by blast
  show False
  proof (rule push_Inr_run[OF assms(1,2) args, of clock], goal_cases)
    case 1
    then show ?case using run0 by simp
  next
    case device: (2 pl src)
    have run: "applyItems (applyItem x clock uid dev pl src) 0 (Items req) w = (Inr rs, w')"
      using device(2)[OF assms(1) refl] run0 by simp
    obtain i where "i < length (Items req)" "Items req ! i = item"
      using assms(3) by (auto simp: in_set_conv_nth)
    then have "settled x uid pl (Data item) (dbs w')"
      using applyItems_quiet[OF assms(1) device(1) run] assms(4) by (auto simp: list_all2_conv_all_nth)
    then show ?case using assms(5-7) by (simp add: settled_def)
  qed
qed

section \<open>Worked instances\<close>

lemma sample_db_wf: "store_wf sample_db"
  by code_simp

definition sample_batch :: pushRequest where
  "sample_batch =
     \<lparr>DeviceID = ''11'',
      Items = [sample_event ''7'' ''100'' ''200'' False, sample_event ''7'' ''100'' ''200'' True,
               sample_event ''x'' ''100'' ''200'' True, sample_event ''8'' ''300'' ''310'' False]\<rparr>"

lemma sample_batch_runs:
  "\<exists>rs w'. push sample_ext sample_clock ''1'' sample_batch (session sample_db) = (Inr rs, w') \<and>
           map r_Status rs = [''applied'', ''applied'', ''invalid'', ''applied'']"
  by (rule run_Inr) code_simp

lemma push_replay_idempotent_witness:
  "\<exists>rs w1 rs2 w2. push sample_ext sample_clock ''1'' sample_batch (session sample_db) = (Inr rs, w1) \<and>
     push sample_ext sample_clock ''1'' sample_batch w1 = (Inr rs2, w2) \<and> dbs w2 = dbs w1 \<and>
     map r_Status rs2 = [''duplicate'', ''duplicate'', ''invalid'', ''duplicate'']"
proof -
  obtain rs w1 where run: "push sample_ext sample_clock ''1'' sample_batch (session sample_db) = (Inr rs, w1)"
    "map r_Status rs = [''applied'', ''applied'', ''invalid'', ''applied'']"
    using sample_batch_runs by (elim exE conjE)
  have "list_all (\<lambda>item. EntityType item = ''activity_event'') (Items sample_batch)"
    by (simp add: sample_batch_def sample_event_def)
  from push_replay_idempotent[OF session_quiet(1) _ this run(1), of sample_clock]
  obtain rs2 w2 where r2: "push sample_ext sample_clock ''1'' sample_batch w1 = (Inr rs2, w2)" "dbs w2 = dbs w1"
    "map r_Status rs2 = map (\<lambda>r. if r_Status r = ''invalid'' then ''invalid'' else ''duplicate'') rs"
    using sample_db_wf by auto
  have "map (\<lambda>r. if r_Status r = ''invalid'' then ''invalid'' else ''duplicate'') rs
      = map (\<lambda>s. if s = ''invalid'' then ''invalid'' else ''duplicate'') (map r_Status rs)"
    by simp
  then show ?thesis using run r2 by (simp only: run(2)) auto
qed

lemma push_events_append_only_witness:
  "\<exists>rs w1 r w2. push sample_ext sample_clock ''1'' sample_batch (session sample_db) = (Inr rs, w1) \<and>
     push sample_ext sample_clock ''1'' sample_batch w1 = (r, w2) \<and>
     ae_event_id (activity_events (dbs w2) ! 0) = ae_event_id (activity_events (dbs w1) ! 0)"
proof -
  have u: "parseUUID sample_ext ''1'' = Inr 1" by code_simp
  let ?p = "push sample_ext sample_clock ''1'' sample_batch (session sample_db)"
  have len: "length (activity_events (dbs (snd ?p))) = 2" "hazards (snd ?p) = []" by code_simp+
  obtain rs w1 where run: "?p = (Inr rs, w1)" using sample_batch_runs by (elim exE conjE)
  obtain r w2 where again: "push sample_ext sample_clock ''1'' sample_batch w1 = (r, w2)"
    by (rule prod.exhaust)
  have "isolated w1" and "0 < length (activity_events (dbs w1))"
    using len run by (simp_all add: isolated_def)
  from push_events_append_only[OF u this(1) again this(2)]
  have "ae_event_id (activity_events (dbs w2) ! 0) = ae_event_id (activity_events (dbs w1) ! 0)"
    unfolding Let_def by (elim conjE disjE) (simp, drule arg_cong[where f = ae_event_id], simp)
  then show ?thesis using run again by (intro exI conjI)
qed

text \<open>On a database whose index takes eight characters the application is refused, and the batch with it.\<close>

definition narrow_db :: db where
  "narrow_db = sample_db\<lparr>index_fits := (\<lambda>ks. length (concat ks) \<le> 8)\<rparr>"

lemma push_abort_causes_witness:
  "\<exists>e w'. push sample_ext sample_clock ''1'' sample_batch (session narrow_db) = (Inl e, w') \<and>
     e = Internal (PgError ''54000'' '''') \<and> store_wf (dbs w')"
proof -
  have "case push sample_ext sample_clock ''1'' sample_batch (session narrow_db) of
      (Inl e, w) \<Rightarrow> e = Internal (PgError ''54000'' '''') | _ \<Rightarrow> False" by code_simp
  then obtain w' where run: "push sample_ext sample_clock ''1'' sample_batch (session narrow_db) =
      (Inl (Internal (PgError ''54000'' '''')), w')" by (auto split: prod.splits sum.splits)
  have "store_wf (dbs (session narrow_db))" using sample_db_wf by (simp add: narrow_db_def store_wf_def db_keys_def user_exists_def category_exists_def[abs_def])
  from push_abort_causes[OF session_quiet(1) this run] run show ?thesis by blast
qed

text \<open>An event of seventy years, alone in its batch.\<close>

lemma push_overlong_event_rejects_batch_witness:
  "push sample_ext sample_clock ''1''
     \<lparr>DeviceID = ''11'', Items = [sample_event ''7'' ''0'' ''2207520000'' False]\<rparr> (session sample_db)
   \<noteq> (Inr [], session sample_db)"
proof -
  let ?item = "sample_event ''7'' ''0'' ''2207520000'' False"
  let ?data = "\<lparr>ad_EventID = ''7'', ad_StartedAt = ''0'', ad_EndedAt = ''2207520000'',
          ad_AppBundleID = ''com.app'', ad_WindowTitle = None, ad_Precision = ''exact'',
          ad_Type = Some ''app_active'', ad_Deleted = False\<rparr>"
  have i: "?item \<in> set (Items \<lparr>DeviceID = ''11'', Items = [?item]\<rparr>)" by simp
  have e: "EntityType ?item = ''activity_event''" by (simp add: sample_event_def)
  have d: "unmarshal_activity (Data ?item) = Some ?data" by code_simp
  have c: "checkActivityEvent sample_ext ?data = Inr (7, 0, 2207520000 * 10 ^ 9, ''app_active'')"
    by (simp add: checkActivityEvent_def parseUUID_def sample_ext_def char_digit_def
        activity_precisions_def activity_types_def)
  have o: "\<not> int4_ok (epoch_s (pg_ts (2207520000 * 10 ^ 9) - pg_ts 0))" by code_simp
  show ?thesis
    by (rule push_overlong_event_rejects_batch[OF session_quiet(1) _ i e d c o])
      (simp only: session_quiet sample_db_wf)
qed

end
