(* ===== verification/AuthProps.thy ===== *)
theory AuthProps
  imports Auth Sample
begin

text \<open>
  Sessions: what a refresh, a logout and a device revocation do to the stored tokens, on every
  path and whatever statement fails.
\<close>

section \<open>Statements of a transaction\<close>

lemma begin_Inr:
  "isolated w \<Longrightarrow> begin_tx w = (Inr u, w1) \<Longrightarrow> isolated w1 \<and> in_tx w1 \<and> dbs w1 = dbs w"
  using begin_isolated[of w "Inr u" w1] by simp

lemma select_tx_Inr:
  assumes "in_tx w" and "exec (select_one tab P) w = (Inr r, w')"
  shows "same_tables w w' \<and> (\<exists>rs. filter P (tab (dbs w)) = r # rs)"
  by (rule exec_tx_Inr[OF assms])
    (auto simp: select_one_def one_row_def same_tables_def split: list.splits)

lemma update_all_tx_Inr:
  assumes "in_tx w" and "exec (\<lambda>w. update_all upd_tab P (f (pg_now w)) w) w = (Inr u, w')"
  shows "\<exists>now. in_tx w' \<and> dbs w' = upd_tab (update_where P (f now)) (dbs w)"
proof -
  obtain v where "same_tables w v" "update_all upd_tab P (f (pg_now v)) v = (Inr u, w')"
    using exec_tx_Inr[OF assms] by blast
  then show ?thesis using assms(1) by (auto simp: update_all_def same_tables_def)
qed

text \<open>A read, waiting or not, when no other session commits.\<close>

lemma exec_read_isolated:
  assumes "isolated w" and "exec (select_one tab P) w = (r, w')"
  shows "isolated w' \<and> same_tables w w' \<and> (\<forall>a. r = Inr a \<longrightarrow> (\<exists>rs. filter P (tab (dbs w)) = a # rs))"
  by (rule exec_isolated[OF assms])
    (auto simp: isolated_def same_tables_def select_one_def one_row_def split: list.splits)

lemma exec_blocking_isolated:
  assumes "isolated w" and "exec_blocking (select_one tab P) w = (r, w')"
  shows "isolated w' \<and> same_tables w w' \<and> (\<forall>a. r = Inr a \<longrightarrow> (\<exists>rs. filter P (tab (dbs w)) = a # rs))"
proof -
  obtain w1 where w1: "exec (select_one tab P) (w\<lparr>in_tx := False\<rparr>) = (r, w1)" "w' = w1\<lparr>in_tx := in_tx w\<rparr>"
    using assms(2) by (auto simp: exec_blocking_def split: prod.splits)
  have "isolated (w\<lparr>in_tx := False\<rparr>)" using assms(1) by (simp add: isolated_def)
  from exec_read_isolated[OF this w1(1)] show ?thesis
    using w1(2) by (auto simp: isolated_def same_tables_def)
qed

lemma savepoint_isolated:
  "isolated w \<Longrightarrow> savepoint w = (r, w') \<Longrightarrow> isolated w' \<and> same_tables w w'"
  unfolding savepoint_def by (rule exec_isolated) (auto simp: isolated_def same_tables_def)

section \<open>Refresh\<close>

text \<open>The row a presented token selects.\<close>

definition presented :: "crypto \<Rightarrow> string \<Rightarrow> db \<Rightarrow> refresh_token \<Rightarrow> bool" where
  "presented c token0 d t \<longleftrightarrow>
     (\<exists>rs. filter (\<lambda>t. rt_token_hash t = HashRefreshToken c (TrimSpace token0)) (refresh_tokens d) = t # rs)"

definition lock_outcome :: "string \<Rightarrow> world \<Rightarrow> auth_error + bool \<times> refresh_token \<Rightarrow> world \<Rightarrow> bool" where
  "lock_outcome h w r w' \<longleftrightarrow>
     isolated w' \<and> same_tables w w' \<and> r \<noteq> Inl ErrRefreshTokenReuse \<and>
     (\<forall>b t. r = Inr (b, t) \<longrightarrow> (\<exists>rs. filter (\<lambda>t. rt_token_hash t = h) (refresh_tokens (dbs w)) = t # rs))"

lemma refresh_lock_isolated:
  assumes iso: "isolated w" and run: "refresh_lock h w = (r, w')"
  shows "lock_outcome h w r w'"
  using run unfolding refresh_lock_def
proof (cases rule: andthen_cases)
  case (stop e)
  then show ?thesis using savepoint_isolated[OF iso, of "fst (savepoint w)" "snd (savepoint w)"]
    by (auto simp: wrapped_def lock_outcome_def split: prod.splits sum.splits)
next
  case (go u w1)
  then have w1: "isolated w1" "same_tables w w1"
    using savepoint_isolated[OF iso] by (auto simp: step_Inr)
  obtain r2 w2 where g: "GetRefreshTokenByHashForUpdateNoWait h w1 = (r2, w2)" by (rule prod.exhaust)
  note w2 = exec_read_isolated[OF w1(1) g[unfolded GetRefreshTokenByHashForUpdateNoWait_def]]
  obtain r3 w3 where sp: "savepoint w2 = (r3, w3)" by (rule prod.exhaust)
  have w3: "isolated w3" "same_tables w w3"
    using savepoint_isolated[OF _ sp] w1 w2 by (auto simp: same_tables_def)
  obtain r4 w4 where q: "GetRefreshTokenByHashForUpdate h w3 = (r4, w4)" by (rule prod.exhaust)
  note w4 = exec_blocking_isolated[OF w3(1) q[unfolded GetRefreshTokenByHashForUpdate_def]]
  show ?thesis
  proof (cases r2)
    case (Inr t)
    have "\<exists>rs. filter (\<lambda>t. rt_token_hash t = h) (refresh_tokens (dbs w)) = t # rs"
      using w2 w1(2) Inr by (simp add: same_tables_def)
    then show ?thesis using go(2) g sp w3 Inr
      by (cases r3) (auto simp: lock_outcome_def)
  next
    case (Inl e)
    have "lock_outcome h w r w'"
      if "andthen (no_rows_as ErrInvalidRefreshToken m (GetRefreshTokenByHashForUpdate h w3))
          (\<lambda>current w. (Inr (True, current), w)) = (r, w')" for m
      using that q w3(2) w4 by (cases r4) (auto simp: lock_outcome_def same_tables_def split: if_splits)
    then show ?thesis using go(2) g sp w3 Inl
      by (cases e) (auto simp: lock_outcome_def split: if_splits)
  qed
qed

text \<open>The operations on sessions write two tables.\<close>

definition session_frame :: "db \<Rightarrow> db \<Rightarrow> bool" where
  "session_frame d d' \<longleftrightarrow>
     users d' = users d \<and> apps d' = apps d \<and> user_app_settings d' = user_app_settings d \<and>
     categories d' = categories d \<and> projects d' = projects d \<and> tags d' = tags d \<and>
     activity_events d' = activity_events d \<and> focus_sessions d' = focus_sessions d \<and>
     changelog d' = changelog d \<and> horizon d' = horizon d"

text \<open>The writes of the transaction, when they succeed.\<close>

lemma CreateRefreshToken_tx_Inr:
  assumes "in_tx w" and "CreateRefreshToken arg w = (Inr t, w')"
  shows "in_tx w' \<and> refresh_tokens (dbs w') = refresh_tokens (dbs w) @ [t] \<and> devices (dbs w') = devices (dbs w) \<and>
    session_frame (dbs w) (dbs w') \<and> \<not> token_exists (dbs w) (rt_id t) \<and> (\<exists>i now. t = token_row arg i now)"
proof -
  obtain v where v: "same_tables w v" and q: "(case gen_random_uuid v of (i, w) \<Rightarrow>
         let d = dbs w; row = token_row arg i (pg_now w) in
         if token_exists d i then (Inl (PgError ''23505'' ''refresh_tokens_pkey''), w)
         else case fk_violation
                [(''refresh_tokens_user_id_fkey'', user_exists d (crt_UserID arg)),
                 (''refresh_tokens_device_id_fkey'', device_exists d (crt_DeviceID arg))] of
           Some c \<Rightarrow> (Inl (PgError ''23503'' c), w)
         | None \<Rightarrow> (Inr row, w\<lparr>dbs := d\<lparr>refresh_tokens := refresh_tokens d @ [row]\<rparr>\<rparr>)) = (Inr t, w')"
    using exec_tx_Inr[OF assms(1) assms(2)[unfolded CreateRefreshToken_def]] by blast
  have "rt_id (token_row arg i now) = i" for i now by (simp add: token_row_def)
  then show ?thesis using v q assms(1)
    by (auto simp: gen_random_uuid_def Let_def same_tables_def session_frame_def split: if_splits option.splits)
qed

lemma UpdateDeviceMetadata_tx_Inr:
  assumes "in_tx w" and "UpdateDeviceMetadata i uid p w = (Inr d, w')"
  shows "in_tx w' \<and> refresh_tokens (dbs w') = refresh_tokens (dbs w) \<and> session_frame (dbs w) (dbs w')"
  by (rule exec_txt_tx_Inr[OF assms(1) assms(2)[unfolded UpdateDeviceMetadata_def]])
    (use assms(1) in \<open>auto simp: update_one_def same_tables_def session_frame_def split: list.splits\<close>)

lemma RotateRefreshToken_tx_Inr:
  assumes "in_tx w" and "RotateRefreshToken i j w = (Inr t, w')"
  shows "in_tx w' \<and> devices (dbs w') = devices (dbs w) \<and> session_frame (dbs w) (dbs w') \<and>
    (\<exists>now. refresh_tokens (dbs w') =
      update_where (\<lambda>t. rt_id t = i \<and> live_token t) (\<lambda>t. (revoke_at now t)\<lparr>rt_replaced_by := Some j\<rparr>)
        (refresh_tokens (dbs w)))"
  by (rule exec_tx_Inr[OF assms(1) assms(2)[unfolded RotateRefreshToken_def]])
    (use assms(1) in \<open>auto simp: update_one_def same_tables_def Let_def session_frame_def split: list.splits if_splits\<close>)

lemma RevokeRefreshTokenFamily_tx_Inr:
  assumes "in_tx w" and "RevokeRefreshTokenFamily fam w = (Inr u, w')"
  shows "in_tx w' \<and> devices (dbs w') = devices (dbs w) \<and> session_frame (dbs w) (dbs w') \<and>
    (\<exists>now. refresh_tokens (dbs w') =
      update_where (\<lambda>t. rt_family_id t = fam \<and> live_token t) (revoke_at now) (refresh_tokens (dbs w)))"
  using update_all_tx_Inr[OF assms(1) assms(2)[unfolded RevokeRefreshTokenFamily_def]]
  by (auto simp: session_frame_def)

lemma read_tx_Inr:
  "in_tx w \<Longrightarrow> GetUserByID i w = (Inr u, w') \<Longrightarrow> same_tables w w'"
  "in_tx w \<Longrightarrow> GetDeviceByID i uid w = (Inr d, w') \<Longrightarrow> same_tables w w'"
  unfolding GetUserByID_def GetDeviceByID_def by (blast dest: select_tx_Inr)+

text \<open>
  The two outcomes that commit.  A rotation stores one live token of the same family, user and
  device, and consumes the presented one; a reuse revokes the family.
\<close>

definition rotated :: "crypto \<Rightarrow> string \<Rightarrow> refresh_token \<Rightarrow> refresh_token \<Rightarrow> db \<Rightarrow> db \<Rightarrow> bool" where
  "rotated c tok current new d d' \<longleftrightarrow>
     live_token new \<and> rt_family_id new = rt_family_id current \<and> rt_user_id new = rt_user_id current \<and>
     rt_device_id new = rt_device_id current \<and> rt_token_hash new = HashRefreshToken c tok \<and>
     \<not> token_exists d (rt_id new) \<and> session_frame d d' \<and>
     (\<exists>now. refresh_tokens d' =
        update_where (\<lambda>t. rt_id t = rt_id current \<and> live_token t)
          (\<lambda>t. (revoke_at now t)\<lparr>rt_replaced_by := Some (rt_id new)\<rparr>) (refresh_tokens d) @ [new])"

definition family_revoked :: "uuid \<Rightarrow> db \<Rightarrow> db \<Rightarrow> bool" where
  "family_revoked fam d d' \<longleftrightarrow>
     session_frame d d' \<and> devices d' = devices d \<and>
     (\<exists>now. refresh_tokens d' =
        update_where (\<lambda>t. rt_family_id t = fam \<and> live_token t) (revoke_at now) (refresh_tokens d))"

lemma refresh_replacement_Inr:
  assumes tx: "in_tx w" and run: "refresh_replacement c device current w = (Inr (u, d, tok, new), w')"
  shows "in_tx w' \<and> \<not> rt_expires_at current < clock c 0 \<and>
    refresh_tokens (dbs w') = refresh_tokens (dbs w) @ [new] \<and> session_frame (dbs w) (dbs w') \<and>
    \<not> token_exists (dbs w) (rt_id new) \<and> live_token new \<and> rt_family_id new = rt_family_id current \<and>
    rt_user_id new = rt_user_id current \<and> rt_device_id new = rt_device_id current \<and>
    rt_token_hash new = HashRefreshToken c tok"
proof -
  obtain w1 d0 w2 w3 where ex: "\<not> rt_expires_at current < clock c 0"
    and u: "GetUserByID (rt_user_id current) w = (Inr u, w1)"
    and d0: "GetDeviceByID (rt_device_id current) (rt_user_id current) w1 = (Inr d0, w2)"
    and d: "refresh_device device current d0 w2 = (Inr d, w3)"
    and new: "CreateRefreshToken \<lparr>crt_UserID = rt_user_id current, crt_DeviceID = rt_device_id current,
        crt_TokenHash = HashRefreshToken c tok, crt_FamilyID = rt_family_id current,
        crt_ExpiresAt = clock c 0 + RefreshTokenTTL\<rparr> w3 = (Inr new, w')"
    using run by (auto simp: refresh_replacement_def step_Inr split: if_splits)
  have w2: "same_tables w w2" "in_tx w2"
    using read_tx_Inr(1)[OF tx u] read_tx_Inr(2)[OF _ d0] tx by (auto simp: same_tables_def)
  have w3: "in_tx w3" "refresh_tokens (dbs w3) = refresh_tokens (dbs w)" "session_frame (dbs w) (dbs w3)"
    using d w2 UpdateDeviceMetadata_tx_Inr[OF w2(2)]
    by (auto simp: refresh_device_def step_Inr same_tables_def session_frame_def split: option.splits)
  show ?thesis using CreateRefreshToken_tx_Inr[OF w3(1) new] w3 ex
    by (auto simp: token_row_def live_token_def token_exists_def session_frame_def)
qed

lemma refresh_rotate_Inr:
  assumes tx: "in_tx w" and run: "refresh_rotate x c device current w = (Inr res, w')"
    and cur: "current \<in> set (refresh_tokens (dbs w))"
  shows "\<not> rt_expires_at current < clock c 0 \<and>
    (\<exists>new. rotated c (RefreshToken (res_Tokens res)) current new (dbs w) (dbs w'))"
proof -
  obtain u d tok new w1 t w2 access w3 where
    rep: "refresh_replacement c device current w = (Inr (u, d, tok, new), w1)" and
    rot: "RotateRefreshToken (rt_id current) (rt_id new) w1 = (Inr t, w2)" and
    com: "commit_tx w2 = (Inr (), w')" and res: "res = newResult u d access tok"
    using run by (auto simp: refresh_rotate_def step_Inr)
  note r = refresh_replacement_Inr[OF tx rep]
  note o = RotateRefreshToken_tx_Inr[OF conjunct1[OF r] rot]
  have "rt_id new \<noteq> rt_id current" using r cur by (auto simp: token_exists_def)
  moreover have "dbs w' = dbs w2" using commit_Inr[OF com] o by simp
  ultimately show ?thesis using r o res
    by (auto simp: rotated_def newResult_def session_frame_def intro!: exI[of _ new])
qed

lemma refresh_rotate_Inl: "refresh_rotate x c device current w \<noteq> (Inl ErrRefreshTokenReuse, w')"
  by (auto simp: refresh_rotate_def refresh_replacement_def refresh_device_def validate_def step_Inl
      split: if_splits option.splits)

lemma refresh_reuse_cases:
  assumes tx: "in_tx w" and run: "refresh_reuse current w = (r, w')"
  shows "\<exists>e. r = Inl e \<and> (e = ErrRefreshTokenReuse \<longrightarrow> family_revoked (rt_family_id current) (dbs w) (dbs w'))"
  using run unfolding refresh_reuse_def
proof (cases rule: andthen_cases)
  case (stop e)
  then show ?thesis by (auto simp: wrapped_Inl)
next
  case (go u w1)
  then have rev: "RevokeRefreshTokenFamily (rt_family_id current) w = (Inr u, w1)" by (simp add: wrapped_Inr)
  note r = RevokeRefreshTokenFamily_tx_Inr[OF tx rev]
  from go(2) show ?thesis
  proof (cases rule: andthen_cases)
    case (stop e)
    then show ?thesis by (auto simp: wrapped_Inl)
  next
    case (go v w2)
    then have "commit_tx w1 = (Inr v, w2)" by (simp add: wrapped_Inr)
    then have "dbs w2 = dbs w1" using commit_Inr r by blast
    then show ?thesis using go(2) r by (auto simp: family_revoked_def)
  qed
qed

lemma presented_in: "presented c tok d t \<Longrightarrow> t \<in> set (refresh_tokens d) \<and> rt_token_hash t = HashRefreshToken c (TrimSpace tok)"
  unfolding presented_def by (metis (mono_tags, lifting) Cons_eq_filterD in_set_conv_decomp)

lemma Refresh_outcome:
  assumes "isolated w" and "Pool_set s" and "Refresh x s c tok device w = (r, w')"
  shows "case r of
      Inr res \<Rightarrow> \<exists>current new. presented c tok (dbs w) current \<and> live_token current \<and>
        \<not> rt_expires_at current < clock c 0 \<and>
        rotated c (RefreshToken (res_Tokens res)) current new (dbs w) (dbs w')
    | Inl e \<Rightarrow>
        if e = ErrRefreshTokenReuse then
          \<exists>current. presented c tok (dbs w) current \<and> \<not> live_token current \<and>
            family_revoked (rt_family_id current) (dbs w) (dbs w')
        else dbs w' = dbs w"
proof (cases "TrimSpace tok = []")
  case True
  then show ?thesis using assms(3) by (auto simp: Refresh_def)
next
  case False
  let ?h = "HashRefreshToken c (TrimSpace tok)"
  have "refreshTx x c (TrimSpace tok) device w = (r, w')" using assms(2,3) False by (simp add: Refresh_def)
  then show ?thesis unfolding refreshTx_def
  proof (cases rule: andthen_cases)
    case (stop e)
    then show ?thesis using begin_isolated[OF assms(1), of "fst (begin_tx w)" "snd (begin_tx w)"]
      by (auto simp: wrapped_Inl)
  next
    case (go u w1)
    then have w1: "isolated w1" "in_tx w1" "dbs w1 = dbs w"
      using begin_Inr[OF assms(1)] by (auto simp: wrapped_Inr)
    obtain r2 w2 where lk: "refresh_lock ?h w1 = (r2, w2)" by (rule prod.exhaust)
    note o = refresh_lock_isolated[OF w1(1) lk]
    have w2: "dbs w2 = dbs w" "in_tx w2" using o w1 by (auto simp: lock_outcome_def same_tables_def)
    show ?thesis
    proof (cases r2)
      case (Inl e)
      then show ?thesis using go(2) lk o w2 by (auto simp: lock_outcome_def)
    next
      case (Inr bt)
      then obtain b t where bt: "r2 = Inr (b, t)" by (cases bt) simp
      have p: "presented c tok (dbs w) t" using o bt w1(3) by (simp add: lock_outcome_def presented_def)
      obtain r3 w3 where body: "refresh_body x c device (b, t) w2 = (r3, w3)" by (rule prod.exhaust)
      have res: "r = r3 \<and> dbs w' = (case r3 of Inl e \<Rightarrow> if e = ErrRefreshTokenReuse then dbs w3 else dbs w | Inr _ \<Rightarrow> dbs w3)"
        using go(2) lk bt body w2 by (cases r3) (auto simp: rollback_to_def)
      show ?thesis
      proof (cases "live_token t")
        case True
        then have rot: "refresh_rotate x c device t w2 = (r3, w3)" using body by (simp add: refresh_body_def)
        show ?thesis
          using refresh_rotate_Inr[OF w2(2), of x c device t] refresh_rotate_Inl rot res p presented_in[OF p] w2 True
          by (cases r3) auto
      next
        case False
        show ?thesis
        proof (cases b)
          case True
          then show ?thesis using body res False w2(1) by (auto simp: refresh_body_def)
        next
          case nb: False
          have r3: "refresh_reuse t w2 = (r3, w3)" using body False nb by (simp add: refresh_body_def)
          show ?thesis using refresh_reuse_cases[OF w2(2) r3] res p False w2(1) by auto
        qed
      qed
    qed
  qed
qed

text \<open>C10: a refresh is one of three things.  It answers with a new token, and then the presented
  row was live and unexpired, is consumed, points at the replacement, and the replacement is a live
  token of the same family, user and device; or it answers reuse, and then the presented row was
  already revoked and every token of its family is; or it fails, at whatever statement, and the
  tables are as they were.\<close>

theorem refresh_all_or_nothing:
  assumes "isolated w" and "Pool_set s" and "Refresh x s c tok device w = (r, w')"
  shows "case r of
      Inr res \<Rightarrow> \<exists>current new. presented c tok (dbs w) current \<and> live_token current \<and>
        \<not> rt_expires_at current < clock c 0 \<and>
        rotated c (RefreshToken (res_Tokens res)) current new (dbs w) (dbs w')
    | Inl e \<Rightarrow>
        if e = ErrRefreshTokenReuse then
          \<exists>current. presented c tok (dbs w) current \<and> \<not> live_token current \<and>
            family_revoked (rt_family_id current) (dbs w) (dbs w')
        else dbs w' = dbs w"
  by (rule Refresh_outcome[OF assms])

text \<open>Consuming a token and revoking a family, seen row by row.\<close>

lemma rotated_presented:
  assumes p: "presented c tok d current" and r: "rotated c t current new d d'"
  shows "\<exists>cur. presented c tok d' cur \<and> \<not> live_token cur \<and> rt_family_id cur = rt_family_id current"
proof -
  let ?P = "\<lambda>t. rt_token_hash t = HashRefreshToken c (TrimSpace tok)"
  obtain rs where rs: "filter ?P (refresh_tokens d) = current # rs" using p by (auto simp: presented_def)
  obtain now where d': "refresh_tokens d' = update_where (\<lambda>t. rt_id t = rt_id current \<and> live_token t)
          (\<lambda>t. (revoke_at now t)\<lparr>rt_replaced_by := Some (rt_id new)\<rparr>) (refresh_tokens d) @ [new]"
    using r by (auto simp: rotated_def)
  let ?u = "\<lambda>t. if rt_id t = rt_id current \<and> live_token t
      then (revoke_at now t)\<lparr>rt_replaced_by := Some (rt_id new)\<rparr> else t"
  have "filter ?P (map ?u xs) = map ?u (filter ?P xs)" for xs
    by (induction xs) (auto simp: revoke_at_def)
  then have "filter ?P (refresh_tokens d') = ?u current # map ?u rs @ filter ?P [new]"
    using rs by (simp add: d' update_where_def)
  then have "presented c tok d' (?u current)" by (simp add: presented_def)
  then show ?thesis by (rule exI[of _ "?u current", OF conjI]) (auto simp: live_token_def revoke_at_def)
qed

lemma family_revoked_dead:
  "family_revoked fam d d' \<Longrightarrow> t \<in> set (refresh_tokens d') \<Longrightarrow> rt_family_id t = fam \<Longrightarrow> \<not> live_token t"
proof -
  assume f: "family_revoked fam d d'" and t: "t \<in> set (refresh_tokens d')" and fam: "rt_family_id t = fam"
  obtain now where "t \<in> (\<lambda>t. if rt_family_id t = fam \<and> live_token t then revoke_at now t else t) ` set (refresh_tokens d)"
    using f t by (auto simp: family_revoked_def set_update_where)
  then obtain t0 where "t = (if rt_family_id t0 = fam \<and> live_token t0 then revoke_at now t0 else t0)" by blast
  then show ?thesis using fam by (cases "rt_family_id t0 = fam \<and> live_token t0") (auto simp: live_token_def revoke_at_def)
qed

section \<open>A token presented twice\<close>

lemma refresh_reused_quiet:
  assumes "quiet v" and "Pool_set s" and "presented c tok (dbs v) cur" and "\<not> live_token cur"
    and "TrimSpace tok \<noteq> []"
  shows "\<exists>v'. Refresh x s c tok device v = (Inl ErrRefreshTokenReuse, v') \<and>
    family_revoked (rt_family_id cur) (dbs v) (dbs v')"
proof -
  obtain rs where rs: "filter (\<lambda>t. rt_token_hash t = HashRefreshToken c (TrimSpace tok)) (refresh_tokens (dbs v)) = cur # rs"
    using assms(3) by (auto simp: presented_def)
  have q: "hazards v = []" using assms(1) by (simp add: quiet_def)
  show ?thesis using assms(2,4,5) q rs
    by (simp add: Refresh_def refreshTx_def begin_tx_def refresh_lock_def savepoint_def
        GetRefreshTokenByHashForUpdateNoWait_def select_one_def one_row_def refresh_body_def refresh_reuse_def
        RevokeRefreshTokenFamily_def update_all_def commit_tx_def family_revoked_def session_frame_def)
      blast
qed

lemma update_where_kept:
  assumes "t \<in> set ts" and "\<And>t. f (upd t) = f t" and "\<And>t. g (upd t) = g t"
  shows "\<exists>t'\<in>set (update_where P upd ts). f t' = f t \<and> g t' = g t"
  using assms by (intro bexI[of _ "if P t then upd t else t"]) (auto simp: set_update_where)

text \<open>C7: a refresh token works once.  After a refresh has answered, presenting the same token
  again is answered with reuse, and from then on no token of the family is live, the one the first
  refresh handed out included.\<close>

theorem refresh_token_single_use:
  assumes "isolated w" and "Pool_set s" and "Refresh x s c tok device w = (Inr res, w1)"
    and "quiet v" and "dbs v = dbs w1" and "Refresh x s c tok device' v = (r, v')"
  shows "r = Inl ErrRefreshTokenReuse \<and>
    (\<exists>fam. (\<forall>t\<in>set (refresh_tokens (dbs v')). rt_family_id t = fam \<longrightarrow> \<not> live_token t) \<and>
      (\<exists>t\<in>set (refresh_tokens (dbs v')). rt_family_id t = fam \<and>
         rt_token_hash t = HashRefreshToken c (RefreshToken (res_Tokens res))))"
proof -
  have ne: "TrimSpace tok \<noteq> []" using assms(3) by (auto simp: Refresh_def)
  obtain current new where p: "presented c tok (dbs w) current"
    and rot: "rotated c (RefreshToken (res_Tokens res)) current new (dbs w) (dbs w1)"
    using Refresh_outcome[OF assms(1,2,3)] by auto
  obtain cur where cur: "presented c tok (dbs v) cur" "\<not> live_token cur" "rt_family_id cur = rt_family_id current"
    using rotated_presented[OF p rot] assms(5) by auto
  have r: "r = Inl ErrRefreshTokenReuse" and rev: "family_revoked (rt_family_id cur) (dbs v) (dbs v')"
    using refresh_reused_quiet[OF assms(4,2) cur(1,2) ne, of x device'] assms(6) by auto
  have new: "new \<in> set (refresh_tokens (dbs v))" using rot assms(5) by (auto simp: rotated_def)
  obtain now where "refresh_tokens (dbs v') = update_where (\<lambda>t. rt_family_id t = rt_family_id cur \<and> live_token t)
      (revoke_at now) (refresh_tokens (dbs v))"
    using rev by (auto simp: family_revoked_def)
  with new have "\<exists>t\<in>set (refresh_tokens (dbs v')). rt_family_id t = rt_family_id new \<and> rt_token_hash t = rt_token_hash new"
    using update_where_kept[of new "refresh_tokens (dbs v)" rt_family_id "revoke_at now" rt_token_hash]
    by (simp add: revoke_at_def)
  then show ?thesis
    using r family_revoked_dead[OF rev] cur(3) rot by (intro conjI exI[of _ "rt_family_id cur"]) (auto simp: rotated_def)
qed

section \<open>A worked session\<close>

definition account :: "uuid \<Rightarrow> string \<Rightarrow> string option \<Rightarrow> user" where
  "account i email h = (sample_user i ''user'')\<lparr>us_email := Some email, us_password_hash := h\<rparr>"

definition sample_token :: "uuid \<Rightarrow> uuid \<Rightarrow> uuid \<Rightarrow> string \<Rightarrow> refresh_token" where
  "sample_token i uid dev h =
     \<lparr>rt_id = i, rt_user_id = uid, rt_device_id = dev, rt_token_hash = h, rt_family_id = 77,
      rt_issued_at = 0, rt_expires_at = 5000 * 10 ^ 9, rt_revoked_at = None, rt_replaced_by = None\<rparr>"

definition auth_db :: db where
  "auth_db =
     empty_db\<lparr>users := [account 1 ''a@b.c'' None], devices := [sample_device 11 1],
              refresh_tokens := [sample_token 21 1 11 ''rt_x'']\<rparr>"

definition sample_service :: service where
  "sample_service =
     \<lparr>LockoutThreshold = 0, LockoutBaseDuration = 0, LockoutMaxDuration = 0, Pool_set = True\<rparr>"

lemma TrimSpace_sample: "TrimSpace ''rt_x'' = ''rt_x''"
  by (simp add: TrimSpace_graphic graphic_def)

lemma sample_refresh:
  "\<exists>res w. Refresh sample_ext sample_service sample_crypto ''rt_x'' None (session auth_db) = (Inr res, w)"
  by (simp add: Refresh_def TrimSpace_sample refreshTx_def begin_tx_def refresh_lock_def savepoint_def
      GetRefreshTokenByHashForUpdateNoWait_def select_one_def one_row_def refresh_body_def refresh_rotate_def
      refresh_replacement_def refresh_device_def GetUserByID_def GetDeviceByID_def CreateRefreshToken_def
      RotateRefreshToken_def commit_tx_def live_token_def live_user_def GenerateRefreshToken_def
      IssueAccessToken_def gen_random_uuid_def token_exists_def fk_violation_def user_exists_def
      device_exists_def update_one_def token_row_def HashRefreshToken_def Let_def
      auth_db_def account_def sample_token_def sample_crypto_def sample_service_def sample_defs)

theorem refresh_all_or_nothing_witness:
  "\<exists>res w1 current new. Refresh sample_ext sample_service sample_crypto ''rt_x'' None (session auth_db) = (Inr res, w1) \<and>
     rotated sample_crypto (RefreshToken (res_Tokens res)) current new auth_db (dbs w1)"
proof -
  obtain res w1 where r: "Refresh sample_ext sample_service sample_crypto ''rt_x'' None (session auth_db) = (Inr res, w1)"
    using sample_refresh by blast
  have "Pool_set sample_service" by (simp add: sample_service_def)
  from refresh_all_or_nothing[OF session_quiet(2) this r] r show ?thesis by auto
qed

theorem refresh_token_single_use_witness:
  "\<exists>res w1. Refresh sample_ext sample_service sample_crypto ''rt_x'' None (session auth_db) = (Inr res, w1) \<and>
     fst (Refresh sample_ext sample_service sample_crypto ''rt_x'' None (session (dbs w1))) = Inl ErrRefreshTokenReuse"
proof -
  obtain res w1 where r: "Refresh sample_ext sample_service sample_crypto ''rt_x'' None (session auth_db) = (Inr res, w1)"
    using sample_refresh by blast
  obtain r2 w2 where r2: "Refresh sample_ext sample_service sample_crypto ''rt_x'' None (session (dbs w1)) = (r2, w2)"
    by (rule prod.exhaust)
  have "Pool_set sample_service" by (simp add: sample_service_def)
  from refresh_token_single_use[OF session_quiet(2) this r session_quiet(1) session_quiet(4) r2] r r2
  show ?thesis by auto
qed

section \<open>Revoking a device\<close>

lemma RevokeDevice_tx_Inr:
  assumes "in_tx w" and "RevokeDevice_q i uid w = (Inr u, w')"
  shows "in_tx w' \<and> session_frame (dbs w) (dbs w') \<and> refresh_tokens (dbs w') = refresh_tokens (dbs w) \<and>
    (\<exists>now. devices (dbs w') = update_where (live_device i uid) (\<lambda>d. d\<lparr>dev_revoked_at := Some (pg_ts now)\<rparr>) (devices (dbs w)))"
  using update_all_tx_Inr[where f = "\<lambda>now d. d\<lparr>dev_revoked_at := Some (pg_ts now)\<rparr>",
      OF assms(1) assms(2)[unfolded RevokeDevice_q_def]]
  by (auto simp: session_frame_def)

lemma RevokeRefreshTokensByDevice_tx_Inr:
  assumes "in_tx w" and "RevokeRefreshTokensByDevice dev uid w = (Inr u, w')"
  shows "in_tx w' \<and> session_frame (dbs w) (dbs w') \<and> devices (dbs w') = devices (dbs w) \<and>
    (\<exists>now. refresh_tokens (dbs w') =
      update_where (\<lambda>t. rt_device_id t = dev \<and> rt_user_id t = uid \<and> live_token t) (revoke_at now) (refresh_tokens (dbs w)))"
  using update_all_tx_Inr[OF assms(1) assms(2)[unfolded RevokeRefreshTokensByDevice_def]]
  by (auto simp: session_frame_def)

text \<open>A device and its sessions of a user, both ended.\<close>

definition device_ended :: "uuid \<Rightarrow> uuid \<Rightarrow> db \<Rightarrow> db \<Rightarrow> bool" where
  "device_ended uid did d d' \<longleftrightarrow>
     session_frame d d' \<and>
     (\<exists>now. devices d' = update_where (live_device did uid) (\<lambda>d. d\<lparr>dev_revoked_at := Some (pg_ts now)\<rparr>) (devices d)) \<and>
     (\<exists>now. refresh_tokens d' =
        update_where (\<lambda>t. rt_device_id t = did \<and> rt_user_id t = uid \<and> live_token t) (revoke_at now) (refresh_tokens d))"

lemma RevokeDevice_outcome:
  assumes "isolated w" and "Pool_set s" and "RevokeDevice x s userID deviceID w = (r, w')"
  shows "case r of
      Inl e \<Rightarrow> dbs w' = dbs w
    | Inr _ \<Rightarrow> \<exists>uid did. parse_id x userID = Inr uid \<and> parse_id x deviceID = Inr did \<and>
        (\<exists>dev\<in>set (devices (dbs w)). live_device did uid dev) \<and> device_ended uid did (dbs w) (dbs w')"
proof (cases "parse_id x userID")
  case (Inl e)
  then show ?thesis using assms(3) by (auto simp: RevokeDevice_def)
next
  case uid: (Inr uid)
  show ?thesis
  proof (cases "parse_id x deviceID")
    case (Inl e)
    then show ?thesis using assms(3) uid by (auto simp: RevokeDevice_def)
  next
    case did: (Inr did)
    have "revokeDeviceTx uid did w = (r, w')" using assms(2,3) uid did by (simp add: RevokeDevice_def)
    then show ?thesis unfolding revokeDeviceTx_def
    proof (cases rule: andthen_cases)
      case (stop e)
      then show ?thesis using begin_isolated[OF assms(1)] by (auto simp: wrapped_Inl)
    next
      case (go u w1)
      then have w1: "isolated w1" "in_tx w1" "dbs w1 = dbs w"
        using begin_Inr[OF assms(1)] by (auto simp: wrapped_Inr)
      show ?thesis
      proof (cases r)
        case (Inl e)
        then show ?thesis using go(2) w1(3) by (auto simp: rollback_to_def split: prod.splits sum.splits)
      next
        case (Inr v)
        with go(2) obtain v where "andthen (revoke_device_steps uid did w1)
            (\<lambda>_ w. wrapped ''auth: commit revoke device'' (commit_tx w)) = (Inr v, w')"
          by (auto split: prod.splits sum.splits)
        then obtain dev w2 w3 w4 where g: "GetDeviceByID did uid w1 = (Inr dev, w2)"
          and rd: "RevokeDevice_q did uid w2 = (Inr (), w3)"
          and rt: "RevokeRefreshTokensByDevice did uid w3 = (Inr (), w4)" and com: "commit_tx w4 = (Inr (), w')"
          by (auto simp: step_Inr revoke_device_steps_def)
        have w2: "in_tx w2" "dbs w2 = dbs w" and dev: "\<exists>dev\<in>set (devices (dbs w)). live_device did uid dev"
        proof -
          obtain rs where "same_tables w1 w2" and rs: "filter (\<lambda>d. dev_id d = did \<and> dev_user_id d = uid \<and> dev_revoked_at d = None)
              (devices (dbs w1)) = dev # rs"
            using select_tx_Inr[OF w1(2) g[unfolded GetDeviceByID_def]] by blast
          then show "in_tx w2" "dbs w2 = dbs w" using w1 by (simp_all add: same_tables_def)
          have "dev \<in> set (devices (dbs w)) \<and> live_device did uid dev"
            using rs[THEN arg_cong[of _ _ set]] w1(3) by (auto simp: live_device_def)
          then show "\<exists>dev\<in>set (devices (dbs w)). live_device did uid dev" by blast
        qed
        note a = RevokeDevice_tx_Inr[OF w2(1) rd]
        note b = RevokeRefreshTokensByDevice_tx_Inr[OF conjunct1[OF a] rt]
        have "dbs w' = dbs w4" using commit_Inr[OF com] b by simp
        then have "device_ended uid did (dbs w) (dbs w')"
          using a b w2(2) by (simp add: device_ended_def session_frame_def)
        then show ?thesis using Inr uid did dev by auto
      qed
    qed
  qed
qed

text \<open>Revoking a device is atomic.  Either the call fails and the tables are as they were, or
  the caller owned the live device, it is revoked, every live refresh token of it is revoked, and
  nothing else has changed.\<close>

lemma revoke_device_atomic:
  assumes "isolated w" and "Pool_set s" and "RevokeDevice x s userID deviceID w = (r, w')"
  shows "case r of
      Inl e \<Rightarrow> dbs w' = dbs w
    | Inr _ \<Rightarrow> \<exists>uid did. parse_id x userID = Inr uid \<and> parse_id x deviceID = Inr did \<and>
        (\<exists>dev\<in>set (devices (dbs w)). live_device did uid dev) \<and> device_ended uid did (dbs w) (dbs w')"
  by (rule RevokeDevice_outcome[OF assms])

lemma revoke_device_atomic_witness:
  "\<exists>w'. RevokeDevice sample_ext sample_service ''1'' ''11'' (session auth_db) = (Inr (), w') \<and>
     device_ended 1 11 auth_db (dbs w')"
proof -
  obtain r w' where run: "RevokeDevice sample_ext sample_service ''1'' ''11'' (session auth_db) = (r, w')"
    by (rule prod.exhaust)
  have ids: "parse_id sample_ext ''1'' = Inr 1" "parse_id sample_ext ''11'' = Inr 11"
    by (simp_all add: parse_id_def parseUUID_def sample_ext_def char_digit_def)
  have "revokeDeviceTx 1 11 (session auth_db) = (r, w')"
    using run by (simp add: RevokeDevice_def ids sample_service_def)
  then have "r = Inr ()"
    by (simp add: revokeDeviceTx_def revoke_device_steps_def begin_tx_def
        GetDeviceByID_def select_one_def one_row_def RevokeDevice_q_def RevokeRefreshTokensByDevice_def update_all_def
        commit_tx_def auth_db_def account_def sample_defs)
  moreover have "Pool_set sample_service" by (simp add: sample_service_def)
  ultimately show ?thesis
    using revoke_device_atomic[OF session_quiet(2) _ run] run ids by (auto simp: sample_service_def)
qed

end
