(* ===== verification/AuthSessions.thy ===== *)
theory AuthSessions
  imports AuthProps
begin

text \<open>
  Invariants over sequences of account operations: a device of a user has at most one live
  refresh token, and an operation for one user leaves the rows of the others alone.
\<close>

section \<open>One live token per device\<close>

definition device_tokens :: "uuid \<Rightarrow> uuid \<Rightarrow> refresh_token list \<Rightarrow> refresh_token list" where
  "device_tokens dev uid ts = filter (\<lambda>t. rt_device_id t = dev \<and> rt_user_id t = uid \<and> live_token t) ts"

definition one_session :: "db \<Rightarrow> bool" where
  "one_session d \<longleftrightarrow> (\<forall>dev uid. length (device_tokens dev uid (refresh_tokens d)) \<le> 1)"

text \<open>Two frames: the tokens are untouched; the invariant is kept.\<close>

definition tokens_kept :: "db \<Rightarrow> db \<Rightarrow> bool" where
  "tokens_kept d d' \<longleftrightarrow> refresh_tokens d' = refresh_tokens d"

definition session_kept :: "db \<Rightarrow> db \<Rightarrow> bool" where
  "session_kept d d' \<longleftrightarrow> (one_session d \<longrightarrow> one_session d')"

interpretation tk: frame tokens_kept
  by unfold_locales (auto simp: tokens_kept_def)

interpretation sk: frame session_kept
  by unfold_locales (auto simp: session_kept_def)

lemma tokens_session: "moves tokens_kept w w' \<Longrightarrow> moves session_kept w w'"
  by (simp add: moves_def tokens_kept_def session_kept_def one_session_def)

lemma update_user_kept:
  "update_user i upd w = (r, w') \<Longrightarrow> hazards w' = hazards w \<and> tokens_kept (dbs w) (dbs w')"
  by (auto simp: update_user_def update_one_def next_server_seq_def tokens_kept_def split: list.splits)

lemma queries_kept:
  assumes "isolated w"
  shows "CreateUser low arg w = (r1, w') \<Longrightarrow> moves tokens_kept w w'"
    and "GetUserByEmail low email w = (r1, w') \<Longrightarrow> moves tokens_kept w w'"
    and "GetUserByID i w = (r1, w') \<Longrightarrow> moves tokens_kept w w'"
    and "RecordFailedLoginAttempt i th now base mx w = (r1, w') \<Longrightarrow> moves tokens_kept w w'"
    and "ResetLoginLockout i now w = (r2, w') \<Longrightarrow> moves tokens_kept w w'"
    and "UpdateUserProfile i dn tz w = (r1, w') \<Longrightarrow> moves tokens_kept w w'"
    and "CreateDevice uid pl p w = (r3, w') \<Longrightarrow> moves tokens_kept w w'"
    and "UpdateDeviceMetadata i uid p w = (r3, w') \<Longrightarrow> moves tokens_kept w w'"
    and "UpdateDeviceName i uid n w = (r3, w') \<Longrightarrow> moves tokens_kept w w'"
    and "GetRefreshTokenByHash h w = (r4, w') \<Longrightarrow> moves tokens_kept w w'"
proof -
  note e = tk.exec_moves[OF assms] note t = tk.exec_txt_moves[OF assms]
  show "CreateUser low arg w = (r1, w') \<Longrightarrow> moves tokens_kept w w'" unfolding CreateUser_def
    by (rule t) (auto simp: gen_random_uuid_def next_server_seq_def Let_def tokens_kept_def split: if_splits)
  show "GetUserByEmail low email w = (r1, w') \<Longrightarrow> moves tokens_kept w w'" unfolding GetUserByEmail_def
    by (rule t) (auto simp: select_one_def tokens_kept_def)
  show "GetUserByID i w = (r1, w') \<Longrightarrow> moves tokens_kept w w'" unfolding GetUserByID_def
    by (rule tk.read_moves[OF assms])
  show "RecordFailedLoginAttempt i th now base mx w = (r1, w') \<Longrightarrow> moves tokens_kept w w'"
    unfolding RecordFailedLoginAttempt_def
    by (rule e) (auto simp: tk.R_refl dest: update_user_kept split: list.splits sum.splits)
  show "ResetLoginLockout i now w = (r2, w') \<Longrightarrow> moves tokens_kept w w'" unfolding ResetLoginLockout_def
    by (rule e) (auto dest: update_user_kept split: prod.splits)
  show "UpdateUserProfile i dn tz w = (r1, w') \<Longrightarrow> moves tokens_kept w w'" unfolding UpdateUserProfile_def
    by (rule t) (auto dest: update_user_kept)
  show "CreateDevice uid pl p w = (r3, w') \<Longrightarrow> moves tokens_kept w w'" unfolding CreateDevice_def
    by (rule t) (auto simp: gen_random_uuid_def Let_def tokens_kept_def split: if_splits)
  show "UpdateDeviceMetadata i uid p w = (r3, w') \<Longrightarrow> moves tokens_kept w w'" unfolding UpdateDeviceMetadata_def
    by (rule t) (auto simp: update_one_def tokens_kept_def split: list.splits)
  show "UpdateDeviceName i uid n w = (r3, w') \<Longrightarrow> moves tokens_kept w w'" unfolding UpdateDeviceName_def
    by (rule t) (auto simp: update_one_def tokens_kept_def split: list.splits)
  show "GetRefreshTokenByHash h w = (r4, w') \<Longrightarrow> moves tokens_kept w w'" unfolding GetRefreshTokenByHash_def
    by (rule tk.read_moves[OF assms])
qed

lemma revoke_at_keys [simp]:
  "rt_device_id (revoke_at now t) = rt_device_id t" "rt_user_id (revoke_at now t) = rt_user_id t"
  "rt_family_id (revoke_at now t) = rt_family_id t" "rt_id (revoke_at now t) = rt_id t"
  "rt_token_hash (revoke_at now t) = rt_token_hash t" "\<not> live_token (revoke_at now t)"
  by (simp_all add: revoke_at_def live_token_def)

text \<open>Revoking tokens leaves a part of the live ones.\<close>

lemma device_tokens_revoked:
  assumes "\<And>t. \<not> live_token (f t)"
  shows "device_tokens dev uid (update_where P f ts) =
    filter (\<lambda>t. \<not> P t) (device_tokens dev uid ts)"
  using assms by (induction ts) (auto simp: device_tokens_def)

lemma one_session_revoked:
  assumes "one_session d" and "refresh_tokens d' = update_where P f (refresh_tokens d)" and "\<And>t. \<not> live_token (f t)"
  shows "one_session d'"
proof -
  have "length (device_tokens dev uid (refresh_tokens d')) \<le> length (device_tokens dev uid (refresh_tokens d))" for dev uid
    by (simp add: assms(2) device_tokens_revoked[OF assms(3)] length_filter_le)
  then show ?thesis using assms(1) order_trans unfolding one_session_def by blast
qed

lemma revocations_kept:
  assumes "isolated w"
  shows "RevokeRefreshTokenFamilyForUser fam uid w = (r, w') \<Longrightarrow> moves session_kept w w'"
    and "RevokeRefreshTokensByDevice dev uid w = (r, w') \<Longrightarrow> moves session_kept w w' \<and>
      (\<forall>u. r = Inr u \<longrightarrow> device_tokens dev uid (refresh_tokens (dbs w')) = [])"
proof -
  show "RevokeRefreshTokenFamilyForUser fam uid w = (r, w') \<Longrightarrow> moves session_kept w w'"
    unfolding RevokeRefreshTokenFamilyForUser_def
    by (rule sk.exec_moves[OF assms])
      (auto simp: update_all_def session_kept_def intro: one_session_revoked[where f = "revoke_at now" for now])
  assume q: "RevokeRefreshTokensByDevice dev uid w = (r, w')"
  have "moves session_kept w w'" using q unfolding RevokeRefreshTokensByDevice_def
    by (rule sk.exec_moves[OF assms])
      (auto simp: update_all_def session_kept_def intro: one_session_revoked[where f = "revoke_at now" for now])
  moreover have "device_tokens dev uid (refresh_tokens (dbs w')) = []" if "r = Inr u" for u
    by (rule exec_isolated[OF assms q[unfolded RevokeRefreshTokensByDevice_def]])
      (use that in \<open>auto simp: update_all_def device_tokens_revoked filter_empty_conv,
         auto simp: device_tokens_def\<close>)
  ultimately show "moves session_kept w w' \<and>
      (\<forall>u. r = Inr u \<longrightarrow> device_tokens dev uid (refresh_tokens (dbs w')) = [])" by simp
qed

lemma CreateRefreshToken_kept:
  assumes "isolated w" and "CreateRefreshToken arg w = (r, w')"
    and "device_tokens (crt_DeviceID arg) (crt_UserID arg) (refresh_tokens (dbs w)) = []"
  shows "moves session_kept w w'"
proof -
  have "one_session d'"
    if "one_session d" "refresh_tokens d = refresh_tokens (dbs w)"
      "refresh_tokens d' = refresh_tokens (dbs w) @ [t]"
      "rt_device_id t = crt_DeviceID arg" "rt_user_id t = crt_UserID arg" for d d' t
    using that assms(3) by (auto simp: one_session_def device_tokens_def)
  moreover have "isolated w' \<and> (refresh_tokens (dbs w') = refresh_tokens (dbs w) \<or>
      (\<exists>t. refresh_tokens (dbs w') = refresh_tokens (dbs w) @ [t] \<and>
         rt_device_id t = crt_DeviceID arg \<and> rt_user_id t = crt_UserID arg))"
    by (rule exec_isolated[OF assms(1) assms(2)[unfolded CreateRefreshToken_def]])
      (auto simp: token_row_def gen_random_uuid_def Let_def isolated_def split: if_splits option.splits)
  ultimately show ?thesis
    by (auto simp: moves_def session_kept_def one_session_def)
qed

text \<open>A new session: the old ones of the device are ended first.\<close>

lemma issueTokenPair_kept:
  assumes "isolated w" and "issueTokenPair x c k now u d w = (r, w')"
  shows "moves session_kept w w'"
proof (rule sk.andthen_moves[OF assms(1) assms(2)[unfolded issueTokenPair_def]], goal_cases)
  case (1 r1 w1)
  then show ?case using revocations_kept(2)[OF assms(1)]
    by (cases "fst (RevokeRefreshTokensByDevice (dev_id d) (us_id u) w)") (auto simp: wrapped_def split: prod.splits sum.splits)
next
  case (2 a w1)
  then have none: "device_tokens (dev_id d) (us_id u) (refresh_tokens (dbs w1)) = []"
    using revocations_kept(2)[OF assms(1)] by (auto simp: wrapped_Inr)
  have create: "moves session_kept w1 w2"
    if "wrapped m (CreateRefreshToken \<lparr>crt_UserID = us_id u, crt_DeviceID = dev_id d, crt_TokenHash = h,
        crt_FamilyID = fam, crt_ExpiresAt = ex\<rparr> w1) = (r2, w2)" for m h fam ex r2 w2
    using that CreateRefreshToken_kept[OF 2(2)] none by (auto simp: wrapped_def split: prod.splits sum.splits)
  from 2(2,3) show ?case
    by (auto simp: andthen_def need_def intro: sk.moves_refl split: prod.splits sum.splits option.splits dest: create)
qed

lemma no_tokens:
  assumes "isolated w"
  shows "create_device uid device w = (r1, w') \<Longrightarrow> moves tokens_kept w w'"
    and "resolveDevice x uid device w = (r1, w') \<Longrightarrow> moves tokens_kept w w'"
    and "check_password s c now pw u w = (r2, w') \<Longrightarrow> moves tokens_kept w w'"
    and "reset_lockout now u w = (r3, w') \<Longrightarrow> moves tokens_kept w w'"
    and "create_user c arg w = (r3, w') \<Longrightarrow> moves tokens_kept w w'"
    and "hash_password c k pw w = (r4, w') \<Longrightarrow> moves tokens_kept w w'"
proof -
  have cd: "moves tokens_kept v v'" if "create_device uid device v = (r, v')" "isolated v" for uid device v r v'
    using that queries_kept(7)[OF that(2)] by (auto simp: create_device_def wrapped_def split: prod.splits sum.splits)
  then show "create_device uid device w = (r1, w') \<Longrightarrow> moves tokens_kept w w'" using assms by blast
  show "moves tokens_kept w w'" if r: "resolveDevice x uid device w = (r1, w')"
  proof (cases "di_ID device = [] \<or> (\<exists>e. parseUUID x (di_ID device) = Inl e)")
    case True
    then show ?thesis using r cd assms by (auto simp: resolveDevice_def split: if_splits)
  next
    case False
    then obtain i where i: "di_ID device \<noteq> []" "parseUUID x (di_ID device) = Inr i" by (metis sum.exhaust)
    obtain r2 w2 where u: "UpdateDeviceMetadata i uid (params_of device) w = (r2, w2)" by (rule prod.exhaust)
    note m = queries_kept(8)[OF assms u]
    show ?thesis using r i u m cd[of _ _ w2] tk.moves_trans[OF m]
      by (auto simp: resolveDevice_def moves_def split: sum.splits if_splits)
  qed
  show "check_password s c now pw u w = (r2, w') \<Longrightarrow> moves tokens_kept w w'"
    using queries_kept(4)[OF assms] tk.moves_refl[OF assms]
    by (auto simp: check_password_def andthen_def wrapped_def
        split: option.splits if_splits sum.splits bool.splits prod.splits)
  show "reset_lockout now u w = (r3, w') \<Longrightarrow> moves tokens_kept w w'"
    using queries_kept(5)[OF assms] tk.moves_refl[OF assms]
    by (auto simp: reset_lockout_def andthen_def wrapped_def split: if_splits sum.splits prod.splits)
  show "create_user c arg w = (r3, w') \<Longrightarrow> moves tokens_kept w w'"
    using queries_kept(1)[OF assms] by (auto simp: create_user_def split: prod.splits sum.splits)
  show "hash_password c k pw w = (r4, w') \<Longrightarrow> moves tokens_kept w w'"
    using tk.moves_refl[OF assms] by (auto simp: hash_password_def split: sum.splits)
qed

text \<open>A step whose errors are renamed keeps what its query keeps.\<close>

lemma moves_wrapped:
  assumes "\<And>r w'. p = (r, w') \<Longrightarrow> moves R w w'"
  shows "wrapped m p = (r1, w') \<Longrightarrow> moves R w w'" and "no_rows_as err m p = (r1, w') \<Longrightarrow> moves R w w'"
  using assms by (cases p; cases "fst p"; auto simp: wrapped_def no_rows_as_def)+

lemmas session_steps = no_tokens[THEN tokens_session] queries_kept[THEN tokens_session]

lemma issue_kept:
  assumes "isolated w"
    and "andthen (issueTokenPair x c k now u d w) (\<lambda>(access, refresh) w. (Inr (newResult u d access refresh), w)) = (r, w')"
  shows "moves session_kept w w'"
  by (rule sk.andthen_moves[OF assms]) (auto intro: issueTokenPair_kept[OF assms(1)] sk.moves_refl)

lemma register_account_kept:
  assumes "isolated w" and "register_account x c em password device w = (r, w')"
  shows "moves session_kept w w'"
proof (rule sk.andthen_moves[OF assms(1) assms(2)[unfolded register_account_def]], goal_cases)
  case 1
  then show ?case using session_steps(6)[OF assms(1)] by blast
next
  case (2 h w1)
  show ?case
  proof (rule sk.andthen_moves[OF 2(2,3)], goal_cases)
    case 1
    then show ?case using session_steps(5)[OF 2(2)] by blast
  next
    case (2 u w2)
    show ?case
    proof (rule sk.andthen_moves[OF 2(2,3)], goal_cases)
      case 1
      then show ?case by (rule moves_wrapped(1)[rotated]) (rule session_steps(13)[OF 2(2)])
    next
      case (2 d w3)
      then show ?case using issue_kept by blast
    qed
  qed
qed

lemma open_session_kept:
  assumes "isolated w" and "open_session x c device u w = (r, w')"
  shows "moves session_kept w w'"
proof (rule sk.andthen_moves[OF assms(1) assms(2)[unfolded open_session_def]], goal_cases)
  case 1
  then show ?case using session_steps(4)[OF assms(1)] by blast
next
  case (2 u w1)
  show ?case
  proof (rule sk.andthen_moves[OF 2(2,3)], goal_cases)
    case 1
    then show ?case using session_steps(2)[OF 2(2)] by blast
  next
    case (2 d w2)
    then show ?case using issue_kept by blast
  qed
qed

lemma Register_kept:
  "isolated w \<Longrightarrow> Register x c email password device w = (r, w') \<Longrightarrow> moves session_kept w w'"
  by (auto simp: Register_def sk.moves_refl register_account_kept split: sum.splits option.splits)

lemma Login_kept:
  assumes "isolated w" and "Login x s c email password device w = (r, w')"
  shows "moves session_kept w w'"
proof -
  have "moves session_kept w w'"
    if "andthen (no_rows_as ErrInvalidCredentials m (GetUserByEmail low em w)) (\<lambda>u w.
        andthen (check_password s c now password u w) (\<lambda>_ w. open_session x c device u w)) = (r, w')" for m low em now
  proof (rule sk.andthen_moves[OF assms(1) that], goal_cases)
    case 1
    then show ?case by (rule moves_wrapped(2)[rotated]) (rule session_steps(8)[OF assms(1)])
  next
    case (2 u w1)
    show ?case
      by (rule sk.andthen_moves[OF 2(2,3)])
        (auto intro: session_steps(3)[OF 2(2)] open_session_kept)
  qed
  then show ?thesis using assms
    by (auto simp: Login_def intro: sk.moves_refl split: sum.splits option.splits if_splits)
qed

lemma Logout_kept:
  assumes "isolated w" and "Logout x c userID tok w = (r, w')"
  shows "moves session_kept w w'"
proof -
  have "moves session_kept w w'"
    if "andthen (no_rows_as ErrInvalidRefreshToken m (GetRefreshTokenByHash h w)) (\<lambda>current w.
        if rt_user_id current \<noteq> uid then (Inl ErrInvalidRefreshToken, w)
        else wrapped m2 (RevokeRefreshTokenFamilyForUser (rt_family_id current) uid w)) = (r, w')" for m h uid m2
    by (rule sk.andthen_moves[OF assms(1) that])
      (auto intro: moves_wrapped(2)[OF session_steps(16)[OF assms(1)]] sk.moves_refl
        moves_wrapped(1)[OF revocations_kept(1)] split: if_splits)
  then show ?thesis using assms
    by (auto simp: Logout_def Let_def intro: sk.moves_refl split: sum.splits if_splits)
qed

lemma device_tokens_append:
  "device_tokens dev uid (ts @ us) = device_tokens dev uid ts @ device_tokens dev uid us"
  by (simp add: device_tokens_def)

lemma rotated_one_session:
  assumes one: "one_session d" and p: "presented c tok d current" and live: "live_token current"
    and rot: "rotated c t current new d d'"
  shows "one_session d'"
proof -
  obtain now where ts: "refresh_tokens d' = update_where (\<lambda>t. rt_id t = rt_id current \<and> live_token t)
      (\<lambda>t. (revoke_at now t)\<lparr>rt_replaced_by := Some (rt_id new)\<rparr>) (refresh_tokens d) @ [new]"
    and keys: "rt_device_id new = rt_device_id current" "rt_user_id new = rt_user_id current"
    using rot by (auto simp: rotated_def)
  have dead: "\<not> live_token ((revoke_at now t)\<lparr>rt_replaced_by := Some (rt_id new)\<rparr>)" for t
    by (simp add: live_token_def revoke_at_def)
  have "length (device_tokens dev uid (refresh_tokens d')) \<le> 1" for dev uid
  proof -
    let ?old = "device_tokens dev uid (refresh_tokens d)"
    let ?left = "filter (\<lambda>t. \<not> (rt_id t = rt_id current \<and> live_token t)) ?old"
    have d': "device_tokens dev uid (refresh_tokens d') = ?left @ device_tokens dev uid [new]"
      by (simp add: ts device_tokens_append device_tokens_revoked[OF dead])
    have old: "length ?old \<le> 1" using one by (simp add: one_session_def)
    show ?thesis
    proof (cases "rt_device_id new = dev \<and> rt_user_id new = uid")
      case True
      then have "current \<in> set ?old" using presented_in[OF p] live keys by (auto simp: device_tokens_def)
      with old have "?old = [current]" by (cases ?old) auto
      moreover have "length (device_tokens dev uid [new]) \<le> 1" by (simp add: device_tokens_def)
      ultimately show ?thesis using live by (simp add: d')
    next
      case False
      then have "device_tokens dev uid [new] = []" by (auto simp: device_tokens_def)
      then show ?thesis using order_trans[OF length_filter_le old] by (simp add: d')
    qed
  qed
  then show ?thesis by (simp add: one_session_def)
qed

lemma Refresh_kept:
  assumes "isolated w" and "Pool_set s" and "Refresh x s c tok device w = (r, w')"
  shows "session_kept (dbs w) (dbs w')"
proof (cases r)
  case (Inr res)
  then show ?thesis using Refresh_outcome[OF assms] rotated_one_session
    by (auto simp: session_kept_def)
next
  case (Inl e)
  show ?thesis
  proof (cases "e = ErrRefreshTokenReuse")
    case True
    then show ?thesis using Refresh_outcome[OF assms] Inl
      by (auto simp: session_kept_def family_revoked_def intro: one_session_revoked[where f = "revoke_at now" for now])
  next
    case False
    then show ?thesis using Refresh_outcome[OF assms] Inl by (simp add: session_kept_def)
  qed
qed

lemma RevokeDevice_kept:
  assumes "isolated w" and "Pool_set s" and "RevokeDevice x s userID deviceID w = (r, w')"
  shows "session_kept (dbs w) (dbs w')"
  using RevokeDevice_outcome[OF assms]
  by (cases r) (auto simp: session_kept_def device_ended_def intro: one_session_revoked[where f = "revoke_at now" for now])

text \<open>
  The operations, each served in a session of its own in which any statement may fail; the
  order, the callers and the environment are arbitrary.
\<close>

inductive account_step :: "db \<Rightarrow> db \<Rightarrow> bool" where
  register: "isolated w \<Longrightarrow> Register x c email password device w = (r, w') \<Longrightarrow> account_step (dbs w) (dbs w')"
| login: "isolated w \<Longrightarrow> Login x s c email password device w = (r, w') \<Longrightarrow> account_step (dbs w) (dbs w')"
| refresh: "isolated w \<Longrightarrow> Pool_set s \<Longrightarrow> Refresh x s c tok di w = (r, w') \<Longrightarrow> account_step (dbs w) (dbs w')"
| logout: "isolated w \<Longrightarrow> Logout x c userID tok w = (rl, w') \<Longrightarrow> account_step (dbs w) (dbs w')"
| revoke: "isolated w \<Longrightarrow> Pool_set s \<Longrightarrow> RevokeDevice x s userID deviceID w = (rl, w') \<Longrightarrow> account_step (dbs w) (dbs w')"
| other: "tokens_kept d d' \<Longrightarrow> account_step d d'"

lemma account_step_kept: "account_step d d' \<Longrightarrow> session_kept d d'"
proof (induction rule: account_step.induct)
  case (register w x c email password device r w')
  then show ?case using Register_kept by (simp add: moves_def)
next
  case (login w x s c email password device r w')
  then show ?case using Login_kept by (simp add: moves_def)
next
  case (refresh w s x c tok di r w')
  then show ?case by (rule Refresh_kept)
next
  case (logout w x c userID tok rl w')
  then show ?case using Logout_kept by (simp add: moves_def)
next
  case (revoke w s x userID deviceID rl w')
  then show ?case by (rule RevokeDevice_kept)
next
  case (other d d')
  then show ?case by (simp add: tokens_kept_def session_kept_def one_session_def)
qed

text \<open>C8: exactly one session per device is never exceeded.  From a database in which every device
  of every user has at most one live refresh token, every sequence of registrations, logins,
  refreshes, logouts and device revocations, whatever fails on the way, leads to a database in
  which that holds.\<close>

theorem one_live_token_per_device:
  assumes "account_step\<^sup>*\<^sup>* d d'" and "one_session d"
  shows "one_session d'"
  using assms by (induction) (auto dest: account_step_kept simp: session_kept_def)

theorem one_live_token_per_device_witness:
  "\<exists>d'. account_step\<^sup>*\<^sup>* auth_db d' \<and> length (refresh_tokens d') = 2 \<and> one_session d'"
proof -
  obtain res w1 where r: "Refresh sample_ext sample_service sample_crypto ''rt_x'' None (session auth_db) = (Inr res, w1)"
    using sample_refresh by blast
  have "Pool_set sample_service" by (simp add: sample_service_def)
  from account_step.refresh[OF session_quiet(2) this r] have s: "account_step\<^sup>*\<^sup>* auth_db (dbs w1)" by simp
  have "length (refresh_tokens (dbs w1)) = 2"
    using Refresh_outcome[OF session_quiet(2) _ r]
    by (auto simp: sample_service_def rotated_def update_where_def auth_db_def)
  moreover have "one_session auth_db"
    by (simp add: one_session_def device_tokens_def auth_db_def)
  ultimately show ?thesis using one_live_token_per_device[OF s] s by blast
qed

section \<open>Tenants\<close>

text \<open>The rows of the other users, and the tables the account operations do not write.\<close>

definition foreign :: "uuid \<Rightarrow> db \<Rightarrow> db \<Rightarrow> bool" where
  "foreign uid d d' \<longleftrightarrow>
     filter (\<lambda>u. us_id u \<noteq> uid) (users d') = filter (\<lambda>u. us_id u \<noteq> uid) (users d) \<and>
     filter (\<lambda>v. dev_user_id v \<noteq> uid) (devices d') = filter (\<lambda>v. dev_user_id v \<noteq> uid) (devices d) \<and>
     filter (\<lambda>t. rt_user_id t \<noteq> uid) (refresh_tokens d') = filter (\<lambda>t. rt_user_id t \<noteq> uid) (refresh_tokens d) \<and>
     session_frame (d\<lparr>users := []\<rparr>) (d'\<lparr>users := []\<rparr>)"

interpretation fo: frame "foreign uid" for uid
  by unfold_locales (auto simp: foreign_def session_frame_def)

lemma filter_update_where:
  "(\<And>r. P r \<Longrightarrow> \<not> Q r \<and> \<not> Q (f r)) \<Longrightarrow> filter Q (update_where P f rs) = filter Q rs"
  by (induction rs) auto

lemma foreign_update:
  "(\<And>u. P u \<Longrightarrow> us_id u = uid) \<Longrightarrow> (\<And>u. P u \<Longrightarrow> us_id (f u) = uid)
   \<Longrightarrow> foreign uid d (users_update (update_where P f) d)"
  "(\<And>v. Q v \<Longrightarrow> dev_user_id v = uid) \<Longrightarrow> (\<And>v. Q v \<Longrightarrow> dev_user_id (g v) = uid)
   \<Longrightarrow> foreign uid d (devices_update (update_where Q g) d)"
  "(\<And>t. S t \<Longrightarrow> rt_user_id t = uid) \<Longrightarrow> (\<And>t. S t \<Longrightarrow> rt_user_id (h t) = uid)
   \<Longrightarrow> foreign uid d (refresh_tokens_update (update_where S h) d)"
  by (simp_all add: foreign_def session_frame_def filter_update_where)

lemma foreign_queries:
  assumes "isolated w"
  shows "GetUserByID i w = (r1, w') \<Longrightarrow> moves (foreign uid) w w'"
    and "UpdateUserProfile uid dn tz w = (r1, w') \<Longrightarrow> moves (foreign uid) w w'"
    and "UpdateDeviceName i uid n w = (r2, w') \<Longrightarrow> moves (foreign uid) w w'"
    and "ListDevicesByUser i w = (r3, w') \<Longrightarrow> moves (foreign uid) w w'"
    and "GetRefreshTokenByHash hs w = (r4, w') \<Longrightarrow> moves (foreign uid) w w'"
    and "RevokeRefreshTokenFamilyForUser fam uid w = (r5, w') \<Longrightarrow> moves (foreign uid) w w'"
proof -
  note e = fo.exec_moves[OF assms] note t = fo.exec_txt_moves[OF assms]
  show "GetUserByID i w = (r1, w') \<Longrightarrow> moves (foreign uid) w w'" unfolding GetUserByID_def
    by (rule fo.read_moves[OF assms])
  show "UpdateUserProfile uid dn tz w = (r1, w') \<Longrightarrow> moves (foreign uid) w w'" unfolding UpdateUserProfile_def
    by (rule t) (auto simp: update_user_def update_one_def next_server_seq_def fo.R_refl
        intro!: foreign_update(1) split: list.splits)
  show "UpdateDeviceName i uid n w = (r2, w') \<Longrightarrow> moves (foreign uid) w w'" unfolding UpdateDeviceName_def
    by (rule t) (auto simp: update_one_def fo.R_refl live_device_def intro!: foreign_update(2) split: list.splits)
  show "ListDevicesByUser i w = (r3, w') \<Longrightarrow> moves (foreign uid) w w'" unfolding ListDevicesByUser_def
    by (rule e) (auto simp: fo.R_refl)
  show "GetRefreshTokenByHash hs w = (r4, w') \<Longrightarrow> moves (foreign uid) w w'" unfolding GetRefreshTokenByHash_def
    by (rule fo.read_moves[OF assms])
  show "RevokeRefreshTokenFamilyForUser fam uid w = (r5, w') \<Longrightarrow> moves (foreign uid) w w'"
    unfolding RevokeRefreshTokenFamilyForUser_def
    by (rule e) (auto simp: update_all_def intro!: foreign_update(3))
qed

text \<open>The authenticated requests on an account, as the routes offer them.\<close>

datatype account_request =
    LogoutRequest string
  | GetMe
  | PatchMe ProfileUpdate
  | ListDevicesRequest
  | PatchDevice string string
  | DeleteDevice string

definition serve :: "ext \<Rightarrow> service \<Rightarrow> crypto \<Rightarrow> string \<Rightarrow> account_request \<Rightarrow> world \<Rightarrow> world" where
  "serve x s c userID req w =
     (case req of
        LogoutRequest tok \<Rightarrow> snd (Logout x c userID tok w)
      | GetMe \<Rightarrow> snd (GetProfile x userID w)
      | PatchMe upd \<Rightarrow> snd (UpdateProfile x userID upd w)
      | ListDevicesRequest \<Rightarrow> snd (ListDevices x userID w)
      | PatchDevice did name \<Rightarrow> snd (RenameDevice x userID did name w)
      | DeleteDevice did \<Rightarrow> snd (RevokeDevice x s userID did w))"

lemma device_ended_foreign: "device_ended uid did d d' \<Longrightarrow> foreign uid d d'"
proof -
  assume e: "device_ended uid did d d'"
  obtain n1 n2 where d: "devices d' = update_where (live_device did uid) (\<lambda>d. d\<lparr>dev_revoked_at := Some (pg_ts n1)\<rparr>) (devices d)"
    and t: "refresh_tokens d' = update_where (\<lambda>t. rt_device_id t = did \<and> rt_user_id t = uid \<and> live_token t) (revoke_at n2) (refresh_tokens d)"
    using e by (auto simp: device_ended_def)
  have "filter (\<lambda>v. dev_user_id v \<noteq> uid) (devices d') = filter (\<lambda>v. dev_user_id v \<noteq> uid) (devices d)"
    unfolding d by (rule filter_update_where) (auto simp: live_device_def)
  moreover have "filter (\<lambda>t. rt_user_id t \<noteq> uid) (refresh_tokens d') = filter (\<lambda>t. rt_user_id t \<noteq> uid) (refresh_tokens d)"
    unfolding t by (rule filter_update_where) auto
  ultimately show ?thesis using e by (simp add: device_ended_def foreign_def session_frame_def)
qed

lemma Logout_foreign:
  assumes iso: "isolated w" and uid: "parse_id x userID = Inr uid" and run: "Logout x c userID tok w = (r, w')"
  shows "moves (foreign uid) w w'"
proof (cases "TrimSpace tok = []")
  case True
  then show ?thesis using run fo.moves_refl[OF iso] by (simp add: Logout_def)
next
  case False
  have "andthen (no_rows_as ErrInvalidRefreshToken ''auth: get refresh token''
        (GetRefreshTokenByHash (HashRefreshToken c (TrimSpace tok)) w)) (\<lambda>current w.
      if rt_user_id current \<noteq> uid then (Inl ErrInvalidRefreshToken, w)
      else wrapped ''auth: revoke refresh token family''
        (RevokeRefreshTokenFamilyForUser (rt_family_id current) uid w)) = (r, w')"
    using run uid False by (simp add: Logout_def)
  then show ?thesis
    by (rule fo.andthen_moves[OF iso])
      (auto intro: moves_wrapped(2)[OF foreign_queries(5)[OF iso]] fo.moves_refl
        moves_wrapped(1)[OF foreign_queries(6)] split: if_splits)
qed

lemma UpdateProfile_foreign:
  assumes iso: "isolated w" and uid: "parse_id x userID = Inr uid" and run: "UpdateProfile x userID upd w = (r, w')"
  shows "moves (foreign uid) w w'"
proof -
  have "andthen (no_rows_as ErrUserNotFound ''auth: get user'' (GetUserByID uid w)) (\<lambda>current w.
        case patch_field ''display_name must not be blank'' (pu_DisplayName upd) (us_display_name current) of
          Inl e \<Rightarrow> (Inl e, w)
        | Inr displayName \<Rightarrow>
            (case patch_field ''timezone must not be blank'' (pu_Timezone upd) (us_timezone current) of
               Inl e \<Rightarrow> (Inl e, w)
             | Inr timezone \<Rightarrow>
                 no_rows_as ErrUserNotFound ''auth: update user profile''
                   (UpdateUserProfile uid displayName timezone w))) = (r, w')"
    using run uid by (simp add: UpdateProfile_def)
  then show ?thesis
    by (rule fo.andthen_moves[OF iso])
      (auto intro: moves_wrapped(2)[OF foreign_queries(1)[OF iso]] fo.moves_refl
        moves_wrapped(2)[OF foreign_queries(2)] split: sum.splits)
qed

lemma foreign_device_queries:
  assumes "isolated w"
  shows "GetDeviceByID i uid w = (r1, w') \<Longrightarrow> moves (foreign uid) w w'"
    and "RevokeDevice_q i uid w = (r2, w') \<Longrightarrow> moves (foreign uid) w w'"
    and "RevokeRefreshTokensByDevice i uid w = (r3, w') \<Longrightarrow> moves (foreign uid) w w'"
proof -
  note e = fo.exec_moves[OF assms]
  show "GetDeviceByID i uid w = (r1, w') \<Longrightarrow> moves (foreign uid) w w'" unfolding GetDeviceByID_def
    by (rule fo.read_moves[OF assms])
  show "RevokeDevice_q i uid w = (r2, w') \<Longrightarrow> moves (foreign uid) w w'" unfolding RevokeDevice_q_def
    by (rule e) (auto simp: update_all_def live_device_def intro!: foreign_update(2))
  show "RevokeRefreshTokensByDevice i uid w = (r3, w') \<Longrightarrow> moves (foreign uid) w w'"
    unfolding RevokeRefreshTokensByDevice_def
    by (rule e) (auto simp: update_all_def intro!: foreign_update(3))
qed

lemma revoke_device_steps_foreign:
  assumes "isolated w" and "revoke_device_steps uid did w = (r, w')"
  shows "moves (foreign uid) w w'"
proof (rule fo.andthen_moves[OF assms(1) assms(2)[unfolded revoke_device_steps_def]], goal_cases)
  case 1
  then show ?case by (rule moves_wrapped(2)[rotated]) (rule foreign_device_queries(1)[OF assms(1)])
next
  case (2 a w1)
  then show ?case
    by - (rule fo.andthen_moves, assumption+,
      auto intro: moves_wrapped(1)[OF foreign_device_queries(2)] moves_wrapped(1)[OF foreign_device_queries(3)])
qed

lemma RevokeDevice_foreign:
  assumes "isolated w" and "parse_id x userID = Inr uid" and "RevokeDevice x s userID did w = (r, w')"
  shows "foreign uid (dbs w) (dbs w')"
proof (cases "Pool_set s")
  case True
  then show ?thesis using RevokeDevice_outcome[OF assms(1) True assms(3)] assms(2)
    by (cases r) (auto simp: fo.R_refl intro: device_ended_foreign)
next
  case False
  then show ?thesis using assms revoke_device_steps_foreign[OF assms(1)]
    by (auto simp: RevokeDevice_def revokeDeviceNoTx_def moves_def fo.R_refl split: sum.splits)
qed

text \<open>Whatever an authenticated user asks of an account, with whatever ids and tokens, the users,
  devices and tokens of everybody else, and every other table, are as before.\<close>

lemma account_requests_isolate_tenants:
  assumes "isolated w" and "parse_id x userID = Inr uid"
  shows "foreign uid (dbs w) (dbs (serve x s c userID req w))"
proof (cases req)
  case (LogoutRequest tok)
  then show ?thesis using Logout_foreign[OF assms]
    by (cases "Logout x c userID tok w") (auto simp: serve_def moves_def)
next
  case GetMe
  then show ?thesis using moves_wrapped(2)[OF foreign_queries(1)[OF assms(1)]] assms(2)
    by (cases "GetProfile x userID w") (fastforce simp: serve_def moves_def GetProfile_def)
next
  case (PatchMe upd)
  then show ?thesis using UpdateProfile_foreign[OF assms]
    by (cases "UpdateProfile x userID upd w") (auto simp: serve_def moves_def)
next
  case ListDevicesRequest
  then show ?thesis using moves_wrapped(1)[OF foreign_queries(4)[OF assms(1)]] assms(2)
    by (cases "ListDevices x userID w") (fastforce simp: serve_def moves_def ListDevices_def)
next
  case (PatchDevice did name)
  obtain r w' where run: "RenameDevice x userID did name w = (r, w')" by (rule prod.exhaust)
  have "moves (foreign uid) w w'" using run assms
    by (auto simp: RenameDevice_def Let_def intro: fo.moves_refl
        moves_wrapped(2)[OF foreign_queries(3)[OF assms(1)]] split: sum.splits if_splits)
  then show ?thesis using PatchDevice run by (simp add: serve_def moves_def)
next
  case (DeleteDevice did)
  obtain r w' where run: "RevokeDevice x s userID did w = (r, w')" by (rule prod.exhaust)
  show ?thesis using RevokeDevice_foreign[OF assms run] DeleteDevice run by (simp add: serve_def)
qed

lemma serve_unknown: "parse_id x userID = Inl e \<Longrightarrow> serve x s c userID req w = w"
  by (cases req)
    (simp_all add: serve_def Logout_def GetProfile_def UpdateProfile_def ListDevices_def RenameDevice_def RevokeDevice_def Let_def)

end
