(* ===== verification/CatalogProps.thy ===== *)
theory CatalogProps
  imports Projects Tags Categories FocusSessions
begin

text \<open>
  What the operations of the four resource groups keep: the rows of the other users and the
  system categories, every table they do not write, and the types of the tables they do.
\<close>

section \<open>The tables' types\<close>

text \<open>Keys, unique pairs, checks and references, as the migrations declare them.\<close>

definition catalog_ok :: "db \<Rightarrow> bool" where
  "catalog_ok d \<longleftrightarrow>
     distinct (map pr_id (projects d)) \<and> distinct (map tag_id (tags d)) \<and>
     distinct (map cat_id (categories d)) \<and> distinct (map fs_id (focus_sessions d)) \<and>
     distinct (map (\<lambda>t. (tag_user_id t, tag_name t)) (tags d)) \<and>
     (\<forall>p\<in>set (projects d). user_exists d (pr_user_id p)) \<and>
     (\<forall>t\<in>set (tags d). user_exists d (tag_user_id t)) \<and>
     (\<forall>c\<in>set (categories d). fk_opt (user_exists d) (cat_user_id c) \<and> category_check c = None) \<and>
     (\<forall>f\<in>set (focus_sessions d). focus_check f = None \<and> list_all snd (focus_references d f))"

section \<open>What one user's request leaves alone\<close>

definition others_kept :: "uuid \<Rightarrow> db \<Rightarrow> db \<Rightarrow> bool" where
  "others_kept uid d d' \<longleftrightarrow>
     filter (\<lambda>p. pr_user_id p \<noteq> uid) (projects d') = filter (\<lambda>p. pr_user_id p \<noteq> uid) (projects d) \<and>
     filter (\<lambda>t. tag_user_id t \<noteq> uid) (tags d') = filter (\<lambda>t. tag_user_id t \<noteq> uid) (tags d) \<and>
     filter (\<lambda>c. cat_user_id c \<noteq> Some uid) (categories d') = filter (\<lambda>c. cat_user_id c \<noteq> Some uid) (categories d) \<and>
     filter (\<lambda>f. fs_user_id f \<noteq> uid) (focus_sessions d') = filter (\<lambda>f. fs_user_id f \<noteq> uid) (focus_sessions d) \<and>
     filter (\<lambda>r. cl_user_id r \<noteq> Some uid) (changelog d') = filter (\<lambda>r. cl_user_id r \<noteq> Some uid) (changelog d) \<and>
     d'\<lparr>projects := [], tags := [], categories := [], focus_sessions := [], changelog := []\<rparr> =
       d\<lparr>projects := [], tags := [], categories := [], focus_sessions := [], changelog := []\<rparr>"

definition kept :: "uuid \<Rightarrow> db \<Rightarrow> db \<Rightarrow> bool" where
  "kept uid d d' \<longleftrightarrow> others_kept uid d d' \<and> (catalog_ok d \<longrightarrow> catalog_ok d')"

interpretation kp: frame "kept uid" for uid
  by unfold_locales (auto simp: kept_def others_kept_def)

section \<open>A table with triggers keeps a frame\<close>

text \<open>
  The contract: an accepted new row, and an accepted change of the rows a statement selects by
  owner and key, keep the frame, with their change logged.
\<close>

locale logged_table = frame R for R :: "db \<Rightarrow> db \<Rightarrow> bool" +
  fixes T :: "'r table" and uid :: uuid
    and ins_refused :: "db \<Rightarrow> 'r \<Rightarrow> db_error option" and accepts :: "db \<Rightarrow> 'r \<Rightarrow> 'r \<Rightarrow> bool"
  assumes insert_kept: "ins_refused d row = None \<Longrightarrow> owner_of T row = Some uid \<Longrightarrow> cl_user_id c = Some uid \<Longrightarrow>
      R d ((upd_rows T (\<lambda>rs. rs @ [row]) d)\<lparr>changelog := changelog d @ [c]\<rparr>)"
    and update_kept: "(\<And>r. P r \<Longrightarrow> key_of T r = i \<and> owner_of T r = Some uid) \<Longrightarrow> filter P (rows_of T d) = r # rs \<Longrightarrow>
      (\<And>r. key_of T (g r) = key_of T r \<and> owner_of T (g r) = owner_of T r) \<Longrightarrow> accepts d r (g r) \<Longrightarrow> cl_user_id c = Some uid \<Longrightarrow>
      R d ((upd_rows T (update_where P g) d)\<lparr>changelog := changelog d @ [c]\<rparr>)"
    and upd_changelog: "changelog (upd_rows T f d) = changelog d"
begin

lemma insert_row_moves:
  assumes "\<And>now seq. owner_of T (mk now seq) = Some uid" and "insert_row T ins_refused mk v = (r, v')"
  shows "hazards v' = hazards v \<and> R (dbs v) (dbs v')"
  using assms
  by (auto simp: insert_row_def next_server_seq_def log_change_def Let_def upd_changelog R_refl
      intro!: insert_kept split: option.splits)

lemma update_row_moves:
  assumes "\<And>r. P r \<Longrightarrow> key_of T r = i \<and> owner_of T r = Some uid"
    and "\<And>now seq r. key_of T (g now seq r) = key_of T r \<and> owner_of T (g now seq r) = owner_of T r"
    and "\<And>now seq d r. refused d (g now seq r) = None \<Longrightarrow> accepts d r (g now seq r)"
    and "update_row T refused P g v = (r, v')"
  shows "hazards v' = hazards v \<and> R (dbs v) (dbs v')"
proof (cases "filter P (rows_of T (dbs v))")
  case Nil
  then show ?thesis using assms(4) by (simp add: update_row_def R_refl)
next
  case (Cons r0 rs)
  then have r0: "P r0" by (metis filter_eq_ConsD)
  show ?thesis
    using assms(4) assms(1-3) Cons r0
    by (auto simp: update_row_def next_server_seq_def log_change_def Let_def upd_changelog R_refl
        intro!: update_kept[of P i _ r0] split: option.splits)
qed

end

text \<open>Updating the one row that a statement selects, among rows with distinct keys.\<close>

lemma update_where_distinct:
  assumes "distinct (map k rs)" and "filter P rs = r # rest" and "\<And>s. P s \<Longrightarrow> k s = i" and "\<And>s. k (g s) = k s"
  shows "r \<in> set rs" "P r" "map k (update_where P g rs) = map k rs"
    and "set (update_where P g rs) = insert (g r) (set rs - {r})"
proof -
  have r: "r \<in> set rs \<and> P r" by (metis assms(2) filter_eq_ConsD in_set_conv_decomp)
  then show "r \<in> set rs" "P r" by simp_all
  show "map k (update_where P g rs) = map k rs"
    using assms(4) by (simp add: update_where_def)
  have only: "s = r" if "s \<in> set rs" "P s" for s
    using that r assms(1,3) by (metis distinct_map inj_onD)
  show "set (update_where P g rs) = insert (g r) (set rs - {r})"
    using r only by (auto simp: set_update_where image_def)
qed

lemma user_exists_upd [simp]:
  "user_exists (projects_update f d) = user_exists d" "user_exists (tags_update g d) = user_exists d"
  "user_exists (categories_update h d) = user_exists d" "user_exists (focus_sessions_update k d) = user_exists d"
  "user_exists (d\<lparr>changelog := cs\<rparr>) = user_exists d"
  by (simp_all add: user_exists_def fun_eq_iff)

lemma device_exists_upd [simp]:
  "device_exists (projects_update f d) = device_exists d" "device_exists (tags_update g d) = device_exists d"
  "device_exists (categories_update h d) = device_exists d" "device_exists (focus_sessions_update k d) = device_exists d"
  "device_exists (d\<lparr>changelog := cs\<rparr>) = device_exists d"
  by (simp_all add: device_exists_def fun_eq_iff)

lemma project_exists_upd [simp]:
  "project_exists (tags_update g d) = project_exists d"
  "project_exists (categories_update h d) = project_exists d" "project_exists (focus_sessions_update k d) = project_exists d"
  "project_exists (d\<lparr>changelog := cs\<rparr>) = project_exists d"
  by (simp_all add: project_exists_def fun_eq_iff)

lemma project_exists_mono:
  "pr_id ` set (projects d) \<subseteq> pr_id ` set (f (projects d)) \<Longrightarrow> fk_opt (project_exists d) i \<Longrightarrow> fk_opt (project_exists (projects_update f d)) i"
  by (auto simp: project_exists_def fk_opt_def split: option.splits)

lemma project_exists_keys:
  assumes "map pr_id (f (projects d)) = map pr_id (projects d)"
  shows "project_exists (projects_update f d) = project_exists d"
proof -
  have "pr_id ` set (f (projects d)) = pr_id ` set (projects d)"
    using arg_cong[OF assms, of set] by simp
  then show ?thesis by (simp add: project_exists_def fun_eq_iff)
qed

lemma fk_error_None [simp]: "fk_error fks = None \<longleftrightarrow> list_all snd fks"
  by (simp add: fk_error_def fk_violation_None)

lemma check_None:
  "category_check c = None \<longleftrightarrow> - 2 \<le> cat_productivity c \<and> cat_productivity c \<le> 2"
  "focus_check f = None \<longleftrightarrow> fs_kind f \<in> set focus_kinds \<and> fs_status f \<in> set focus_statuses"
  by (auto simp: category_check_def focus_check_def)

lemma filter_kept:
  "(\<And>r. P r \<Longrightarrow> \<not> Q r) \<Longrightarrow> (\<And>r. P r \<Longrightarrow> \<not> Q (g r)) \<Longrightarrow> filter Q (update_where P g rs) = filter Q rs"
  by (induction rs) auto

interpretation pj: logged_table "kept uid" project_table uid project_refused "\<lambda>_ _ _. True" for uid
proof
  fix d and row :: project and c :: sync_changelog
  assume ok: "project_refused d row = None" and own: "owner_of project_table row = Some uid" "cl_user_id c = Some uid"
  let ?d' = "(upd_rows project_table (\<lambda>rs. rs @ [row]) d)\<lparr>changelog := changelog d @ [c]\<rparr>"
  have "catalog_ok ?d'" if "catalog_ok d"
    using that ok by (auto simp: catalog_ok_def project_table_def project_refused_def focus_references_def
        intro: project_exists_mono split: if_splits)
  then show "kept uid d ?d'" using own by (simp add: kept_def others_kept_def project_table_def)
next
  fix P i d and r :: project and rs and g :: "project \<Rightarrow> project" and c :: sync_changelog
  assume P: "\<And>r. P r \<Longrightarrow> key_of project_table r = i \<and> owner_of project_table r = Some uid"
    and hit: "filter P (rows_of project_table d) = r # rs"
    and g: "\<And>r. key_of project_table (g r) = key_of project_table r \<and> owner_of project_table (g r) = owner_of project_table r"
    and c: "cl_user_id c = Some uid"
  let ?d' = "(upd_rows project_table (update_where P g) d)\<lparr>changelog := changelog d @ [c]\<rparr>"
  have "catalog_ok ?d'" if ok: "catalog_ok d"
  proof -
    have "distinct (map pr_id (projects d))" using ok by (simp add: catalog_ok_def)
    note upd = update_where_distinct[OF this, of P r rs i g] 
    have m: "map pr_id (update_where P g (projects d)) = map pr_id (projects d)"
      and "set (update_where P g (projects d)) = insert (g r) (set (projects d) - {r})" and "r \<in> set (projects d)"
      using upd P hit g by (simp_all add: project_table_def)
    then show ?thesis
      using ok g project_exists_keys[where f = "update_where P g", OF m]
      by (auto simp: catalog_ok_def project_table_def focus_references_def)
  qed
  moreover have "filter (\<lambda>p. pr_user_id p \<noteq> uid) (update_where P g (projects d)) = filter (\<lambda>p. pr_user_id p \<noteq> uid) (projects d)"
    by (rule filter_kept) (use P g in \<open>auto simp: project_table_def\<close>)
  ultimately show "kept uid d ?d'" using c by (simp add: kept_def others_kept_def project_table_def)
qed (simp add: project_table_def)

interpretation tg: logged_table "kept uid" tag_table uid tag_refused
  "\<lambda>d t t'. tag_update_refused d t' = None \<or> tag_name t' = tag_name t" for uid
proof
  fix d and row :: tag and c :: sync_changelog
  assume ok: "tag_refused d row = None" and own: "owner_of tag_table row = Some uid" "cl_user_id c = Some uid"
  let ?d' = "(upd_rows tag_table (\<lambda>rs. rs @ [row]) d)\<lparr>changelog := changelog d @ [c]\<rparr>"
  have "catalog_ok ?d'" if "catalog_ok d"
    using that ok by (auto simp: catalog_ok_def tag_table_def tag_refused_def focus_references_def list_ex_iff
        same_tag_name_def split: if_splits)
  then show "kept uid d ?d'" using own by (simp add: kept_def others_kept_def tag_table_def)
next
  fix P i d and r :: tag and rs and g :: "tag \<Rightarrow> tag" and c :: sync_changelog
  assume P: "\<And>r. P r \<Longrightarrow> key_of tag_table r = i \<and> owner_of tag_table r = Some uid"
    and hit: "filter P (rows_of tag_table d) = r # rs"
    and g: "\<And>r. key_of tag_table (g r) = key_of tag_table r \<and> owner_of tag_table (g r) = owner_of tag_table r"
    and acc: "tag_update_refused d (g r) = None \<or> tag_name (g r) = tag_name r"
    and c: "cl_user_id c = Some uid"
  let ?d' = "(upd_rows tag_table (update_where P g) d)\<lparr>changelog := changelog d @ [c]\<rparr>"
  have "catalog_ok ?d'" if ok: "catalog_ok d"
  proof -
    have dist: "distinct (map tag_id (tags d))" using ok by (simp add: catalog_ok_def)
    have m: "map tag_id (update_where P g (tags d)) = map tag_id (tags d)"
      and s: "set (update_where P g (tags d)) = insert (g r) (set (tags d) - {r})" and r: "r \<in> set (tags d)"
      using update_where_distinct[OF dist, of P r rs i g] P hit g by (simp_all add: tag_table_def)
    have free: "(tag_user_id t, tag_name t) \<noteq> (tag_user_id (g r), tag_name (g r))" if "t \<in> set (tags d) - {r}" for t
      using that acc g r ok dist
      by (auto simp: tag_update_refused_def list_ex_iff same_tag_name_def tag_table_def catalog_ok_def distinct_map
          inj_on_def split: if_splits)
    let ?k = "\<lambda>t. (tag_user_id t, tag_name t)"
    have "inj_on ?k (set (tags d) - {r})"
      using ok by (auto simp: catalog_ok_def distinct_map inj_on_diff)
    then have "inj_on ?k (insert (g r) (set (tags d) - {r}))" using free by fastforce
    moreover have "distinct (update_where P g (tags d))" using m dist by (metis distinct_map)
    ultimately have "distinct (map ?k (update_where P g (tags d)))" using s by (simp add: distinct_map)
    then show ?thesis
      using ok g m s r by (auto simp: catalog_ok_def tag_table_def focus_references_def)
  qed
  moreover have "filter (\<lambda>t. tag_user_id t \<noteq> uid) (update_where P g (tags d)) = filter (\<lambda>t. tag_user_id t \<noteq> uid) (tags d)"
    by (rule filter_kept) (use P g in \<open>auto simp: tag_table_def\<close>)
  ultimately show "kept uid d ?d'" using c by (simp add: kept_def others_kept_def tag_table_def)
qed (simp add: tag_table_def)

interpretation ct: logged_table "kept uid" category_table uid category_refused
  "\<lambda>_ c c'. category_check c' = None \<or> cat_productivity c' = cat_productivity c" for uid
proof
  fix d and row :: category and c :: sync_changelog
  assume ok: "category_refused d row = None" and own: "owner_of category_table row = Some uid" "cl_user_id c = Some uid"
  let ?d' = "(upd_rows category_table (\<lambda>rs. rs @ [row]) d)\<lparr>changelog := changelog d @ [c]\<rparr>"
  have "catalog_ok ?d'" if "catalog_ok d"
    using that ok by (auto simp: catalog_ok_def category_table_def category_refused_def focus_references_def split: if_splits)
  then show "kept uid d ?d'" using own by (simp add: kept_def others_kept_def category_table_def)
next
  fix P i d and r :: category and rs and g :: "category \<Rightarrow> category" and c :: sync_changelog
  assume P: "\<And>r. P r \<Longrightarrow> key_of category_table r = i \<and> owner_of category_table r = Some uid"
    and hit: "filter P (rows_of category_table d) = r # rs"
    and g: "\<And>r. key_of category_table (g r) = key_of category_table r \<and> owner_of category_table (g r) = owner_of category_table r"
    and acc: "category_check (g r) = None \<or> cat_productivity (g r) = cat_productivity r"
    and c: "cl_user_id c = Some uid"
  let ?d' = "(upd_rows category_table (update_where P g) d)\<lparr>changelog := changelog d @ [c]\<rparr>"
  have "catalog_ok ?d'" if ok: "catalog_ok d"
  proof -
    have dist: "distinct (map cat_id (categories d))" using ok by (simp add: catalog_ok_def)
    have m: "map cat_id (update_where P g (categories d)) = map cat_id (categories d)"
      and s: "set (update_where P g (categories d)) = insert (g r) (set (categories d) - {r})" and r: "r \<in> set (categories d)"
      using update_where_distinct[OF dist, of P r rs i g] P hit g by (simp_all add: category_table_def)
    have "category_check (g r) = None" using acc ok r by (auto simp: catalog_ok_def check_None)
    then show ?thesis
      using ok g m s r by (auto simp: catalog_ok_def category_table_def focus_references_def)
  qed
  moreover have "filter (\<lambda>c. cat_user_id c \<noteq> Some uid) (update_where P g (categories d)) = filter (\<lambda>c. cat_user_id c \<noteq> Some uid) (categories d)"
    by (rule filter_kept) (use P g in \<open>auto simp: category_table_def\<close>)
  ultimately show "kept uid d ?d'" using c by (simp add: kept_def others_kept_def category_table_def)
qed (simp add: category_table_def)

interpretation fs: logged_table "kept uid" focus_table uid focus_refused
  "\<lambda>d f f'. focus_update_refused d f' = None \<or>
     (fs_kind f', fs_status f', fs_device_id f', fs_project_id f') = (fs_kind f, fs_status f, fs_device_id f, fs_project_id f)" for uid
proof
  fix d and row :: focus_session and c :: sync_changelog
  assume ok: "focus_refused d row = None" and own: "owner_of focus_table row = Some uid" "cl_user_id c = Some uid"
  let ?d' = "(upd_rows focus_table (\<lambda>rs. rs @ [row]) d)\<lparr>changelog := changelog d @ [c]\<rparr>"
  have "catalog_ok ?d'" if "catalog_ok d"
    using that ok by (auto simp: catalog_ok_def focus_table_def focus_refused_def focus_references_def split: if_splits)
  then show "kept uid d ?d'" using own by (simp add: kept_def others_kept_def focus_table_def)
next
  fix P i d and r :: focus_session and rs and g :: "focus_session \<Rightarrow> focus_session" and c :: sync_changelog
  assume P: "\<And>r. P r \<Longrightarrow> key_of focus_table r = i \<and> owner_of focus_table r = Some uid"
    and hit: "filter P (rows_of focus_table d) = r # rs"
    and g: "\<And>r. key_of focus_table (g r) = key_of focus_table r \<and> owner_of focus_table (g r) = owner_of focus_table r"
    and acc: "focus_update_refused d (g r) = None \<or>
      (fs_kind (g r), fs_status (g r), fs_device_id (g r), fs_project_id (g r)) = (fs_kind r, fs_status r, fs_device_id r, fs_project_id r)"
    and c: "cl_user_id c = Some uid"
  let ?d' = "(upd_rows focus_table (update_where P g) d)\<lparr>changelog := changelog d @ [c]\<rparr>"
  have "catalog_ok ?d'" if ok: "catalog_ok d"
  proof -
    have dist: "distinct (map fs_id (focus_sessions d))" using ok by (simp add: catalog_ok_def)
    have m: "map fs_id (update_where P g (focus_sessions d)) = map fs_id (focus_sessions d)"
      and s: "set (update_where P g (focus_sessions d)) = insert (g r) (set (focus_sessions d) - {r})" and r: "r \<in> set (focus_sessions d)"
      using update_where_distinct[OF dist, of P r rs i g] P hit g by (simp_all add: focus_table_def)
    have "focus_check (g r) = None \<and> list_all snd (focus_references d (g r))"
      using acc ok r g[of r] by (auto simp: catalog_ok_def check_None focus_update_refused_def focus_references_def focus_table_def split: if_splits)
    then show ?thesis
      using ok g m s by (auto simp: catalog_ok_def focus_table_def focus_references_def)
  qed
  moreover have "filter (\<lambda>f. fs_user_id f \<noteq> uid) (update_where P g (focus_sessions d)) = filter (\<lambda>f. fs_user_id f \<noteq> uid) (focus_sessions d)"
    by (rule filter_kept) (use P g in \<open>auto simp: focus_table_def\<close>)
  ultimately show "kept uid d ?d'" using c by (simp add: kept_def others_kept_def focus_table_def)
qed (simp add: focus_table_def)


section \<open>The queries\<close>

lemma insert_moves:
  assumes iso: "isolated w"
  shows "CreateProjectForUser i uid n c w = (r1, w') \<Longrightarrow> moves (kept uid) w w'"
    and "CreateTagForUser i uid n w = (r2, w') \<Longrightarrow> moves (kept uid) w w'"
    and "CreateCategoryForUser uid n c p w = (r3, w') \<Longrightarrow> moves (kept uid) w w'"
    and "CreateFocusSessionForUser i uid a w = (r4, w') \<Longrightarrow> moves (kept uid) w w'"
proof -
  note t = kp.exec_txt_moves[OF iso]
  show "CreateProjectForUser i uid n c w = (r1, w') \<Longrightarrow> moves (kept uid) w w'" unfolding CreateProjectForUser_def
    by (rule t) (auto intro!: pj.insert_row_moves simp: project_table_def)
  show "CreateTagForUser i uid n w = (r2, w') \<Longrightarrow> moves (kept uid) w w'" unfolding CreateTagForUser_def
    by (rule t) (auto intro!: tg.insert_row_moves simp: tag_table_def)
  show "CreateFocusSessionForUser i uid a w = (r4, w') \<Longrightarrow> moves (kept uid) w w'" unfolding CreateFocusSessionForUser_def
    by (rule t) (auto intro!: fs.insert_row_moves simp: focus_table_def)
  show "CreateCategoryForUser uid n c p w = (r3, w') \<Longrightarrow> moves (kept uid) w w'" unfolding CreateCategoryForUser_def
  proof (rule t)
    fix v r v' assume "(case gen_random_uuid v of (i, w) \<Rightarrow> insert_row category_table category_refused (\<lambda>now seq.
           \<lparr>cat_id = i, cat_user_id = Some uid, cat_name = n, cat_color = c, cat_productivity = p,
            cat_created_at = now, cat_updated_at = now, cat_deleted_at = None, cat_server_seq = seq\<rparr>) w) = (r, v')"
    from ct.insert_row_moves[OF _ this[unfolded gen_random_uuid_def prod.case]]
    show "hazards v' = hazards v \<and> kept uid (dbs v) (dbs v')" by (simp add: category_table_def)
  qed
qed

lemma rows_affected_world: "rows_affected p = (r, w) \<Longrightarrow> \<exists>r'. p = (r', w)"
  by (auto simp: rows_affected_def split: prod.splits sum.splits)

lemmas table_defs = project_table_def tag_table_def category_table_def focus_table_def
lemmas select_defs = live_project_def live_tag_def own_category_def live_focus_def

lemma update_moves:
  assumes iso: "isolated w"
  shows "UpdateProjectForUser i uid n c a w = (r1, w') \<Longrightarrow> moves (kept uid) w w'"
    and "UpdateTagForUser i uid n w = (r2, w') \<Longrightarrow> moves (kept uid) w w'"
    and "UpdateOwnCategoryForUser i uid n c p w = (r3, w') \<Longrightarrow> moves (kept uid) w w'"
    and "UpdateFocusSessionForUser i uid b w = (r4, w') \<Longrightarrow> moves (kept uid) w w'"
proof -
  note t = kp.exec_txt_moves[OF iso]
  show "UpdateProjectForUser i uid n c a w = (r1, w') \<Longrightarrow> moves (kept uid) w w'" unfolding UpdateProjectForUser_def
    by (rule t, assumption, erule pj.update_row_moves[rotated 3]) (auto simp: table_defs select_defs)
  show "UpdateTagForUser i uid n w = (r2, w') \<Longrightarrow> moves (kept uid) w w'" unfolding UpdateTagForUser_def
    by (rule t, assumption, erule tg.update_row_moves[rotated 3]) (auto simp: table_defs select_defs)
  show "UpdateOwnCategoryForUser i uid n c p w = (r3, w') \<Longrightarrow> moves (kept uid) w w'" unfolding UpdateOwnCategoryForUser_def
    by (rule t, assumption, erule ct.update_row_moves[rotated 3]) (auto simp: table_defs select_defs)
  show "UpdateFocusSessionForUser i uid b w = (r4, w') \<Longrightarrow> moves (kept uid) w w'" unfolding UpdateFocusSessionForUser_def
    by (rule t, assumption, erule fs.update_row_moves[rotated 3]) (auto simp: table_defs select_defs)
qed

lemma delete_moves:
  assumes iso: "isolated w"
  shows "SoftDeleteProjectForUser i uid w = (r, w') \<Longrightarrow> moves (kept uid) w w'"
    and "SoftDeleteTagForUser i uid w = (r, w') \<Longrightarrow> moves (kept uid) w w'"
    and "SoftDeleteOwnCategoryForUser i uid w = (r, w') \<Longrightarrow> moves (kept uid) w w'"
    and "SoftDeleteFocusSessionForUser i uid w = (r, w') \<Longrightarrow> moves (kept uid) w w'"
proof -
  note e = kp.exec_moves[OF iso]
  show "SoftDeleteProjectForUser i uid w = (r, w') \<Longrightarrow> moves (kept uid) w w'" unfolding SoftDeleteProjectForUser_def
    by (rule e, assumption, drule rows_affected_world, erule exE, erule pj.update_row_moves[rotated 3]) (auto simp: table_defs select_defs)
  show "SoftDeleteTagForUser i uid w = (r, w') \<Longrightarrow> moves (kept uid) w w'" unfolding SoftDeleteTagForUser_def
    by (rule e, assumption, drule rows_affected_world, erule exE, erule tg.update_row_moves[rotated 3]) (auto simp: table_defs select_defs)
  show "SoftDeleteOwnCategoryForUser i uid w = (r, w') \<Longrightarrow> moves (kept uid) w w'" unfolding SoftDeleteOwnCategoryForUser_def
    by (rule e, assumption, drule rows_affected_world, erule exE, erule ct.update_row_moves[rotated 3]) (auto simp: table_defs select_defs)
  show "SoftDeleteFocusSessionForUser i uid w = (r, w') \<Longrightarrow> moves (kept uid) w w'" unfolding SoftDeleteFocusSessionForUser_def
    by (rule e, assumption, drule rows_affected_world, erule exE, erule fs.update_row_moves[rotated 3]) (auto simp: table_defs select_defs)
qed

section \<open>The operations\<close>

text \<open>The requests of the four groups, as the routes offer them.\<close>

datatype catalog_request =
    CreateProject crypto nat project_create | ListProjects string int | GetProject string
  | PatchProject time string project_update | DeleteProject string
  | CreateTag crypto nat tag_create | ListTags string int | GetTag string
  | PatchTag string tag_update | DeleteTag string
  | CreateCategory category_create | ListCategories string int | GetCategory string
  | PatchCategory string category_update | DeleteCategory string
  | CreateFocusSession crypto nat focus_create | ListFocusSessions string int | GetFocusSession string
  | PatchFocusSession string focus_update | DeleteFocusSession string

definition status :: "(crud_error + 'a) \<times> world \<Rightarrow> crud_error option \<times> world" where
  "status p = (case p of (Inl e, w) \<Rightarrow> (Some e, w) | (Inr _, w) \<Rightarrow> (None, w))"

definition serve_catalog :: "ext \<Rightarrow> string \<Rightarrow> catalog_request \<Rightarrow> world \<Rightarrow> crud_error option \<times> world" where
  "serve_catalog x userID req =
     (case req of
        CreateProject c k r \<Rightarrow> (\<lambda>w. status (Projects.Create x c k userID r w))
      | ListProjects cur n \<Rightarrow> (\<lambda>w. status (Projects.List x userID cur n w))
      | GetProject i \<Rightarrow> (\<lambda>w. status (Projects.Get x userID i w))
      | PatchProject now i r \<Rightarrow> (\<lambda>w. status (Projects.Update x now userID i r w))
      | DeleteProject i \<Rightarrow> (\<lambda>w. status (Projects.Delete x userID i w))
      | CreateTag c k r \<Rightarrow> (\<lambda>w. status (Tags.Create x c k userID r w))
      | ListTags cur n \<Rightarrow> (\<lambda>w. status (Tags.List x userID cur n w))
      | GetTag i \<Rightarrow> (\<lambda>w. status (Tags.Get x userID i w))
      | PatchTag i r \<Rightarrow> (\<lambda>w. status (Tags.Update x userID i r w))
      | DeleteTag i \<Rightarrow> (\<lambda>w. status (Tags.Delete x userID i w))
      | CreateCategory r \<Rightarrow> (\<lambda>w. status (Categories.Create x userID r w))
      | ListCategories cur n \<Rightarrow> (\<lambda>w. status (Categories.List x userID cur n w))
      | GetCategory i \<Rightarrow> (\<lambda>w. status (Categories.Get x userID i w))
      | PatchCategory i r \<Rightarrow> (\<lambda>w. status (Categories.Update x userID i r w))
      | DeleteCategory i \<Rightarrow> (\<lambda>w. status (Categories.Delete x userID i w))
      | CreateFocusSession c k r \<Rightarrow> (\<lambda>w. status (FocusSessions.Create x c k userID r w))
      | ListFocusSessions cur n \<Rightarrow> (\<lambda>w. status (FocusSessions.List x userID cur n w))
      | GetFocusSession i \<Rightarrow> (\<lambda>w. status (FocusSessions.Get x userID i w))
      | PatchFocusSession i r \<Rightarrow> (\<lambda>w. status (FocusSessions.Update x userID i r w))
      | DeleteFocusSession i \<Rightarrow> (\<lambda>w. status (FocusSessions.Delete x userID i w)))"

text \<open>
  What every query of the four groups keeps each operation keeps: the contract names the twelve
  statements that write.
\<close>

definition keeps :: "(uuid \<Rightarrow> world \<Rightarrow> world \<Rightarrow> bool) \<Rightarrow> uuid \<Rightarrow> (world \<Rightarrow> 'a \<times> world) \<Rightarrow> bool" where
  "keeps P uid f \<longleftrightarrow> (\<forall>w r w'. f w = (r, w') \<longrightarrow> P uid w w')"

lemma keepsI: "(\<And>w r w'. f w = (r, w') \<Longrightarrow> P uid w w') \<Longrightarrow> keeps P uid f"
  by (auto simp: keeps_def)

lemma keepsD: "keeps P uid f \<Longrightarrow> f w = (r, w') \<Longrightarrow> P uid w w'"
  by (auto simp: keeps_def)

locale catalog_law = statement_law +
  assumes keeps_writes:
    "keeps P uid (CreateProjectForUser i uid n c)" "keeps P uid (CreateTagForUser i uid n)"
    "keeps P uid (CreateCategoryForUser uid n c p)" "keeps P uid (CreateFocusSessionForUser i uid a)"
    "keeps P uid (UpdateProjectForUser i uid n c ar)" "keeps P uid (UpdateTagForUser i uid n)"
    "keeps P uid (UpdateOwnCategoryForUser i uid n c p)" "keeps P uid (UpdateFocusSessionForUser i uid a)"
    "keeps P uid (SoftDeleteProjectForUser i uid)" "keeps P uid (SoftDeleteTagForUser i uid)"
    "keeps P uid (SoftDeleteOwnCategoryForUser i uid)" "keeps P uid (SoftDeleteFocusSessionForUser i uid)"
begin

lemma keeps_return: "keeps P uid (Pair r)"
  by (auto intro: keepsI P_refl)

lemma keeps_andthen: "keeps P uid f \<Longrightarrow> (\<And>a. keeps P uid (k a)) \<Longrightarrow> keeps P uid (\<lambda>w. andthen (f w) k)"
  by (rule keepsI, rule P_andthen) (auto simp: keeps_def)

lemma keeps_user: "parseUUID x userID = Inr uid \<Longrightarrow> keeps P uid (k uid) \<Longrightarrow> keeps P uid (\<lambda>w. andthen (user_of x userID w) k)"
  by (auto simp: user_of_def keeps_def)

lemma keeps_cases:
  "keeps P uid f \<Longrightarrow> (\<And>a. keeps P uid (g a)) \<Longrightarrow> keeps P uid (\<lambda>w. case v of None \<Rightarrow> f w | Some a \<Rightarrow> g a w)"
  "(\<And>e. keeps P uid (l e)) \<Longrightarrow> (\<And>a. keeps P uid (g a)) \<Longrightarrow> keeps P uid (\<lambda>w. case s of Inl e \<Rightarrow> l e w | Inr a \<Rightarrow> g a w)"
  "keeps P uid f \<Longrightarrow> keeps P uid h \<Longrightarrow> keeps P uid (\<lambda>w. if b then f w else h w)"
  subgoal by (cases v) simp_all
  subgoal by (cases s) simp_all
  subgoal by (cases b) simp_all
  done

lemma keeps_pure:
  "keeps P uid (user_of x s)" "keeps P uid (path_id x s)" "keeps P uid (required m s)" "keeps P uid (patched m v cur)" "keeps P uid (check b m)"
  "keeps P uid (new_id x c k m s)" "keeps P uid (parseTimestamp x s)" "keeps P uid (validateProductivity p)"
  by (auto simp: path_id_def required_def patched_def check_def new_id_def user_of_def parseTimestamp_def
      validateProductivity_def Let_def intro!: keepsI P_refl split: sum.splits option.splits if_splits)

lemma keeps_mapped:
  "keeps P uid q \<Longrightarrow> keeps P uid (\<lambda>w. found_row m (q w))" "keeps P uid q \<Longrightarrow> keeps P uid (\<lambda>w. created cv m (q w))"
  "keeps P uid q \<Longrightarrow> keeps P uid (\<lambda>w. updated cv m (q w))" "keeps P uid q \<Longrightarrow> keeps P uid (\<lambda>w. owned_row mm m (q w))"
  by (auto simp: found_row_def created_def updated_def owned_row_def intro!: keepsI dest: keepsD split: prod.splits sum.splits)

lemma keeps_reads:
  "keeps P uid (GetProjectForUser i u)" "keeps P uid (GetTagForUser i u)" "keeps P uid (GetCategoryForUser i u)"
  "keeps P uid (GetOwnCategoryForUser i u)" "keeps P uid (GetFocusSessionForUser i u)"
  "keeps P uid (GetDeviceByID i u)" "keeps P uid (GetProjectByIDForUser i u)"
  "keeps P uid (exec (list_rows T Q cur lim))"
  unfolding GetProjectForUser_def GetTagForUser_def GetCategoryForUser_def GetOwnCategoryForUser_def
    GetFocusSessionForUser_def GetDeviceByID_def GetProjectByIDForUser_def
  by (rule keepsI, erule P_read)+ (rule keepsI, erule P_exec[rotated], simp add: list_rows_def P_refl)

lemmas keeps_step = keeps_user keeps_andthen keeps_return keeps_cases keeps_pure keeps_mapped keeps_writes keeps_reads

lemma keeps_shared:
  assumes "parseUUID x userID = Inr uid"
  shows "(\<And>i. keeps P uid (get i uid)) \<Longrightarrow> keeps P uid (crud_get x m get userID rid)"
    and "(\<And>i. keeps P uid (del i uid)) \<Longrightarrow> keeps P uid (crud_delete x m del userID rid)"
    and "(\<And>c n. keeps P uid (lst uid c n)) \<Longrightarrow> keeps P uid (crud_list x m lst sq userID cur lim)"
proof -
  show "keeps P uid (crud_get x m get userID rid)" if "\<And>i. keeps P uid (get i uid)"
    unfolding crud_get_def[abs_def] by (intro keeps_step assms that)
  show "keeps P uid (crud_delete x m del userID rid)" if "\<And>i. keeps P uid (del i uid)"
  proof -
    have "keeps P uid (\<lambda>w. case del i uid w of (Inl e, w) \<Rightarrow> (Inl (CWrapped m e), w)
       | (Inr rows, w) \<Rightarrow> if rows = 0 then (Inl CNotFound, w) else (Inr (), w))" for i
      using that[of i] by (auto intro!: keepsI dest: keepsD split: prod.splits sum.splits if_splits)
    then show ?thesis unfolding crud_delete_def[abs_def] by (intro keeps_step assms)
  qed
  show "keeps P uid (crud_list x m lst sq userID cur lim)" if "\<And>c n. keeps P uid (lst uid c n)"
  proof -
    have "keeps P uid (\<lambda>w. case lst uid c (LimitParam (l + 1)) w of (Inl e, w) \<Rightarrow> (Inl (CWrapped m e), w)
       | (Inr rows, w) \<Rightarrow> (case page_cut sq l c rows of (page, nextCursor, hasMore) \<Rightarrow>
           (Inr (page, EncodeCursor nextCursor, hasMore), w)))" for c l
      using keepsD[OF that[of c "LimitParam (l + 1)"]] by (auto intro!: keepsI split: prod.splits sum.splits)
    then show ?thesis unfolding crud_list_def[abs_def] Let_def by (intro keeps_step assms)
  qed
qed

lemma keeps_resolve:
  "keeps P uid (resolveDevice x u s)" "keeps P uid (resolveProject x u s)"
  "keeps P uid (patch_device x u req cur)" "keeps P uid (patch_project x u req cur)"
  "keeps P uid (patch_choice v m o' c)" "keeps P uid (patch_start x req cur)" "keeps P uid (patch_end x req cur)"
proof -
  show d: "keeps P uid (resolveDevice x u s)" for s unfolding resolveDevice_def[abs_def] by (intro keeps_step)
  show p: "keeps P uid (resolveProject x u s)" for s unfolding resolveProject_def[abs_def] by (intro keeps_step)
  show "keeps P uid (patch_device x u req cur)" unfolding patch_device_def[abs_def] by (intro keeps_step d)
  show "keeps P uid (patch_project x u req cur)" unfolding patch_project_def[abs_def] by (intro keeps_step p)
  show "keeps P uid (patch_choice v m o' c)" unfolding patch_choice_def[abs_def] by (intro keeps_step)
  show "keeps P uid (patch_start x req cur)" unfolding patch_start_def[abs_def] by (intro keeps_step)
  show "keeps P uid (patch_end x req cur)" unfolding patch_end_def[abs_def] by (intro keeps_step)
qed

lemma keeps_status: "keeps P uid f \<Longrightarrow> keeps P uid (\<lambda>w. status (f w))"
  by (auto simp: status_def intro!: keepsI dest: keepsD split: prod.splits sum.splits)

lemmas keeps_all = keeps_resolve keeps_step

lemma keeps_projects:
  assumes uid: "parseUUID x userID = Inr uid"
  shows "keeps P uid (Projects.Create x c k userID r)" "keeps P uid (Projects.List x userID cur n)"
    "keeps P uid (Projects.Get x userID i)" "keeps P uid (Projects.Update x now userID i u)" "keeps P uid (Projects.Delete x userID i)"
proof -
  show "keeps P uid (Projects.Create x c k userID r)" unfolding Projects.Create_def[abs_def] by (intro keeps_all uid)
  show "keeps P uid (Projects.List x userID cur n)" unfolding Projects.List_def ListProjectsForUser_def[abs_def]
    by (intro keeps_shared keeps_all uid)
  show get: "keeps P uid (Projects.Get x userID i)" unfolding Projects.Get_def by (intro keeps_shared keeps_all uid)
  show "keeps P uid (Projects.Update x now userID i u)" unfolding Projects.Update_def[abs_def] Let_def by (intro get keeps_all uid)
  show "keeps P uid (Projects.Delete x userID i)" unfolding Projects.Delete_def by (intro keeps_shared keeps_all uid)
qed

lemma keeps_tags:
  assumes uid: "parseUUID x userID = Inr uid"
  shows "keeps P uid (Tags.Create x c k userID r)" "keeps P uid (Tags.List x userID cur n)"
    "keeps P uid (Tags.Get x userID i)" "keeps P uid (Tags.Update x userID i u)" "keeps P uid (Tags.Delete x userID i)"
proof -
  show "keeps P uid (Tags.Create x c k userID r)" unfolding Tags.Create_def[abs_def] by (intro keeps_all uid)
  show "keeps P uid (Tags.List x userID cur n)" unfolding Tags.List_def ListTagsForUser_def[abs_def]
    by (intro keeps_shared keeps_all uid)
  show get: "keeps P uid (Tags.Get x userID i)" unfolding Tags.Get_def by (intro keeps_shared keeps_all uid)
  show "keeps P uid (Tags.Update x userID i u)" unfolding Tags.Update_def[abs_def] by (intro get keeps_all uid)
  show "keeps P uid (Tags.Delete x userID i)" unfolding Tags.Delete_def by (intro keeps_shared keeps_all uid)
qed

lemma keeps_categories:
  assumes uid: "parseUUID x userID = Inr uid"
  shows "keeps P uid (Categories.Create x userID r)" "keeps P uid (Categories.List x userID cur n)"
    "keeps P uid (Categories.Get x userID i)" "keeps P uid (Categories.Update x userID i u)" "keeps P uid (Categories.Delete x userID i)"
proof -
  show "keeps P uid (Categories.Create x userID r)" unfolding Categories.Create_def[abs_def] by (intro keeps_all uid)
  show "keeps P uid (Categories.List x userID cur n)" unfolding Categories.List_def ListCategoriesForUser_def[abs_def]
    by (intro keeps_shared keeps_all uid)
  show "keeps P uid (Categories.Get x userID i)" unfolding Categories.Get_def by (intro keeps_shared keeps_all uid)
  show "keeps P uid (Categories.Update x userID i u)" unfolding Categories.Update_def[abs_def] by (intro keeps_all uid)
  show "keeps P uid (Categories.Delete x userID i)" unfolding Categories.Delete_def by (intro keeps_shared keeps_all uid)
qed

lemma keeps_focus:
  assumes uid: "parseUUID x userID = Inr uid"
  shows "keeps P uid (FocusSessions.Create x c k userID r)" "keeps P uid (FocusSessions.List x userID cur n)"
    "keeps P uid (FocusSessions.Get x userID i)" "keeps P uid (FocusSessions.Update x userID i u)"
    "keeps P uid (FocusSessions.Delete x userID i)"
proof -
  show "keeps P uid (FocusSessions.Create x c k userID r)" unfolding FocusSessions.Create_def[abs_def] by (intro keeps_all uid)
  show "keeps P uid (FocusSessions.List x userID cur n)" unfolding FocusSessions.List_def ListFocusSessionsForUser_def[abs_def]
    by (intro keeps_shared keeps_all uid)
  show get: "keeps P uid (FocusSessions.Get x userID i)" unfolding FocusSessions.Get_def by (intro keeps_shared keeps_all uid)
  show "keeps P uid (FocusSessions.Update x userID i u)" unfolding FocusSessions.Update_def[abs_def] Let_def by (intro get keeps_all uid)
  show "keeps P uid (FocusSessions.Delete x userID i)" unfolding FocusSessions.Delete_def by (intro keeps_shared keeps_all uid)
qed

lemma keeps_serve: "parseUUID x userID = Inr uid \<Longrightarrow> keeps P uid (serve_catalog x userID req)"
  by (cases req) (simp_all add: serve_catalog_def keeps_status keeps_projects keeps_tags keeps_categories keeps_focus)

end

section \<open>The rows of the other users and the types\<close>

text \<open>In an isolated session the frame is kept.\<close>

definition keeps_kept :: "uuid \<Rightarrow> world \<Rightarrow> world \<Rightarrow> bool" where
  "keeps_kept uid w w' \<longleftrightarrow> (isolated w \<longrightarrow> moves (kept uid) w w')"

interpretation kept_law: statement_law keeps_kept
proof unfold_locales
  show "keeps_kept uid a b \<Longrightarrow> keeps_kept uid b c \<Longrightarrow> keeps_kept uid a c" for uid a b c
    using kp.moves_trans by (auto simp: keeps_kept_def moves_def)
qed (auto simp: keeps_kept_def moves_def isolated_def kp.R_refl)

interpretation kept_law: catalog_law keeps_kept
  by unfold_locales (rule keepsI, simp add: keeps_kept_def insert_moves update_moves delete_moves)+

end
