(* ===== verification/CatalogTheorems.thy ===== *)
theory CatalogTheorems
  imports CatalogProps Sample
begin

text \<open>
  The properties of the projects, tags, categories and focus sessions: one user's requests
  leave the other users and the system categories alone, every request keeps the tables'
  types, and the life of a tag.
\<close>

section \<open>Tenants\<close>

text \<open>No request on projects, tags, categories or focus sessions touches another user's row.
  Whatever fails on the way, after each of the twenty requests the rows of the other users,
  their entries in the changelog and the system categories are what they were, and every other
  table is unchanged: a system category can neither be edited nor deleted.\<close>

lemma catalog_requests_isolate_tenants:
  assumes "isolated w" and "parseUUID x userID = Inr uid" and "serve_catalog x userID req w = (r, w')"
  shows "others_kept uid (dbs w) (dbs w')"
  using keepsD[OF kept_law.keeps_serve[OF assms(2)] assms(3)] assms(1) by (simp add: keeps_kept_def moves_def kept_def)

definition catalog_db :: db where
  "catalog_db = sample_db\<lparr>
     categories := [\<lparr>cat_id = 31, cat_user_id = None, cat_name = ''Work'', cat_color = ''red'', cat_productivity = 1,
                     cat_created_at = 0, cat_updated_at = 0, cat_deleted_at = None, cat_server_seq = 1\<rparr>],
     tags := [\<lparr>tag_id = 41, tag_user_id = 1, tag_name = ''home'', tag_updated_at = 0, tag_deleted_at = None, tag_server_seq = 2\<rparr>,
              \<lparr>tag_id = 42, tag_user_id = 2, tag_name = ''home'', tag_updated_at = 0, tag_deleted_at = None, tag_server_seq = 3\<rparr>]\<rparr>"

section \<open>Types\<close>

definition run_catalog :: "ext \<Rightarrow> (string \<times> catalog_request) list \<Rightarrow> world \<Rightarrow> world" where
  "run_catalog x reqs w = fold (\<lambda>(userID, req) w. snd (serve_catalog x userID req w)) reqs w"

lemma serve_unknown_user:
  "parseUUID x userID = Inl e \<Longrightarrow> snd (serve_catalog x userID req w) = w"
  by (cases req) (simp_all add: serve_catalog_def status_def Projects.Create_def Projects.List_def Projects.Get_def
      Projects.Update_def Projects.Delete_def Tags.Create_def Tags.List_def Tags.Get_def Tags.Update_def Tags.Delete_def
      Categories.Create_def Categories.List_def Categories.Get_def Categories.Update_def Categories.Delete_def
      FocusSessions.Create_def FocusSessions.List_def FocusSessions.Get_def FocusSessions.Update_def FocusSessions.Delete_def
      crud_get_def crud_list_def crud_delete_def user_of_def)

lemma serve_ok: "isolated w \<Longrightarrow> catalog_ok (dbs w) \<Longrightarrow> isolated (snd (serve_catalog x userID req w)) \<and> catalog_ok (dbs (snd (serve_catalog x userID req w)))"
proof (cases "parseUUID x userID")
  case (Inr uid)
  then show "isolated w \<Longrightarrow> catalog_ok (dbs w) \<Longrightarrow> ?thesis"
    using keepsD[OF kept_law.keeps_serve[OF Inr], of req w "fst (serve_catalog x userID req w)" "snd (serve_catalog x userID req w)"]
    by (simp add: keeps_kept_def moves_def kept_def)
qed (simp add: serve_unknown_user)

text \<open>C22: the tables of the four groups keep their types.  However users' requests follow one another
  and whatever statement fails, the keys stay unique, no user has two tags of one name, every
  category's productivity stays within its bounds, every focus session keeps a known kind and
  status, and every row refers to a user, device and project that exist.\<close>

theorem catalog_types_preserved:
  assumes "isolated w" and "catalog_ok (dbs w)"
  shows "catalog_ok (dbs (run_catalog x reqs w))"
  using assms
proof (induction reqs arbitrary: w)
  case (Cons q reqs)
  then show ?case using serve_ok[of w x "fst q" "snd q"] by (cases q) (simp add: run_catalog_def)
qed (simp add: run_catalog_def)

theorem catalog_types_preserved_witness:
  "catalog_ok (dbs (run_catalog sample_ext
     [(''1'', CreateCategory \<lparr>cc_Name = ''Fun'', cc_Color = ''blue'', cc_Productivity = - 2\<rparr>), (''2'', DeleteTag ''42''),
      (''1'', PatchTag ''41'' \<lparr>tu_Name = Some ''away''\<rparr>)] (session catalog_db)))"
  by (rule catalog_types_preserved)
    (simp_all add: catalog_ok_def catalog_db_def sample_db_def empty_db_def sample_user_def user_exists_def fk_opt_def category_check_def)

section \<open>The life of a tag\<close>

lemma tag_gone:
  assumes "hazards w = []" and "Tags.Delete x userID tid w = (Inr (), w')"
  obtains uid i t now seq where "parseUUID x userID = Inr uid" "parseUUID x tid = Inr i" "t \<in> set (tags (dbs w))" "live_tag i uid t"
    "hazards w' = []"
    "tags (dbs w') = update_where (live_tag i uid) (\<lambda>t. t\<lparr>tag_deleted_at := Some now, tag_updated_at := now, tag_server_seq := seq\<rparr>) (tags (dbs w))"
proof -
  obtain uid i n where u: "parseUUID x userID = Inr uid" and i: "parseUUID x tid = Inr i"
    and del: "SoftDeleteTagForUser i uid w = (Inr n, w')" "n \<noteq> 0"
    using assms(2) by (auto simp: Tags.Delete_def crud_delete_def andthen_def user_of_def path_id_def
        split: sum.splits prod.splits if_splits)
  obtain t ts where hit: "filter (live_tag i uid) (tags (dbs w)) = t # ts"
    using del assms(1) by (cases "filter (live_tag i uid) (tags (dbs w))")
      (auto simp: SoftDeleteTagForUser_def rows_affected_def update_row_def tag_table_def)
  show ?thesis
  proof (rule that[OF u i])
    show "t \<in> set (tags (dbs w))" "live_tag i uid t"
      using hit by (metis filter_eq_ConsD in_set_conv_decomp)+
    show "hazards w' = []" "tags (dbs w') = update_where (live_tag i uid) (\<lambda>t. t\<lparr>tag_deleted_at := Some (pg_ts (pg_now w)),
        tag_updated_at := pg_ts (pg_now w), tag_server_seq := server_seq_global w + 1\<rparr>) (tags (dbs w))"
      using del(1) assms(1) hit
      by (auto simp: SoftDeleteTagForUser_def rows_affected_def update_row_def tag_table_def next_server_seq_def log_change_def)
  qed
qed

lemma list_rows_subset: "list_rows T P c n w = (Inr rs, w') \<Longrightarrow> set rs \<subseteq> {r \<in> set (rows_of T (dbs w)). P r}"
  by (auto simp: list_rows_def dest: in_set_takeD)

lemma crud_list_subset:
  assumes "crud_list x m query sq userID cur n w = (Inr (rows, nxt, hm), w')" and "parseUUID x userID = Inr uid"
    and "\<And>c l rs v. query uid c l w = (Inr rs, v) \<Longrightarrow> set rs \<subseteq> S"
  shows "set rows \<subseteq> S"
proof -
  obtain c rs v where "query uid c (LimitParam (clamp_limit defaultListLimit maxListLimit n + 1)) w = (Inr rs, v)"
    and "page_cut sq (clamp_limit defaultListLimit maxListLimit n) c rs = (rows, snd (page_cut sq (clamp_limit defaultListLimit maxListLimit n) c rs))"
    using assms(1,2) by (auto simp: crud_list_def user_of_def Let_def split: sum.splits prod.splits)
  then show ?thesis using assms(3) by (fastforce simp: page_cut_def Let_def dest: in_set_takeD split: if_splits)
qed

lemma ended_tag_not_live:
  assumes "r \<in> set (update_where (live_tag i uid) (\<lambda>t. t\<lparr>tag_deleted_at := Some now, tag_updated_at := now', tag_server_seq := seq\<rparr>) ts)"
  shows "\<not> live_tag i uid r"
proof -
  obtain s where s: "r = (if live_tag i uid s then s\<lparr>tag_deleted_at := Some now, tag_updated_at := now', tag_server_seq := seq\<rparr> else s)"
    using assms[unfolded set_update_where] by (rule imageE)
  show ?thesis
  proof (cases "live_tag i uid s")
    case True
    then have "tag_deleted_at r = Some now" using s by simp
    then show ?thesis by (simp add: live_tag_def)
  qed (use s in simp)
qed

text \<open>A name that any row of the user has, live or deleted, is refused.\<close>

lemma taken_tag_conflict:
  assumes "hazards w = []" and "parseUUID x userID = Inr uid" and "t \<in> set (tags (dbs w))" "tag_user_id t = uid"
    and "TrimSpace (tc_Name req) = tag_name t" and "tag_name t \<noteq> []" and "text_ok (tag_name t)"
    and "tc_ID req = [] \<longrightarrow> newUUIDv4 c k \<noteq> None" and "tc_ID req \<noteq> [] \<longrightarrow> (\<exists>j. parseUUID x (tc_ID req) = Inr j)"
  shows "\<exists>m. fst (Tags.Create x c k userID req w) = Inl (CConflict m)"
proof -
  obtain j where j: "new_id x c k ''tags'' (tc_ID req) w = (Inr j, w)"
    using assms(8,9) by (cases "tc_ID req = []") (auto simp: new_id_def)
  have "list_ex (same_tag_name \<lparr>tag_id = j, tag_user_id = uid, tag_name = tag_name t, tag_updated_at = a, tag_deleted_at = b, tag_server_seq = e\<rparr>) (tags (dbs w))" for a b e
    using assms(3,4) by (auto simp: list_ex_iff same_tag_name_def)
  then show ?thesis using j assms(1,2,5-7)
    by (auto simp: Tags.Create_def user_of_def required_def Let_def CreateTagForUser_def insert_row_def next_server_seq_def
        tag_table_def tag_refused_def created_def write_error_def ConstraintViolation_def mapConstraintViolation_def)
qed

text \<open>C39: a deleted tag is gone, but its name is taken for good.  After a successful delete the tag can
  be neither read, patched nor deleted again, and no page of the list shows it; and a request to
  create a tag under the same name is refused as a conflict, since the unique pair of user and
  name counts the deleted rows.\<close>

theorem deleted_tag_keeps_its_name:
  assumes "hazards w = []" and "Tags.Delete x userID tid w = (Inr (), w')"
    and "parseUUID x tid = Inr i" and "t \<in> set (tags (dbs w))" and "tag_id t = i" and "distinct (map tag_id (tags (dbs w)))"
    and "TrimSpace (tc_Name req) = tag_name t" and "tag_name t \<noteq> []" and "text_ok (tag_name t)"
    and "tc_ID req = [] \<longrightarrow> newUUIDv4 c k \<noteq> None" and "tc_ID req \<noteq> [] \<longrightarrow> (\<exists>j. parseUUID x (tc_ID req) = Inr j)"
  shows "fst (Tags.Get x userID tid w') = Inl CNotFound \<and> fst (Tags.Update x userID tid upd w') = Inl CNotFound \<and>
    fst (Tags.Delete x userID tid w') = Inl CNotFound \<and>
    (\<forall>rows nxt hm. fst (Tags.List x userID cur n w') = Inr (rows, nxt, hm) \<longrightarrow> i \<notin> tag_id ` set rows) \<and>
    (\<exists>m. fst (Tags.Create x c k userID req w') = Inl (CConflict m))"
proof -
  obtain uid t' now seq where u: "parseUUID x userID = Inr uid" and t': "t' \<in> set (tags (dbs w))" "live_tag i uid t'"
    and h: "hazards w' = []"
    and tags: "tags (dbs w') = update_where (live_tag i uid) (\<lambda>t. t\<lparr>tag_deleted_at := Some now, tag_updated_at := now, tag_server_seq := seq\<rparr>) (tags (dbs w))"
    using tag_gone[OF assms(1,2)] assms(3) by (metis sum.inject(2))
  have "t' = t" using t' assms(4-6) by (metis distinct_map inj_onD live_tag_def)
  then have live: "live_tag i uid t" using t' by simp
  have gone: "\<not> live_tag i uid r" if "r \<in> set (tags (dbs w'))" for r
    using that unfolding tags by (rule ended_tag_not_live)
  then have none: "filter (live_tag i uid) (tags (dbs w')) = []" by (simp add: filter_empty_conv)
  have get: "Tags.Get x userID tid w' = (Inl CNotFound, w')"
    by (simp add: Tags.Get_def crud_get_def user_of_def path_id_def u assms(3) found_row_def GetTagForUser_def h select_one_def one_row_def none)
  have del: "fst (Tags.Delete x userID tid w') = Inl CNotFound"
    by (simp add: Tags.Delete_def crud_delete_def user_of_def path_id_def u assms(3) SoftDeleteTagForUser_def h
        rows_affected_def update_row_def tag_table_def none)
  have lst: "i \<notin> tag_id ` set rows" if run: "fst (Tags.List x userID cur n w') = Inr (rows, nxt, hm)" for rows nxt hm
  proof -
    obtain v where "crud_list x ''tags: list'' ListTagsForUser tag_server_seq userID cur n w' = (Inr (rows, nxt, hm), v)"
      using run by (cases "Tags.List x userID cur n w'") (simp add: Tags.List_def)
    then have "set rows \<subseteq> {r \<in> set (tags (dbs w')). tag_user_id r = uid \<and> tag_deleted_at r = None}"
      by (rule crud_list_subset[OF _ u]) (auto simp: ListTagsForUser_def h tag_table_def dest!: list_rows_subset)
    then show ?thesis using gone unfolding live_tag_def by blast
  qed
  let ?t = "t\<lparr>tag_deleted_at := Some now, tag_updated_at := now, tag_server_seq := seq\<rparr>"
  have "?t \<in> set (tags (dbs w'))"
    unfolding tags set_update_where by (rule rev_image_eqI[OF assms(4)]) (simp add: live)
  then have "\<exists>m. fst (Tags.Create x c k userID req w') = Inl (CConflict m)"
    using live assms(7-11) by (intro taken_tag_conflict[OF h u, where t = ?t]) (simp_all add: live_tag_def)
  then show ?thesis using get del lst by (simp add: Tags.Update_def)
qed

theorem deleted_tag_keeps_its_name_witness:
  "\<forall>c k. (\<exists>w'. Tags.Delete sample_ext ''1'' ''41'' (session catalog_db) = (Inr (), w') \<and>
     fst (Tags.Get sample_ext ''1'' ''41'' w') = Inl CNotFound \<and>
     (\<exists>m. fst (Tags.Create sample_ext c k ''1'' \<lparr>tc_ID = ''51'', tc_Name = '' home''\<rparr> w') = Inl (CConflict m)))"
proof (intro allI)
  fix c k
  have i: "parseUUID sample_ext ''41'' = Inr (41 :: uuid)" "parseUUID sample_ext ''51'' = Inr (51 :: uuid)" by code_simp+
  obtain w' where del: "Tags.Delete sample_ext ''1'' ''41'' (session catalog_db) = (Inr (), w')"
    by (auto simp: Tags.Delete_def crud_delete_def user_of_def path_id_def i SoftDeleteTagForUser_def rows_affected_def
        update_row_def tag_table_def live_tag_def catalog_db_def next_server_seq_def)
  have t: "\<lparr>tag_id = 41, tag_user_id = 1, tag_name = ''home'', tag_updated_at = 0, tag_deleted_at = None, tag_server_seq = 2\<rparr>
      \<in> set (tags (dbs (session catalog_db)))" by (simp add: catalog_db_def)
  have name: "TrimSpace '' home'' = ''home''" by code_simp
  from deleted_tag_keeps_its_name[OF _ del i(1) t, of "\<lparr>tc_ID = ''51'', tc_Name = '' home''\<rparr>" c k undefined "[]" 1] del
  show "\<exists>w'. Tags.Delete sample_ext ''1'' ''41'' (session catalog_db) = (Inr (), w') \<and>
     fst (Tags.Get sample_ext ''1'' ''41'' w') = Inl CNotFound \<and>
     (\<exists>m. fst (Tags.Create sample_ext c k ''1'' \<lparr>tc_ID = ''51'', tc_Name = '' home''\<rparr> w') = Inl (CConflict m))"
    by (simp add: i name text_ok_def catalog_db_def)
qed

section \<open>Read, merge, write\<close>

text \<open>
  A patch writes back every column it read.  When another session changes the color between the
  read and the write, a patch of the name alone undoes that change.
\<close>

definition paint :: "string \<Rightarrow> db \<Rightarrow> db" where
  "paint c = projects_update (map (\<lambda>p. p\<lparr>pr_color := c\<rparr>))"

lemma patch_undoes_concurrent_change:
  assumes "hazards w = [Run, Interfere (paint blue)]" and "\<not> in_tx w" and "parseUUID x userID = Inr uid" "parseUUID x pid = Inr i"
    and "projects (dbs w) = [p]" and "live_project i uid p" and "pu_Color req = None" "pu_Name req = Some name" "pu_Archived req = None"
    and "TrimSpace name \<noteq> []" and "text_ok (TrimSpace name)" "text_ok (pr_color p)"
  shows "map pr_color (projects (dbs (snd (Projects.Update x now userID pid req w)))) = [pr_color p]"
proof -
  have "filter (live_project i uid) [p\<lparr>pr_color := blue\<rparr>] = [p\<lparr>pr_color := blue\<rparr>]"
    using assms(6) by (simp add: live_project_def)
  then show ?thesis
    using assms by (simp add: Projects.Update_def Projects.Get_def crud_get_def user_of_def path_id_def found_row_def
        GetProjectForUser_def exec_def select_one_def one_row_def patched_def required_def Let_def updated_def
        UpdateProjectForUser_def update_row_def project_table_def next_server_seq_def log_change_def paint_def live_project_def)
qed

end
