(* ===== verification/ApiIsolation.thy ===== *)
theory ApiIsolation
  imports Api PushProps PullProps AuthSessions CatalogTheorems
begin

text \<open>
  Access control of the whole API: which routes answer without a valid token, and what the
  requests of the other users, anonymous ones included, can do to a user's rows.
\<close>

section \<open>Rows of one user\<close>

text \<open>
  The rows that belong to a user, and the system categories.  The catalog of apps is shared by
  all and is left out.
\<close>

definition untouched :: "uuid \<Rightarrow> db \<Rightarrow> db \<Rightarrow> bool" where
  "untouched v d d' \<longleftrightarrow>
     filter (\<lambda>u. us_id u = v) (users d') = filter (\<lambda>u. us_id u = v) (users d) \<and>
     filter (\<lambda>e. dev_user_id e = v) (devices d') = filter (\<lambda>e. dev_user_id e = v) (devices d) \<and>
     filter (\<lambda>t. rt_user_id t = v) (refresh_tokens d') = filter (\<lambda>t. rt_user_id t = v) (refresh_tokens d) \<and>
     filter (\<lambda>s. uas_user_id s = v) (user_app_settings d') = filter (\<lambda>s. uas_user_id s = v) (user_app_settings d) \<and>
     filter (\<lambda>c. cat_user_id c \<in> {Some v, None}) (categories d') = filter (\<lambda>c. cat_user_id c \<in> {Some v, None}) (categories d) \<and>
     filter (\<lambda>p. pr_user_id p = v) (projects d') = filter (\<lambda>p. pr_user_id p = v) (projects d) \<and>
     filter (\<lambda>t. tag_user_id t = v) (tags d') = filter (\<lambda>t. tag_user_id t = v) (tags d) \<and>
     filter (\<lambda>e. ae_user_id e = v) (activity_events d') = filter (\<lambda>e. ae_user_id e = v) (activity_events d) \<and>
     filter (\<lambda>f. fs_user_id f = v) (focus_sessions d') = filter (\<lambda>f. fs_user_id f = v) (focus_sessions d) \<and>
     filter (\<lambda>c. cl_user_id c = Some v) (changelog d') = filter (\<lambda>c. cl_user_id c = Some v) (changelog d)"

interpretation un: frame "untouched v" for v
  by unfold_locales (auto simp: untouched_def)

text \<open>What keeps the rows of everybody but one keeps the rows of each of the others.\<close>

lemma filter_weaken:
  assumes "filter Q ys = filter Q xs" and "\<And>z. P z \<Longrightarrow> Q z"
  shows "filter P ys = filter P xs"
proof -
  have "filter P zs = filter P (filter Q zs)" for zs
    using assms(2) by (induction zs) auto
  then show ?thesis using assms(1) by metis
qed

lemma untouchedI:
  assumes "uid \<noteq> v"
    and "filter (\<lambda>u. us_id u \<noteq> uid) (users d') = filter (\<lambda>u. us_id u \<noteq> uid) (users d)"
    and "filter (\<lambda>e. dev_user_id e \<noteq> uid) (devices d') = filter (\<lambda>e. dev_user_id e \<noteq> uid) (devices d)"
    and "filter (\<lambda>t. rt_user_id t \<noteq> uid) (refresh_tokens d') = filter (\<lambda>t. rt_user_id t \<noteq> uid) (refresh_tokens d)"
    and "user_app_settings d' = user_app_settings d"
    and "filter (\<lambda>c. cat_user_id c \<noteq> Some uid) (categories d') = filter (\<lambda>c. cat_user_id c \<noteq> Some uid) (categories d)"
    and "filter (\<lambda>p. pr_user_id p \<noteq> uid) (projects d') = filter (\<lambda>p. pr_user_id p \<noteq> uid) (projects d)"
    and "filter (\<lambda>t. tag_user_id t \<noteq> uid) (tags d') = filter (\<lambda>t. tag_user_id t \<noteq> uid) (tags d)"
    and "filter (\<lambda>e. ae_user_id e \<noteq> uid) (activity_events d') = filter (\<lambda>e. ae_user_id e \<noteq> uid) (activity_events d)"
    and "filter (\<lambda>f. fs_user_id f \<noteq> uid) (focus_sessions d') = filter (\<lambda>f. fs_user_id f \<noteq> uid) (focus_sessions d)"
    and "filter (\<lambda>c. cl_user_id c \<noteq> Some uid) (changelog d') = filter (\<lambda>c. cl_user_id c \<noteq> Some uid) (changelog d)"
  shows "untouched v d d'"
  unfolding untouched_def
  by (intro conjI; (rule filter_weaken[OF assms(2)] filter_weaken[OF assms(3)] filter_weaken[OF assms(4)]
        filter_weaken[OF assms(6)] filter_weaken[OF assms(7)] filter_weaken[OF assms(8)] filter_weaken[OF assms(9)]
        filter_weaken[OF assms(10)] filter_weaken[OF assms(11)])?)
    (use assms(1,5) in auto)

lemma foreign_untouched: "foreign uid d d' \<Longrightarrow> uid \<noteq> v \<Longrightarrow> untouched v d d'"
  by (rule untouchedI[of uid]) (simp_all add: foreign_def session_frame_def)

lemma others_kept_untouched:
  assumes "others_kept uid d d'" and "uid \<noteq> v"
  shows "untouched v d d'"
proof -
  have e: "d'\<lparr>projects := [], tags := [], categories := [], focus_sessions := [], changelog := []\<rparr> =
      d\<lparr>projects := [], tags := [], categories := [], focus_sessions := [], changelog := []\<rparr>"
    using assms(1) unfolding others_kept_def by blast
  have same: "users d' = users d" "devices d' = devices d" "refresh_tokens d' = refresh_tokens d"
    "user_app_settings d' = user_app_settings d" "activity_events d' = activity_events d"
    using arg_cong[OF e, of users] arg_cong[OF e, of devices] arg_cong[OF e, of refresh_tokens]
      arg_cong[OF e, of user_app_settings] arg_cong[OF e, of activity_events] by simp_all
  have o: "filter (\<lambda>p. pr_user_id p \<noteq> uid) (projects d') = filter (\<lambda>p. pr_user_id p \<noteq> uid) (projects d)"
    "filter (\<lambda>t. tag_user_id t \<noteq> uid) (tags d') = filter (\<lambda>t. tag_user_id t \<noteq> uid) (tags d)"
    "filter (\<lambda>c. cat_user_id c \<noteq> Some uid) (categories d') = filter (\<lambda>c. cat_user_id c \<noteq> Some uid) (categories d)"
    "filter (\<lambda>f. fs_user_id f \<noteq> uid) (focus_sessions d') = filter (\<lambda>f. fs_user_id f \<noteq> uid) (focus_sessions d)"
    "filter (\<lambda>r. cl_user_id r \<noteq> Some uid) (changelog d') = filter (\<lambda>r. cl_user_id r \<noteq> Some uid) (changelog d)"
    using assms(1) unfolding others_kept_def by blast+
  show ?thesis by (rule untouchedI[OF assms(2)]) (simp_all only: same o)
qed

section \<open>The operations\<close>

interpretation rd: frame "(=)"
  by unfold_locales auto

lemma push_untouched:
  assumes "isolated w" and "parseUUID x userID \<noteq> Inr v"
  shows "untouched v (dbs w) (dbs (snd (push x clk userID req w)))"
proof (cases "parseUUID x userID")
  case (Inl e)
  then show ?thesis by (auto simp: push_def un.R_refl)
next
  case (Inr uid)
  obtain r w' where run: "push x clk userID req w = (r, w')" by (rule prod.exhaust)
  note i = push_isolates_tenants[OF Inr assms(1) run, THEN conjunct1]
    push_isolates_tenants[OF Inr assms(1) run, THEN conjunct2, THEN conjunct1]
    push_isolates_tenants[OF Inr assms(1) run, THEN conjunct2, THEN conjunct2, THEN conjunct1]
    push_isolates_tenants[OF Inr assms(1) run, THEN conjunct2, THEN conjunct2, THEN conjunct2]
  let ?d = "dbs w" and ?d' = "dbs w'"
  have e: "?d' = ?d\<lparr>apps := apps ?d', activity_events := activity_events ?d',
      focus_sessions := focus_sessions ?d', changelog := changelog ?d'\<rparr>" by (rule i(4))
  have same: "users ?d' = users ?d" "devices ?d' = devices ?d" "refresh_tokens ?d' = refresh_tokens ?d"
    "user_app_settings ?d' = user_app_settings ?d" "categories ?d' = categories ?d"
    "projects ?d' = projects ?d" "tags ?d' = tags ?d"
    by (subst e, simp)+
  have "uid \<noteq> v" using Inr assms(2) by simp
  then have "untouched v ?d ?d'"
    by (rule untouchedI) (simp_all only: same i(1-3))
  then show ?thesis by (simp add: run)
qed

lemma pull_untouched:
  assumes "isolated w"
  shows "dbs (snd (pull x userID cur n w)) = dbs w"
proof -
  have "dbs (snd (runInPullSnapshot f w)) = dbs w" for f :: "world \<Rightarrow> (sync_error + pullResponse) \<times> world"
  proof -
    obtain b w1 where q: "begin_tx w = (b, w1)" by (rule prod.exhaust)
    obtain r w2 where "f w1 = (r, w2)" by (rule prod.exhaust)
    then show ?thesis using begin_isolated[OF assms q] q by (auto simp: runInPullSnapshot_def rollback_to_def split: sum.splits)
  qed
  then show ?thesis by (simp add: pull_def split: sum.splits)
qed

lemma read_untouched:
  assumes "isolated w"
  shows "RawActivityEventsForReport uid from to ef w = (r1, w') \<Longrightarrow> moves (=) w w'"
    and "CategoryTotalsForRange uid from to s w = (r2, w') \<Longrightarrow> moves (=) w w'"
    and "AppTotalsForRange uid from to s w = (r3, w') \<Longrightarrow> moves (=) w w'"
    and "ListActivityEventsForUser uid from to ef c e n w = (r4, w') \<Longrightarrow> moves (=) w w'"
proof -
  note e = rd.exec_moves[OF assms] note t = rd.exec_txt_moves[OF assms]
  show "RawActivityEventsForReport uid from to ef w = (r1, w') \<Longrightarrow> moves (=) w w'"
    unfolding RawActivityEventsForReport_def by (rule t) auto
  show "CategoryTotalsForRange uid from to s w = (r2, w') \<Longrightarrow> moves (=) w w'"
    unfolding CategoryTotalsForRange_def by (rule e) (auto simp: Let_def)
  show "AppTotalsForRange uid from to s w = (r3, w') \<Longrightarrow> moves (=) w w'"
    unfolding AppTotalsForRange_def by (rule e) (auto simp: Let_def)
  show "ListActivityEventsForUser uid from to ef c e n w = (r4, w') \<Longrightarrow> moves (=) w w'"
    unfolding ListActivityEventsForUser_def by (rule t) auto
qed

lemma totals_read:
  shows "isolated w \<Longrightarrow> rawTotals x uid from to f dim w = (r1, w') \<Longrightarrow> moves (=) w w'"
    and "isolated w \<Longrightarrow> raw_windows x uid f dim ws res w = (r2, w') \<Longrightarrow> moves (=) w w'"
    and "isolated w \<Longrightarrow> categoryTotals x now uid from to f w = (r3, w') \<Longrightarrow> moves (=) w w'"
    and "isolated w \<Longrightarrow> appTotals x now uid from to f w = (r4, w') \<Longrightarrow> moves (=) w w'"
proof -
  show raw: "moves (=) w w'" if "isolated w" "rawTotals x uid lo hi f dim w = (r1, w')" for w w' r1 lo hi dim f
    using that read_untouched(1)[OF that(1)] rd.moves_refl[OF that(1)]
    by (auto simp: rawTotals_def split: sum.splits prod.splits)
  show win: "isolated w \<Longrightarrow> raw_windows x uid f dim ws res w = (r2, w') \<Longrightarrow> moves (=) w w'" for w w' r2 ws res dim f
  proof (induction ws arbitrary: res w)
    case Nil
    then show ?case by (simp add: rd.moves_refl)
  next
    case (Cons a ws)
    obtain r v where q: "rawTotals x uid (w_From a) (w_To a) f dim w = (r, v)" by (rule prod.exhaust)
    note m = raw[OF Cons.prems(1) q]
    then have "isolated v" by (simp add: moves_def)
    from Cons.IH[OF this] Cons.prems(2) q m show ?case
      by (auto split: sum.splits intro: rd.moves_trans)
  qed
  have rest: "moves (=) w w'" if "moves (=) w v" "raw_windows x uid f dim vs rs v = (q, w')" for w w' v q dim vs rs
    using that win[of v] by (auto simp: moves_def)
  show "moves (=) w w'" if "isolated w" "categoryTotals x now uid from to f w = (r3, w')"
    using that raw[OF that(1)] read_untouched(2)[OF that(1)] rd.moves_refl[OF that(1)]
    by (auto simp: categoryTotals_def split: if_splits sum.splits prod.splits option.splits intro: rest[rotated])
  show "moves (=) w w'" if "isolated w" "appTotals x now uid from to f w = (r4, w')"
    using that raw[OF that(1)] read_untouched(3)[OF that(1)] rd.moves_refl[OF that(1)]
    by (auto simp: appTotals_def split: if_splits sum.splits prod.splits option.splits intro: rest[rotated])
qed

lemma reports_read:
  assumes "isolated w"
  shows "dbs (snd (Summary x now userID from to f w)) = dbs w"
    and "dbs (snd (Reports.Categories x now userID from to f w)) = dbs w"
    and "dbs (snd (Apps x now userID from to f w)) = dbs w"
    and "dbs (snd (Reports.Projects x userID from to f w)) = dbs w"
    and "dbs (snd (Daily x now userID date f w)) = dbs w"
    and "dbs (snd (Timeline x userID from to f cur n w)) = dbs w"
    and "dbs (snd (Activities.List x userID p w)) = dbs w"
proof -
  have page: "dbs (snd (list_page x msg uid lo hi ef cur n w)) = dbs w" for msg uid lo hi ef cur n
    using read_untouched(4)[OF assms]
    by (auto simp: list_page_def moves_def Let_def split: sum.splits prod.splits)
  note t = totals_read(1,3,4)[OF assms]
  show "dbs (snd (Summary x now userID from to f w)) = dbs w"
    by (auto simp: Summary_def total_report_def moves_def dest!: t(2) split: sum.splits prod.splits)
  show "dbs (snd (Reports.Categories x now userID from to f w)) = dbs w"
    by (auto simp: Reports.Categories_def list_report_def moves_def dest!: t(2) split: sum.splits prod.splits)
  show "dbs (snd (Apps x now userID from to f w)) = dbs w"
    by (auto simp: Apps_def list_report_def moves_def dest!: t(3) split: sum.splits prod.splits)
  show "dbs (snd (Reports.Projects x userID from to f w)) = dbs w"
    by (auto simp: Reports.Projects_def projectTotals_def list_report_def moves_def dest!: t(1) split: sum.splits prod.splits)
  show "dbs (snd (Daily x now userID date f w)) = dbs w"
    by (auto simp: Daily_def total_report_def Let_def moves_def dest!: t(2) split: sum.splits prod.splits option.splits)
  show "dbs (snd (Timeline x userID from to f cur n w)) = dbs w"
    by (auto simp: Timeline_def page split: sum.splits)
  show "dbs (snd (Activities.List x userID p w)) = dbs w"
    by (auto simp: Activities.List_def page split: sum.splits)
qed

lemma account_untouched:
  assumes "isolated w" and "parseUUID x userID \<noteq> Inr v"
  shows "untouched v (dbs w) (dbs (serve x s c userID req w))"
proof (cases "parse_id x userID")
  case (Inl e)
  then show ?thesis by (simp add: serve_unknown un.R_refl)
next
  case (Inr uid)
  then have "uid \<noteq> v" using assms(2) by (auto simp: parse_id_def split: sum.splits)
  then show ?thesis by (rule foreign_untouched[OF account_requests_isolate_tenants[OF assms(1) Inr]])
qed

lemma catalog_untouched:
  assumes "isolated w" and "parseUUID x userID \<noteq> Inr v"
  shows "untouched v (dbs w) (dbs (snd (serve_catalog x userID req w)))"
proof (cases "parseUUID x userID")
  case (Inl e)
  then show ?thesis by (simp add: serve_unknown_user un.R_refl)
next
  case (Inr uid)
  then show ?thesis using assms
      others_kept_untouched[OF catalog_requests_isolate_tenants[OF assms(1) Inr prod.collapse[symmetric]]]
    by simp
qed

section \<open>Handlers\<close>

text \<open>A request that does not come from the user, as the handlers see it.\<close>

definition not_as :: "api \<Rightarrow> uuid \<Rightarrow> Identity option \<Rightarrow> bool" where
  "not_as a v ident = (case ident of None \<Rightarrow> True | Some i \<Rightarrow> parseUUID (ap_ext a) (id_UserID i) \<noteq> Inr v)"

definition harmless :: "api \<Rightarrow> uuid \<Rightarrow> payload handler \<Rightarrow> bool" where
  "harmless a v h \<longleftrightarrow>
     (\<forall>ident params r w. isolated w \<longrightarrow> not_as a v ident \<longrightarrow> not_as a v (authenticated (ap_jwt a) r) \<longrightarrow>
        untouched v (dbs w) (dbs (snd (h ident params r w))))"

lemma harmless_identity:
  assumes "\<And>i params r w. isolated w \<Longrightarrow> parseUUID (ap_ext a) (id_UserID i) \<noteq> Inr v \<Longrightarrow>
      untouched v (dbs w) (dbs (snd (h i params r w)))"
  shows "harmless a v (with_identity render h)"
  using assms by (auto simp: harmless_def with_identity_def not_as_def un.R_refl split: option.splits)

lemma decode_untouched:
  "(\<And>req. untouched v (dbs w) (dbs (snd (k req w)))) \<Longrightarrow> untouched v (dbs w) (dbs (snd (decodeJSON render un r k w)))"
  by (auto simp: decodeJSON_def un.R_refl split: option.splits)

lemma harmless_guarded: "harmless a v h \<Longrightarrow> harmless a v (guarded a gs h)"
proof (induction gs)
  case Nil
  then show ?case by (simp add: guarded_def)
next
  case (Cons g gs)
  have "harmless a v (Authenticate (ap_jwt a) (ap_render a) h)" if "harmless a v h" for h
    using that by (auto simp: harmless_def Authenticate_def un.R_refl split: option.splits)
  moreover have "harmless a v (RequireRole (ap_render a) role h)" if "harmless a v h" for h role
    using that by (auto simp: harmless_def RequireRole_def un.R_refl split: option.splits)
  moreover have "harmless a v (guarded a gs h)" using Cons by blast
  ultimately show ?case by (cases g) (simp_all add: guarded_def)
qed

lemma harmless_constant:
  "harmless a v (notImplementedStub a d)" "harmless a v (notFoundHandler a)" "harmless a v (methodNotAllowedHandler a)"
  "harmless a v (missed a m)"
  by (cases m; simp add: harmless_def notImplementedStub_def notFoundHandler_def methodNotAllowedHandler_def missed_def un.R_refl)+

lemma harmless_account:
  "harmless a v (handle_logout a)" "harmless a v (handle_get_me a)" "harmless a v (handle_patch_me a)"
  "harmless a v (handle_list_devices a)" "harmless a v (handle_patch_device a)" "harmless a v (handle_delete_device a)"
proof -
  note u = account_untouched[where x = "ap_ext a" and c = "ap_crypto a" and s = "ap_service a" and v = v]
  show "harmless a v (handle_logout a)" unfolding handle_logout_def
    by (intro harmless_identity decode_untouched, simp, drule (1) u[where req = "LogoutRequest tok" for tok])
      (simp add: serve_def)
  show "harmless a v (handle_get_me a)" unfolding handle_get_me_def
    by (intro harmless_identity, simp, drule (1) u[where req = GetMe]) (simp add: serve_def)
  show "harmless a v (handle_patch_me a)" unfolding handle_patch_me_def
    by (intro harmless_identity decode_untouched, simp, drule (1) u[where req = "PatchMe q" for q]) (simp add: serve_def)
  show "harmless a v (handle_list_devices a)" unfolding handle_list_devices_def
    by (intro harmless_identity, simp, drule (1) u[where req = ListDevicesRequest]) (simp add: serve_def)
  show "harmless a v (handle_patch_device a)" unfolding handle_patch_device_def
    by (intro harmless_identity decode_untouched, simp, drule (1) u[where req = "PatchDevice d q" for d q]) (simp add: serve_def)
  show "harmless a v (handle_delete_device a)" unfolding handle_delete_device_def
    by (intro harmless_identity, simp, drule (1) u[where req = "DeleteDevice d" for d]) (simp add: serve_def)
qed

lemma harmless_sync: "harmless a v (handle_push a)" "harmless a v (handle_pull a)"
proof -
  show "harmless a v (handle_push a)" unfolding handle_push_def
    by (intro harmless_identity decode_untouched) (simp add: push_untouched)
  show "harmless a v (handle_pull a)" unfolding handle_pull_def
    by (intro harmless_identity) (simp add: pull_untouched un.R_refl split: option.splits)
qed

lemma harmless_reports:
  "harmless a v (handle_activities a)" "harmless a v (handle_summary a)" "harmless a v (handle_categories_report a)"
  "harmless a v (handle_apps_report a)" "harmless a v (handle_projects_report a)" "harmless a v (handle_daily a)"
  "harmless a v (handle_timeline a)"
  unfolding handle_activities_def handle_summary_def handle_categories_report_def handle_apps_report_def
    handle_projects_report_def handle_daily_def handle_timeline_def range_report_def Let_def
  by (intro harmless_identity, simp add: reports_read un.R_refl split: option.splits sum.splits prod.splits)+

text \<open>The five handlers of a catalog package, given what their operations spare.\<close>

lemma harmless_catalog:
  shows "(\<And>s cur n w. isolated w \<Longrightarrow> parseUUID (ap_ext a) s \<noteq> Inr v \<Longrightarrow> untouched v (dbs w) (dbs (snd (l s cur n w))))
      \<Longrightarrow> harmless a v (catalog_list a m wrap dto l)"
    and "(\<And>s q w. isolated w \<Longrightarrow> parseUUID (ap_ext a) s \<noteq> Inr v \<Longrightarrow> untouched v (dbs w) (dbs (snd (cr s q w))))
      \<Longrightarrow> harmless a v (catalog_create a m unm sh cr)"
    and "(\<And>s i w. isolated w \<Longrightarrow> parseUUID (ap_ext a) s \<noteq> Inr v \<Longrightarrow> untouched v (dbs w) (dbs (snd (g s i w))))
      \<Longrightarrow> harmless a v (catalog_get a m sh' g)"
    and "(\<And>s i q w. isolated w \<Longrightarrow> parseUUID (ap_ext a) s \<noteq> Inr v \<Longrightarrow> untouched v (dbs w) (dbs (snd (up s i q w))))
      \<Longrightarrow> harmless a v (catalog_patch a m unm' sh'' up)"
    and "(\<And>s i w. isolated w \<Longrightarrow> parseUUID (ap_ext a) s \<noteq> Inr v \<Longrightarrow> untouched v (dbs w) (dbs (snd (d s i w))))
      \<Longrightarrow> harmless a v (catalog_delete a m d)"
  unfolding catalog_list_def catalog_create_def catalog_get_def catalog_patch_def catalog_delete_def
  by (intro harmless_identity decode_untouched, simp add: un.R_refl split: option.splits)+

lemma snd_status [simp]: "snd (status p) = snd p"
  by (auto simp: status_def split: prod.splits sum.splits)

lemma harmless_crud:
  "harmless a v (handle_projects a act)" "harmless a v (handle_tags a act)" "harmless a v (handle_categories a act)"
  "harmless a v (handle_focus_sessions a act)"
proof -
  note u = catalog_untouched[where x = "ap_ext a" and v = v]
  note p = u[where req = "CreateProject c k r" for c k r] u[where req = "ListProjects cur n" for cur n]
    u[where req = "GetProject i" for i] u[where req = "PatchProject t i q" for t i q] u[where req = "DeleteProject i" for i]
  show "harmless a v (handle_projects a act)"
    by (cases act) (auto simp: handle_projects_def Let_def intro!: harmless_catalog dest: p simp: serve_catalog_def)
  note t = u[where req = "CreateTag c k r" for c k r] u[where req = "ListTags cur n" for cur n]
    u[where req = "GetTag i" for i] u[where req = "PatchTag i q" for i q] u[where req = "DeleteTag i" for i]
  show "harmless a v (handle_tags a act)"
    by (cases act) (auto simp: handle_tags_def Let_def intro!: harmless_catalog dest: t simp: serve_catalog_def)
  note c = u[where req = "CreateCategory r" for r] u[where req = "ListCategories cur n" for cur n]
    u[where req = "GetCategory i" for i] u[where req = "PatchCategory i q" for i q] u[where req = "DeleteCategory i" for i]
  show "harmless a v (handle_categories a act)"
    by (cases act) (auto simp: handle_categories_def Let_def intro!: harmless_catalog dest: c simp: serve_catalog_def)
  note f = u[where req = "CreateFocusSession c k r" for c k r] u[where req = "ListFocusSessions cur n" for cur n]
    u[where req = "GetFocusSession i" for i] u[where req = "PatchFocusSession i q" for i q]
    u[where req = "DeleteFocusSession i" for i]
  show "harmless a v (handle_focus_sessions a act)"
    by (cases act) (auto simp: handle_focus_sessions_def Let_def intro!: harmless_catalog dest: f simp: serve_catalog_def)
qed

section \<open>Routes\<close>

text \<open>The name of a route: its method and its path below \<^verbatim>\<open>/v1\<close>.\<close>

definition route_name :: "api \<Rightarrow> nat \<Rightarrow> nat \<Rightarrow> (string \<times> string) option" where
  "route_name a g i =
     (if g < length (v1_groups a) then
        (case v1_groups a ! g of (base, gs, rs) \<Rightarrow>
           if i < length rs then (case rs ! i of (method, pattern, gs', h) \<Rightarrow> Some (method, base @ pattern)) else None)
      else None)"

definition credential_routes :: "(string \<times> string) set" where
  "credential_routes = {(''POST'', ''/auth/register''), (''POST'', ''/auth/login''), (''POST'', ''/auth/refresh'')}"

definition open_routes :: "(string \<times> string) set" where
  "open_routes = credential_routes \<union>
     {(''POST'', ''/auth/apple''), (''POST'', ''/auth/password/forgot''), (''POST'', ''/auth/password/reset'')}"

lemmas route_tables = v1_groups_def auth_groups_def sync_group_def projects_group_def tags_group_def
  categories_group_def focus_sessions_group_def activities_group_def reports_group_def crud_routes_def

lemma routes_harmless:
  "list_all (\<lambda>(base, gs, rs). list_all (\<lambda>(method, pattern, gs', h).
     (method, base @ pattern) \<in> credential_routes \<or> harmless a v h) rs) (v1_groups a)"
  by (simp add: route_tables credential_routes_def harmless_constant harmless_account harmless_sync harmless_crud harmless_reports)

lemma routes_guarded:
  "list_all (\<lambda>(base, gs, rs). list_all (\<lambda>(method, pattern, gs', h).
     (method, base @ pattern) \<in> open_routes \<or> gs @ gs' \<noteq> []) rs) (v1_groups a)"
  by (simp add: route_tables open_routes_def credential_routes_def)

lemma pick_route:
  assumes "list_all (\<lambda>(base, gs, rs). list_all (\<lambda>(m, p, gs', h). P base gs m p gs' h) rs) G"
    and "G ! g = (base, gs, rs)" "g < length G" "i < length rs" "rs ! i = (m, p, gs', h)"
  shows "P base gs m p gs' h"
proof -
  have "(base, gs, rs) \<in> set G" "(m, p, gs', h) \<in> set rs" using assms(2-5) by (metis nth_mem)+
  then show ?thesis using assms(1) by (fastforce simp: list_all_iff)
qed

lemma harmless_in_group:
  "(\<And>base gs rs. v1_groups a ! g = (base, gs, rs) \<Longrightarrow> g < length (v1_groups a) \<Longrightarrow> harmless a v (k gs rs)) \<Longrightarrow> harmless a v (in_group a g k)"
  by (cases "v1_groups a ! g") (auto simp: in_group_def harmless_constant intro: harmless_guarded)

lemma harmless_endpoint:
  assumes "\<And>g i params. rt = InGroup g i params \<Longrightarrow> route_name a g i \<notin> Some ` credential_routes"
  shows "harmless a v (v1_endpoint a rt)"
proof (cases rt)
  case (InGroup g i params)
  have pick: "harmless a v h"
    if "v1_groups a ! g = (base, gs, rs)" "g < length (v1_groups a)" "i < length rs" "rs ! i = (m, p, gs', h)" for base gs rs m p gs' h
  proof -
    have "route_name a g i = Some (m, base @ p)" using that by (simp add: route_name_def)
    then have "(m, base @ p) \<notin> credential_routes" using assms[OF InGroup] by auto
    then show ?thesis using pick_route[OF routes_harmless[of a v] that] by blast
  qed
  have call: "harmless a v (guarded a gs' (\<lambda>ident _. h ident params))" if "harmless a v h" for gs' h
    using that by (intro harmless_guarded) (auto simp: harmless_def)
  show ?thesis unfolding v1_endpoint_def InGroup
    by (simp, intro harmless_in_group) (auto simp: harmless_constant intro!: call dest: pick split: prod.splits)
next
  case (GroupMiss g m)
  then show ?thesis by (simp add: v1_endpoint_def harmless_in_group harmless_constant)
qed (simp_all add: v1_endpoint_def harmless_constant)

section \<open>The API as a whole\<close>

text \<open>A call: the statements of it that fail, the answer of the readiness probe, the decisions
  of the edge, the route that was found, and the request.\<close>

record api_call =
  ac_faults :: "db_error option list"
  ac_ping :: "bool option"
  ac_edge :: edge
  ac_routed :: routed
  ac_request :: http_request

definition session_of :: "api_call \<Rightarrow> world \<Rightarrow> world" where
  "session_of q w = w\<lparr>hazards := map (\<lambda>f. case f of None \<Rightarrow> Run | Some e \<Rightarrow> Fail e) (ac_faults q), in_tx := False\<rparr>"

lemma session_of_simps [simp]:
  "isolated (session_of q w)" "dbs (session_of q w) = dbs w" "ac_faults q = [] \<Longrightarrow> hazards (session_of q w) = []"
  by (auto simp: session_of_def isolated_def split: option.splits)

definition serve_call :: "api \<Rightarrow> api_call \<Rightarrow> world \<Rightarrow> payload response \<times> world" where
  "serve_call a q w =
     serve_api a (ac_ping q) (ac_edge q) (ac_routed q) (ac_request q) (session_of q w)"

definition serve_all :: "api \<Rightarrow> api_call list \<Rightarrow> world \<Rightarrow> world" where
  "serve_all a qs w = fold (\<lambda>q w. snd (serve_call a q w)) qs w"

text \<open>The route of a call, when one was found.\<close>

definition called :: "api \<Rightarrow> api_call \<Rightarrow> (string \<times> string) option" where
  "called a q = (case ac_routed q of InGroup g i _ \<Rightarrow> route_name a g i | _ \<Rightarrow> None)"

definition caller :: "api \<Rightarrow> api_call \<Rightarrow> Identity option" where
  "caller a q = authenticated (ap_jwt a) (ac_request q)"

lemma harmless_v1:
  assumes "harmless a v (v1_endpoint a rt)" and "isolated w" and "not_as a v (authenticated (ap_jwt a) r)"
  shows "untouched v (dbs w) (dbs (snd (serve_v1 a e rt r w)))"
  using assms unfolding serve_v1_def harmless_def
  by (auto simp: rateLimitedHandler_def un.R_refl not_as_def)

lemma call_untouched:
  assumes "called a q \<notin> Some ` credential_routes" and "not_as a v (caller a q)"
  shows "untouched v (dbs w) (dbs (snd (serve_call a q w)))"
proof -
  have "harmless a v (v1_endpoint a (ac_routed q))"
    by (rule harmless_endpoint) (use assms(1) in \<open>auto simp: called_def\<close>)
  from harmless_v1[OF this, of "session_of q w"]
  have v1: "untouched v (dbs w) (dbs (snd (serve_v1 a (ac_edge q) (ac_routed q) (ac_request q) (session_of q w))))"
    using assms(2) by (simp add: caller_def)
  show ?thesis
  proof (cases "ac_routed q")
    case (RootMiss m)
    then show ?thesis by (cases m) (simp_all add: serve_call_def serve_api_def missed_def notFoundHandler_def methodNotAllowedHandler_def un.R_refl)
  qed (use v1 in \<open>simp_all add: serve_call_def serve_api_def un.R_refl\<close>)
qed

text \<open>C1: tenant isolation of the whole API.  Let any requests arrive, in any order, at any route,
  with any bodies, ids and cursors, any of their statements failing, as long as none of them
  carries a valid token of user v and none is a registration, a login or a token refresh.  Then
  every row of v (account, devices, tokens, settings, categories, projects, tags, events, focus
  sessions, changelog) and every system category is what it was.\<close>

theorem api_isolates_tenants:
  assumes "\<forall>q\<in>set qs. called a q \<notin> Some ` credential_routes"
    and "\<forall>q\<in>set qs. not_as a v (caller a q)"
  shows "untouched v (dbs w) (dbs (serve_all a qs w))"
  using assms
proof (induction qs arbitrary: w)
  case Nil
  then show ?case by (simp add: serve_all_def un.R_refl)
next
  case (Cons q qs)
  then have "untouched v (dbs w) (dbs (snd (serve_call a q w)))" by (simp add: call_untouched)
  moreover have "untouched v (dbs (snd (serve_call a q w))) (dbs (serve_all a qs (snd (serve_call a q w))))"
    using Cons by simp
  ultimately show ?case using un.R_trans by (simp add: serve_all_def)
qed

lemma not_authenticated:
  assumes "\<And>tok claims. hr_Authorization r = ''Bearer '' @ tok \<Longrightarrow>
      parse [''RS256''] (\<lambda>is_rsa. is_rsa) (TrimSpace tok) \<noteq> Some (claims, True)"
  shows "authenticated parse r = None"
proof (cases "prefix bearer (hr_Authorization r)")
  case True
  then obtain tok where "hr_Authorization r = ''Bearer '' @ tok" by (auto simp: prefix_def bearer_def)
  then show ?thesis using assms[of tok]
    by (auto simp: authenticated_def VerifyAccessToken_def bearer_def Let_def split: option.splits)
qed (simp add: authenticated_def)

text \<open>C2: a route answers without a valid token only when it is one of the six that hand out
  credentials.  Any other route of the API, asked without an Authorization header that carries an
  RS256 token that verifies, answers 401 and leaves the database alone, whatever the body, the
  query or the path say.\<close>

theorem closed_routes_need_token:
  assumes "route_name a g i = Some name" and "name \<notin> open_routes"
    and no_token: "\<And>tok claims. hr_Authorization r = ''Bearer '' @ tok \<Longrightarrow>
      ap_jwt a [''RS256''] (\<lambda>is_rsa. is_rsa) (TrimSpace tok) \<noteq> Some (claims, True)"
    and "\<not> ed_preflight e" and "\<not> ed_limited e"
  shows "serve_api a ping e (InGroup g i params) r w = (writeUnauthenticated (ap_render a) r, w)"
proof -
  have none: "authenticated (ap_jwt a) r = None"
    by (rule not_authenticated) (rule no_token)
  have closed: "guarded a gs h None ps r w = (writeUnauthenticated (ap_render a) r, w)" if "gs \<noteq> []" for gs h ps
    using that none
    by (cases gs; cases "hd gs") (auto simp: guarded_def Authenticate_def RequireRole_def)
  obtain base gs rs where g: "v1_groups a ! g = (base, gs, rs)" "g < length (v1_groups a)" "i < length rs"
    using assms(1) by (auto simp: route_name_def split: if_splits prod.splits)
  obtain m p gs' h where i: "rs ! i = (m, p, gs', h)" by (metis prod_cases4)
  have "name = (m, base @ p)" using assms(1) g i by (simp add: route_name_def)
  then have "gs @ gs' \<noteq> []" using pick_route[OF routes_guarded g i] assms(2) by blast
  then have "in_group a g (\<lambda>gs rs. if i < length rs then
        (case rs ! i of (method, pattern, gs', h) \<Rightarrow> guarded a gs' (\<lambda>ident _. h ident params))
      else notFoundHandler a) None (\<lambda>_. []) r w = (writeUnauthenticated (ap_render a) r, w)"
    using closed[of gs] closed[of gs'] g i by (cases gs) (auto simp: in_group_def guarded_def)
  then show ?thesis using assms(4,5) by (simp add: serve_api_def serve_v1_def v1_endpoint_def)
qed

section \<open>Worked instances\<close>

text \<open>A token of the sample library is the id of its user.\<close>

definition sample_jwt :: jwt_parse where
  "sample_jwt algs key tok =
     (if algs = [''RS256''] \<and> key True \<and> \<not> key False then
        Some (\<lparr>cl_Role = ''user'', cl_DeviceID = ''11'', cl_Subject = tok, cl_IssuedAt = 0, cl_ExpiresAt = 900\<rparr>, True)
      else None)"

definition sample_api :: api where
  "sample_api =
     \<lparr>ap_ext = sample_ext, ap_crypto = sample_crypto, ap_service = sample_service, ap_jwt = sample_jwt,
      ap_render = (\<lambda>_. ''detail''), ap_date_parse = rfc3339_parse sample_ext, ap_date_format = rfc3339_format sample_ext\<rparr>"

definition sample_http :: "string \<Rightarrow> string \<Rightarrow> http_request" where
  "sample_http auth body = \<lparr>hr_Authorization = auth, hr_Query = (\<lambda>_. []), hr_Body = body, hr_RequestID = ''r1''\<rparr>"

definition sample_call :: "nat \<Rightarrow> nat \<Rightarrow> string \<Rightarrow> http_request \<Rightarrow> api_call" where
  "sample_call g i pid r =
     \<lparr>ac_faults = [], ac_ping = Some True, ac_edge = \<lparr>ed_preflight = False, ed_limited = False\<rparr>,
      ac_routed = InGroup g i (\<lambda>_. pid), ac_request = r\<rparr>"

lemma sample_call_simps [simp]:
  "ac_faults (sample_call g i pid r) = []" "\<not> ed_preflight (ac_edge (sample_call g i pid r))"
  "\<not> ed_limited (ac_edge (sample_call g i pid r))" "ac_request (sample_call g i pid r) = r"
  "called a (sample_call g i pid r) = route_name a g i"
  by (simp_all add: sample_call_def called_def)

lemma sample_session [simp]: "session_of (sample_call g i pid r) (session d) = session d"
  by (simp add: session_of_def sample_call_def session_def)

text \<open>User 2 deletes the device of user 1, and somebody without a token posts events.\<close>

definition sample_attack :: "api_call list" where
  "sample_attack =
     [sample_call 2 2 ''11'' (sample_http ''Bearer 2'' []), sample_call 4 0 [] (sample_http [] ''{}'')]"

lemma api_isolates_tenants_witness:
  "untouched 1 auth_db (dbs (serve_all sample_api sample_attack (session auth_db)))"
proof -
  have "\<forall>q\<in>set sample_attack. called sample_api q \<notin> Some ` credential_routes"
    by (simp add: sample_attack_def route_name_def route_tables credential_routes_def)
  moreover have "parseUUID sample_ext ''2'' = Inr 2" by code_simp
  then have "\<forall>q\<in>set sample_attack. not_as sample_api 1 (caller sample_api q)"
    by (simp add: sample_attack_def caller_def sample_http_def authenticated_def bearer_def TrimSpace_graphic graphic_def
        VerifyAccessToken_def sample_api_def sample_jwt_def not_as_def)
  ultimately show ?thesis
    using api_isolates_tenants[of sample_attack sample_api 1 "session auth_db"] by simp
qed

lemma closed_routes_need_token_witness:
  "serve_api sample_api None \<lparr>ed_preflight = False, ed_limited = False\<rparr> (InGroup 4 0 (\<lambda>_. []))
     (sample_http ''Basic 1'' ''{}'') (session auth_db) =
   (writeUnauthenticated (\<lambda>_. ''detail'') (sample_http ''Basic 1'' ''{}''), session auth_db)"
proof -
  have "route_name sample_api 4 0 = Some (''POST'', ''/sync/events'')"
    "(''POST'', ''/sync/events'') \<notin> open_routes"
    by (simp_all add: route_name_def route_tables open_routes_def credential_routes_def)
  moreover have "hr_Authorization (sample_http ''Basic 1'' ''{}'') \<noteq> ''Bearer '' @ tok" for tok
    by (simp add: sample_http_def)
  ultimately show ?thesis
    using closed_routes_need_token[of sample_api 4 0 "(''POST'', ''/sync/events'')"
        "sample_http ''Basic 1'' ''{}''" "\<lparr>ed_preflight = False, ed_limited = False\<rparr>"]
    by (simp add: sample_api_def)
qed

end
