(* ===== verification/JsonRoundtrip.thy ===== *)
theory JsonRoundtrip
  imports JsonText
begin

text \<open>
  The scanner read back: every JSON value that is written out as text, as a client does it, is
  read as that value whatever follows it in the body.
\<close>

section \<open>Writing\<close>

definition hex_char :: "nat \<Rightarrow> char" where
  "hex_char d = char_of (if d < 10 then 48 + d else 87 + d)"

definition escape_byte :: "char \<Rightarrow> string" where
  "escape_byte c =
     (if c = CHR 0x22 \<or> c = CHR 0x5C then [CHR 0x5C, c]
      else if of_char c < (0x20 :: nat) then
        [CHR 0x5C, CHR ''u'', CHR ''0'', CHR ''0'', hex_char (of_char c div 16), hex_char (of_char c mod 16)]
      else [c])"

definition string_text :: "string \<Rightarrow> string" where
  "string_text s = CHR 0x22 # concat (map escape_byte s) @ [CHR 0x22]"

fun separated :: "string list \<Rightarrow> string" where
  "separated [] = []"
| "separated [t] = t"
| "separated (t # ts) = t @ CHR '','' # separated ts"

fun json_text :: "json \<Rightarrow> string" where
  "json_text JNull = ''null''"
| "json_text (JBool b) = (if b then ''true'' else ''false'')"
| "json_text (JNumber n) = n"
| "json_text (JString s) = string_text s"
| "json_text (JArray vs) = CHR ''['' # separated (map json_text vs) @ '']''"
| "json_text (JObject ms) =
     CHR ''{'' # separated (map (\<lambda>(k, v). string_text k @ CHR '':'' # json_text v) ms) @ ''}''"

function valid_utf8 :: "string \<Rightarrow> bool" where
  "valid_utf8 s =
     (if s = [] then True else case rune_length s of None \<Rightarrow> False | Some n \<Rightarrow> valid_utf8 (drop n s))"
  by pat_completeness auto
termination by (relation "measure length") (auto dest: rune_length_pos)

declare valid_utf8.simps [simp del]

fun json_ok :: "json \<Rightarrow> bool" where
  "json_ok (JNumber n) \<longleftrightarrow> json_number n = Some (n, [])"
| "json_ok (JString s) \<longleftrightarrow> valid_utf8 s"
| "json_ok (JArray vs) \<longleftrightarrow> (\<forall>v\<in>set vs. json_ok v)"
| "json_ok (JObject ms) \<longleftrightarrow> (\<forall>m\<in>set ms. valid_utf8 (fst m) \<and> json_ok (snd m))"
| "json_ok _ \<longleftrightarrow> True"

fun nesting :: "json \<Rightarrow> nat" where
  "nesting (JArray vs) = Suc (fold max (map nesting vs) 0)"
| "nesting (JObject ms) = Suc (fold max (map (\<lambda>m. nesting (snd m)) ms) 0)"
| "nesting _ = 0"

section \<open>Numbers\<close>

text \<open>What may follow a number without becoming part of it.\<close>

definition ends_number :: "string \<Rightarrow> bool" where
  "ends_number r \<longleftrightarrow>
     (r = [] \<or> char_digit (hd r) = None \<and> hd r \<notin> {CHR ''.'', CHR ''e'', CHR ''E''})"

lemma span_all:
  "\<forall>c\<in>set s. P c \<Longrightarrow> t = [] \<or> \<not> P (hd t) \<Longrightarrow> (takeWhile P (s @ t), dropWhile P (s @ t)) = (s, t)"
  by (induction s) (cases t; auto)+

lemma json_digits_append:
  assumes "json_digits s = (ds, r)" and "ends_number t"
  shows "json_digits (s @ t) = (ds, r @ t)"
proof (cases "r = []")
  case True
  then have "\<forall>c\<in>set s. char_digit c \<noteq> None" using assms(1) by (auto simp: json_digits_def dropWhile_eq_Nil_conv)
  moreover have "t = [] \<or> \<not> char_digit (hd t) \<noteq> None" using assms(2) by (auto simp: ends_number_def)
  ultimately have "json_digits (s @ t) = (s, t)"
    unfolding json_digits_def by (rule span_all)
  moreover have "ds @ r = s"
    using assms(1) takeWhile_dropWhile_id[of "\<lambda>c. char_digit c \<noteq> None" s] by (auto simp only: json_digits_def prod.inject)
  ultimately show ?thesis using True by simp
next
  case False
  then have "\<exists>c\<in>set s. char_digit c = None" using assms(1) by (force simp: json_digits_def dropWhile_eq_Nil_conv)
  then show ?thesis using assms(1) by (auto simp: json_digits_def takeWhile_append dropWhile_append)
qed

lemma some_digits_append:
  "some_digits (acc, s) = Some (v, r) \<Longrightarrow> ends_number t \<Longrightarrow> some_digits (acc, s @ t) = Some (v, r @ t)"
  using json_digits_append[of s _ _ t] by (auto simp: some_digits_def split: prod.splits if_splits)

lemma json_integer_append:
  "json_integer (acc, s) = Some (v, r) \<Longrightarrow> ends_number t \<Longrightarrow> json_integer (acc, s @ t) = Some (v, r @ t)"
  using some_digits_append[of acc s v r t] by (cases s) (auto simp: json_integer_def split: if_splits)

lemma json_fraction_append:
  assumes "json_fraction (acc, s) = Some (v, r)" and "ends_number t"
  shows "json_fraction (acc, s @ t) = Some (v, r @ t)"
proof (cases s)
  case Nil
  then show ?thesis using assms by (cases t) (auto simp: json_fraction_def ends_number_def)
next
  case (Cons c s')
  then show ?thesis using assms some_digits_append[of "acc @ [c]" s' v r t]
    by (auto simp: json_fraction_def split: if_splits)
qed

lemma json_exponent_append:
  assumes "json_exponent (acc, s) = Some (v, r)" and "ends_number t"
  shows "json_exponent (acc, s @ t) = Some (v, r @ t)"
proof (cases s)
  case Nil
  then show ?thesis using assms by (cases t) (auto simp: json_exponent_def ends_number_def)
next
  case (Cons c s')
  show ?thesis
  proof (cases s')
    case Nil
    then show ?thesis using assms Cons by (auto simp: json_exponent_def split: if_splits)
  next
    case (Cons d s'')
    then show ?thesis using assms \<open>s = c # s'\<close> some_digits_append[of "acc @ [c]" s' v r t]
        some_digits_append[of "acc @ [c, d]" s'' v r t]
      by (auto simp: json_exponent_def split: if_splits)
  qed
qed

lemma json_number_append:
  assumes "json_number n = Some (n, [])" and "ends_number t"
  shows "json_number (n @ t) = Some (n, t)"
proof -
  let ?p = "\<lambda>s. if s \<noteq> [] \<and> hd s = CHR ''-'' then (''-'', tl s) else ([], s)"
  obtain a b where 1: "json_integer (?p n) = Some a" and 2: "json_fraction a = Some b"
    and 3: "json_exponent b = Some (n, [])"
    using assms by (auto simp: json_number_def Option.bind_eq_Some_conv)
  obtain a1 a2 b1 b2 where ab: "a = (a1, a2)" "b = (b1, b2)" by (cases a; cases b) auto
  have "n \<noteq> []" using assms(1) by (auto simp: json_number_def json_integer_def)
  then have p: "?p (n @ t) = (fst (?p n), snd (?p n) @ t)" by auto
  have "json_integer (?p (n @ t)) = Some (a1, a2 @ t)"
    unfolding p using 1 ab assms(2) by (intro json_integer_append) simp_all
  moreover have "json_fraction (a1, a2 @ t) = Some (b1, b2 @ t)"
    using 2 ab assms(2) by (intro json_fraction_append) simp_all
  moreover have "json_exponent (b1, b2 @ t) = Some (n, [] @ t)"
    using 3 ab assms(2) by (intro json_exponent_append) simp_all
  ultimately show ?thesis by (simp add: json_number_def)
qed

section \<open>Strings\<close>

lemma rune_length_append:
  assumes "rune_length s = Some n"
  shows "n \<le> length s" and "rune_length (take n s @ t) = Some n"
proof -
  obtain c s' where s: "s = c # s'" using assms by (cases s) (auto simp: rune_length.simps)
  have n: "1 \<le> n" "n \<le> 4" using assms s by (auto simp: rune_length.simps Let_def split: if_splits)
  have tail: "tail_ok k lo hi (take k s' @ u) = tail_ok k lo hi s'" if "k \<le> length s'" "1 \<le> k" for k lo hi u
    using that by (cases s') (auto simp: tail_ok_def take_Cons')
  have len: "tail_ok k lo hi s' \<Longrightarrow> k \<le> length s'" for k lo hi by (simp add: tail_ok_def)
  show "n \<le> length s" using assms s
    by (auto simp: rune_length.simps Let_def split: if_splits dest!: len)
  show "rune_length (take n s @ t) = Some n"
  proof (cases "n = 1")
    case True
    then show ?thesis using assms s by (auto simp: rune_length.simps Let_def split: if_splits)
  next
    case False
    then obtain k where k: "n = Suc k" "1 \<le> k" using n by (cases n) auto
    then have kl: "k \<le> length s'" using \<open>n \<le> length s\<close> s by simp
    show ?thesis using assms s k kl tail[OF kl k(2)]
      by (auto simp: rune_length.simps Let_def split: if_splits)
  qed
qed

text \<open>The bytes of a longer rune are above the ASCII range and are not escaped.\<close>

lemma tail_bytes: "tail_ok n lo hi s \<Longrightarrow> 0x80 \<le> lo \<Longrightarrow> 1 \<le> n \<Longrightarrow> c \<in> set (take n s) \<Longrightarrow> (0x80 :: nat) \<le> of_char c"
  by (cases s) (fastforce simp: tail_ok_def cont_def list_all_iff take_Cons' split: if_splits)+

lemma escape_high: "(0x80 :: nat) \<le> of_char c \<Longrightarrow> escape_byte c = [c]"
  by (auto simp: escape_byte_def)

lemma escape_bytes: "\<forall>c\<in>set s. (0x80 :: nat) \<le> of_char c \<Longrightarrow> concat (map escape_byte s) = s"
  by (induction s) (auto simp: escape_high)

lemma escape_rune:
  assumes "rune_length (c # s) = Some n" and "n \<noteq> 1"
  shows "concat (map escape_byte (take n (c # s))) = take n (c # s)"
  by (rule escape_bytes)
    (use assms in \<open>auto simp: rune_length.simps Let_def split: if_splits dest: tail_bytes\<close>)

text \<open>One more rune of a string that is being read.\<close>

lemma hex_digit_char: "d < 16 \<Longrightarrow> hex_digit (hex_char d) = Some d"
  by (auto simp: hex_digit_def hex_char_def of_char_of Let_def)

lemma string_tail_quote: "string_tail acc (CHR 0x22 # t) = Some (acc, t)"
  by (simp add: string_tail.simps[of acc "CHR 0x22 # t"])

lemma string_tail_escape:
  "unescape (CHR 0x5C # s) = Some (e, n) \<Longrightarrow> string_tail acc (CHR 0x5C # s) = string_tail (acc @ e) (drop n (CHR 0x5C # s))"
  by (simp add: string_tail.simps[of acc "CHR 0x5C # s"])

lemma string_tail_ascii:
  assumes "(of_char c :: nat) < 0x80"
  shows "string_tail acc (escape_byte c @ t) = string_tail (acc @ [c]) t"
proof -
  consider (bs) "c = CHR 0x22 \<or> c = CHR 0x5C" | (low) "c \<noteq> CHR 0x22" "c \<noteq> CHR 0x5C" "of_char c < (0x20 :: nat)"
    | (plain) "c \<noteq> CHR 0x22" "c \<noteq> CHR 0x5C" "\<not> of_char c < (0x20 :: nat)" by blast
  then show ?thesis
  proof cases
    case bs
    then show ?thesis
      by (auto simp: escape_byte_def string_tail.simps[of acc "CHR 0x5C # c # t"] unescape_def simple_escape_def)
  next
    case low
    let ?n = "of_char c :: nat"
    have h: "hex_digit (hex_char (?n div 16)) = Some (?n div 16)" "hex_digit (hex_char (?n mod 16)) = Some (?n mod 16)"
      using low(3) by (simp_all add: hex_digit_char)
    have z: "hex_digit (CHR ''0'') = Some 0" by (simp add: hex_digit_def)
    define u where "u = CHR ''u'' # CHR ''0'' # CHR ''0'' # hex_char (?n div 16) # hex_char (?n mod 16) # t"
    have "unescape (CHR 0x5C # u) = Some ([c], 6)"
      using low h z by (simp add: u_def unescape_def simple_escape_def is_surrogate_def encode_rune_def)
    moreover have "escape_byte c @ t = CHR 0x5C # u" "drop 6 (CHR 0x5C # u) = t"
      using low by (simp_all add: escape_byte_def u_def)
    ultimately show ?thesis by (metis string_tail_escape)
  next
    case plain
    then have "rune_length (c # t) = Some 1" using assms by (simp add: rune_length.simps)
    with plain show ?thesis by (simp add: escape_byte_def string_tail.simps[of acc "c # t"])
  qed
qed

lemma string_tail_rune:
  assumes "rune_length s = Some n"
  shows "string_tail acc (concat (map escape_byte (take n s)) @ t) = string_tail (acc @ take n s) t"
proof -
  obtain c s' where s: "s = c # s'" using assms by (cases s) (auto simp: rune_length.simps)
  show ?thesis
  proof (cases "n = 1")
    case True
    then have "(of_char c :: nat) < 0x80" using assms s by (auto simp: rune_length.simps Let_def split: if_splits)
    then show ?thesis using string_tail_ascii[of c acc t] True s by simp
  next
    case False
    have e: "concat (map escape_byte (take n s)) = take n s" using escape_rune assms False s by blast
    have r: "rune_length (take n s @ t) = Some n" "n \<le> length s" using rune_length_append[OF assms] by auto
    have n: "0 < n" using rune_length_pos[OF assms] .
    then have hd: "take n s @ t = c # take (n - 1) s' @ t" using s by (cases n) auto
    have c: "(0x80 :: nat) \<le> of_char c"
      using assms s False by (auto simp: rune_length.simps Let_def split: if_splits)
    then have "c \<noteq> CHR 0x22" "c \<noteq> CHR 0x5C" by auto
    then have "string_tail acc (take n s @ t) = string_tail (acc @ take n (take n s @ t)) (drop n (take n s @ t))"
      using r(1) c by (subst string_tail.simps) (simp add: hd)
    with r(2) e show ?thesis by simp
  qed
qed

lemma string_tail_text:
  "valid_utf8 s \<Longrightarrow> string_tail acc (concat (map escape_byte s) @ CHR 0x22 # t) = Some (acc @ s, t)"
proof (induction s arbitrary: acc rule: valid_utf8.induct)
  case (1 s)
  show ?case
  proof (cases "s = []")
    case True
    then show ?thesis by (simp add: string_tail_quote)
  next
    case False
    then obtain n where n: "rune_length s = Some n" "valid_utf8 (drop n s)"
      using "1.prems" by (auto simp: valid_utf8.simps[of s] split: option.splits)
    have "concat (map escape_byte s) = concat (map escape_byte (take n s)) @ concat (map escape_byte (drop n s))"
      by (metis append_take_drop_id concat_append map_append)
    then have "string_tail acc (concat (map escape_byte s) @ CHR 0x22 # t) =
        string_tail (acc @ take n s) (concat (map escape_byte (drop n s)) @ CHR 0x22 # t)"
      using string_tail_rune[OF n(1), of acc] by simp
    also have "\<dots> = Some ((acc @ take n s) @ drop n s, t)"
      by (rule "1.IH"[OF False n])
    finally show ?thesis by simp
  qed
qed

section \<open>Values\<close>

lemma fold_max_ge: "a \<le> fold max xs a" for a :: nat
  by (induction xs arbitrary: a) (auto intro: order_trans[OF max.cobounded2])

lemma fold_max_mem: "x \<in> set xs \<Longrightarrow> x \<le> fold max xs a" for a :: nat
  by (induction xs arbitrary: a) (auto intro: order_trans[OF max.cobounded1 fold_max_ge])

lemma nesting_mem:
  "w \<in> set vs \<Longrightarrow> nesting w < nesting (JArray vs)" "m \<in> set ms \<Longrightarrow> nesting (snd m) < nesting (JObject ms)"
  using fold_max_mem[of "nesting w" "map nesting vs" 0] fold_max_mem[of "nesting (snd m)" "map (\<lambda>m. nesting (snd m)) ms" 0]
  by (auto simp: less_Suc_eq_le)

text \<open>The first character of a value is neither white space nor a closing bracket.\<close>

definition starts_value :: "string \<Rightarrow> bool" where
  "starts_value s \<longleftrightarrow> s \<noteq> [] \<and> hd s \<notin> {CHR 0x20, CHR 0x09, CHR 0x0A, CHR 0x0D, CHR '']'', CHR ''}''}"

lemma number_head:
  assumes "json_number n = Some (n, [])"
  shows "n \<noteq> [] \<and> (hd n = CHR ''-'' \<or> char_digit (hd n) \<noteq> None)"
proof -
  have "n \<noteq> []" using assms by (auto simp: json_number_def json_integer_def)
  moreover have "char_digit (hd n) \<noteq> None" if "hd n \<noteq> CHR ''-''"
    using assms that \<open>n \<noteq> []\<close>
    by (cases n)
      (auto simp: json_number_def json_integer_def some_digits_def json_digits_def Option.bind_eq_Some_conv
        char_digit_def split: if_splits)
  ultimately show ?thesis by blast
qed

lemma starts_text: "json_ok v \<Longrightarrow> starts_value (json_text v @ t)"
proof (cases v)
  case (JNumber n)
  assume "json_ok v"
  then have "n \<noteq> [] \<and> (hd n = CHR ''-'' \<or> char_digit (hd n) \<noteq> None)"
    using JNumber number_head by simp
  then show ?thesis using JNumber by (auto simp: starts_value_def char_digit_def)
qed (auto simp: starts_value_def string_text_def)

lemma starts_skip: "starts_value s \<Longrightarrow> skip_ws s = s"
  by (cases s) (auto simp: starts_value_def skip_ws_def)

lemma skip_ws_Cons_id: "c \<notin> {CHR 0x20, CHR 0x09, CHR 0x0A, CHR 0x0D} \<Longrightarrow> skip_ws (c # r) = c # r"
  by (simp add: skip_ws_def)

lemma ends_number_punct [simp]:
  "ends_number (CHR '','' # t)" "ends_number (CHR '']'' # t)" "ends_number (CHR ''}'' # t)"
  by (simp_all add: ends_number_def char_digit_def)

lemma string_text_tail: "valid_utf8 s \<Longrightarrow> string_tail [] (tl (string_text s @ t)) = Some (s, t)"
  using string_tail_text[of s "[]" t] by (simp add: string_text_def)

lemma member_key_text: "valid_utf8 k \<Longrightarrow> member_key (string_text k @ CHR '':'' # t) = Some (k, t)"
  using string_text_tail[of k "CHR '':'' # t"]
  by (simp add: member_key_def string_text_def skip_ws_Cons_id)

lemma begin_atom:
  assumes "atom s = Some (v, t)" and "starts_value s" and "hd s \<noteq> CHR ''{''" "hd s \<noteq> CHR ''[''"
  shows "begin_value stk s = after_value stk v t"
  using assms starts_skip[OF assms(2)]
  by (subst begin_value.simps) (auto simp: starts_value_def split: list.splits)

lemma after_array:
  "after_value (InArray vs # stk) v (CHR '','' # s) = begin_value (InArray (vs @ [v]) # stk) s"
  "after_value (InArray vs # stk) v (CHR '']'' # s) = after_value stk (JArray (vs @ [v])) s"
  by (subst after_value.simps, simp add: skip_ws_Cons_id)+

lemma after_object:
  "member_key s = Some (k', r) \<Longrightarrow>
     after_value (InObject ms k # stk) v (CHR '','' # s) = begin_value (InObject (ms @ [(k, v)]) k' # stk) r"
  "after_value (InObject ms k # stk) v (CHR ''}'' # s) = after_value stk (JObject (ms @ [(k, v)])) s"
  by (subst after_value.simps, simp add: skip_ws_Cons_id)+

lemma begin_elements:
  assumes "\<And>w stk t. w \<in> set (v # vs) \<Longrightarrow> length stk \<le> n \<Longrightarrow> ends_number t \<Longrightarrow>
      begin_value stk (json_text w @ t) = after_value stk w t"
    and "Suc (length stk) \<le> n"
  shows "begin_value (InArray acc # stk) (separated (map json_text (v # vs)) @ CHR '']'' # t) =
    after_value stk (JArray (acc @ v # vs)) t"
  using assms(1)
proof (induction vs arbitrary: v acc)
  case Nil
  then show ?case using assms(2) by (simp add: after_array)
next
  case (Cons w vs)
  have "begin_value (InArray acc # stk) (json_text v @ CHR '','' # separated (map json_text (w # vs)) @ CHR '']'' # t) =
      begin_value (InArray (acc @ [v]) # stk) (separated (map json_text (w # vs)) @ CHR '']'' # t)"
    using Cons.prems[of v "InArray acc # stk"] assms(2) by (simp add: after_array)
  also have "\<dots> = after_value stk (JArray ((acc @ [v]) @ w # vs)) t"
    using Cons.prems by (intro Cons.IH) auto
  finally show ?case by simp
qed

definition member_text :: "string \<times> json \<Rightarrow> string" where
  "member_text m = string_text (fst m) @ CHR '':'' # json_text (snd m)"

lemma begin_members:
  assumes "\<And>m stk t. m \<in> set (m0 # ms) \<Longrightarrow> length stk \<le> n \<Longrightarrow> ends_number t \<Longrightarrow>
      begin_value stk (json_text (snd m) @ t) = after_value stk (snd m) t"
    and "\<forall>m\<in>set (m0 # ms). valid_utf8 (fst m)"
    and "Suc (length stk) \<le> n"
  shows "\<exists>r. member_key (separated (map member_text (m0 # ms)) @ CHR ''}'' # t) = Some (fst m0, r) \<and>
    begin_value (InObject acc (fst m0) # stk) r = after_value stk (JObject (acc @ m0 # ms)) t"
  using assms(1,2)
proof (induction ms arbitrary: m0 acc)
  case Nil
  then show ?case using assms(3) member_key_text[of "fst m0"]
    by (simp add: member_text_def after_object)
next
  case (Cons m ms)
  let ?rest = "separated (map member_text (m # ms)) @ CHR ''}'' # t"
  from Cons.IH[of m "acc @ [m0]"] Cons.prems obtain r where
    r: "member_key ?rest = Some (fst m, r)"
    "begin_value (InObject (acc @ [m0]) (fst m) # stk) r = after_value stk (JObject ((acc @ [m0]) @ m # ms)) t"
    by auto
  have "begin_value (InObject acc (fst m0) # stk) (json_text (snd m0) @ CHR '','' # ?rest) =
      after_value (InObject acc (fst m0) # stk) (snd m0) (CHR '','' # ?rest)"
    using Cons.prems(1)[of m0 "InObject acc (fst m0) # stk"] assms(3) by simp
  also have "\<dots> = after_value stk (JObject (acc @ m0 # m # ms)) t"
    using after_object(1)[OF r(1)] r(2) by simp
  finally have step: "begin_value (InObject acc (fst m0) # stk) (json_text (snd m0) @ CHR '','' # ?rest) =
      after_value stk (JObject (acc @ m0 # m # ms)) t" .
  have "separated (map member_text (m0 # m # ms)) @ CHR ''}'' # t =
      string_text (fst m0) @ CHR '':'' # json_text (snd m0) @ CHR '','' # ?rest"
    by (simp add: member_text_def[of m0])
  then show ?case using Cons.prems(2) member_key_text[of "fst m0"] step by simp
qed

lemma json_text_object: "json_text (JObject ms) = CHR ''{'' # separated (map member_text ms) @ ''}''"
proof -
  have "(\<lambda>(k, v). string_text k @ CHR '':'' # json_text v) = member_text"
    by (auto simp: member_text_def fun_eq_iff)
  then show ?thesis by simp
qed

text \<open>The scanner reads a written value and stops right after it.\<close>

lemma begin_value_text:
  "json_ok v \<Longrightarrow> length stk + nesting v \<le> maxNestingDepth \<Longrightarrow> ends_number t \<Longrightarrow>
   begin_value stk (json_text v @ t) = after_value stk v t"
proof (induction v arbitrary: stk t)
  case JNull
  then show ?case by (intro begin_atom) (simp_all add: atom_def literal_def starts_value_def)
next
  case (JBool b)
  then show ?case by (intro begin_atom) (auto simp: atom_def literal_def starts_value_def)
next
  case (JNumber n)
  note h = number_head[of n]
  show ?case
  proof (rule begin_atom)
    show "starts_value (json_text (JNumber n) @ t)" using JNumber(1) by (rule starts_text)
    show "hd (json_text (JNumber n) @ t) \<noteq> CHR ''{''" "hd (json_text (JNumber n) @ t) \<noteq> CHR ''[''"
      using h JNumber(1) by (auto simp: char_digit_def)
    obtain c r where "n = c # r" using h JNumber(1) by (cases n) auto
    then show "atom (json_text (JNumber n) @ t) = Some (JNumber n, t)"
      using h JNumber json_number_append[of n t] by (auto simp: atom_def char_digit_def)
  qed
next
  case (JString s)
  then show ?case using string_text_tail[of s t]
    by (intro begin_atom) (simp_all add: atom_def starts_value_def string_text_def)
next
  case (JArray vs)
  show ?case
  proof (cases vs)
    case Nil
    then show ?thesis using JArray.prems
      by (subst begin_value.simps) (simp add: skip_ws_Cons_id)
  next
    case (Cons w ws)
    let ?n = "maxNestingDepth - (nesting (JArray vs) - 1)"
    have IH: "begin_value stk' (json_text u @ t') = after_value stk' u t'"
      if "u \<in> set (w # ws)" "length stk' \<le> ?n" "ends_number t'" for u stk' t'
      using that JArray.IH[of u stk' t'] JArray.prems(1,2) nesting_mem(1)[of u vs] Cons by auto
    have "starts_value (separated (map json_text vs) @ CHR '']'' # t)"
      using Cons JArray.prems(1) starts_text[of w "CHR '']'' # t"] starts_text[of w "CHR '','' # u" for u]
      by (cases ws) auto
    moreover have "Suc (length stk) \<le> ?n" using JArray.prems(2) by simp
    ultimately show ?thesis
      using begin_elements[where v = w and vs = ws and n = ?n and stk = stk and acc = "[]" and t = t, OF IH] Cons JArray.prems(2)
      by (subst begin_value.simps) (auto simp: skip_ws_Cons_id starts_skip starts_value_def split: list.splits)
  qed
next
  case (JObject ms)
  show ?case
  proof (cases ms)
    case Nil
    then show ?thesis using JObject.prems
      by (subst begin_value.simps) (simp add: skip_ws_Cons_id)
  next
    case (Cons m ms')
    let ?n = "maxNestingDepth - (nesting (JObject ms) - 1)"
    have IH: "begin_value stk' (json_text (snd u) @ t') = after_value stk' (snd u) t'"
      if "u \<in> set (m # ms')" "length stk' \<le> ?n" "ends_number t'" for u stk' t'
      using that JObject.prems(1,2) nesting_mem(2)[of u ms] Cons
      by (intro JObject.IH[of u]) (auto simp: snds.simps)
    have "Suc (length stk) \<le> ?n" using JObject.prems(2) by simp
    moreover have "\<forall>m\<in>set (m # ms'). valid_utf8 (fst m)" using JObject.prems(1) Cons by simp
    ultimately obtain r where r: "member_key (separated (map member_text (m # ms')) @ CHR ''}'' # t) = Some (fst m, r)"
      "begin_value (InObject [] (fst m) # stk) r = after_value stk (JObject ([] @ m # ms')) t"
      using begin_members[OF IH] by blast
    have "hd (separated (map member_text (m # ms')) @ CHR ''}'' # t) = CHR 0x22"
      "separated (map member_text (m # ms')) @ CHR ''}'' # t \<noteq> []"
      by (cases ms'; simp add: member_text_def string_text_def)+
    then obtain u where u: "separated (map member_text (m # ms')) @ CHR ''}'' # t = CHR 0x22 # u"
      by (cases "separated (map member_text (m # ms')) @ CHR ''}'' # t") auto
    then show ?thesis
      using r Cons JObject.prems(2) unfolding json_text_object
      by (subst begin_value.simps) (simp add: skip_ws_Cons_id)
  qed
qed

section \<open>Request bodies\<close>

lemma ends_number_take: "ends_number t \<Longrightarrow> ends_number (take k t)"
  by (cases t; cases k) (auto simp: ends_number_def)

lemma first_value_text:
  assumes "json_ok v" and "nesting v \<le> maxNestingDepth" and "length (json_text v) \<le> maxRequestBodyBytes"
  shows "first_value (json_text v) = Some v"
  using assms begin_value_text[of v "[]" "[]"]
  by (simp add: first_value_def ends_number_def after_value.simps[of "[]"])

lemma valid_utf8_ascii: "\<forall>c\<in>set s. of_char c < (0x80 :: nat) \<Longrightarrow> valid_utf8 s"
  by (induction s) (simp_all add: valid_utf8.simps rune_length.simps)



end
