(* ===== verification/Lockout.thy ===== *)
theory Lockout
  imports AuthSessions
begin

text \<open>
  Login seen from outside and over time: which causes of a rejection look alike, how a wrong
  password moves the counters of the account, and how few passwords a guesser can have tested
  by a given time.
\<close>

section \<open>One login\<close>

text \<open>The account an address selects.\<close>

definition addressed :: "crypto \<Rightarrow> string \<Rightarrow> user \<Rightarrow> bool" where
  "addressed c em u \<longleftrightarrow>
     (case (us_email u, strPtr em) of (Some a, Some b) \<Rightarrow> citext_lower c a = citext_lower c b | _ \<Rightarrow> False) \<and>
     live_user u"

definition login_row :: "crypto \<Rightarrow> string \<Rightarrow> db \<Rightarrow> user option" where
  "login_row c em d = (case filter (addressed c em) (users d) of [] \<Rightarrow> None | u # _ \<Rightarrow> Some u)"

text \<open>A request that gets as far as the account.\<close>

definition admissible :: "crypto \<Rightarrow> string \<Rightarrow> string \<Rightarrow> DeviceInput \<Rightarrow> string \<Rightarrow> bool" where
  "admissible c email password device em \<longleftrightarrow>
     validEmail c email = Inr em \<and> text_ok em \<and> password \<noteq> [] \<and> length password \<le> maxPasswordBytes \<and>
     validate device = None"

definition record_wrong :: "service \<Rightarrow> time \<Rightarrow> user \<Rightarrow> db_error + user" where
  "record_wrong s now u =
     failed_attempt now (wrap32 (lockoutThreshold s)) (lockoutBaseDuration s) (lockoutMaxDuration s) u"

lemma Login_quiet:
  assumes "quiet w" and "admissible c email password device em"
  shows "Login x s c email password device w =
    (case login_row c em (dbs w) of
       None \<Rightarrow> (Inl ErrInvalidCredentials, w)
     | Some u \<Rightarrow> andthen (check_password s c (clock c 0) password u w) (\<lambda>_ w. open_session x c device u w))"
proof -
  have "list_all text_ok (opt_text (strPtr em))"
    using assms(2) by (simp add: admissible_def strPtr_def opt_text_def)
  then have "GetUserByEmail (citext_lower c) (strPtr em) w =
      (one_row (filter (addressed c em) (users (dbs w))), w)"
    using assms(1) by (simp add: GetUserByEmail_def quiet_def select_one_def addressed_def cong: filter_cong)
  then show ?thesis using assms(2)
    by (auto simp: Login_def admissible_def login_row_def one_row_def split: list.splits)
qed

lemma filter_hd: "filter P xs = x # ys \<Longrightarrow> x \<in> set xs \<and> P x"
  by (metis Cons_eq_filterD in_set_conv_decomp)

lemma login_row_Some: "login_row c em d = Some u \<Longrightarrow> u \<in> set (users d) \<and> addressed c em u"
  by (auto simp: login_row_def split: list.splits dest: filter_hd)

lemma open_session_errors: "open_session x c device u w \<noteq> (Inl ErrInvalidCredentials, w')"
  by (auto simp: open_session_def step_Inl reset_lockout_def resolveDevice_def create_device_def
      issueTokenPair_def split: if_splits sum.splits prod.splits)

lemma RecordFailed_quiet:
  assumes "quiet w" and "u \<in> set (users (dbs w))" and "live_user u" and "distinct (map us_id (users (dbs w)))"
  shows "RecordFailedLoginAttempt (us_id u) th now base mx w =
    (case failed_attempt now th base mx u of
       Inl e \<Rightarrow> (Inl e, w)
     | Inr u' \<Rightarrow> (Inr (u'\<lparr>us_server_seq := server_seq_global w + 1\<rparr>),
         w\<lparr>server_seq_global := server_seq_global w + 1, dbs := (dbs w)\<lparr>users :=
            update_where (\<lambda>v. us_id v = us_id u \<and> live_user v)
              (\<lambda>_. u'\<lparr>us_server_seq := server_seq_global w + 1\<rparr>) (users (dbs w))\<rparr>\<rparr>))"
proof -
  have "filter (\<lambda>v. us_id v = us_id u \<and> live_user v) (users (dbs w)) =
      filter live_user (filter (\<lambda>v. us_id v = us_id u) (users (dbs w)))"
    by (simp add: conj_commute)
  also have "\<dots> = [u]" using filter_eq_single[OF assms(4,2)] assms(3) by simp
  finally have f: "filter (\<lambda>v. us_id v = us_id u \<and> live_user v) (users (dbs w)) = [u]" .
  show ?thesis using assms(1) f
    by (auto simp: RecordFailedLoginAttempt_def quiet_def update_user_def update_one_def next_server_seq_def
        split: sum.splits intro: arg_cong2[where f = db.users_update])
qed

lemma Login_rejected_iff:
  assumes "quiet w" and "admissible c email password device em" and "distinct (map us_id (users (dbs w)))"
    and "Login x s c email password device w = (r, w')"
  shows "(r = Inl ErrInvalidCredentials \<longleftrightarrow>
      (case login_row c em (dbs w) of
         None \<Rightarrow> True
       | Some u \<Rightarrow>
           (case us_password_hash u of
              None \<Rightarrow> True
            | Some h \<Rightarrow> locked (clock c 0) u \<or>
                (VerifyPassword c h password = Inr False \<and> (\<exists>u'. record_wrong s (clock c 0) u = Inr u')))))
    \<and> (case login_row c em (dbs w) of None \<Rightarrow> w' = w
       | Some u \<Rightarrow> us_password_hash u = None \<or> locked (clock c 0) u \<longrightarrow> w' = w)"
proof (cases "login_row c em (dbs w)")
  case None
  then show ?thesis using assms(4) Login_quiet[OF assms(1,2)] by simp
next
  case (Some u)
  have u: "u \<in> set (users (dbs w))" "live_user u"
    using login_row_Some[OF Some] by (simp_all add: addressed_def)
  have run: "andthen (check_password s c (clock c 0) password u w) (\<lambda>_ w. open_session x c device u w) = (r, w')"
    using assms(4) Login_quiet[OF assms(1,2)] Some by simp
  note rec = RecordFailed_quiet[OF assms(1) u assms(3)]
  show ?thesis
  proof (cases "us_password_hash u = None \<or> locked (clock c 0) u")
    case True
    then show ?thesis using run Some by (auto simp: check_password_def split: option.splits)
  next
    case False
    then obtain h where h: "us_password_hash u = Some h" "\<not> locked (clock c 0) u" by auto
    show ?thesis
    proof (cases "VerifyPassword c h password")
      case (Inl e)
      then show ?thesis using run Some h by (auto simp: check_password_def)
    next
      case (Inr b)
      show ?thesis
      proof (cases b)
        case True
        then show ?thesis using run Some h Inr open_session_errors by (auto simp: check_password_def)
      next
        case False
        then show ?thesis using run Some h Inr rec
          by (cases "record_wrong s (clock c 0) u") (auto simp: check_password_def record_wrong_def)
      qed
    qed
  qed
qed

text \<open>C18: a login is rejected as invalid credentials exactly when no live account has the address,
  the account has no password, it is locked, or the password is wrong and the attempt was
  recorded: one answer for the four causes.  In the first three nothing is written, even when the
  password is right.\<close>

theorem login_rejections_look_alike:
  assumes "quiet w" and "admissible c email password device em" and "distinct (map us_id (users (dbs w)))"
    and "Login x s c email password device w = (r, w')"
  shows "(r = Inl ErrInvalidCredentials \<longleftrightarrow>
      (case login_row c em (dbs w) of
         None \<Rightarrow> True
       | Some u \<Rightarrow>
           (case us_password_hash u of
              None \<Rightarrow> True
            | Some h \<Rightarrow> locked (clock c 0) u \<or>
                (VerifyPassword c h password = Inr False \<and> (\<exists>u'. record_wrong s (clock c 0) u = Inr u')))))
    \<and> (case login_row c em (dbs w) of None \<Rightarrow> w' = w
       | Some u \<Rightarrow> us_password_hash u = None \<or> locked (clock c 0) u \<longrightarrow> w' = w)"
  by (rule Login_rejected_iff[OF assms])

section \<open>A wrong password\<close>

text \<open>The effect on the account's row: the row changes exactly as \<^verbatim>\<open>failed_attempt\<close>
  says, up to the sequence number.\<close>

lemma login_row_updated:
  assumes row: "login_row c em d = Some u" and dist: "distinct (map us_id (users d))"
    and same: "us_id u' = us_id u" "us_email u' = us_email u" "us_deleted_at u' = us_deleted_at u"
    and d': "users d' = update_where (\<lambda>v. us_id v = us_id u \<and> live_user v) (\<lambda>_. u') (users d)"
  shows "login_row c em d' = Some u' \<and> distinct (map us_id (users d'))"
proof -
  have u: "u \<in> set (users d)" "addressed c em u" using login_row_Some[OF row] by simp_all
  let ?f = "\<lambda>v. if us_id v = us_id u \<and> live_user v then u' else v"
  have eq: "v = u" if "v \<in> set (users d)" "us_id v = us_id u" for v
    using that u(1) dist by (metis distinct_map inj_onD)
  have Q: "addressed c em (?f v) = addressed c em v" if "v \<in> set (users d)" for v
    using eq[OF that] same by (auto simp: addressed_def live_user_def)
  have "filter (addressed c em) (map ?f vs) = map ?f (filter (addressed c em) vs)" if "set vs \<subseteq> set (users d)" for vs
    using that by (induction vs) (use Q in auto)
  then have fl: "filter (addressed c em) (users d') = map ?f (filter (addressed c em) (users d))"
    by (simp add: d' update_where_def)
  obtain rs where "filter (addressed c em) (users d) = u # rs"
    using row by (auto simp: login_row_def split: list.splits)
  then have "login_row c em d' = Some u'"
    using fl u(2) by (simp add: login_row_def addressed_def)
  moreover have "map us_id (users d') = map us_id (users d)"
    using same(1) by (auto simp: d' update_where_def)
  ultimately show ?thesis using dist by simp
qed

lemma failed_attempt_keys:
  assumes "failed_attempt now th base mx u = Inr u'"
  shows "us_id u' = us_id u" "us_email u' = us_email u" "us_deleted_at u' = us_deleted_at u"
    "us_password_hash u' = us_password_hash u" "us_failed_login_attempts u' = us_failed_login_attempts u + 1"
  using assms by (auto simp: failed_attempt_def Let_def split: if_splits)

section \<open>A wrong password locks the account\<close>

lemma interval_us_whole: "1000 dvd d \<Longrightarrow> interval_us d = d"
  by (auto simp: interval_us_def Let_def)

lemma addressed_clock [simp]: "addressed (c\<lparr>clock := f\<rparr>) = addressed c"
  by (rule ext)+ (simp add: addressed_def split: option.splits)

lemma admissible_clock [simp]:
  "admissible (c\<lparr>clock := f\<rparr>) email pw device em = admissible c email pw device em"
  "login_row (c\<lparr>clock := f\<rparr>) em d = login_row c em d"
  "VerifyPassword (c\<lparr>clock := f\<rparr>) h pw = VerifyPassword c h pw"
  by (simp_all add: admissible_def validEmail_def Let_def login_row_def VerifyPassword_def split: option.splits prod.splits)

lemma pg_ts_dvd: "1000 dvd l \<Longrightarrow> l \<le> t \<Longrightarrow> l \<le> pg_ts t"
  by (auto simp: pg_ts_def)

lemma lock_within_limits:
  assumes "j \<le> 900" and "base < 2 ^ 63"
  shows "int4_ok (int j + 1)" "float8_ok (10 ^ 9 * 2 ^ j)" "float8_ok (base * 2 ^ j)"
proof -
  have p: "(2::int) ^ j \<le> 2 ^ 900" using assms(1) by (intro power_increasing) auto
  show "int4_ok (int j + 1)" using assms(1) by (simp add: int4_ok_def)
  have "(10::int) ^ 9 * 2 ^ j \<le> 10 ^ 9 * 2 ^ 900" using p by (rule mult_left_mono) simp
  also have "\<dots> < 10 ^ 9 * 2 ^ 1024" by simp
  finally show "float8_ok (10 ^ 9 * 2 ^ j)" unfolding float8_ok_def .
  have "base * 2 ^ j \<le> 2 ^ 63 * 2 ^ j" using assms(2) by (intro mult_right_mono) auto
  also have "\<dots> \<le> 2 ^ 63 * 2 ^ 900" using p by (intro mult_left_mono) auto
  also have "\<dots> < 10 ^ 9 * 2 ^ 1024" by simp
  finally show "float8_ok (base * 2 ^ j)" unfolding float8_ok_def .
qed

text \<open>The row after a wrong password that reaches the threshold.\<close>

lemma record_wrong_locks:
  assumes "wrap32 (lockoutThreshold s) \<le> us_failed_login_attempts u + 1" and "0 \<le> us_failed_login_attempts u"
    and "us_failed_login_attempts u + 1 < 2 ^ 31" and "us_lockout_count u = int j" and "j \<le> 900"
    and "\<forall>l. us_locked_until u = Some l \<longrightarrow> l \<le> now \<and> 1000 dvd l"
    and "1000 dvd lockoutBaseDuration s" and "1000 dvd lockoutMaxDuration s"
    and "lockoutBaseDuration s < 2 ^ 63" and "pg_ts now + lockoutMaxDuration s < timestamptz_end"
  shows "record_wrong s now u =
    Inr (u\<lparr>us_failed_login_attempts := us_failed_login_attempts u + 1, us_updated_at := pg_ts now,
           us_lockout_count := int j + 1,
           us_locked_until := Some (pg_ts now + min (lockoutBaseDuration s * 2 ^ j) (lockoutMaxDuration s))\<rparr>)"
proof -
  have "1000 dvd min (lockoutBaseDuration s * 2 ^ j) (lockoutMaxDuration s)" using assms(7,8) by (simp add: min_def)
  then have dur: "lockout_duration (lockoutBaseDuration s) (lockoutMaxDuration s) j =
      min (lockoutBaseDuration s * 2 ^ j) (lockoutMaxDuration s)"
    unfolding lockout_duration_def by (rule interval_us_whole)
  have "lock_due now (wrap32 (lockoutThreshold s)) u"
    using assms(1,6) pg_ts_dvd by (auto simp: lock_due_def split: option.splits)
  moreover have "int4_ok (us_failed_login_attempts u + 1)" using assms(2,3) by (simp add: int4_ok_def)
  ultimately show ?thesis
    using lock_within_limits[OF assms(5,9)] assms(4,10) dur
    by (simp add: record_wrong_def failed_attempt_def)
qed

lemma Login_records:
  assumes "quiet w" and "admissible c email password device em" and "distinct (map us_id (users (dbs w)))"
    and "login_row c em (dbs w) = Some u" and "us_password_hash u = Some h" and "\<not> locked (clock c 0) u"
    and "VerifyPassword c h password = Inr False" and "record_wrong s (clock c 0) u = Inr u'"
  obtains w' seq where "Login x s c email password device w = (Inl ErrInvalidCredentials, w')" "quiet w'"
    "distinct (map us_id (users (dbs w')))" "login_row c em (dbs w') = Some (u'\<lparr>us_server_seq := seq\<rparr>)"
proof -
  have u: "u \<in> set (users (dbs w))" "live_user u"
    using login_row_Some[OF assms(4)] by (simp_all add: addressed_def)
  let ?seq = "server_seq_global w + 1"
  let ?w = "w\<lparr>server_seq_global := ?seq, dbs := (dbs w)\<lparr>users :=
        update_where (\<lambda>v. us_id v = us_id u \<and> live_user v) (\<lambda>_. u'\<lparr>us_server_seq := ?seq\<rparr>) (users (dbs w))\<rparr>\<rparr>"
  have run: "Login x s c email password device w = (Inl ErrInvalidCredentials, ?w)"
    using assms(4-8) Login_quiet[OF assms(1,2)] RecordFailed_quiet[OF assms(1) u assms(3)]
    by (simp add: check_password_def record_wrong_def)
  have row: "login_row c em (dbs ?w) = Some (u'\<lparr>us_server_seq := ?seq\<rparr>) \<and> distinct (map us_id (users (dbs ?w)))"
    by (rule login_row_updated[OF assms(4,3)])
      (use failed_attempt_keys[OF assms(8)[unfolded record_wrong_def]] in simp_all)
  have q: "quiet ?w" using assms(1) by (simp add: quiet_def)
  show thesis using that[OF run q] row by simp
qed

text \<open>C19: a wrong password that reaches the threshold locks the account.  It is answered with
  invalid credentials; from then on, and for the base duration doubled once per earlier lockout,
  but no longer than the maximum, every login of the account is answered the same and changes
  nothing, the right password included; when the time is over the right password opens a session
  again.  The durations are whole microseconds, what the column stores; up to 900 lockouts in a
  row stay within the ranges of the column types.\<close>

theorem wrong_password_locks:
  assumes "quiet w" and "admissible c email password device em" and "distinct (map us_id (users (dbs w)))"
    and "login_row c em (dbs w) = Some u" and "us_password_hash u = Some h"
    and "VerifyPassword c h password = Inr False"
    and "wrap32 (lockoutThreshold s) \<le> us_failed_login_attempts u + 1" and "0 \<le> us_failed_login_attempts u"
    and "us_failed_login_attempts u + 1 < 2 ^ 31" and "us_lockout_count u = int j" and "j \<le> 900"
    and "\<forall>l. us_locked_until u = Some l \<longrightarrow> l \<le> clock c 0 \<and> 1000 dvd l"
    and "1000 dvd lockoutBaseDuration s" and "1000 dvd lockoutMaxDuration s"
    and "lockoutBaseDuration s < 2 ^ 63" and "pg_ts (clock c 0) + lockoutMaxDuration s < timestamptz_end"
  shows "\<exists>w' u'. Login x s c email password device w = (Inl ErrInvalidCredentials, w') \<and> quiet w' \<and>
    login_row c em (dbs w') = Some u' \<and>
    us_failed_login_attempts u' = us_failed_login_attempts u + 1 \<and> us_lockout_count u' = int j + 1 \<and>
    (\<forall>x2 f email2 pw device2. admissible c email2 pw device2 em \<longrightarrow>
       (f 0 < pg_ts (clock c 0) + min (lockoutBaseDuration s * 2 ^ j) (lockoutMaxDuration s) \<longrightarrow>
          Login x2 s (c\<lparr>clock := f\<rparr>) email2 pw device2 w' = (Inl ErrInvalidCredentials, w')) \<and>
       (pg_ts (clock c 0) + min (lockoutBaseDuration s * 2 ^ j) (lockoutMaxDuration s) \<le> f 0 \<and>
          VerifyPassword c h pw = Inr True \<longrightarrow>
          Login x2 s (c\<lparr>clock := f\<rparr>) email2 pw device2 w' = open_session x2 (c\<lparr>clock := f\<rparr>) device2 u' w'))"
proof -
  let ?until = "pg_ts (clock c 0) + min (lockoutBaseDuration s * 2 ^ j) (lockoutMaxDuration s)"
  let ?u1 = "u\<lparr>us_failed_login_attempts := us_failed_login_attempts u + 1, us_updated_at := pg_ts (clock c 0),
           us_lockout_count := int j + 1, us_locked_until := Some ?until\<rparr>"
  have nl: "\<not> locked (clock c 0) u" using assms(12) by (auto simp: locked_def not_less split: option.splits)
  have rec: "record_wrong s (clock c 0) u = Inr ?u1"
    by (rule record_wrong_locks) (use assms(7-16) in auto)
  obtain w' seq where w': "Login x s c email password device w = (Inl ErrInvalidCredentials, w')" "quiet w'"
    "login_row c em (dbs w') = Some (?u1\<lparr>us_server_seq := seq\<rparr>)"
    using Login_records[OF assms(1-5) nl assms(6) rec] by metis
  have later: "Login x2 s (c\<lparr>clock := f\<rparr>) email2 pw device2 w' =
      andthen (check_password s (c\<lparr>clock := f\<rparr>) (f 0) pw (?u1\<lparr>us_server_seq := seq\<rparr>) w')
        (\<lambda>_ w. open_session x2 (c\<lparr>clock := f\<rparr>) device2 (?u1\<lparr>us_server_seq := seq\<rparr>) w)"
    if "admissible c email2 pw device2 em" for x2 f email2 pw device2
    using Login_quiet[OF w'(2), of "c\<lparr>clock := f\<rparr>" email2 pw device2 em x2 s] that w'(3) by simp
  show ?thesis
    by (intro exI[of _ w'] exI[of _ "?u1\<lparr>us_server_seq := seq\<rparr>"] conjI allI impI)
      (use w' assms(5) in \<open>simp_all add: later check_password_def locked_def\<close>)
qed

section \<open>The guessing budget\<close>

text \<open>A login that read the account when the database was \<^verbatim>\<open>seen\<close>, and whose second
  statement, when it comes to one, runs now: the requests served in between are the interference.
  The password is checked with the row that was read.\<close>

definition late_login :: "ext \<Rightarrow> service \<Rightarrow> crypto \<Rightarrow> string \<Rightarrow> string \<Rightarrow> DeviceInput \<Rightarrow> db \<Rightarrow> world \<Rightarrow> (auth_error + auth_result) \<times> world" where
  "late_login x s c email pw device seen w =
     (case Login x s c email pw device (w\<lparr>dbs := seen, hazards := [Run, Interfere (\<lambda>_. dbs w)]\<rparr>) of
        (r, v) \<Rightarrow> (r, if hazards v = [] then v else w))"

text \<open>A guess that the stored hash was compared with.\<close>

definition compared :: "crypto \<Rightarrow> string \<Rightarrow> time \<Rightarrow> db \<Rightarrow> bool" where
  "compared c em now seen \<longleftrightarrow>
     (\<exists>v. login_row c em seen = Some v \<and> (\<forall>l. us_locked_until v = Some l \<longrightarrow> l \<le> now))"

text \<open>Guesses for one account, at most \<^verbatim>\<open>k\<close> of them in flight at any moment, each
  reading the clock somewhere between t0 and T.  The state is the world, what each guess in flight has
  read, and the number of guesses that were compared and answered with invalid credentials.  A
  guess may be given up, and anything else may happen in the database that leaves the row of the
  account alone.\<close>

inductive guessing :: "service \<Rightarrow> crypto \<Rightarrow> string \<Rightarrow> string \<Rightarrow> nat \<Rightarrow> time \<Rightarrow> time \<Rightarrow> world \<Rightarrow> world \<Rightarrow> db list \<Rightarrow> nat \<Rightarrow> bool"
  for s c em h k t0 T w0 where
  idle: "guessing s c em h k t0 T w0 w0 [] 0"
| arrive: "guessing s c em h k t0 T w0 w fl n \<Longrightarrow> length fl < k \<Longrightarrow> guessing s c em h k t0 T w0 w (dbs w # fl) n"
| answer: "guessing s c em h k t0 T w0 w (fl @ seen # gl) n \<Longrightarrow> t0 \<le> now \<Longrightarrow> now \<le> T \<Longrightarrow>
    admissible c email pw device em \<Longrightarrow> VerifyPassword c h pw = Inr False \<Longrightarrow>
    late_login x s (c\<lparr>clock := \<lambda>_. now\<rparr>) email pw device seen w = (r, w') \<Longrightarrow>
    guessing s c em h k t0 T w0 w' (fl @ gl) (if compared c em now seen \<and> r = Inl ErrInvalidCredentials then Suc n else n)"
| give_up: "guessing s c em h k t0 T w0 w (fl @ seen # gl) n \<Longrightarrow> guessing s c em h k t0 T w0 w (fl @ gl) n"
| elsewhere: "guessing s c em h k t0 T w0 w fl n \<Longrightarrow> login_row c em d = login_row c em (dbs w) \<Longrightarrow>
    distinct (map us_id (users d)) \<Longrightarrow> guessing s c em h k t0 T w0 (w\<lparr>dbs := d\<rparr>) fl n"

lemma late_login_eq:
  assumes w: "quiet w" "\<not> in_tx w" "distinct (map us_id (users (dbs w)))" and row: "login_row c em (dbs w) = Some u"
    and seen: "login_row c em seen = Some v" "us_id v = us_id u" "us_password_hash v = Some h"
    and pw: "admissible c email pw device em" "VerifyPassword c h pw = Inr False"
  shows "late_login x s (c\<lparr>clock := \<lambda>_. now\<rparr>) email pw device seen w =
    (if locked now v then (Inl ErrInvalidCredentials, w)
     else case record_wrong s now u of
       Inl e \<Rightarrow> (Inl (Wrapped ''auth: record failed login attempt'' e), w)
     | Inr u' \<Rightarrow> (Inl ErrInvalidCredentials,
         w\<lparr>server_seq_global := server_seq_global w + 1, dbs := (dbs w)\<lparr>users :=
            update_where (\<lambda>v. us_id v = us_id u \<and> live_user v)
              (\<lambda>_. u'\<lparr>us_server_seq := server_seq_global w + 1\<rparr>) (users (dbs w))\<rparr>\<rparr>))"
proof -
  let ?c = "c\<lparr>clock := \<lambda>_. now\<rparr>" and ?seen = "w\<lparr>dbs := seen, hazards := [Run, Interfere (\<lambda>_. dbs w)]\<rparr>"
  let ?mid = "w\<lparr>dbs := seen, hazards := [Interfere (\<lambda>_. dbs w)]\<rparr>"
  have u: "u \<in> set (users (dbs w))" "live_user u" using login_row_Some[OF row] by (simp_all add: addressed_def)
  have h: "hazards w = []" using w(1) by (simp add: quiet_def)
  have "list_all text_ok (opt_text (strPtr em))"
    using pw(1) by (simp add: admissible_def strPtr_def opt_text_def)
  then have "GetUserByEmail (citext_lower c) (strPtr em) ?seen = (one_row (filter (addressed c em) (users seen)), ?mid)"
    by (simp add: GetUserByEmail_def exec_txt_def exec_def select_one_def addressed_def cong: filter_cong)
  moreover have "one_row (filter (addressed c em) (users seen)) = Inr v"
    using seen(1) by (auto simp: login_row_def one_row_def split: list.splits)
  ultimately have L: "Login x s ?c email pw device ?seen =
      andthen (check_password s ?c now pw v ?mid) (\<lambda>_ w. open_session x ?c device v w)"
    using pw(1) by (auto simp: Login_def admissible_def validEmail_def Let_def no_rows_as_def split: option.splits if_splits)
  have same: "w\<lparr>hazards := []\<rparr> = w" using h by (cases w) simp
  have rec: "RecordFailedLoginAttempt (us_id v) th now base mx ?mid = RecordFailedLoginAttempt (us_id u) th now base mx w" for th base mx
    using w(2) h by (simp add: RecordFailedLoginAttempt_def exec_def Let_def seen(2) same cong: list.case_cong sum.case_cong)
  show ?thesis
    using seen(3) pw(2) h RecordFailed_quiet[OF w(1) u w(3)]
    by (cases "record_wrong s now u")
      (simp_all add: late_login_def L check_password_def rec record_wrong_def)
qed

text \<open>The time the first \<^verbatim>\<open>m\<close> lockouts take.\<close>

definition lock_time :: "service \<Rightarrow> nat \<Rightarrow> duration" where
  "lock_time s m = (\<Sum>j<m. min (lockoutBaseDuration s * 2 ^ j) (lockoutMaxDuration s))"

lemma lock_time_Suc:
  "lock_time s (Suc m) = lock_time s m + min (lockoutBaseDuration s * 2 ^ m) (lockoutMaxDuration s)"
  by (simp add: lock_time_def)

text \<open>What a guess in flight has read of the account, and how the row of the account, the
  \<^verbatim>\<open>n\<close> counted guesses and the \<^verbatim>\<open>old\<close> guesses that read it before the
  last lockout stand to each other.\<close>

definition read_before :: "crypto \<Rightarrow> string \<Rightarrow> string \<Rightarrow> user \<Rightarrow> db \<Rightarrow> bool" where
  "read_before c em h u seen \<longleftrightarrow>
     (\<exists>v. login_row c em seen = Some v \<and> us_id v = us_id u \<and> us_password_hash v = Some h \<and> 0 \<le> us_lockout_count v \<and>
        us_lockout_count v \<le> us_lockout_count u \<and>
        (us_lockout_count v = us_lockout_count u \<longrightarrow> us_locked_until v = us_locked_until u))"

definition outdated :: "crypto \<Rightarrow> string \<Rightarrow> user \<Rightarrow> db \<Rightarrow> bool" where
  "outdated c em u seen \<longleftrightarrow> (\<exists>v. login_row c em seen = Some v \<and> us_lockout_count v < us_lockout_count u)"

definition spent :: "service \<Rightarrow> nat \<Rightarrow> time \<Rightarrow> time \<Rightarrow> user \<Rightarrow> nat \<Rightarrow> nat \<Rightarrow> bool" where
  "spent s k t0 T u n old \<longleftrightarrow>
     (\<exists>m. us_lockout_count u = int m \<and> us_failed_login_attempts u = int n \<and>
        int (n + old) \<le> wrap32 (lockoutThreshold s) - 1 + int (m * k) \<and>
        (m = 0 \<longrightarrow> us_locked_until u = None) \<and>
        (0 < m \<longrightarrow> wrap32 (lockoutThreshold s) \<le> int n \<and>
           (\<exists>l. us_locked_until u = Some l \<and> 1000 dvd l \<and> pg_ts t0 + lock_time s m \<le> l)) \<and>
        (1 < m \<longrightarrow> pg_ts t0 + lock_time s (m - 1) \<le> T))"

definition in_budget :: "service \<Rightarrow> crypto \<Rightarrow> string \<Rightarrow> string \<Rightarrow> nat \<Rightarrow> time \<Rightarrow> time \<Rightarrow> world \<Rightarrow> db list \<Rightarrow> nat \<Rightarrow> bool" where
  "in_budget s c em h k t0 T w fl n \<longleftrightarrow>
     quiet w \<and> \<not> in_tx w \<and> distinct (map us_id (users (dbs w))) \<and> length fl \<le> k \<and>
     (\<exists>u. login_row c em (dbs w) = Some u \<and> us_password_hash u = Some h \<and>
        (\<forall>seen\<in>set fl. read_before c em h u seen) \<and> spent s k t0 T u n (length (filter (outdated c em u) fl)))"

lemma spent_escalates:
  assumes sp: "spent s k t0 T u n old" and times: "t0 \<le> now" "now \<le> T" and due: "lock_due now (wrap32 (lockoutThreshold s)) u"
    and step: "record_wrong s now u = Inr u'" and dvd: "1000 dvd lockoutBaseDuration s" "1000 dvd lockoutMaxDuration s"
    and old: "old' < k"
  shows "us_lockout_count u' = us_lockout_count u + 1 \<and> spent s k t0 T (u'\<lparr>us_server_seq := seq\<rparr>) (Suc n) old'"
proof -
  let ?th = "wrap32 (lockoutThreshold s)" and ?dur = "\<lambda>m. min (lockoutBaseDuration s * 2 ^ m) (lockoutMaxDuration s)"
  obtain m where m: "us_lockout_count u = int m" "us_failed_login_attempts u = int n" "int (n + old) \<le> ?th - 1 + int (m * k)"
    "0 < m \<Longrightarrow> \<exists>l. us_locked_until u = Some l \<and> 1000 dvd l \<and> pg_ts t0 + lock_time s m \<le> l"
    using sp by (auto simp: spent_def)
  have whole: "1000 dvd ?dur m" using dvd by (simp add: min_def)
  then have "lockout_duration (lockoutBaseDuration s) (lockoutMaxDuration s) m = ?dur m"
    unfolding lockout_duration_def by (rule interval_us_whole)
  then have u': "us_lockout_count u' = int m + 1" "us_locked_until u' = Some (pg_ts now + ?dur m)"
    "us_failed_login_attempts u' = int n + 1"
    using step[unfolded record_wrong_def] due m(1,2) by (auto simp: failed_attempt_def Let_def split: if_splits)
  have before: "pg_ts t0 + lock_time s m \<le> pg_ts now" and last: "0 < m \<Longrightarrow> pg_ts t0 + lock_time s m \<le> T"
  proof -
    have le: "pg_ts t0 + lock_time s m \<le> pg_ts now" if "0 < m"
      using m(4)[OF that] due by (auto simp: lock_due_def)
    then show "pg_ts t0 + lock_time s m \<le> pg_ts now"
      using pg_ts_mono[OF times(1)] by (cases "m = 0") (auto simp: lock_time_def)
    show "0 < m \<Longrightarrow> pg_ts t0 + lock_time s m \<le> T"
      using le times(2) by (simp add: pg_ts_def)
  qed
  have "int (Suc n + old') \<le> ?th - 1 + int (Suc m * k)" using m(3) old by simp
  moreover have "?th \<le> int (Suc n)" using due m(2) by (simp add: lock_due_def)
  moreover have "pg_ts t0 + lock_time s (Suc m) \<le> pg_ts now + ?dur m" using before by (simp add: lock_time_Suc)
  moreover have "1000 dvd pg_ts now + ?dur m" using whole by (simp add: pg_ts_def)
  ultimately show ?thesis using u' m(1) last
    by (auto simp: spent_def distrib_right intro!: exI[of _ "Suc m"])
qed

lemma spent_counts:
  assumes sp: "spent s k t0 T u n old" and not_due: "\<not> lock_due now (wrap32 (lockoutThreshold s)) u"
    and step: "record_wrong s now u = Inr u'" and old: "old' = 0 \<or> old' < old" and old_m: "0 < us_lockout_count u \<Longrightarrow> old' < old"
  shows "us_lockout_count u' = us_lockout_count u \<and> us_locked_until u' = us_locked_until u \<and>
    spent s k t0 T (u'\<lparr>us_server_seq := seq\<rparr>) (Suc n) old'"
proof -
  let ?th = "wrap32 (lockoutThreshold s)"
  obtain m where m: "us_lockout_count u = int m" "us_failed_login_attempts u = int n" "int (n + old) \<le> ?th - 1 + int (m * k)"
    "m = 0 \<Longrightarrow> us_locked_until u = None" "0 < m \<Longrightarrow> ?th \<le> int n"
    "0 < m \<Longrightarrow> \<exists>l. us_locked_until u = Some l \<and> 1000 dvd l \<and> pg_ts t0 + lock_time s m \<le> l"
    "1 < m \<Longrightarrow> pg_ts t0 + lock_time s (m - 1) \<le> T"
    using sp by (auto simp: spent_def)
  have u': "us_lockout_count u' = int m" "us_locked_until u' = us_locked_until u" "us_failed_login_attempts u' = int (Suc n)"
    using step[unfolded record_wrong_def] not_due m(1,2) by (auto simp: failed_attempt_def Let_def split: if_splits)
  have "int (Suc n + old') \<le> ?th - 1 + int (m * k)"
  proof (cases "m = 0")
    case True
    then have "int (Suc n) < ?th" using not_due m(2,4) by (simp add: lock_due_def)
    then show ?thesis using True old m(3) by auto
  next
    case False
    then show ?thesis using old_m m(1,3) by simp
  qed
  then show ?thesis using u' m by (auto simp: spent_def intro!: exI[of _ m])
qed

lemma filter_le_others: "length (filter P (fl @ gl)) \<le> length (filter P (fl @ x # gl))"
  by simp

lemma read_before_refl:
  "login_row c em d = Some u \<Longrightarrow> us_password_hash u = Some h \<Longrightarrow> 0 \<le> us_lockout_count u \<Longrightarrow>
    read_before c em h u d \<and> \<not> outdated c em u d"
  by (simp add: read_before_def outdated_def)

lemma none_outdated: "read_before c em h u d \<Longrightarrow> us_lockout_count u \<le> 0 \<Longrightarrow> \<not> outdated c em u d"
  by (auto simp: read_before_def outdated_def)

lemma spent_fewer: "spent s k t0 T u n old \<Longrightarrow> old' \<le> old \<Longrightarrow> spent s k t0 T u n old'"
  by (auto simp: spent_def intro!: exI[of _ "nat (us_lockout_count u)"])

lemma budget_answer:
  assumes ib: "in_budget s c em h k t0 T w (fl @ seen # gl) n" and times: "t0 \<le> now" "now \<le> T"
    and pw: "admissible c email pw device em" "VerifyPassword c h pw = Inr False"
    and dvd: "1000 dvd lockoutBaseDuration s" "1000 dvd lockoutMaxDuration s"
    and run: "late_login x s (c\<lparr>clock := \<lambda>_. now\<rparr>) email pw device seen w = (r, w')"
  shows "in_budget s c em h k t0 T w' (fl @ gl) (if compared c em now seen \<and> r = Inl ErrInvalidCredentials then Suc n else n)"
proof -
  obtain u where w: "quiet w" "\<not> in_tx w" "distinct (map us_id (users (dbs w)))" "length (fl @ seen # gl) \<le> k"
    and u: "login_row c em (dbs w) = Some u" "us_password_hash u = Some h"
    and rd: "\<forall>d\<in>set (fl @ seen # gl). read_before c em h u d"
    and sp: "spent s k t0 T u n (length (filter (outdated c em u) (fl @ seen # gl)))"
    using ib by (auto simp: in_budget_def)
  obtain v where v: "login_row c em seen = Some v" "us_id v = us_id u" "us_password_hash v = Some h"
    "us_lockout_count v \<le> us_lockout_count u" "us_lockout_count v = us_lockout_count u \<Longrightarrow> us_locked_until v = us_locked_until u"
    using rd by (auto simp: read_before_def)
  note run' = run[unfolded late_login_eq[OF w(1-3) u(1) v(1-3) pw]]
  have cmp: "compared c em now seen \<longleftrightarrow> \<not> locked now v"
    using v(1) by (auto simp: compared_def locked_def split: option.splits)
  have unchanged: "in_budget s c em h k t0 T w (fl @ gl) n"
    using w u rd spent_fewer[OF sp filter_le_others] by (auto simp: in_budget_def)
  show ?thesis
  proof (cases "locked now v")
    case True
    then show ?thesis using run' cmp unchanged by simp
  next
    case free: False
    show ?thesis
    proof (cases "record_wrong s now u")
      case (Inl e)
      then show ?thesis using run' free unchanged by auto
    next
      case (Inr u')
      let ?seq = "server_seq_global w + 1"
      let ?u = "u'\<lparr>us_server_seq := ?seq\<rparr>"
      note keys = failed_attempt_keys[OF Inr[unfolded record_wrong_def]]
      have r: "r = Inl ErrInvalidCredentials" and w': "w' = w\<lparr>server_seq_global := ?seq, dbs := (dbs w)\<lparr>users :=
          update_where (\<lambda>v. us_id v = us_id u \<and> live_user v) (\<lambda>_. ?u) (users (dbs w))\<rparr>\<rparr>"
        using run' free Inr by auto
      have row: "login_row c em (dbs w') = Some ?u \<and> distinct (map us_id (users (dbs w')))"
        by (rule login_row_updated[OF u(1) w(3)]) (use keys in \<open>simp_all add: w'\<close>)
      have "(\<forall>d\<in>set (fl @ gl). read_before c em h ?u d) \<and> spent s k t0 T ?u (Suc n) (length (filter (outdated c em ?u) (fl @ gl)))"
      proof (cases "lock_due now (wrap32 (lockoutThreshold s)) u")
        case True
        have "length (filter (outdated c em ?u) (fl @ gl)) \<le> length (fl @ gl)" by (rule length_filter_le)
        then have "length (filter (outdated c em ?u) (fl @ gl)) < k" using w(4) by simp
        from spent_escalates[OF sp times True Inr dvd this]
        show ?thesis using rd keys by (fastforce simp: read_before_def)
      next
        case False
        have old: "outdated c em u seen" if pos: "0 < us_lockout_count u"
        proof -
          obtain l where l: "us_locked_until u = Some l" "1000 dvd l" and th: "wrap32 (lockoutThreshold s) \<le> us_failed_login_attempts u"
            using sp pos by (auto simp: spent_def)
          have "\<not> l \<le> pg_ts now" using False l(1) th by (simp add: lock_due_def)
          then have "\<not> l \<le> now" using pg_ts_dvd[OF l(2)] by blast
          then have "us_locked_until v \<noteq> us_locked_until u" using free l(1) by (auto simp: locked_def)
          then have "us_lockout_count v < us_lockout_count u" using v(4,5) by (auto simp: order_le_less)
          then show ?thesis using v(1) by (auto simp: outdated_def)
        qed
        let ?old = "length (filter (outdated c em u) (fl @ gl))"
        have z: "?old = 0" if "us_lockout_count u \<le> 0"
        proof -
          have "\<not> outdated c em u d" if "d \<in> set (fl @ gl)" for d
            using rd that none_outdated[of c em h u d] \<open>us_lockout_count u \<le> 0\<close> by auto
          then show ?thesis by (simp add: filter_empty_conv)
        qed
        have less: "0 < us_lockout_count u \<Longrightarrow> ?old < length (filter (outdated c em u) (fl @ seen # gl))" using old by simp
        have either: "?old = 0 \<or> ?old < length (filter (outdated c em u) (fl @ seen # gl))" using less z not_less by blast
        have sp': "us_lockout_count u' = us_lockout_count u \<and> us_locked_until u' = us_locked_until u \<and> spent s k t0 T ?u (Suc n) ?old"
          by (rule spent_counts[OF sp False Inr either less])
        then have "outdated c em ?u = outdated c em u" "read_before c em h ?u = read_before c em h u"
          using keys(1) by (auto simp: outdated_def read_before_def fun_eq_iff)
        then show ?thesis using rd sp' by simp
      qed
      then show ?thesis
        using row w keys(4) u(2) r cmp free by (auto simp: in_budget_def w' quiet_def)
    qed
  qed
qed

lemma guessing_in_budget:
  assumes "guessing s c em h k t0 T w0 w fl n"
    and "quiet w0" and "\<not> in_tx w0" and "distinct (map us_id (users (dbs w0)))" and "login_row c em (dbs w0) = Some u"
    and "us_password_hash u = Some h" and "us_failed_login_attempts u = 0" and "us_lockout_count u = 0"
    and "us_locked_until u = None" and "1 \<le> wrap32 (lockoutThreshold s)"
    and "1000 dvd lockoutBaseDuration s" and "1000 dvd lockoutMaxDuration s"
  shows "in_budget s c em h k t0 T w fl n"
  using assms(1)
proof (induction rule: guessing.induct)
  case idle
  then show ?case using assms(2-10) by (auto simp: in_budget_def spent_def)
next
  case (arrive w fl n)
  then obtain u where u: "login_row c em (dbs w) = Some u" "us_password_hash u = Some h" "spent s k t0 T u n (length (filter (outdated c em u) fl))"
    by (auto simp: in_budget_def)
  then have "0 \<le> us_lockout_count u" by (auto simp: spent_def)
  then show ?case using arrive read_before_refl[OF u(1,2)] u(1) by (auto simp: in_budget_def)
next
  case (answer w fl seen gl n now email pw device x r w')
  show ?case by (rule budget_answer[OF answer(7,2,3,4,5) assms(11,12) answer(6)])
next
  case (give_up w fl seen gl n)
  then show ?case using spent_fewer[OF _ filter_le_others] by (fastforce simp: in_budget_def)
next
  case (elsewhere w fl n d)
  then show ?case by (simp add: in_budget_def quiet_def)
qed

text \<open>C17: the guessing budget, for guesses that overlap.  Take an account without failures and any
  wrong passwords tried on it between t0 and T, never more than k at the same time, in any
  interleaving of their statements.  Let n of them have been compared with the stored hash and
  answered with invalid credentials.  The row has counted every one, and n is at most the
  threshold less one and k for every lockout; the lockouts before the last have run out by T, so
  their durations, the base doubled each time up to the maximum, fit between t0 and T.  One
  after the other (k = 1) every guess beyond the threshold costs a lock; k at once get k guesses
  for it, since a guess in flight is not checked again when the lock comes.  Guesses whose failure
  could not be recorded are answered otherwise and are not in n, and the right password,
  which takes the counters back, is not among them.\<close>

theorem guessing_budget:
  assumes "guessing s c em h k t0 T w0 w fl n"
    and "quiet w0" and "\<not> in_tx w0" and "distinct (map us_id (users (dbs w0)))" and "login_row c em (dbs w0) = Some u0"
    and "us_password_hash u0 = Some h" and "us_failed_login_attempts u0 = 0" and "us_lockout_count u0 = 0"
    and "us_locked_until u0 = None" and "1 \<le> wrap32 (lockoutThreshold s)"
    and "1000 dvd lockoutBaseDuration s" and "1000 dvd lockoutMaxDuration s"
  shows "\<exists>u m. login_row c em (dbs w) = Some u \<and> us_failed_login_attempts u = int n \<and> us_lockout_count u = int m \<and>
    int n \<le> wrap32 (lockoutThreshold s) - 1 + int (m * k) \<and>
    (1 < m \<longrightarrow> pg_ts t0 + (\<Sum>j<m - 1. min (lockoutBaseDuration s * 2 ^ j) (lockoutMaxDuration s)) \<le> T)"
  using guessing_in_budget[OF assms] unfolding in_budget_def spent_def lock_time_def by fastforce

text \<open>One more counted guess, for worked runs.\<close>

lemma guessing_counts:
  assumes g: "guessing s c em h k t0 T w0 w (seen # fl) n" and times: "t0 \<le> now" "now \<le> T"
    and pw: "admissible c email pw device em" "VerifyPassword c h pw = Inr False"
    and w: "quiet w" "\<not> in_tx w" "distinct (map us_id (users (dbs w)))" and row: "login_row c em (dbs w) = Some u"
    and seen: "login_row c em seen = Some v" "us_id v = us_id u" "us_password_hash v = Some h" "us_locked_until v = None"
    and rec: "record_wrong s now u = Inr u'"
  shows "\<exists>w' seq. guessing s c em h k t0 T w0 w' fl (Suc n) \<and> quiet w' \<and> \<not> in_tx w' \<and>
    distinct (map us_id (users (dbs w'))) \<and> login_row c em (dbs w') = Some (u'\<lparr>us_server_seq := seq\<rparr>)"
proof -
  let ?seq = "server_seq_global w + 1"
  let ?w = "w\<lparr>server_seq_global := ?seq, dbs := (dbs w)\<lparr>users :=
            update_where (\<lambda>v. us_id v = us_id u \<and> live_user v) (\<lambda>_. u'\<lparr>us_server_seq := ?seq\<rparr>) (users (dbs w))\<rparr>\<rparr>"
  have run: "late_login sample_ext s (c\<lparr>clock := \<lambda>_. now\<rparr>) email pw device seen w = (Inl ErrInvalidCredentials, ?w)"
    unfolding late_login_eq[OF w row seen(1-3) pw] by (simp add: rec locked_def seen(4))
  have cmp: "compared c em now seen" using seen by (simp add: compared_def)
  have "guessing s c em h k t0 T w0 ?w ([] @ fl) (if compared c em now seen \<and> (Inl ErrInvalidCredentials :: auth_error + auth_result) = Inl ErrInvalidCredentials then Suc n else n)"
    by (rule guessing.answer[OF _ times pw run]) (use g in simp)
  then have "guessing s c em h k t0 T w0 ?w fl (Suc n)" using cmp by simp
  moreover have "login_row c em (dbs ?w) = Some (u'\<lparr>us_server_seq := ?seq\<rparr>) \<and> distinct (map us_id (users (dbs ?w)))"
    by (rule login_row_updated[OF row w(3)]) (use failed_attempt_keys[OF rec[unfolded record_wrong_def]] in simp_all)
  moreover have "quiet ?w" "\<not> in_tx ?w" using w by (simp_all add: quiet_def)
  ultimately show ?thesis by blast
qed

section \<open>Worked logins\<close>

definition sample_hash :: string where
  "sample_hash = encode_hash ''salt'' (argon2_IDKey sample_crypto ''secret12'' ''salt'' 3 65536 4 32)"

definition login_db :: db where
  "login_db = auth_db\<lparr>users := [account 1 ''a@b.c'' (Some sample_hash)]\<rparr>"

definition almost_locked :: db where
  "almost_locked = auth_db\<lparr>users := [(account 1 ''a@b.c'' (Some sample_hash))\<lparr>us_failed_login_attempts := 1\<rparr>]\<rparr>"

definition sample_input :: DeviceInput where
  "sample_input =
     \<lparr>di_ID = [], di_Platform = ''macos'', di_Name = ''m'', di_Model = ''m'', di_OSVersion = ''1'', di_AppVersion = ''1''\<rparr>"

definition short_service :: service where
  "short_service =
     \<lparr>LockoutThreshold = 2, LockoutBaseDuration = 10 ^ 9, LockoutMaxDuration = 4 * 10 ^ 9, Pool_set = True\<rparr>"

lemma short_fields:
  "wrap32 (lockoutThreshold short_service) = 2" "lockoutBaseDuration short_service = 10 ^ 9"
  "lockoutMaxDuration short_service = 4 * 10 ^ 9"
  by (simp_all add: short_service_def lockoutThreshold_def lockoutBaseDuration_def lockoutMaxDuration_def wrap32_def)

lemma sample_verify: "VerifyPassword sample_crypto sample_hash pw =
    Inr (take 32 (pw @ replicate 32 (CHR 0x00)) = take 32 (''secret12'' @ replicate 32 (CHR 0x00)))"
  unfolding sample_hash_def
  by (subst VerifyPassword_encode_hash) (simp_all add: sample_crypto_def argon2_defs)

lemma sample_wrong: "VerifyPassword sample_crypto sample_hash ''guess'' = Inr False"
  by (simp add: sample_verify)

lemma sample_admissible: "admissible sample_crypto ''a@b.c'' ''guess'' sample_input ''a@b.c''"
  by (simp add: admissible_def validEmail_def TrimSpace_graphic graphic_def sample_crypto_def text_ok_def
      maxPasswordBytes_def validate_def sample_input_def)

lemma sample_row: "login_row sample_crypto ''a@b.c'' login_db = Some (account 1 ''a@b.c'' (Some sample_hash))"
  by (simp add: login_row_def login_db_def addressed_def account_def sample_user_def strPtr_def live_user_def)

lemma sample_distinct: "distinct (map us_id (users login_db))"
  by (simp add: login_db_def)

theorem login_rejections_look_alike_witness:
  "fst (Login sample_ext sample_service sample_crypto ''a@b.c'' ''guess'' sample_input (session empty_db)) =
     Inl ErrInvalidCredentials"
proof -
  obtain r w' where run: "Login sample_ext sample_service sample_crypto ''a@b.c'' ''guess'' sample_input (session empty_db) = (r, w')"
    by (rule prod.exhaust)
  have "distinct (map us_id (users (dbs (session empty_db))))" "login_row sample_crypto ''a@b.c'' (dbs (session empty_db)) = None"
    by (simp_all add: empty_db_def login_row_def)
  then show ?thesis using login_rejections_look_alike[OF session_quiet(1) sample_admissible _ run] run by simp
qed

theorem wrong_password_locks_witness:
  "\<exists>w' u'. Login sample_ext short_service sample_crypto ''a@b.c'' ''guess'' sample_input (session almost_locked) = (Inl ErrInvalidCredentials, w') \<and>
     Login sample_ext short_service (sample_crypto\<lparr>clock := \<lambda>_. 1001 * 10 ^ 9 - 1\<rparr>) ''a@b.c'' ''secret12'' sample_input w' =
       (Inl ErrInvalidCredentials, w') \<and>
     Login sample_ext short_service (sample_crypto\<lparr>clock := \<lambda>_. 1001 * 10 ^ 9\<rparr>) ''a@b.c'' ''secret12'' sample_input w' =
       open_session sample_ext (sample_crypto\<lparr>clock := \<lambda>_. 1001 * 10 ^ 9\<rparr>) sample_input u' w'"
proof -
  let ?u = "(account 1 ''a@b.c'' (Some sample_hash))\<lparr>us_failed_login_attempts := 1\<rparr>"
  have row: "login_row sample_crypto ''a@b.c'' (dbs (session almost_locked)) = Some ?u"
    and d: "distinct (map us_id (users (dbs (session almost_locked))))"
    by (simp_all add: almost_locked_def account_def sample_user_def login_row_def addressed_def strPtr_def live_user_def)
  have t: "clock sample_crypto 0 = 1000 * 10 ^ 9" by (simp add: sample_crypto_def)
  have "VerifyPassword sample_crypto sample_hash ''secret12'' = Inr True" by (simp add: sample_verify)
  moreover have adm: "admissible sample_crypto ''a@b.c'' ''secret12'' sample_input ''a@b.c''"
    using sample_admissible by (simp add: admissible_def maxPasswordBytes_def)
  have h: "us_password_hash ?u = Some sample_hash" by (simp add: account_def)
  have "\<exists>w' u'. Login sample_ext short_service sample_crypto ''a@b.c'' ''guess'' sample_input (session almost_locked) = (Inl ErrInvalidCredentials, w') \<and> quiet w' \<and>
    login_row sample_crypto ''a@b.c'' (dbs w') = Some u' \<and>
    us_failed_login_attempts u' = us_failed_login_attempts ?u + 1 \<and> us_lockout_count u' = int 0 + 1 \<and>
    (\<forall>x2 f email2 pw device2. admissible sample_crypto email2 pw device2 ''a@b.c'' \<longrightarrow>
       (f 0 < pg_ts (clock sample_crypto 0) + min (lockoutBaseDuration short_service * 2 ^ 0) (lockoutMaxDuration short_service) \<longrightarrow>
          Login x2 short_service (sample_crypto\<lparr>clock := f\<rparr>) email2 pw device2 w' = (Inl ErrInvalidCredentials, w')) \<and>
       (pg_ts (clock sample_crypto 0) + min (lockoutBaseDuration short_service * 2 ^ 0) (lockoutMaxDuration short_service) \<le> f 0 \<and>
          VerifyPassword sample_crypto sample_hash pw = Inr True \<longrightarrow>
          Login x2 short_service (sample_crypto\<lparr>clock := f\<rparr>) email2 pw device2 w' = open_session x2 (sample_crypto\<lparr>clock := f\<rparr>) device2 u' w'))"
    by (rule wrong_password_locks[OF session_quiet(1) sample_admissible d row h sample_wrong])
      (simp_all add: short_fields account_def sample_user_def t pg_ts_def timestamptz_end_def)
  then obtain w' u' where w': "Login sample_ext short_service sample_crypto ''a@b.c'' ''guess'' sample_input (session almost_locked) = (Inl ErrInvalidCredentials, w')"
    and later: "\<And>x2 f email2 pw device2. admissible sample_crypto email2 pw device2 ''a@b.c'' \<Longrightarrow>
       (f 0 < 1001 * 10 ^ 9 \<longrightarrow>
          Login x2 short_service (sample_crypto\<lparr>clock := f\<rparr>) email2 pw device2 w' = (Inl ErrInvalidCredentials, w')) \<and>
       (1001 * 10 ^ 9 \<le> f 0 \<and> VerifyPassword sample_crypto sample_hash pw = Inr True \<longrightarrow>
          Login x2 short_service (sample_crypto\<lparr>clock := f\<rparr>) email2 pw device2 w' = open_session x2 (sample_crypto\<lparr>clock := f\<rparr>) device2 u' w')"
    by (auto simp: short_fields t pg_ts_def)
  ultimately show ?thesis
    using later[OF adm, of "\<lambda>_. 1001 * 10 ^ 9 - 1" sample_ext] later[OF adm, of "\<lambda>_. 1001 * 10 ^ 9" sample_ext] by auto
qed

text \<open>Three guesses at the same instant against a threshold of two: all are compared.\<close>

lemma guesses_in_a_burst:
  "\<exists>w. guessing short_service sample_crypto ''a@b.c'' sample_hash 3 (1000 * 10 ^ 9) (1000 * 10 ^ 9) (session login_db) w [] 3"
proof -
  let ?c = sample_crypto and ?t = "1000 * 10 ^ 9 :: time" and ?w = "session login_db" and ?d = login_db
  let ?g = "guessing short_service ?c ''a@b.c'' sample_hash 3 ?t ?t ?w"
  let ?u = "account 1 ''a@b.c'' (Some sample_hash)"
  let ?u1 = "?u\<lparr>us_failed_login_attempts := 1, us_updated_at := ?t\<rparr>"
  let ?u2 = "\<lambda>q. ?u\<lparr>us_failed_login_attempts := 2, us_updated_at := ?t, us_server_seq := q,
    us_lockout_count := 1, us_locked_until := Some (1001 * 10 ^ 9)\<rparr>"
  let ?u3 = "\<lambda>q. ?u2 q\<lparr>us_failed_login_attempts := 3\<rparr>"
  have "?g ?w [] 0" by (rule guessing.idle)
  then have "?g ?w [?d] 0" using guessing.arrive by fastforce
  then have "?g ?w [?d, ?d] 0" using guessing.arrive by fastforce
  then have g: "?g ?w [?d, ?d, ?d] 0" using guessing.arrive by fastforce
  have row: "login_row ?c ''a@b.c'' (dbs ?w) = Some ?u" using sample_row by simp
  have d: "distinct (map us_id (users (dbs ?w)))" "\<not> in_tx ?w" using sample_distinct by (simp_all add: session_def)
  note limits = record_wrong_def failed_attempt_def lock_due_def int4_ok_def float8_ok_def lockout_duration_def interval_us_def
    pg_ts_def timestamptz_end_def short_fields account_def sample_user_def
  have h: "us_password_hash ?u = Some sample_hash" "us_locked_until ?u = None" by (simp_all add: account_def sample_user_def)
  have r1: "record_wrong short_service ?t ?u = Inr ?u1" by (simp add: limits)
  have r2: "record_wrong short_service ?t (?u1\<lparr>us_server_seq := q\<rparr>) = Inr (?u2 q)" for q by (simp add: limits)
  have r3: "record_wrong short_service ?t (?u2 q\<lparr>us_server_seq := q'\<rparr>) = Inr (?u3 q')" for q q' by (simp add: limits)
  obtain w1 q1 where w1: "?g w1 [?d, ?d] (Suc 0)" "quiet w1" "\<not> in_tx w1" "distinct (map us_id (users (dbs w1)))"
    "login_row ?c ''a@b.c'' (dbs w1) = Some (?u1\<lparr>us_server_seq := q1\<rparr>)"
    using guessing_counts[OF g _ _ sample_admissible sample_wrong session_quiet(1) d(2,1) row sample_row _ h r1] by auto
  obtain w2 q2 where w2: "?g w2 [?d] (Suc (Suc 0))" "quiet w2" "\<not> in_tx w2" "distinct (map us_id (users (dbs w2)))"
    "login_row ?c ''a@b.c'' (dbs w2) = Some (?u2 q1\<lparr>us_server_seq := q2\<rparr>)"
    using guessing_counts[OF w1(1) _ _ sample_admissible sample_wrong w1(2-5) sample_row _ h r2] by auto
  obtain w3 where "?g w3 [] (Suc (Suc (Suc 0)))"
    using guessing_counts[OF w2(1) _ _ sample_admissible sample_wrong w2(2-5) sample_row _ h r3] by auto
  then show ?thesis by (auto simp: numeral_3_eq_3)
qed

theorem guessing_budget_witness:
  "\<exists>w u m. guessing short_service sample_crypto ''a@b.c'' sample_hash 3 (1000 * 10 ^ 9) (1000 * 10 ^ 9) (session login_db) w [] 3 \<and>
     login_row sample_crypto ''a@b.c'' (dbs w) = Some u \<and> us_failed_login_attempts u = 3 \<and> us_lockout_count u = int m \<and> 3 \<le> 1 + int (m * 3)"
proof -
  obtain w where g: "guessing short_service sample_crypto ''a@b.c'' sample_hash 3 (1000 * 10 ^ 9) (1000 * 10 ^ 9) (session login_db) w [] 3"
    using guesses_in_a_burst by blast
  let ?u = "account 1 ''a@b.c'' (Some sample_hash)"
  have row: "login_row sample_crypto ''a@b.c'' (dbs (session login_db)) = Some ?u"
    and d: "\<not> in_tx (session login_db)" "distinct (map us_id (users (dbs (session login_db))))"
    using sample_row sample_distinct by (simp_all add: session_def)
  have "\<exists>u m. login_row sample_crypto ''a@b.c'' (dbs w) = Some u \<and> us_failed_login_attempts u = int 3 \<and> us_lockout_count u = int m \<and>
    int 3 \<le> wrap32 (lockoutThreshold short_service) - 1 + int (m * 3) \<and>
    (1 < m \<longrightarrow> pg_ts (1000 * 10 ^ 9) + (\<Sum>j<m - 1. min (lockoutBaseDuration short_service * 2 ^ j) (lockoutMaxDuration short_service)) \<le> 1000 * 10 ^ 9)"
    by (rule guessing_budget[OF g session_quiet(1) d row]) (simp_all add: account_def sample_user_def short_fields)
  then show ?thesis using g by (auto simp: short_fields)
qed

section \<open>Where the lockout and the sessions give way\<close>

text \<open>C36: after 1024 lockouts the doubling leaves the range of double precision: a wrong password
  is then answered with the database's error, and the row is not touched, so the next guess is
  neither delayed nor counted.\<close>

theorem lockout_overflow:
  assumes "quiet w" and "admissible c email password device em" and "distinct (map us_id (users (dbs w)))"
    and "login_row c em (dbs w) = Some u" and "us_password_hash u = Some h" and "\<not> locked (clock c 0) u"
    and "VerifyPassword c h password = Inr False" and "1024 \<le> us_lockout_count u"
    and "lock_due (clock c 0) (wrap32 (lockoutThreshold s)) u"
  shows "Login x s c email password device w =
    (Inl (Wrapped ''auth: record failed login attempt'' (PgError ''22003'' '''')), w)"
proof -
  have u: "u \<in> set (users (dbs w))" "live_user u"
    using login_row_Some[OF assms(4)] by (simp_all add: addressed_def)
  have "(2::int) ^ 1024 \<le> 2 ^ nat (us_lockout_count u)" using assms(8) by (intro power_increasing) auto
  then have "\<not> float8_ok (10 ^ 9 * 2 ^ nat (us_lockout_count u))" unfolding float8_ok_def not_less by (rule mult_left_mono) simp
  then have "record_wrong s (clock c 0) u = Inl (PgError ''22003'' '''')"
    using assms(9) by (simp add: record_wrong_def failed_attempt_def Let_def)
  then show ?thesis using Login_quiet[OF assms(1,2)] RecordFailed_quiet[OF assms(1) u assms(3)] assms(4-7)
    by (simp add: check_password_def record_wrong_def)
qed

definition worn_account :: user where
  "worn_account = (account 1 ''a@b.c'' (Some sample_hash))\<lparr>us_failed_login_attempts := 2000, us_lockout_count := 1024\<rparr>"

theorem lockout_overflow_witness:
  "fst (Login sample_ext short_service sample_crypto ''a@b.c'' ''guess'' sample_input
      (session (auth_db\<lparr>users := [worn_account]\<rparr>))) =
    Inl (Wrapped ''auth: record failed login attempt'' (PgError ''22003'' ''''))"
proof -
  let ?w = "session (auth_db\<lparr>users := [worn_account]\<rparr>)"
  have "distinct (map us_id (users (dbs ?w)))" "login_row sample_crypto ''a@b.c'' (dbs ?w) = Some worn_account"
    "us_password_hash worn_account = Some sample_hash" "\<not> locked (clock sample_crypto 0) worn_account"
    "1024 \<le> us_lockout_count worn_account"
    by (simp_all add: worn_account_def account_def sample_user_def login_row_def addressed_def strPtr_def live_user_def locked_def)
  moreover have "lock_due (clock sample_crypto 0) (wrap32 (lockoutThreshold short_service)) worn_account"
    by (simp add: lock_due_def worn_account_def account_def sample_user_def short_fields)
  ultimately show ?thesis
    using lockout_overflow[OF session_quiet(1) sample_admissible _ _ _ _ sample_wrong] by simp
qed

text \<open>C35: a registration is not one transaction.  When the device cannot be stored, the account is:
  the caller gets an error, and registering again is answered with the address being taken.\<close>

theorem register_leaves_account:
  assumes "hazards w = [Run, Fail e]" and "validEmail c email = Inr em" and "em \<noteq> []"
    and "Register x c email password device w = (Inl (Wrapped ''auth: create device'' e), w')"
    and "quiet v" and "dbs v = dbs w'"
  shows "fst (Register x c email password device v) = Inl ErrEmailTaken \<and>
    (\<exists>u. us_email u = Some em \<and> users (dbs w') = users (dbs w) @ [u] \<and> devices (dbs w') = devices (dbs w))"
proof -
  have val: "validPassword password = None" "validate device = None"
    using assms(2,4) by (auto simp: Register_def validPassword_def validate_def split: option.splits if_splits)
  have run: "register_account x c em password device w = (Inl (Wrapped ''auth: create device'' e), w')"
    using assms(2,4) val by (simp add: Register_def)
  obtain h where h: "HashPassword c 0 password = Inr h"
    using run by (cases "HashPassword c 0 password") (auto simp: register_account_def hash_password_def)
  let ?arg = "\<lparr>cu_Email = Some em, cu_PasswordHash = strPtr h, cu_AppleUserID = None,
      cu_DisplayName = None, cu_Role = ''user'', cu_Timezone = None\<rparr>"
  let ?ts = "opt_text (cu_Email ?arg) @ opt_text (cu_PasswordHash ?arg) @ opt_text (cu_AppleUserID ?arg) @
               opt_text (cu_DisplayName ?arg) @ [cu_Role ?arg] @ opt_text (cu_Timezone ?arg)"
  obtain r1 w1 where cu: "create_user c ?arg w = (r1, w1)" by (rule prod.exhaust)
  from run h cu assms(3) have r1: "andthen (r1, w1) (\<lambda>u w.
     andthen (wrapped ''auth: create device''
                (CreateDevice (us_id u) (di_Platform device) (params_of device) w)) (\<lambda>d w.
     andthen (issueTokenPair x c 1 (clock c 0) u d w) (\<lambda>(access, refresh) w.
       (Inr (newResult u d access refresh), w)))) = (Inl (Wrapped ''auth: create device'' e), w')"
    by (simp add: register_account_def hash_password_def strPtr_def)
  have "r1 \<noteq> Inl (Wrapped ''auth: create device'' e)"
    using cu by (auto simp: create_user_def split: prod.splits sum.splits db_error.splits if_splits)
  then obtain u where u: "r1 = Inr u" using r1 by (cases r1) auto
  have "(case CreateUser (citext_lower c) ?arg w of (r, w) \<Rightarrow> r = Inr u \<and> w = w1)"
    using cu u by (auto simp: create_user_def split: prod.splits sum.splits)
  then have c1: "list_all text_ok ?ts" "hazards w1 = [Fail e]" "dbs w1 = (dbs w)\<lparr>users := users (dbs w) @ [u]\<rparr>" "us_email u = Some em"
    using assms(1)
    by (auto simp: CreateUser_def exec_txt_def exec_def gen_random_uuid_def next_server_seq_def Let_def user_row_def split: if_splits)
  have w': "dbs w' = dbs w1"
    using r1 u c1(2) by (auto simp: CreateDevice_def exec_txt_def exec_def)
  have "email_taken (citext_lower c) (Some em) (dbs v)"
    using c1 w' assms(6) by (auto simp: email_taken_def)
  then have "\<exists>con v'. CreateUser (citext_lower c) ?arg v = (Inl (PgError ''23505'' con), v')"
    using assms(5) c1(1) unfolding CreateUser_def
    by (subst exec_txt_ok[OF c1(1)]) (auto simp: quiet_def gen_random_uuid_def next_server_seq_def Let_def)
  then have "\<exists>v'. create_user c ?arg v = (Inl ErrEmailTaken, v')" by (auto simp: create_user_def)
  then have "\<exists>v'. Register x c email password device v = (Inl ErrEmailTaken, v')"
    using assms(2,3) val h by (auto simp: Register_def register_account_def hash_password_def strPtr_def)
  then show ?thesis using c1 w' by auto
qed

theorem register_leaves_account_witness:
  "\<exists>w'. Register sample_ext sample_crypto ''a@b.c'' ''secret12'' sample_input
       ((session empty_db)\<lparr>hazards := [Run, Fail (OtherError ''timeout'')]\<rparr>) =
     (Inl (Wrapped ''auth: create device'' (OtherError ''timeout'')), w') \<and>
   fst (Register sample_ext sample_crypto ''a@b.c'' ''secret12'' sample_input (session (dbs w'))) = Inl ErrEmailTaken"
proof -
  let ?w = "(session empty_db)\<lparr>hazards := [Run, Fail (OtherError ''timeout'')]\<rparr>"
  have em: "validEmail sample_crypto ''a@b.c'' = Inr ''a@b.c''"
    using sample_admissible by (simp add: admissible_def)
  have val: "validate sample_input = None" using sample_admissible by (simp add: admissible_def)
  have h: "HashPassword sample_crypto 0 ''secret12'' = Inr (encode_hash (replicate 16 (char_of (65::nat)))
      (take 32 (''secret12'' @ replicate 32 (CHR 0x00))))"
    by (simp add: HashPassword_def sample_crypto_def argon2_defs)
  have nul: "CHR 0x00 \<notin> set (base64_std_encode z)" for z
    using base64_no_nul by blast
  have htxt: "text_ok (encode_hash a b)" for a b
    by (simp add: text_ok_def encode_hash_def format_params nul)
  have ne: "encode_hash a b \<noteq> []" for a b by (simp add: encode_hash_def)
  have c: "citext_lower sample_crypto = id" by (simp add: sample_crypto_def)
  have "\<exists>w'. Register sample_ext sample_crypto ''a@b.c'' ''secret12'' sample_input ?w =
      (Inl (Wrapped ''auth: create device'' (OtherError ''timeout'')), w')"
    by (simp add: Register_def em val validPassword_def maxPasswordBytes_def register_account_def hash_password_def h
        create_user_def CreateUser_def exec_txt_def exec_def opt_text_def strPtr_def ne htxt gen_random_uuid_def
        next_server_seq_def user_exists_def email_taken_def apple_taken_def CreateDevice_def Let_def
        session_def empty_db_def) (simp add: text_ok_def)
  then obtain w' where run: "Register sample_ext sample_crypto ''a@b.c'' ''secret12'' sample_input ?w =
      (Inl (Wrapped ''auth: create device'' (OtherError ''timeout'')), w')" by blast
  have "hazards ?w = [Run, Fail (OtherError ''timeout'')]" by simp
  from register_leaves_account[OF this em _ run session_quiet(1) session_quiet(4)] run show ?thesis by auto
qed

text \<open>A login of the same device by another session, in full.\<close>

definition other_login :: "db \<Rightarrow> db" where
  "other_login d =
     dbs (snd (issueTokenPair sample_ext sample_crypto 5 (1000 * 10 ^ 9) (account 1 ''a@b.c'' None) (sample_device 11 1)
       ((session d)\<lparr>rng_pos := 9\<rparr>)))"

text \<open>Two logins of one device at the same time.  When the other login commits between this
  one's revocation and its insert, the device ends with two live refresh tokens: the two
  statements are not one transaction and no constraint forbids it.\<close>

lemma concurrent_logins_two_sessions:
  "one_session auth_db \<and>
   \<not> one_session (dbs (snd (issueTokenPair sample_ext sample_crypto 0 (1000 * 10 ^ 9) (account 1 ''a@b.c'' None) (sample_device 11 1)
       ((session auth_db)\<lparr>hazards := [Run, Interfere other_login]\<rparr>))))"
proof -
  let ?d = "dbs (snd (issueTokenPair sample_ext sample_crypto 0 (1000 * 10 ^ 9) (account 1 ''a@b.c'' None) (sample_device 11 1)
      ((session auth_db)\<lparr>hazards := [Run, Interfere other_login]\<rparr>)))"
  have "length (device_tokens 11 1 (refresh_tokens ?d)) = 2"
    by (simp add: issueTokenPair_def RevokeRefreshTokensByDevice_def update_all_def exec_def other_login_def
        newUUIDv4_def GenerateRefreshToken_def CreateRefreshToken_def gen_random_uuid_def token_exists_def
        fk_violation_def user_exists_def device_exists_def IssueAccessToken_def Let_def token_row_def live_token_def
        device_tokens_def HashRefreshToken_def auth_db_def account_def sample_token_def sample_crypto_def sample_defs revoke_at_def)
  then have "\<not> one_session ?d"
    unfolding one_session_def by (metis one_less_numeral_iff not_le semiring_norm(76))
  moreover have "one_session auth_db" by (simp add: one_session_def device_tokens_def auth_db_def)
  ultimately show ?thesis by simp
qed

end
