(* ===== verification/ApiProps.thy ===== *)
theory ApiProps
  imports ApiIsolation JsonRoundtrip Lockout
begin

text \<open>
  End to end properties of the API and of the process: requests that go through the whole
  stack, and what a server that runs has been given.
\<close>

section \<open>A named route\<close>

text \<open>All routes with their names, the guards in front of them and their handlers.\<close>

definition route_list :: "api \<Rightarrow> ((string \<times> string) \<times> guard list \<times> payload handler) list" where
  "route_list a =
     concat (map (\<lambda>(base, gs, rs). map (\<lambda>(m, p, gs', h). ((m, base @ p), gs @ gs', h)) rs) (v1_groups a))"

lemma guarded_append: "guarded a gs (guarded a gs' h) = guarded a (gs @ gs') h"
  by (simp add: guarded_def)

lemma serve_named:
  assumes "called a q = Some name" and "\<not> ed_preflight (ac_edge q)" and "\<not> ed_limited (ac_edge q)"
  obtains gs h params where "(name, gs, h) \<in> set (route_list a)"
    and "serve_call a q w = guarded a gs (\<lambda>ident _. h ident params) None (\<lambda>_. []) (ac_request q) (session_of q w)"
proof -
  obtain g i params where q: "ac_routed q = InGroup g i params" and n: "route_name a g i = Some name"
    using assms(1) by (auto simp: called_def split: routed.splits)
  obtain base gs rs where g: "v1_groups a ! g = (base, gs, rs)" "g < length (v1_groups a)" "i < length rs"
    using n by (auto simp: route_name_def split: if_splits prod.splits)
  obtain m p gs' h where i: "rs ! i = (m, p, gs', h)" by (metis prod_cases4)
  have name: "name = (m, base @ p)" using n g i by (simp add: route_name_def)
  have "(base, gs, rs) \<in> set (v1_groups a)" "(m, p, gs', h) \<in> set rs" using g i by (metis nth_mem)+
  then have "(name, gs @ gs', h) \<in> set (route_list a)" unfolding route_list_def name by force
  moreover have "serve_call a q w = guarded a (gs @ gs') (\<lambda>ident _. h ident params) None (\<lambda>_. []) (ac_request q) (session_of q w)"
    using assms(2,3) g i
    by (simp add: serve_call_def serve_api_def serve_v1_def v1_endpoint_def q in_group_def guarded_append)
  ultimately show thesis using that by blast
qed

lemma named_routes:
  "((''POST'', ''/auth/register''), gs, h) \<in> set (route_list a) \<Longrightarrow> gs = [] \<and> h = handle_register a"
  "((''GET'', ''/users/me/''), gs, h) \<in> set (route_list a) \<Longrightarrow> gs = [NeedsToken] \<and> h = handle_get_me a"
  "((''POST'', ''/projects/''), gs, h) \<in> set (route_list a) \<Longrightarrow> gs = [NeedsToken] \<and> h = handle_projects a CreateOne"
  by (simp_all add: route_list_def route_tables)

lemma guarded_token:
  assumes "authenticated (ap_jwt a) r = Some i"
  shows "guarded a [NeedsToken] h None ps r w = h (Some i) ps r w"
  by (simp add: guarded_def Authenticate_def assms)

section \<open>A registration opens a session\<close>

interpretation us: frame "\<lambda>d d'. users d' = users d"
  by unfold_locales auto

lemma session_users:
  assumes "isolated w"
  shows "CreateDevice uid pl p w = (r1, w') \<Longrightarrow> moves (\<lambda>d d'. users d' = users d) w w'"
    and "RevokeRefreshTokensByDevice i uid w = (r2, w') \<Longrightarrow> moves (\<lambda>d d'. users d' = users d) w w'"
    and "CreateRefreshToken arg w = (r3, w') \<Longrightarrow> moves (\<lambda>d d'. users d' = users d) w w'"
proof -
  note e = us.exec_moves[OF assms] note t = us.exec_txt_moves[OF assms]
  show "CreateDevice uid pl p w = (r1, w') \<Longrightarrow> moves (\<lambda>d d'. users d' = users d) w w'" unfolding CreateDevice_def
    by (rule t) (auto simp: gen_random_uuid_def Let_def split: if_splits)
  show "RevokeRefreshTokensByDevice i uid w = (r2, w') \<Longrightarrow> moves (\<lambda>d d'. users d' = users d) w w'"
    unfolding RevokeRefreshTokensByDevice_def by (rule e) (auto simp: update_all_def)
  show "CreateRefreshToken arg w = (r3, w') \<Longrightarrow> moves (\<lambda>d d'. users d' = users d) w w'" unfolding CreateRefreshToken_def
    by (rule e) (auto simp: gen_random_uuid_def Let_def split: if_splits option.splits)
qed

lemma issueTokenPair_users:
  assumes "isolated w" and "issueTokenPair x c k now u d w = (Inr (access, refresh), w')"
  shows "moves (\<lambda>d d'. users d' = users d) w w' \<and>
    IssueAccessToken c (uuid_string x (us_id u)) (us_role u) (uuid_string x (dev_id d)) now = Some access"
proof -
  obtain w1 fam rt w2 t where
    r: "RevokeRefreshTokensByDevice (dev_id d) (us_id u) w = (Inr (), w1)" and
    c: "CreateRefreshToken \<lparr>crt_UserID = us_id u, crt_DeviceID = dev_id d, crt_TokenHash = HashRefreshToken c rt,
        crt_FamilyID = fam, crt_ExpiresAt = now + RefreshTokenTTL\<rparr> w1 = (Inr t, w2)" and
    a: "IssueAccessToken c (uuid_string x (us_id u)) (us_role u) (uuid_string x (dev_id d)) now = Some access" and
    w': "w' = w2"
    using assms(2)
    by (auto simp: issueTokenPair_def andthen_Inr wrapped_Inr need_def split: option.splits)
  have m: "moves (\<lambda>d d'. users d' = users d) w w1" by (rule session_users(2)[OF assms(1) r])
  then have "isolated w1" by (simp add: moves_def)
  from us.moves_trans[OF m session_users(3)[OF this c]] a w' show ?thesis by simp
qed

text \<open>The account of a registration that succeeded: a new row with a new id, and an access token
  with that id as its subject and fifteen minutes to live.\<close>

lemma Register_Inr:
  assumes "isolated w" and "Register x c email password device w = (Inr res, w')"
  shows "users (dbs w') = users (dbs w) @ [res_User res] \<and> \<not> user_exists (dbs w) (us_id (res_User res)) \<and>
    live_user (res_User res) \<and>
    (\<exists>cl. cl_Subject cl = uuid_string x (us_id (res_User res)) \<and> cl_ExpiresAt cl = (clock c 0 + AccessTokenTTL) div second \<and>
       jwt_sign c cl = Some (AccessToken (res_Tokens res)))"
proof -
  obtain em h where run: "register_account x c em password device w = (Inr res, w')" and h: "HashPassword c 0 password = Inr h"
    using assms(2)
    by (auto simp: Register_def register_account_def hash_password_def andthen_Inr split: sum.splits option.splits)
  obtain u w1 d w2 access refresh where
    cu: "CreateUser (citext_lower c) \<lparr>cu_Email = strPtr em, cu_PasswordHash = strPtr h, cu_AppleUserID = None,
                 cu_DisplayName = None, cu_Role = ''user'', cu_Timezone = None\<rparr> w = (Inr u, w1)" and
    cd: "CreateDevice (us_id u) (di_Platform device) (params_of device) w1 = (Inr d, w2)" and
    it: "issueTokenPair x c 1 (clock c 0) u d w2 = (Inr (access, refresh), w')" and
    res: "res = newResult u d access refresh"
    using run h
    by (auto simp: register_account_def hash_password_def andthen_Inr wrapped_Inr create_user_def
        split: prod.splits sum.splits)
  have u: "isolated w1 \<and> users (dbs w1) = users (dbs w) @ [u] \<and> \<not> user_exists (dbs w) (us_id u) \<and> live_user u"
    by (rule exec_txt_isolated[OF assms(1) cu[unfolded CreateUser_def]])
      (auto simp: gen_random_uuid_def next_server_seq_def Let_def user_row_def live_user_def isolated_def split: if_splits)
  then have m: "moves (\<lambda>d d'. users d' = users d) w1 w2" using session_users(1) cd by blast
  then have "isolated w2" by (simp add: moves_def)
  note i = issueTokenPair_users[OF this it]
  have "\<exists>cl. cl_Subject cl = uuid_string x (us_id u) \<and> cl_ExpiresAt cl = (clock c 0 + AccessTokenTTL) div second \<and>
      jwt_sign c cl = Some access"
    by (rule exI, rule conjI[rotated], rule conjI[rotated], rule i[THEN conjunct2, unfolded IssueAccessToken_def]) simp_all
  then show ?thesis using i m u unfolding res newResult_def by (simp add: moves_def)
qed

text \<open>What the answer 201 to a registration stands for.\<close>

lemma register_created:
  assumes "called a q = Some (''POST'', ''/auth/register'')" "\<not> ed_preflight (ac_edge q)" "\<not> ed_limited (ac_edge q)"
    and "serve_call a q w = (resp, w')" "rs_Status resp = 201"
  shows "\<exists>res cl. resp = WriteJSON (ac_request q) 201 (PAuth (toAuthResponse (ap_ext a) res)) \<and>
    users (dbs w') = users (dbs w) @ [res_User res] \<and> \<not> user_exists (dbs w) (us_id (res_User res)) \<and> live_user (res_User res) \<and>
    cl_Subject cl = uuid_string (ap_ext a) (us_id (res_User res)) \<and>
    cl_ExpiresAt cl = (clock (ap_crypto a) 0 + AccessTokenTTL) div second \<and>
    jwt_sign (ap_crypto a) cl = Some (AccessToken (res_Tokens res))"
proof -
  let ?x = "ap_ext a" and ?r = "ac_request q" and ?w = "session_of q w"
  obtain gs h params where rt: "((''POST'', ''/auth/register''), gs, h) \<in> set (route_list a)"
    "serve_call a q w = guarded a gs (\<lambda>ident _. h ident params) None (\<lambda>_. []) ?r ?w"
    using serve_named[OF assms(1-3), of w] by auto
  have run: "handle_register a None params ?r ?w = (resp, w')"
    using named_routes(1)[OF rt(1)] rt(2) assms(4) by (simp add: guarded_def)
  obtain req :: registerLoginRequest where resp: "respond (auth_problem (ap_render a) ?r) (\<lambda>res. WriteJSON ?r 201 (PAuth (toAuthResponse ?x res)))
      (Register ?x (ap_crypto a) (rl_Email req) (rl_Password req) (toInput (rl_Device req)) ?w) = (resp, w')"
    using run assms(5) by (auto simp: handle_register_def decodeJSON_def split: option.splits)
  let ?p = "Register ?x (ap_crypto a) (rl_Email req) (rl_Password req) (toInput (rl_Device req)) ?w"
  have "rs_Status (auth_problem (ap_render a) ?r e) \<noteq> 201" for e :: auth_error
    by (cases e) (simp_all add: auth_problem_def)
  then obtain res where res: "?p = (Inr res, w')" "resp = WriteJSON ?r 201 (PAuth (toAuthResponse ?x res))"
    using resp assms(5) by (cases ?p; cases "fst ?p") (auto simp: respond_def)
  then show ?thesis using Register_Inr[OF session_of_simps(1) res(1)] by auto
qed

text \<open>C20: a registration opens a session of fifteen minutes.  When POST /auth/register answers 201,
  the access token in the answer, sent as it is in the Authorization header of GET /users/me, is
  answered with the very account the registration showed until the token expires: fifteen minutes after
  the clock reading of the registration, to the whole second below.  From then on it is answered 401.  The token
  library at an instant is J: a token it signed verifies, with the subject
  that was signed, before the expiry in its claims, and is an error from then on.\<close>

theorem registered_session_works:
  assumes form: "\<And>cl tok u. jwt_sign (ap_crypto a) cl = Some tok \<Longrightarrow> cl_Subject cl = uuid_string (ap_ext a) u \<Longrightarrow>
      tok \<noteq> [] \<and> TrimSpace tok = tok"
    and live: "\<And>cl tok u now. jwt_sign (ap_crypto a) cl = Some tok \<Longrightarrow> cl_Subject cl = uuid_string (ap_ext a) u \<Longrightarrow>
      0 \<le> cl_ExpiresAt cl \<Longrightarrow> cl_ExpiresAt cl < 2 ^ 40 \<Longrightarrow> now < cl_ExpiresAt cl * 10 ^ 9 \<Longrightarrow>
      \<exists>cl'. J now [''RS256''] (\<lambda>is_rsa. is_rsa) tok = Some (cl', True) \<and> cl_Subject cl' = cl_Subject cl"
    and expired: "\<And>cl tok u now. jwt_sign (ap_crypto a) cl = Some tok \<Longrightarrow> cl_Subject cl = uuid_string (ap_ext a) u \<Longrightarrow>
      0 \<le> cl_ExpiresAt cl \<Longrightarrow> cl_ExpiresAt cl < 2 ^ 40 \<Longrightarrow> cl_ExpiresAt cl * 10 ^ 9 \<le> now \<Longrightarrow>
      J now [''RS256''] (\<lambda>is_rsa. is_rsa) tok = None"
    and uuid: "\<And>u. uuid_scan (ap_ext a) (uuid_string (ap_ext a) u) = Some (Some u)"
    and reg: "called a q = Some (''POST'', ''/auth/register'')" "\<not> ed_preflight (ac_edge q)" "\<not> ed_limited (ac_edge q)"
    and ok: "serve_call a q w = (resp, w')" "rs_Status resp = 201"
    and clk: "0 \<le> clock (ap_crypto a) 0" "clock (ap_crypto a) 0 < 2 ^ 63"
    and me: "called (a\<lparr>ap_jwt := J t\<rparr>) q' = Some (''GET'', ''/users/me/'')" "\<not> ed_preflight (ac_edge q')" "\<not> ed_limited (ac_edge q')"
      "ac_faults q' = []"
  shows "\<exists>ar. rs_Content resp = Payload (PAuth ar) \<and>
    (hr_Authorization (ac_request q') = bearer @ ar_AccessToken ar \<longrightarrow>
     (if t < (clock (ap_crypto a) 0 + 15 * 60 * 10 ^ 9) div 10 ^ 9 * 10 ^ 9
      then fst (serve_call (a\<lparr>ap_jwt := J t\<rparr>) q' w') = WriteJSON (ac_request q') 200 (PUser (ar_User ar))
      else rs_Status (fst (serve_call (a\<lparr>ap_jwt := J t\<rparr>) q' w')) = 401))"
proof -
  let ?x = "ap_ext a" and ?a = "a\<lparr>ap_jwt := J t\<rparr>"
  obtain res cl where res: "resp = WriteJSON (ac_request q) 201 (PAuth (toAuthResponse ?x res))" and
    u: "users (dbs w') = users (dbs w) @ [res_User res]" "\<not> user_exists (dbs w) (us_id (res_User res))" "live_user (res_User res)" and
    cl: "cl_Subject cl = uuid_string ?x (us_id (res_User res))" "jwt_sign (ap_crypto a) cl = Some (AccessToken (res_Tokens res))" and
    exp: "cl_ExpiresAt cl = (clock (ap_crypto a) 0 + 15 * 60 * 10 ^ 9) div 10 ^ 9"
    using register_created[OF reg ok] by (auto simp: AccessTokenTTL_def duration_units)
  have range: "0 \<le> cl_ExpiresAt cl" "cl_ExpiresAt cl < 2 ^ 40" using clk by (simp_all add: exp)
  let ?ar = "toAuthResponse ?x res"
  have "if t < cl_ExpiresAt cl * 10 ^ 9
      then fst (serve_call ?a q' w') = WriteJSON (ac_request q') 200 (PUser (ar_User ?ar))
      else rs_Status (fst (serve_call ?a q' w')) = 401"
    if auth: "hr_Authorization (ac_request q') = bearer @ ar_AccessToken ?ar"
  proof -
    obtain gs h ps where rt: "((''GET'', ''/users/me/''), gs, h) \<in> set (route_list ?a)"
      "serve_call ?a q' w' = guarded ?a gs (\<lambda>ident _. h ident ps) None (\<lambda>_. []) (ac_request q') (session_of q' w')"
      using serve_named[OF me(1-3), of w'] by auto
    have get: "serve_call ?a q' w' = guarded ?a [NeedsToken] (\<lambda>ident _. handle_get_me ?a ident ps) None (\<lambda>_. []) (ac_request q') (session_of q' w')"
      using named_routes(2)[OF rt(1)] rt(2) by simp
    show ?thesis
    proof (cases "t < cl_ExpiresAt cl * 10 ^ 9")
      case True
      obtain i where i: "authenticated (ap_jwt ?a) (ac_request q') = Some i"
        "id_UserID i = uuid_string ?x (us_id (res_User res))"
        using auth form[OF cl(2,1)] live[OF cl(2,1) range True] cl(1)
        by (auto simp: toAuthResponse_def authenticated_def VerifyAccessToken_def Let_def)
      have "filter (\<lambda>u. us_id u = us_id (res_User res) \<and> live_user u) (users (dbs w)) = []"
        using u(2) by (auto simp: user_exists_def filter_empty_conv image_iff)
      then have "fst (serve_call ?a q' w') = WriteJSON (ac_request q') 200 (PUser (ar_User ?ar))"
        unfolding get guarded_token[OF i(1)] using me(4)
        by (simp add: handle_get_me_def with_identity_def GetProfile_def parse_id_def parseUUID_def i(2) uuid
            GetUserByID_def select_one_def one_row_def no_rows_as_def u(1,3) respond_def toAuthResponse_def)
      then show ?thesis using True by simp
    next
      case False
      then have "authenticated (ap_jwt ?a) (ac_request q') = None"
        using auth form[OF cl(2,1)] expired[OF cl(2,1) range, of t]
        by (auto simp: toAuthResponse_def authenticated_def VerifyAccessToken_def Let_def)
      then show ?thesis using False
        by (simp add: get guarded_def Authenticate_def writeUnauthenticated_def WriteError_def)
    qed
  qed
  then show ?thesis using res exp by (auto simp: WriteJSON_def)
qed

definition register_json :: json where
  "register_json =
     JObject [(''email'', JString ''a@b.c''), (''password'', JString ''secret12''),
       (''device'', JObject [(''platform'', JString ''macos''), (''name'', JString ''m''), (''model'', JString ''m''),
          (''os_version'', JString ''1''), (''app_version'', JString ''1'')])]"

lemma register_json_read: "first_value (json_text register_json) = Some register_json"
proof (rule first_value_text)
  show "json_ok register_json" by (simp add: register_json_def valid_utf8_ascii)
  show "nesting register_json \<le> maxNestingDepth" by (simp add: register_json_def maxNestingDepth_def)
  show "length (json_text register_json) \<le> maxRequestBodyBytes"
    by (simp add: register_json_def maxRequestBodyBytes_def string_text_def escape_byte_def)
qed

lemma register_json_decodes:
  "\<exists>q. unmarshal_register_login (Some register_json) = Some q \<and> rl_Email q = ''a@b.c'' \<and> rl_Password q = ''secret12'' \<and>
     toInput (rl_Device q) = sample_input"
proof -
  have "map_option (\<lambda>q. (rl_Email q, rl_Password q, toInput (rl_Device q))) (unmarshal_register_login (Some register_json)) =
      Some (''a@b.c'', ''secret12'', sample_input)" by code_simp
  then show ?thesis by auto
qed

text \<open>A token that carries its subject and its expiry, and a library that reads it at an instant.\<close>

definition dated_crypto :: crypto where
  "dated_crypto = sample_crypto\<lparr>jwt_sign := \<lambda>cl. Some (cl_Subject cl @ ''.'' @ format_nat (nat (cl_ExpiresAt cl)))\<rparr>"

definition dated_jwt :: "time \<Rightarrow> jwt_parse" where
  "dated_jwt now algs key tok =
     (if algs = [''RS256''] \<and> key True \<and> \<not> key False then
        (case parse_digits 0 (tl (dropWhile (\<lambda>c. c \<noteq> CHR ''.'') tok)) of
           Some e \<Rightarrow>
             if now < int e * 10 ^ 9 then
               Some (\<lparr>cl_Role = ''user'', cl_DeviceID = ''11'', cl_Subject = takeWhile (\<lambda>c. c \<noteq> CHR ''.'') tok,
                      cl_IssuedAt = 0, cl_ExpiresAt = int e\<rparr>, True)
             else None
         | None \<Rightarrow> None)
      else None)"

definition dated_api :: api where
  "dated_api = sample_api\<lparr>ap_crypto := dated_crypto\<rparr>"

lemma dated_token:
  "takeWhile (\<lambda>c. c \<noteq> CHR ''.'') (format_nat n @ ''.'' @ s) = format_nat n"
  "tl (dropWhile (\<lambda>c. c \<noteq> CHR ''.'') (format_nat n @ ''.'' @ s)) = s"
proof -
  have "c \<noteq> CHR ''.''" if in_n: "c \<in> set (format_nat n)" for c
  proof
    assume dot: "c = CHR ''.''"
    obtain d where d: "d < 10" "c = digit_char d" using format_nat_digits[OF in_n] by blast
    then have "of_char c = 48 + d" by (simp add: digit_char_def of_char_of)
    then show False using dot by simp
  qed
  then show "takeWhile (\<lambda>c. c \<noteq> CHR ''.'') (format_nat n @ ''.'' @ s) = format_nat n"
    "tl (dropWhile (\<lambda>c. c \<noteq> CHR ''.'') (format_nat n @ ''.'' @ s)) = s" by simp_all
qed

lemma sample_register:
  "\<exists>res w'. Register sample_ext dated_crypto ''a@b.c'' ''secret12'' sample_input (session empty_db) = (Inr res, w')"
proof -
  have em: "validEmail dated_crypto ''a@b.c'' = Inr ''a@b.c''"
    using sample_admissible by (simp add: admissible_def validEmail_def dated_crypto_def Let_def split: option.splits if_splits)
  have val: "validate sample_input = None" using sample_admissible by (simp add: admissible_def)
  have h: "HashPassword dated_crypto 0 ''secret12'' = Inr (encode_hash (replicate 16 (char_of (65::nat)))
      (take 32 (''secret12'' @ replicate 32 (CHR 0x00))))"
    by (simp add: HashPassword_def dated_crypto_def sample_crypto_def argon2_defs)
  have nul: "CHR 0x00 \<notin> set (base64_std_encode z)" for z
    using base64_no_nul by blast
  have htxt: "CHR 0x00 \<notin> set (encode_hash a b)" for a b
    by (simp add: encode_hash_def format_params nul)
  have ne: "encode_hash a b \<noteq> []" for a b by (simp add: encode_hash_def)
  have "Register sample_ext dated_crypto ''a@b.c'' ''secret12'' sample_input (session empty_db) =
      register_account sample_ext dated_crypto ''a@b.c'' ''secret12'' sample_input (session empty_db)"
    by (simp add: Register_def em val validPassword_def maxPasswordBytes_def)
  moreover have c: "citext_lower dated_crypto = id" "sha256 dated_crypto = id"
    "jwt_sign dated_crypto = (\<lambda>cl. Some (cl_Subject cl @ ''.'' @ format_nat (nat (cl_ExpiresAt cl))))"
    "rand_Read dated_crypto k n = Some (replicate n (char_of (65 + k)))" for k n
    by (simp_all add: dated_crypto_def sample_crypto_def)
  have "\<exists>res w'. register_account sample_ext dated_crypto ''a@b.c'' ''secret12'' sample_input (session empty_db) = (Inr res, w')"
    by (simp add: register_account_def hash_password_def h c
        create_user_def CreateUser_def exec_txt_def exec_def opt_text_def strPtr_def ne htxt text_ok_def gen_random_uuid_def
        next_server_seq_def user_exists_def email_taken_def apple_taken_def CreateDevice_def device_exists_def
        sample_input_def params_of_def dp_texts_def Let_def fk_violation_def user_row_def device_row_def
        issueTokenPair_def RevokeRefreshTokensByDevice_def update_all_def
        newUUIDv4_def GenerateRefreshToken_def CreateRefreshToken_def token_exists_def IssueAccessToken_def
        token_row_def HashRefreshToken_def session_def empty_db_def)
  ultimately show ?thesis by simp
qed

lemma dated_token_graphic: "TrimSpace (format_nat n @ ''.'' @ format_nat m) = format_nat n @ ''.'' @ format_nat m"
proof (rule TrimSpace_graphic)
  have digits: "\<forall>c\<in>set (format_nat k). graphic c" for k
    using format_nat_digits[of _ k] by (fastforce simp: graphic_def digit_char_def of_char_of)
  show "graphic (hd (format_nat n @ ''.'' @ format_nat m))" "graphic (last (format_nat n @ ''.'' @ format_nat m))"
    using digits[of n] digits[of m] by simp_all
qed simp

lemma registered_session_works_witness:
  "\<exists>resp w' ar. serve_call dated_api (sample_call 0 0 [] (sample_http [] (json_text register_json))) (session empty_db) = (resp, w') \<and>
     rs_Status resp = 201 \<and> rs_Content resp = Payload (PAuth ar) \<and>
     fst (serve_call (dated_api\<lparr>ap_jwt := dated_jwt (1899 * 10 ^ 9)\<rparr>) (sample_call 1 0 [] (sample_http (bearer @ ar_AccessToken ar) [])) w') =
       WriteJSON (sample_http (bearer @ ar_AccessToken ar) []) 200 (PUser (ar_User ar)) \<and>
     rs_Status (fst (serve_call (dated_api\<lparr>ap_jwt := dated_jwt (1900 * 10 ^ 9)\<rparr>) (sample_call 1 0 [] (sample_http (bearer @ ar_AccessToken ar) [])) w')) = 401"
proof -
  let ?q = "sample_call 0 0 [] (sample_http [] (json_text register_json))"
  obtain res w' where reg: "Register sample_ext dated_crypto ''a@b.c'' ''secret12'' sample_input (session empty_db) = (Inr res, w')"
    using sample_register by blast
  define ar where "ar = toAuthResponse sample_ext res"
  have n: "called dated_api ?q = Some (''POST'', ''/auth/register'')"
    and me: "\<And>r t. called (dated_api\<lparr>ap_jwt := dated_jwt t\<rparr>) (sample_call 1 0 [] r) = Some (''GET'', ''/users/me/'')"
    by (simp_all add: route_name_def route_tables)
  have ok: "serve_call dated_api ?q (session empty_db) = (WriteJSON (ac_request ?q) 201 (PAuth ar), w')"
  proof (rule serve_named[OF n])
    fix gs h params
    assume rt: "((''POST'', ''/auth/register''), gs, h) \<in> set (route_list dated_api)"
      "serve_call dated_api ?q (session empty_db) = guarded dated_api gs (\<lambda>ident _. h ident params) None (\<lambda>_. [])
         (ac_request ?q) (session_of ?q (session empty_db))"
    then show ?thesis using named_routes(1)[OF rt(1)] register_json_decodes reg
      by (auto simp: guarded_def handle_register_def decodeJSON_def sample_http_def register_json_read respond_def
          dated_api_def sample_api_def ar_def)
  qed simp_all
  have uuid: "uuid_scan sample_ext (uuid_string sample_ext u) = Some (Some u)" for u
    by (simp add: sample_ext_def)
  have tok: "tok = format_nat (unat u) @ ''.'' @ format_nat (nat (cl_ExpiresAt cl))" "cl_Subject cl = format_nat (unat u)"
    if "jwt_sign (ap_crypto dated_api) cl = Some tok" "cl_Subject cl = uuid_string (ap_ext dated_api) u" for cl tok u
    using that by (simp_all add: dated_api_def sample_api_def dated_crypto_def sample_ext_def)
  have form: "tok \<noteq> [] \<and> TrimSpace tok = tok"
    if "jwt_sign (ap_crypto dated_api) cl = Some tok" "cl_Subject cl = uuid_string (ap_ext dated_api) u" for cl tok u
    unfolding tok(1)[OF that] dated_token_graphic by simp
  have live: "\<exists>cl'. dated_jwt now [''RS256''] (\<lambda>is_rsa. is_rsa) tok = Some (cl', True) \<and> cl_Subject cl' = cl_Subject cl"
    if "jwt_sign (ap_crypto dated_api) cl = Some tok" "cl_Subject cl = uuid_string (ap_ext dated_api) u"
      "0 \<le> cl_ExpiresAt cl" "now < cl_ExpiresAt cl * 10 ^ 9" for cl tok u now
    using tok[OF that(1,2)] that(3,4) by (simp only: dated_jwt_def dated_token parse_format_nat) simp
  have expired: "dated_jwt now [''RS256''] (\<lambda>is_rsa. is_rsa) tok = None"
    if "jwt_sign (ap_crypto dated_api) cl = Some tok" "cl_Subject cl = uuid_string (ap_ext dated_api) u"
      "0 \<le> cl_ExpiresAt cl" "cl_ExpiresAt cl * 10 ^ 9 \<le> now" for cl tok u now
    using tok[OF that(1,2)] that(3,4) by (simp only: dated_jwt_def dated_token parse_format_nat) simp
  let ?q' = "sample_call 1 0 [] (sample_http (bearer @ ar_AccessToken ar) [])"
  have t0: "clock (ap_crypto dated_api) 0 = 1000 * 10 ^ 9" by (simp add: dated_api_def dated_crypto_def sample_crypto_def)
  have "\<exists>ar'. rs_Content (WriteJSON (ac_request ?q) 201 (PAuth ar) :: payload response) = Payload (PAuth ar') \<and>
     (hr_Authorization (ac_request ?q') = bearer @ ar_AccessToken ar' \<longrightarrow>
      (if t < (clock (ap_crypto dated_api) 0 + 15 * 60 * 10 ^ 9) div 10 ^ 9 * 10 ^ 9
       then fst (serve_call (dated_api\<lparr>ap_jwt := dated_jwt t\<rparr>) ?q' w') = WriteJSON (ac_request ?q') 200 (PUser (ar_User ar'))
       else rs_Status (fst (serve_call (dated_api\<lparr>ap_jwt := dated_jwt t\<rparr>) ?q' w')) = 401))" for t
    by (rule registered_session_works[OF form live expired _ n _ _ ok _ _ _ me])
      (simp_all add: uuid t0, simp_all add: dated_api_def sample_api_def uuid)
  note works = this[of "1899 * 10 ^ 9"] this[of "1900 * 10 ^ 9"]
  show ?thesis using ok works by (auto simp: WriteJSON_def sample_http_def t0)
qed

section \<open>A name with a NUL\<close>

text \<open>C40: a zero character in a text is a server error.  JSON can write it, no check of the service
  refuses it, and the database does: creating a project with such a name, well formed in every
  other way, is answered 500 and reported to error tracking, and nothing is stored.\<close>

theorem nul_in_name_is_server_error:
  assumes "called a q = Some (''POST'', ''/projects/'')" "\<not> ed_preflight (ac_edge q)" "\<not> ed_limited (ac_edge q)" "ac_faults q = []"
    and "caller a q = Some i" and "parseUUID (ap_ext a) (id_UserID i) = Inr uid"
    and "first_value (hr_Body (ac_request q)) = Some j" and "unmarshal_project_create (Some j) = Some req"
    and "CHR 0x00 \<in> set (TrimSpace (pc_Name req))" and "TrimSpace (pc_Color req) \<noteq> []"
    and "pc_ID req \<noteq> []" and "parseUUID (ap_ext a) (pc_ID req) = Inr pid"
  shows "\<exists>resp w'. serve_call a q w = (resp, w') \<and> rs_Status resp = 500 \<and> rs_Captured resp \<noteq> None \<and> dbs w' = dbs w"
proof -
  obtain gs h ps where rt: "((''POST'', ''/projects/''), gs, h) \<in> set (route_list a)"
    "serve_call a q w = guarded a gs (\<lambda>ident _. h ident ps) None (\<lambda>_. []) (ac_request q) (session_of q w)"
    using serve_named[OF assms(1-3), of w] by auto
  have run: "serve_call a q w = handle_projects a CreateOne (Some i) ps (ac_request q) (session_of q w)"
    using named_routes(3)[OF rt(1)] rt(2) guarded_token[OF assms(5)[unfolded caller_def]] by simp
  have "TrimSpace (pc_Name req) \<noteq> []" "\<not> text_ok (TrimSpace (pc_Name req))" using assms(9) by (auto simp: text_ok_def)
  then have "Projects.Create (ap_ext a) (ap_crypto a) 0 (id_UserID i) req (session_of q w) =
      (Inl (CWrapped ''projects: create'' (PgError ''22021'' '''')), session_of q w)"
    using assms(4,6,10,11,12)
    by (simp add: Projects.Create_def user_of_def required_def new_id_def CreateProjectForUser_def exec_txt_def
        created_def write_error_def ConstraintViolation_def Let_def)
  then show ?thesis unfolding run handle_projects_def catalog_create_def with_identity_def decodeJSON_def
    by (simp add: assms(7,8) Let_def respond_def crud_problem_def internal_error_def WriteError_def CaptureHTTPError_def)
qed

definition nul_project :: json where
  "nul_project = JObject [(''id'', JString ''41''), (''name'', JString [CHR 0x00]), (''color'', JString ''red'')]"

lemma nul_in_name_is_server_error_witness:
  "\<exists>resp w'. serve_call sample_api (sample_call 5 1 [] (sample_http ''Bearer 1'' (json_text nul_project))) (session auth_db) = (resp, w') \<and>
     rs_Status resp = 500 \<and> dbs w' = auth_db"
proof -
  let ?q = "sample_call 5 1 [] (sample_http ''Bearer 1'' (json_text nul_project))"
  obtain i where i: "caller sample_api ?q = Some i" "id_UserID i = ''1''"
    by (simp add: caller_def sample_http_def authenticated_def bearer_def TrimSpace_graphic graphic_def VerifyAccessToken_def
        sample_api_def sample_jwt_def Let_def)
  have read: "first_value (json_text nul_project) = Some nul_project"
  proof (rule first_value_text)
    show "json_ok nul_project" by (simp add: nul_project_def valid_utf8_ascii)
    show "nesting nul_project \<le> maxNestingDepth" by (simp add: nul_project_def maxNestingDepth_def)
    show "length (json_text nul_project) \<le> maxRequestBodyBytes"
      by (simp add: nul_project_def maxRequestBodyBytes_def string_text_def escape_byte_def)
  qed
  have un: "unmarshal_project_create (Some nul_project) = Some \<lparr>pc_ID = ''41'', pc_Name = [CHR 0x00], pc_Color = ''red''\<rparr>"
    by code_simp
  have trim: "TrimSpace [CHR 0x00] = [CHR 0x00]" "TrimSpace ''red'' = ''red''" by code_simp+
  have ids: "parseUUID sample_ext ''41'' = Inr 41" by code_simp
  have "called sample_api ?q = Some (''POST'', ''/projects/'')" by (simp add: route_name_def route_tables)
  from nul_in_name_is_server_error[OF this _ _ _ i(1), of 1 nul_project _ 41 "session auth_db"] show ?thesis
    using i(2) read un trim ids by (auto simp: sample_api_def sample_http_def)
qed

section \<open>A server that runs\<close>

text \<open>The settings that no later step of the load touches.\<close>

lemma Load_settings:
  assumes "Load frac env = Inr cfg"
  shows "Environment cfg = getEnvDefault env ''ENVIRONMENT'' ''development'' \<and> DatabaseURL cfg = getenv env ''DATABASE_URL'' \<and>
    JWTSigningKey cfg = getenv env ''JWT_SIGNING_KEY'' \<and>
    CORSAllowedOrigins cfg = parseCSV (getEnvDefault env ''CORS_ALLOWED_ORIGINS'' ''*'')"
  using assms unfolding Load_def
proof (rule run_steps_keep)
  fix f :: "Config \<Rightarrow> config_error + Config" and c d
  assume f: "f \<in> set (load_steps frac env)" "f c = Inr d" and
    c: "Environment c = getEnvDefault env ''ENVIRONMENT'' ''development'' \<and> DatabaseURL c = getenv env ''DATABASE_URL'' \<and>
     JWTSigningKey c = getenv env ''JWT_SIGNING_KEY'' \<and>
     CORSAllowedOrigins c = parseCSV (getEnvDefault env ''CORS_ALLOWED_ORIGINS'' ''*'')"
  show "Environment d = getEnvDefault env ''ENVIRONMENT'' ''development'' \<and> DatabaseURL d = getenv env ''DATABASE_URL'' \<and>
     JWTSigningKey d = getenv env ''JWT_SIGNING_KEY'' \<and>
     CORSAllowedOrigins d = parseCSV (getEnvDefault env ''CORS_ALLOWED_ORIGINS'' ''*'')"
    using one_setting_step[OF f] unfolding one_setting_def
    by (elim disjE exE conjE insertE emptyE) (simp_all add: c)
qed (simp add: default_config_def DefaultEnvironment_def DefaultCORSAllowedOrigins_def)

lemma parseCSV_star: "parseCSV ''*'' = [''*'']"
  by (simp add: parseCSV_def TrimSpace_graphic graphic_def)

text \<open>C30: what a server that runs has been given.  It started with a configuration that is valid,
  with a database if and only if one was configured, and with a working lockout; the three
  durations that are multiplied after their check are positive unless the product leaves 64
  bits.  Outside development it signs with the key of the environment, never with one it made
  up, and the list of origins it hands to the CORS library is the one the environment gives: it
  has to be set, and no entry is the single asterisk.  What the list admits is the library's
  decision; the lemma comma_opens_cors below has a value that gives it an empty list.\<close>

theorem running_server_is_configured:
  assumes "boot frac kl connect env = Running cfg pool key svc"
  shows "valid_config cfg \<and> (pool \<longleftrightarrow> getenv env ''DATABASE_URL'' \<noteq> []) \<and> (pool \<longleftrightarrow> Pool_set svc) \<and>
    0 < LockoutThreshold svc \<and> 0 < LockoutBaseDuration svc \<and> LockoutBaseDuration svc \<le> LockoutMaxDuration svc \<and>
    (SyncChangelogMaxAge cfg \<le> 0 \<longrightarrow>
       (\<exists>n>2562047. parse_int64 (getenv env ''SYNC_CHANGELOG_MAX_AGE'') = Some n)) \<and>
    (SyncChangelogPruneInterval cfg \<le> 0 \<longrightarrow>
       (\<exists>n>9223372036. parse_int64 (getenv env ''SYNC_CHANGELOG_PRUNE_INTERVAL_SECONDS'') = Some n)) \<and>
    (ShutdownTimeout cfg \<le> 0 \<longrightarrow>
       (\<exists>n>9223372036. parse_int64 (getenv env ''SHUTDOWN_TIMEOUT_SECONDS'') = Some n)) \<and>
    Environment cfg = getEnvDefault env ''ENVIRONMENT'' ''development'' \<and>
    (Environment cfg \<noteq> ''development'' \<longrightarrow>
       getenv env ''JWT_SIGNING_KEY'' \<noteq> [] \<and> LoadSigningKey kl (getenv env ''JWT_SIGNING_KEY'') = Inr key \<and>
       getenv env ''CORS_ALLOWED_ORIGINS'' \<noteq> [] \<and>
       co_AllowedOrigins (CORS (CORSAllowedOrigins cfg)) = parseCSV (getenv env ''CORS_ALLOWED_ORIGINS'') \<and>
       ''*'' \<notin> set (parseCSV (getenv env ''CORS_ALLOWED_ORIGINS'')))"
proof -
  have load: "Load frac env = Inr cfg" and p: "NewPool connect (DatabaseURL cfg) = Some pool"
    and k: "loadOrGenerateSigningKey kl cfg = Inr key" and svc: "svc = auth_service cfg pool"
    using assms by (auto simp: boot_def split: sum.splits option.splits)
  note valid = loaded_config_valid[OF load] and given = Load_settings[OF load]
  have pool: "pool \<longleftrightarrow> getenv env ''DATABASE_URL'' \<noteq> []" using p given by (auto simp: NewPool_def split: if_splits)
  have sign: "Environment cfg \<noteq> ''development'' \<longrightarrow>
      getenv env ''JWT_SIGNING_KEY'' \<noteq> [] \<and> LoadSigningKey kl (getenv env ''JWT_SIGNING_KEY'') = Inr key"
    using k given by (auto simp: loadOrGenerateSigningKey_def DefaultEnvironment_def split: if_splits)
  have lock: "0 < LockoutThreshold svc \<and> 0 < LockoutBaseDuration svc \<and> LockoutBaseDuration svc \<le> LockoutMaxDuration svc"
    "pool \<longleftrightarrow> Pool_set svc" using valid[THEN conjunct1] by (simp_all add: svc auth_service_def valid_config_def)
  have cors: "getenv env ''CORS_ALLOWED_ORIGINS'' \<noteq> [] \<and>
      co_AllowedOrigins (CORS (CORSAllowedOrigins cfg)) = parseCSV (getenv env ''CORS_ALLOWED_ORIGINS'') \<and>
      ''*'' \<notin> set (parseCSV (getenv env ''CORS_ALLOWED_ORIGINS''))" if "Environment cfg \<noteq> ''development''"
  proof -
    have "''*'' \<notin> set (parseCSV (getEnvDefault env ''CORS_ALLOWED_ORIGINS'' ''*''))"
      using valid[THEN conjunct1] that given by (simp add: valid_config_def corsWildcard_def)
    moreover from this have "getEnvDefault env ''CORS_ALLOWED_ORIGINS'' ''*'' = getenv env ''CORS_ALLOWED_ORIGINS''"
      and "getenv env ''CORS_ALLOWED_ORIGINS'' \<noteq> []"
      by (auto simp: getEnvDefault_def getenv_def parseCSV_star split: option.splits if_splits)
    ultimately show ?thesis using given by (simp add: CORS_def)
  qed
  show ?thesis using valid pool sign lock cors given by blast
qed

definition production_env :: environ where
  "production_env = [''ENVIRONMENT'' \<mapsto> ''production'', ''CORS_ALLOWED_ORIGINS'' \<mapsto> ''https://rize.example'', ''JWT_SIGNING_KEY'' \<mapsto> ''pem'']"

definition sample_keys :: "nat key_library" where
  "sample_keys = \<lparr>kl_pem = Some, kl_pkcs1 = (\<lambda>_. None), kl_pkcs8 = (\<lambda>_. Some (Some 7)), kl_generate = Some 0\<rparr>"

lemma running_server_is_configured_witness:
  "\<exists>cfg svc. boot (\<lambda>_ _ _. 0) sample_keys (\<lambda>_. True) production_env = Running cfg False 7 svc \<and> valid_config cfg"
proof -
  have "parseCSV ''https://rize.example'' = [''https://rize.example'']"
    by (simp add: parseCSV_def TrimSpace_graphic graphic_def)
  then have "\<exists>cfg svc. boot (\<lambda>_ _ _. 0) sample_keys (\<lambda>_. True) production_env = Running cfg False 7 svc"
    by (simp add: boot_def Load_def load_steps_def override_def demand_def getenv_def getEnvDefault_def production_env_def
        default_config_def validEnvironments_def DefaultEnvironment_def DefaultHTTPPort_def duration_units
        containsWildcard_def corsWildcard_def NewPool_def loadOrGenerateSigningKey_def LoadSigningKey_def sample_keys_def)
  then obtain cfg svc where run: "boot (\<lambda>_ _ _. 0) sample_keys (\<lambda>_. True) production_env = Running cfg False 7 svc"
    by blast
  have "valid_config cfg" by (rule running_server_is_configured[OF run, THEN conjunct1])
  with run show ?thesis by blast
qed

text \<open>The check is for the word alone.  A list of nothing but separators and blanks passes it, and what
  the CORS library gets is the empty list, which it documents to mean every origin; a pattern such as
  \<^verbatim>\<open>https://*\<close> passes too.\<close>

lemma comma_opens_cors:
  "\<exists>cfg svc. boot (\<lambda>_ _ _. 0) sample_keys (\<lambda>_. True) (production_env(''CORS_ALLOWED_ORIGINS'' \<mapsto> '','')) = Running cfg False 7 svc \<and>
     Environment cfg = ''production'' \<and> co_AllowedOrigins (CORS (CORSAllowedOrigins cfg)) = []"
proof -
  have "parseCSV '','' = []" by (simp add: parseCSV_def TrimSpace_graphic)
  then show ?thesis
    by (simp add: boot_def Load_def load_steps_def override_def demand_def getenv_def getEnvDefault_def production_env_def
        default_config_def validEnvironments_def DefaultEnvironment_def DefaultHTTPPort_def duration_units
        containsWildcard_def corsWildcard_def NewPool_def loadOrGenerateSigningKey_def LoadSigningKey_def sample_keys_def CORS_def)
qed

section \<open>Metrics and panics\<close>

text \<open>A panic that is recovered is answered 500 and logged, and counted in no series: the counting
  follows the inner handler without a deferred call.\<close>

lemma panic_not_counted:
  "snd (outer_stack method path pattern False (Panic False)) =
     \<lparr>ob_log = [(method, path, 500)], ob_series = [], ob_reported = True\<rparr>"
  by (simp add: outer_stack_def Recoverer_def Metrics_def Logging_def)

text \<open>The method of a request is a label as it is: requests with different methods are counted in
  different series, and there are as many of these as methods a client makes up.\<close>

lemma series_per_method:
  "Metrics m pattern (Finished resp) = Metrics m' pattern (Finished resp) \<longleftrightarrow> m = m'"
  by (simp add: Metrics_def)

end
