(* ===== verification/Process.thy ===== *)
theory Process
  imports ApiProps
begin

text \<open>
  The ends of the process: a server that was started without a database
  (\<^verbatim>\<open>newRouter\<close> with a nil pool), and how \<^verbatim>\<open>main\<close>,
  \<^verbatim>\<open>run\<close> and \<^verbatim>\<open>serve\<close> of \<^verbatim>\<open>cmd/api/main.go\<close>
  end.  The listener, the signals and the draining of requests are code outside the repository; what
  they report is an argument.
\<close>

section \<open>A server without a database\<close>

text \<open>
  With no pool the services hold a nil interface, on which every query is a panic.  So a request is
  answered as far as it comes without a statement, and its first statement panics: the session's
  only hazard is spent exactly when there was one.
\<close>

definition poolless :: "edge \<Rightarrow> routed \<Rightarrow> http_request \<Rightarrow> api_call" where
  "poolless e rt r =
     \<lparr>ac_faults = [Some (OtherError ''nil pointer dereference'')], ac_ping = None, ac_edge = e,
      ac_routed = rt, ac_request = r\<rparr>"

definition serve_poolless :: "api \<Rightarrow> edge \<Rightarrow> routed \<Rightarrow> http_request \<Rightarrow> world \<Rightarrow> outcome" where
  "serve_poolless a e rt r w =
     (case serve_call a (poolless e rt r) w of
        (resp, w') \<Rightarrow> if hazards w' = [] then Panic False else Finished resp)"

text \<open>The probes say that all is well.\<close>

lemma poolless_probes:
  "serve_poolless a e Healthz r w = Finished (WriteJSON r 200 (PHealth [(''status'', ''ok'')]))"
  "serve_poolless a e Readyz r w = Finished (WriteJSON r 200 (PHealth [(''status'', ''ok''), (''db'', ''not_configured'')]))"
  by (simp_all add: serve_poolless_def serve_call_def poolless_def session_of_def serve_api_def
      healthzHandler_def readyzHandler_def)

text \<open>A request that has to read, such as one for the account of a valid token, is a bare 500, logged
  and reported, and in no series of the metrics.\<close>

lemma poolless_profile:
  assumes "called a (poolless e rt r) = Some (''GET'', ''/users/me/'')" and "\<not> ed_preflight e" "\<not> ed_limited e"
    and "authenticated (ap_jwt a) r = Some ident" and "parseUUID (ap_ext a) (id_UserID ident) = Inr uid"
  shows "outer_stack method path pattern False (serve_poolless a e rt r w) =
    (Finished (WriteHeader 500), \<lparr>ob_log = [(method, path, 500)], ob_series = [], ob_reported = True\<rparr>)"
proof -
  have fields: "ac_edge (poolless e rt r) = e" "ac_request (poolless e rt r) = r"
    "hazards (session_of (poolless e rt r) w) = [Fail (OtherError ''nil pointer dereference'')]"
    by (simp_all add: poolless_def session_of_def)
  obtain gs h ps where rt: "((''GET'', ''/users/me/''), gs, h) \<in> set (route_list a)"
    "serve_call a (poolless e rt r) w = guarded a gs (\<lambda>ident _. h ident ps) None (\<lambda>_. []) r (session_of (poolless e rt r) w)"
    using serve_named[OF assms(1), of w] assms(2,3) by (auto simp: fields)
  have "serve_call a (poolless e rt r) w = handle_get_me a (Some ident) ps r (session_of (poolless e rt r) w)"
    using named_routes(2)[OF rt(1)] rt(2) guarded_token[OF assms(4)] by simp
  then have "serve_poolless a e rt r w = Panic False"
    using assms(5) fields(3)
    by (simp add: serve_poolless_def handle_get_me_def with_identity_def GetProfile_def parse_id_def GetUserByID_def
        exec_def no_rows_as_def respond_def)
  then show ?thesis by (simp add: outer_stack_def Recoverer_def Metrics_def Logging_def)
qed

section \<open>How the process ends\<close>

text \<open>The listener fails or is closed, or a signal arrives and the requests in flight are drained,
  within the timeout or not.\<close>

datatype stop = ListenFailed string | ServerClosed | Interrupted "string option"

definition serve :: "stop \<Rightarrow> string option" where
  "serve s =
     (case s of
        ListenFailed err \<Rightarrow> Some err
      | ServerClosed \<Rightarrow> None
      | Interrupted err \<Rightarrow> err)"

record exit =
  ex_code :: nat
  ex_flushed :: bool
  ex_error :: "string option"

text \<open>\<^verbatim>\<open>main\<close>: the error it logs before it exits, and whether the buffered
  events are delivered first.  An unrecovered panic exits with code 2.\<close>

definition main_exit :: "'k process \<Rightarrow> stop \<Rightarrow> exit" where
  "main_exit p s =
     (case p of
        Exited _ \<Rightarrow> \<lparr>ex_code = 1, ex_flushed = False, ex_error = Some ''failed to load config''\<rparr>
      | KeyPanic _ \<Rightarrow> \<lparr>ex_code = 2, ex_flushed = False, ex_error = Some ''failed to load JWT signing key''\<rparr>
      | NoDatabase \<Rightarrow> \<lparr>ex_code = 1, ex_flushed = True, ex_error = Some ''server exited with error''\<rparr>
      | Running _ _ _ _ \<Rightarrow>
          (if serve s = None then \<lparr>ex_code = 0, ex_flushed = True, ex_error = None\<rparr>
           else \<lparr>ex_code = 1, ex_flushed = True, ex_error = Some ''server exited with error''\<rparr>))"

text \<open>A server that came to run always delivers what it has buffered, and exits with 0 exactly when
  it was closed or was interrupted and drained in time.\<close>

lemma running_server_exits:
  "ex_flushed (main_exit (Running cfg pool key svc) s)"
  "ex_code (main_exit (Running cfg pool key svc) s) = 0 \<longleftrightarrow> s = ServerClosed \<or> s = Interrupted None"
  by (cases s; simp add: main_exit_def serve_def)+

text \<open>Outside development a server that lacks a key is not refused with an error: it panics, after
  the database was reached, and delivers nothing.\<close>

lemma missing_key_panics:
  assumes "Load frac env = Inr cfg" and "JWTSigningKey cfg = []" and "Environment cfg \<noteq> DefaultEnvironment"
    and "NewPool connect (DatabaseURL cfg) = Some pool"
  shows "main_exit (boot frac kl connect env) s =
    \<lparr>ex_code = 2, ex_flushed = False, ex_error = Some ''failed to load JWT signing key''\<rparr>"
  using assms by (simp add: boot_def loadOrGenerateSigningKey_def main_exit_def)

end
