(* ===== verification/SyncFeed.thy ===== *)
theory SyncFeed
  imports Retention
begin

text \<open>
  Why the pull can use (transaction id, sequence number) as its cursor while writers commit out of
  order: a step relation of concurrent transactions, a paging client and the pruner, with the page
  query of \<^verbatim>\<open>pull.sql.go\<close> as the client's read.  Transaction ids are assigned
  when a transaction begins and sequence numbers when a row is written, so rows become visible in
  neither order; the query shows only the rows of transactions older than every one in flight.
\<close>

section \<open>The system\<close>

record feed =
  store :: world
  pending :: "sync_changelog list"
  position :: pull_cursor
  received :: "sync_changelog set"

definition feed_init :: "feed \<Rightarrow> bool" where
  "feed_init s \<longleftrightarrow>
     changelog (dbs (store s)) = [] \<and> inflight (store s) = [] \<and> 0 < next_xid (store s) \<and>
     pending s = [] \<and> position s = PullCursor 0 0 \<and> received s = {}"

definition with_changelog :: "sync_changelog list \<Rightarrow> world \<Rightarrow> world" where
  "with_changelog cl w = w\<lparr>dbs := (dbs w)\<lparr>changelog := cl\<rparr>\<rparr>"

inductive feed_step :: "uuid \<Rightarrow> feed \<Rightarrow> feed \<Rightarrow> bool" for uid where
  begins: "feed_step uid s
     (s\<lparr>store := (store s)\<lparr>inflight := next_xid (store s) # inflight (store s),
                          next_xid := Suc (next_xid (store s))\<rparr>\<rparr>)"
| writes: "\<lbrakk>x \<in> set (inflight (store s)); cl_xid8 r = x; cl_server_seq r = server_seq_global (store s) + 1\<rbrakk>
   \<Longrightarrow> feed_step uid s
     (s\<lparr>store := (store s)\<lparr>server_seq_global := server_seq_global (store s) + 1\<rparr>, pending := r # pending s\<rparr>)"
| commits: "x \<in> set (inflight (store s))
   \<Longrightarrow> feed_step uid s
     (s\<lparr>store := with_changelog (changelog (dbs (store s)) @ filter (\<lambda>r. cl_xid8 r = x) (pending s))
                  ((store s)\<lparr>inflight := removeAll x (inflight (store s))\<rparr>),
        pending := filter (\<lambda>r. cl_xid8 r \<noteq> x) (pending s)\<rparr>)"
| aborts: "x \<in> set (inflight (store s))
   \<Longrightarrow> feed_step uid s
     (s\<lparr>store := (store s)\<lparr>inflight := removeAll x (inflight (store s))\<rparr>,
        pending := filter (\<lambda>r. cl_xid8 r \<noteq> x) (pending s)\<rparr>)"
| pages: "\<lbrakk>servable (position s) (dbs (store s)); 1 \<le> limit; limit < 2 ^ 31 - 1;
     page_cut ckey limit (position s) (changelog_page uid (position s) (LimitParam (limit + 1)) (store s))
       = (kept, nxt, hm)\<rbrakk>
   \<Longrightarrow> feed_step uid s (s\<lparr>position := nxt, received := received s \<union> set kept\<rparr>)"
| prunes: "pruned cutoff batchSize victims (dbs (store s)) d'
   \<Longrightarrow> feed_step uid s (s\<lparr>store := (store s)\<lparr>dbs := d'\<rparr>\<rparr>)"
| resets: "\<not> servable (position s) (dbs (store s))
   \<Longrightarrow> feed_step uid s (s\<lparr>position := PullCursor 0 0\<rparr>)"

inductive feed_reachable :: "uuid \<Rightarrow> feed \<Rightarrow> bool" for uid where
  start: "feed_init s \<Longrightarrow> feed_reachable uid s"
| step: "feed_reachable uid s \<Longrightarrow> feed_step uid s s' \<Longrightarrow> feed_reachable uid s'"

inductive_cases feed_stepE: "feed_step uid s s'"

section \<open>The invariant\<close>

definition owned :: "uuid \<Rightarrow> sync_changelog \<Rightarrow> bool" where
  "owned uid r \<longleftrightarrow> cl_user_id r = Some uid \<or> cl_user_id r = None"

definition seqs_fresh :: "feed \<Rightarrow> bool" where
  "seqs_fresh s \<longleftrightarrow>
     distinct (map cl_server_seq (changelog (dbs (store s)) @ pending s)) \<and>
     (\<forall>r\<in>set (changelog (dbs (store s)) @ pending s). cl_server_seq r \<le> server_seq_global (store s))"

definition xids_ok :: "feed \<Rightarrow> bool" where
  "xids_ok s \<longleftrightarrow>
     (\<forall>r\<in>set (pending s). cl_xid8 r \<in> set (inflight (store s))) \<and>
     (\<forall>r\<in>set (changelog (dbs (store s))). 0 < cl_xid8 r) \<and>
     (\<forall>x\<in>set (inflight (store s)). Xid8 (position s) < x \<and> x < next_xid (store s)) \<and>
     Xid8 (position s) < next_xid (store s)"

definition no_gap :: "uuid \<Rightarrow> feed \<Rightarrow> bool" where
  "no_gap uid s \<longleftrightarrow>
     (\<forall>r\<in>set (changelog (dbs (store s))). owned uid r \<and> ckey r \<le> position s \<longrightarrow> r \<in> received s)"

definition feed_inv :: "uuid \<Rightarrow> feed \<Rightarrow> bool" where
  "feed_inv uid s \<longleftrightarrow> seqs_fresh s \<and> xids_ok s \<and> no_gap uid s"

lemma feed_init_inv: "feed_init s \<Longrightarrow> feed_inv uid s"
  by (simp add: feed_init_def feed_inv_def seqs_fresh_def xids_ok_def no_gap_def)

lemma distinct_filter_swap:
  "distinct (map f (xs @ ys)) \<Longrightarrow> distinct (map f ((xs @ filter P ys) @ filter (\<lambda>y. \<not> P y) ys))"
  by (auto simp: distinct_map_filter) (auto simp: distinct_map dest: inj_onD)

text \<open>A page delivers every owned row between the old and the new position.\<close>

lemma page_no_gap:
  assumes inv: "feed_inv uid s" and limit: "1 \<le> limit" "limit < 2 ^ 31 - 1"
    and cut: "page_cut ckey limit (position s) (changelog_page uid (position s) (LimitParam (limit + 1)) (store s))
       = (kept, nxt, hm)"
  shows "feed_inv uid (s\<lparr>position := nxt, received := received s \<union> set kept\<rparr>)"
proof -
  let ?w = "store s" and ?c = "position s"
  have "distinct (map ckey (changelog (dbs ?w)))"
  proof -
    have "distinct (map cl_server_seq (changelog (dbs ?w)))" using inv by (simp add: feed_inv_def seqs_fresh_def)
    then have "distinct (map (ServerSeq \<circ> ckey) (changelog (dbs ?w)))" by (simp add: ckey_def comp_def)
    then show ?thesis by (metis distinct_map map_map)
  qed
  then have sorted: "sorted_wrt (<) (map ckey (feed_rows (uid, ?w)))"
    unfolding feed_rows_def by (intro sorted_wrt_sort_key) (simp add: distinct_map_filter)
  let ?A = "filter (\<lambda>r. ?c < ckey r) (feed_rows (uid, ?w))"
  have lim: "nat (LimitParam (limit + 1)) = Suc (nat limit)"
    using limit by (simp add: LimitParam_small nat_add_distrib)
  have pg: "changelog_page uid ?c (LimitParam (limit + 1)) ?w = take (Suc (nat limit)) ?A"
    unfolding changelog_page_def feed_rows_def sort_filter_commute lim by simp
  have kept: "kept = take (nat limit) ?A"
    using cut pg limit by (auto simp: page_cut_def Let_def split: if_splits)
  have nxt: "nxt = (if kept = [] then ?c else ckey (last kept))"
    using cut by (auto simp: page_cut_def Let_def split: if_splits)
  show ?thesis
  proof (cases "kept = []")
    case True
    then show ?thesis using inv nxt by (simp add: feed_inv_def seqs_fresh_def xids_ok_def no_gap_def)
  next
    case False
    have lastA: "last kept \<in> set ?A"
      using False kept by (metis last_in_set in_set_takeD)
    then have vis: "visible uid ?w (last kept)" by (simp add: feed_rows_def)
    then have xmin: "Xid8 nxt < snapshot_xmin ?w" using False nxt by (simp add: visible_def ckey_def)
    have c_lt: "?c < nxt" using lastA False nxt by simp
    have sortedA: "sorted_wrt (<) (map ckey ?A)"
      using sorted by (simp add: sorted_wrt_map sorted_wrt_filter)
    have got: "r \<in> received s \<union> set kept"
      if r: "r \<in> set (changelog (dbs ?w))" "owned uid r" "ckey r \<le> nxt" for r
    proof (cases "ckey r \<le> ?c")
      case True
      then show ?thesis using inv r by (simp add: feed_inv_def no_gap_def)
    next
      case False
      have "cl_xid8 r < snapshot_xmin ?w" using r(3) xmin by (auto simp: ckey_def pull_cursor_less_eq)
      then have "r \<in> set ?A" using False r by (auto simp: feed_rows_def visible_def owned_def)
      then obtain i where i: "i < length ?A" "r = ?A ! i" unfolding in_set_conv_nth by blast
      have "i < nat limit"
      proof (rule ccontr)
        assume "\<not> i < nat limit"
        moreover have "length kept = nat limit" using calculation i kept by simp
        ultimately have "last kept = ?A ! (nat limit - 1)" "nat limit - 1 < i"
          using \<open>kept \<noteq> []\<close> kept limit by (simp_all add: last_conv_nth)
        then have "nxt < ckey r"
          using sortedA i nxt \<open>kept \<noteq> []\<close> by (auto simp: sorted_wrt_iff_nth_less)
        then show False using r(3) by simp
      qed
      then show ?thesis using i kept by (auto simp: in_set_conv_nth)
    qed
    have "Xid8 nxt < x" if "x \<in> set (inflight ?w)" for x
      using xmin snapshot_xmin_inflight[OF that] by simp
    moreover have "Xid8 nxt < next_xid ?w" using xmin snapshot_xmin_le[of ?w] by simp
    ultimately show ?thesis
      using inv got by (simp add: feed_inv_def seqs_fresh_def xids_ok_def no_gap_def)
  qed
qed

lemma feed_step_inv: "feed_step uid s s' \<Longrightarrow> feed_inv uid s \<Longrightarrow> feed_inv uid s'"
proof (induction rule: feed_step.induct)
  case (begins s)
  then show ?case by (auto simp: feed_inv_def seqs_fresh_def xids_ok_def no_gap_def)
next
  case (writes x s r)
  have "seqs_fresh (s\<lparr>store := (store s)\<lparr>server_seq_global := server_seq_global (store s) + 1\<rparr>, pending := r # pending s\<rparr>)"
  proof -
    have le: "cl_server_seq r' \<le> server_seq_global (store s)"
      if "r' \<in> set (changelog (dbs (store s))) \<or> r' \<in> set (pending s)" for r'
      using that writes.prems by (auto simp: feed_inv_def seqs_fresh_def)
    then have le': "cl_server_seq r' \<le> server_seq_global (store s) + 1"
      if "r' \<in> set (changelog (dbs (store s))) \<or> r' \<in> set (pending s)" for r'
      using that by fastforce
    have "cl_server_seq r \<notin> cl_server_seq ` (set (changelog (dbs (store s))) \<union> set (pending s))"
      using writes.hyps(3) le by fastforce
    then show ?thesis
      using writes.prems writes.hyps(3) le' by (auto simp: feed_inv_def seqs_fresh_def)
  qed
  then show ?case using writes by (simp add: feed_inv_def xids_ok_def no_gap_def)
next
  case (commits x s)
  have "position s < ckey r" if "r \<in> set (pending s)" for r
    using that commits by (auto simp: feed_inv_def xids_ok_def ckey_def pull_cursor_less)
  then have "\<not> ckey r \<le> position s" if "r \<in> set (pending s)" for r
    using that by (simp add: not_le)
  then show ?case
    using commits distinct_filter_swap[of cl_server_seq "changelog (dbs (store s))" "pending s" "\<lambda>r. cl_xid8 r = x"]
    by (auto simp: feed_inv_def seqs_fresh_def xids_ok_def no_gap_def with_changelog_def)
next
  case (aborts x s)
  then show ?case by (auto simp: feed_inv_def seqs_fresh_def xids_ok_def no_gap_def distinct_map_filter)
next
  case (pages s limit kept nxt hm)
  then show ?case by (intro page_no_gap)
next
  case (prunes cutoff batchSize victims s d')
  then obtain h where d': "d' = (dbs (store s))\<lparr>changelog :=
      filter (\<lambda>r. cl_changelog_id r \<notin> cl_changelog_id ` set victims) (changelog (dbs (store s))), horizon := h\<rparr>"
    by (auto simp: pruned_def)
  show ?case using prunes.prems
    by (auto simp: d' feed_inv_def seqs_fresh_def xids_ok_def no_gap_def distinct_map_filter)
next
  case (resets s)
  then show ?case by (force simp: feed_inv_def seqs_fresh_def xids_ok_def no_gap_def ckey_def pull_cursor_less_eq)
qed

lemma feed_reachable_inv: "feed_reachable uid s \<Longrightarrow> feed_inv uid s"
  by (induction rule: feed_reachable.induct) (auto intro: feed_init_inv feed_step_inv)

text \<open>C6: no committed row is ever overtaken.  However transactions begin, write, commit and abort
  between the client's pages, whatever is pruned and however often the client resets, a stored row
  of the user at or before the client's position has been received.\<close>

theorem feed_never_skips:
  assumes "feed_reachable uid s" and "r \<in> set (changelog (dbs (store s)))"
    and "cl_user_id r = Some uid \<or> cl_user_id r = None" and "ckey r \<le> position s"
  shows "r \<in> received s"
  using feed_reachable_inv[OF assms(1)] assms(2-4) by (simp add: feed_inv_def no_gap_def owned_def)

text \<open>The reason: a row that is not yet committed lies after the client's position, so when it
  becomes visible the client's next pages still lead to it.\<close>

lemma uncommitted_rows_lie_ahead:
  assumes "feed_reachable uid s" and "r \<in> set (pending s)"
  shows "position s < ckey r"
  using feed_reachable_inv[OF assms(1)] assms(2)
  by (auto simp: feed_inv_def xids_ok_def ckey_def pull_cursor_less)


section \<open>Worked instances\<close>

text \<open>Two transactions, the later one committing first: the page shows nothing until the earlier
  one has ended.\<close>

definition feed0 :: feed where
  "feed0 = \<lparr>store = session sample_db, pending = [], position = PullCursor 0 0, received = {}\<rparr>"

definition feed_row :: sync_changelog where
  "feed_row = sample_change 1 ''tags'' 21 None 1"

definition feed2 :: feed where
  "feed2 = feed0\<lparr>store := (session sample_db)\<lparr>inflight := [1], next_xid := 2, server_seq_global := 1\<rparr>,
                 pending := [feed_row]\<rparr>"

definition feed3 :: feed where
  "feed3 = feed0\<lparr>store := with_changelog [feed_row]
      ((session sample_db)\<lparr>next_xid := 2, server_seq_global := 1\<rparr>)\<rparr>"

lemma feed2_reachable: "feed_reachable 1 feed2"
proof -
  have "feed_reachable 1 feed0"
    by (rule feed_reachable.start) (simp add: feed_init_def feed0_def session_def sample_db_def empty_db_def)
  from feed_reachable.step[OF this feed_step.begins]
  have b: "feed_reachable 1 (feed0\<lparr>store := (session sample_db)\<lparr>inflight := [1], next_xid := 2\<rparr>\<rparr>)"
    by (simp add: feed0_def session_def numeral_2_eq_2)
  have "feed_step 1 (feed0\<lparr>store := (session sample_db)\<lparr>inflight := [1], next_xid := 2\<rparr>\<rparr>) feed2"
    using feed_step.writes[of 1 "feed0\<lparr>store := (session sample_db)\<lparr>inflight := [1], next_xid := 2\<rparr>\<rparr>" feed_row 1]
    by (simp add: feed2_def feed0_def session_def feed_row_def sample_change_def)
  from feed_reachable.step[OF b this] show ?thesis .
qed

lemma feed3_reachable: "feed_reachable 1 feed3"
proof -
  have "feed_step 1 feed2 feed3"
    using feed_step.commits[of 1 feed2 1]
    by (simp add: feed2_def feed3_def feed0_def feed_row_def sample_change_def with_changelog_def session_def
        sample_db_def empty_db_def)
  from feed_reachable.step[OF feed2_reachable this] show ?thesis .
qed

lemma feed_never_skips_witness:
  "feed_row \<in> received (feed3\<lparr>position := ckey feed_row, received := received feed3 \<union> {feed_row}\<rparr>)"
proof -
  have pg: "changelog_page 1 (PullCursor 0 0) (LimitParam (10 + 1)) (store feed3) = [feed_row]" by code_simp
  have cut: "page_cut ckey 10 (position feed3)
      (changelog_page 1 (position feed3) (LimitParam (10 + 1)) (store feed3)) = ([feed_row], ckey feed_row, False)"
    using pg by (simp add: page_cut_def feed3_def feed0_def)
  have "servable (position feed3) (dbs (store feed3))"
    by (simp add: servable_def IsZero_def feed3_def feed0_def)
  from feed_step.pages[OF this _ _ cut]
  have "feed_step 1 feed3 (feed3\<lparr>position := ckey feed_row, received := received feed3 \<union> {feed_row}\<rparr>)"
    by simp
  from feed_reachable.step[OF feed3_reachable this]
  have r: "feed_reachable 1 (feed3\<lparr>position := ckey feed_row, received := received feed3 \<union> {feed_row}\<rparr>)" .
  show ?thesis
    by (rule feed_never_skips[OF r])
      (simp_all add: feed3_def with_changelog_def feed_row_def sample_change_def)
qed

end
