(* ===== verification/ReportProps.thy ===== *)
theory ReportProps
  imports Reports Sample
begin

text \<open>
  What a report's numbers mean: the windows partition the range, the trimming computes the
  covered time of a device, a report depends on its user's events only; and where the two
  sources of a total disagree.
\<close>

section \<open>The windows partition the range\<close>

lemma day_pos: "0 < day"
  by (simp add: day_def duration_units)

lemma dayStart_bounds: "dayStart t \<le> t" "t < dayStart t + day"
proof -
  have "t = (t div day) * day + t mod day" "0 \<le> t mod day" "t mod day < day"
    using day_pos by simp_all
  then show "dayStart t \<le> t" "t < dayStart t + day" unfolding dayStart_def by linarith+
qed

lemma dayStart_dvd: "day dvd dayStart t"
  by (simp add: dayStart_def)

lemma dayStart_mono: "s \<le> t \<Longrightarrow> dayStart s \<le> dayStart t"
  using day_pos by (simp add: dayStart_def zdiv_mono1)

definition in_window :: "time \<Rightarrow> window \<Rightarrow> bool" where
  "in_window t v \<longleftrightarrow> w_From v \<le> t \<and> t < w_To v"

text \<open>C16: the split of a report's range is a partition.  Every instant of the range lies in exactly
  one of the closed and raw windows and no other instant in any; the closed window is made of
  whole days inside the range and ends at or before today.\<close>

theorem split_is_partition:
  assumes "from \<le> to" and "splitClosedOpen from to now = (closed, raw)"
  shows "length (filter (in_window t) (case_option [] (\<lambda>c. [c]) closed @ raw)) = (if from \<le> t \<and> t < to then 1 else 0) \<and>
    (\<forall>c. closed = Some c \<longrightarrow> day dvd w_From c \<and> day dvd w_To c \<and> from \<le> w_From c \<and> w_From c < w_To c \<and>
      w_To c \<le> to \<and> w_To c \<le> dayStart now)"
proof -
  define E where "E = (if dayStart now < to then dayStart now else to)"
  define AF where "AF = (if from \<noteq> dayStart from then dayStart from + day else dayStart from)"
  define AT where "AT = dayStart E"
  have E: "E \<le> to" "E \<le> dayStart now" by (auto simp: E_def)
  have AT: "AT \<le> E" "day dvd AT" by (simp_all add: AT_def dayStart_bounds dayStart_dvd)
  have AF: "from \<le> AF" "from = dayStart from \<longrightarrow> AF = from"
    using dayStart_bounds(2)[of "from"] by (auto simp: AF_def)
  have AF_dvd: "day dvd AF" using dayStart_dvd[of "from"] by (cases "from = dayStart from") (simp_all add: AF_def)
  have AF_off: "from \<noteq> dayStart from \<longrightarrow> dayStart from + day = AF" by (simp add: AF_def)
  have split: "splitClosedOpen from to now =
    (if \<not> from < E then (None, [Window from to])
     else (if AF < AT then Some (Window AF AT) else None,
       (if from \<noteq> dayStart from then [Window from (minTime to (dayStart from + day))] else []) @
       (if AT < to \<and> (if \<not> AF < AT \<and> AT < AF then AF else AT) < to
        then [Window (if \<not> AF < AT \<and> AT < AF then AF else AT) to] else [])))"
    by (simp add: splitClosedOpen_def Let_def E_def[symmetric] AF_def[symmetric] AT_def[symmetric])
  show ?thesis
  proof (cases "from < E")
    case False
    then show ?thesis using assms split by (auto simp: in_window_def)
  next
    case True
    have mono: "from = dayStart from \<longrightarrow> from \<le> AT"
      using dayStart_mono[of "from" E] True by (auto simp: AT_def)
    show ?thesis
    proof (cases "AF < AT")
      case closed: True
      then show ?thesis using assms split True E AT AF AF_dvd AF_off
        by (auto simp: in_window_def minTime_def split: if_splits)
    next
      case nc: False
      then show ?thesis using assms split True E AT AF AF_dvd AF_off mono
        by (auto simp: in_window_def minTime_def split: if_splits)
    qed
  qed
qed

theorem split_is_partition_witness:
  "(let from = 5 * day + hour; to = 10 * day; now = 8 * day + hour in
    splitClosedOpen from to now = (Some (Window (6 * day) (8 * day)),
      [Window from (6 * day), Window (8 * day) to]) \<and>
    length (filter (in_window (7 * day)) [Window (6 * day) (8 * day), Window from (6 * day), Window (8 * day) to]) = 1)"
proof -
  have s: "splitClosedOpen (5 * day + hour) (10 * day) (8 * day + hour) = (Some (Window (6 * day) (8 * day)),
      [Window (5 * day + hour) (6 * day), Window (8 * day) (10 * day)])"
    by (simp add: splitClosedOpen_def dayStart_def day_def duration_units minTime_def Let_def)
  have "5 * day + hour \<le> 10 * day" by (simp add: day_def duration_units)
  from split_is_partition[OF this s, of "7 * day"] s show ?thesis
    by (simp add: Let_def day_def duration_units)
qed

section \<open>Covered time\<close>

definition span :: "interval \<Rightarrow> time set" where
  "span i = {i_start i..<i_end i}"

definition covered :: "interval list \<Rightarrow> time set" where
  "covered ivs = (\<Union>i\<in>set ivs. span i)"

lemma covered_simps [simp]: "covered [] = {}" "covered (i # ivs) = span i \<union> covered ivs"
  by (simp_all add: covered_def)

lemma finite_covered [simp]: "finite (covered ivs)"
  by (simp add: covered_def span_def)

text \<open>On whole microseconds and below 2 to the 34 seconds the conversion truncates.\<close>

lemma bits_bound: "n < 2 ^ m \<Longrightarrow> bits n \<le> m"
proof (induction n arbitrary: m rule: bits.induct)
  case (1 n)
  show ?case
  proof (cases "n = 0")
    case False
    then obtain m' where "m = Suc m'" using 1 by (cases m) auto
    then show ?thesis using 1 False by (simp add: bits.simps[of n])
  qed (simp add: bits.simps)
qed

lemma trunc_seconds_floor:
  assumes "1000 dvd d" and "0 \<le> d" and "d < 2 ^ 34 * second"
  shows "trunc_seconds d = d div second"
proof -
  let ?ns = "d mod second" and ?m = "bits (nat (d div second))"
  have "nat (d div second) < 2 ^ 34"
    using assms(2,3) by (simp add: second_def)
  then have m: "?m \<le> 34" by (rule bits_bound)
  have "(1000::int) dvd second" by (simp add: second_def)
  then have dvd: "1000 dvd second - ?ns" using assms(1) by (simp add: dvd_mod_iff)
  have "0 < second - ?ns" using pos_mod_bound[of second d] by (simp add: second_def)
  then have "1000 \<le> second - ?ns" using dvd zdvd_imp_le by blast
  moreover have "(2::int) ^ 20 \<le> 2 ^ (54 - ?m)" using m by (intro power_increasing) auto
  ultimately have "1000 * 2 ^ 20 \<le> (second - ?ns) * 2 ^ (54 - ?m)" by (intro mult_mono) auto
  then have "second < (second - ?ns) * 2 ^ (54 - ?m)" by (simp add: second_def)
  then show ?thesis by (simp add: trunc_seconds_def Let_def)
qed

definition tidy :: "time \<Rightarrow> time \<Rightarrow> interval \<Rightarrow> bool" where
  "tidy a b i \<longleftrightarrow> a \<le> i_start i \<and> i_start i < i_end i \<and> i_end i \<le> b \<and> 1000 dvd i_start i \<and> 1000 dvd i_end i"

text \<open>In a window that a \<^verbatim>\<open>Duration\<close> can hold no difference is saturated.\<close>

lemma span_seconds:
  assumes "int64_ok (b - a)" and "tidy a b i"
  shows "0 \<le> i_end i - i_start i" "trunc_seconds (time_sub (i_end i) (i_start i)) = (i_end i - i_start i) div second"
proof -
  have d: "0 \<le> i_end i - i_start i" "i_end i - i_start i \<le> int64_max" "1000 dvd i_end i - i_start i"
    using assms by (auto simp: tidy_def int64_ok_def)
  then have "int64_ok (i_end i - i_start i)" "i_end i - i_start i < 2 ^ 34 * second"
    by (simp_all add: int64_ok_def int64_min_def int64_max_def second_def)
  then show "trunc_seconds (time_sub (i_end i) (i_start i)) = (i_end i - i_start i) div second"
    using trunc_seconds_floor[OF d(3,1)] by simp
qed (use assms(2) in \<open>simp add: tidy_def\<close>)

lemma merge_loop_covered:
  assumes "int64_ok (b - a)"
  shows "tidy a b (Interval cs ce) \<Longrightarrow> list_all (tidy a b) evs \<Longrightarrow> sorted (map i_start evs) \<Longrightarrow>
    (\<forall>ev\<in>set evs. cs \<le> i_start ev) \<Longrightarrow>
    second * (merge_loop cs ce acc evs - acc) \<le> int (card (covered (Interval cs ce # evs))) \<and>
    int (card (covered (Interval cs ce # evs))) \<le> second * (merge_loop cs ce acc evs - acc) + second * (int (length evs) + 1)"
proof (induction evs arbitrary: cs ce acc)
  case Nil
  note d = span_seconds[OF assms Nil.prems(1), simplified]
  have "int (card {cs..<ce}) = ce - cs" using d(1) by simp
  moreover have "second * ((ce - cs) div second) \<le> ce - cs" "ce - cs \<le> second * ((ce - cs) div second) + second"
    using div_mult_mod_eq[of "ce - cs" second] pos_mod_bound[of second "ce - cs"] pos_mod_sign[of second "ce - cs"]
    by (auto simp: second_def)
  ultimately show ?case by (simp add: d(2) span_def)
next
  case (Cons ev evs)
  have ev: "tidy a b ev" "list_all (tidy a b) evs" "sorted (map i_start evs)" "\<forall>e\<in>set evs. i_start ev \<le> i_start e" "cs \<le> i_start ev"
    using Cons.prems by auto
  show ?case
  proof (cases "ce < i_start ev")
    case True
    let ?q = "(ce - cs) div second" and ?R = "merge_loop (i_start ev) (i_end ev) (acc + trunc_seconds (time_sub ce cs)) evs"
    note d = span_seconds[OF assms Cons.prems(1), simplified]
    have q: "trunc_seconds (time_sub ce cs) = ?q" by (rule d(2))
    have eta: "Interval (i_start ev) (i_end ev) = ev" by simp
    note IH = Cons.IH[of "i_start ev" "i_end ev" "acc + ?q", unfolded eta, OF ev(1-4)]
    have disj: "span (Interval cs ce) \<inter> covered (ev # evs) = {}"
      using True ev(4) by (force simp: span_def covered_def)
    have "int (card (covered (Interval cs ce # ev # evs))) = (ce - cs) + int (card (covered (ev # evs)))"
      using card_Un_disjoint[OF _ finite_covered disj] d(1) by (simp add: span_def)
    moreover have "second * ?q \<le> ce - cs" "ce - cs \<le> second * ?q + second"
      using div_mult_mod_eq[of "ce - cs" second] pos_mod_bound[of second "ce - cs"] pos_mod_sign[of second "ce - cs"]
      by (auto simp: second_def)
    ultimately show ?thesis using IH True q by (auto simp: algebra_simps)
  next
    case False
    let ?ce = "if ce < i_end ev then i_end ev else ce"
    have "tidy a b (Interval cs ?ce)" using Cons.prems(1) ev(1) by (auto simp: tidy_def)
    note IH = Cons.IH[OF this ev(2,3), of acc]
    have "span (Interval cs ce) \<union> span ev = span (Interval cs ?ce)"
      using False ev(5) Cons.prems(1) by (auto simp: span_def tidy_def)
    then have "covered (Interval cs ce # ev # evs) = covered (Interval cs ?ce # evs)" by auto
    then show ?thesis using IH False Cons.prems(4) by (auto simp: algebra_simps second_def)
  qed
qed

lemma clipToWindow_covered: "covered (clipToWindow ws we evs) = covered evs \<inter> {ws..<we}"
  by (auto simp: covered_def clipToWindow_def clip_def span_def split: if_splits)

lemma mergeAndSum_covered:
  assumes "int64_ok (b - a)" and "list_all (tidy a b) evs"
  shows "second * mergeAndSum evs \<le> int (card (covered evs)) \<and>
    int (card (covered evs)) \<le> second * mergeAndSum evs + second * int (length evs)"
proof -
  have set: "set (sort_key i_start evs) = set evs" by simp
  then have cov: "covered (sort_key i_start evs) = covered evs" by (simp add: covered_def)
  show ?thesis
  proof (cases "sort_key i_start evs")
    case Nil
    then show ?thesis using set by (simp add: mergeAndSum_def)
  next
    case (Cons e es)
    have "sorted (map i_start (e # es))" unfolding Cons[symmetric] by simp
    moreover have "list_all (tidy a b) (e # es)"
      using assms(2) set unfolding list_all_iff Cons by simp
    moreover have "length evs = Suc (length es)"
      using arg_cong[OF Cons, of length] by simp
    ultimately show ?thesis
      using merge_loop_covered[OF assms(1), of "i_start e" "i_end e" es 0] cov
      by (simp add: mergeAndSum_def Cons algebra_simps)
  qed
qed

lemma clipToWindow_tidy:
  assumes "1000 dvd ws" "1000 dvd we" and "\<forall>ev\<in>set evs. 1000 dvd i_start ev \<and> 1000 dvd i_end ev"
  shows "list_all (tidy ws we) (clipToWindow ws we evs)"
  using assms by (auto simp: list_all_iff tidy_def clipToWindow_def clip_def split: if_splits)

text \<open>C14: overlap trimming computes the time that is covered.  With instants of whole microseconds,
  as the database holds them, and a window whose length a Duration can hold (292 years), the sum for a device is
  the length of the union of its events inside the window, short of at most a second for each
  event because every merged stretch is cut to whole seconds.  Overlapping events never count
  twice, in any order, and the sum does not exceed the window.\<close>

theorem trimming_measures_covered_time:
  assumes "1000 dvd ws" and "1000 dvd we" and "ws \<le> we" and "int64_ok (we - ws)"
    and "\<forall>ev\<in>set evs. 1000 dvd i_start ev \<and> 1000 dvd i_end ev"
  shows "second * mergeAndSum (clipToWindow ws we evs) \<le> int (card (covered evs \<inter> {ws..<we})) \<and>
    int (card (covered evs \<inter> {ws..<we})) \<le> second * mergeAndSum (clipToWindow ws we evs) + second * int (length evs) \<and>
    mergeAndSum (clipToWindow ws we evs) \<le> (we - ws) div second"
proof -
  let ?m = "mergeAndSum (clipToWindow ws we evs)"
  note cover = mergeAndSum_covered[OF assms(4) clipToWindow_tidy[OF assms(1,2,5)], unfolded clipToWindow_covered]
  have "card (covered evs \<inter> {ws..<we}) \<le> card {ws..<we}" by (rule card_mono) auto
  then have "int (card (covered evs \<inter> {ws..<we})) \<le> we - ws" using assms(3) by simp
  then have "?m * second \<le> we - ws" using cover by (simp add: mult.commute)
  then have "?m \<le> (we - ws) div second"
    using zdiv_mono1[of "?m * second" "we - ws" second] by (simp add: second_def)
  moreover have "length (clipToWindow ws we evs) \<le> length evs"
    using length_filter_le[of _ "map (clip ws we) evs"] by (simp add: clipToWindow_def)
  then have "second * int (length (clipToWindow ws we evs)) \<le> second * int (length evs)"
    by (simp add: second_def)
  ultimately show ?thesis using cover by linarith
qed

theorem trimming_measures_covered_time_witness:
  "(let evs = [Interval (50 * second) (90 * second), Interval (10 * second) (60 * second), Interval (20 * second) (30 * second)]
    in mergeAndSum (clipToWindow 0 (70 * second) evs) = 60 \<and>
       second * 60 \<le> int (card (covered evs \<inter> {0..<70 * second})))"
proof -
  let ?evs = "[Interval (50 * second) (90 * second), Interval (10 * second) (60 * second), Interval (20 * second) (30 * second)]"
  have m: "mergeAndSum (clipToWindow 0 (70 * second) ?evs) = 60"
    by (simp add: mergeAndSum_def clipToWindow_def clip_def second_def trunc_seconds_def time_sub_def int64_min_def int64_max_def)
  have "int64_ok (70 * second - 0)" by (simp add: second_def int64_ok_def int64_min_def int64_max_def)
  then show ?thesis
    using trimming_measures_covered_time[of 0 "70 * second" ?evs] m by (simp add: second_def Let_def)
qed

section \<open>A report depends on its user's events only\<close>

definition same_view :: "uuid \<Rightarrow> db \<Rightarrow> db \<Rightarrow> bool" where
  "same_view uid d d' \<longleftrightarrow>
     filter (\<lambda>e. ae_user_id e = uid) (activity_events d) = filter (\<lambda>e. ae_user_id e = uid) (activity_events d') \<and>
     apps d = apps d' \<and> categories d = categories d' \<and> projects d = projects d'"

lemma same_view_filter:
  assumes "same_view uid d d'" and "\<And>e. P e \<Longrightarrow> ae_user_id e = uid"
  shows "filter P (activity_events d) = filter P (activity_events d')"
proof -
  have own: "filter P evs = filter P (filter (\<lambda>e. ae_user_id e = uid) evs)" for evs
    using assms(2) by (induction evs) auto
  show ?thesis
    using assms(1) own[of "activity_events d"] own[of "activity_events d'"] by (simp add: same_view_def)
qed

definition alike :: "world \<Rightarrow> world \<Rightarrow> ('a \<times> world) \<Rightarrow> ('a \<times> world) \<Rightarrow> bool" where
  "alike w w' p p' \<longleftrightarrow> fst p' = fst p \<and> snd p = w \<and> snd p' = w'"

lemma alike_split:
  "alike w w' p p' \<Longrightarrow> (\<And>r. p = (r, w) \<Longrightarrow> p' = (r, w') \<Longrightarrow> thesis) \<Longrightarrow> thesis"
  by (cases p; cases p') (auto simp: alike_def)

lemma rows_alike:
  assumes "quiet w" "quiet w'" and "same_view uid (dbs w) (dbs w')"
  shows "alike w w' (RawActivityEventsForReport uid from to f w) (RawActivityEventsForReport uid from to f w')"
    and "alike w w' (AppTotalsForRange uid from to s w) (AppTotalsForRange uid from to s w')"
    and "alike w w' (CategoryTotalsForRange uid from to s w) (CategoryTotalsForRange uid from to s w')"
proof -
  have row: "report_row_of (dbs w') = report_row_of (dbs w)"
    using assms(3) by (auto simp: same_view_def report_row_of_def)
  have raw: "filter (overlapping uid from to f) (activity_events (dbs w)) = filter (overlapping uid from to f) (activity_events (dbs w'))"
    by (rule same_view_filter[OF assms(3)]) (simp add: overlapping_def)
  have closed: "filter (in_days uid from to) (activity_events (dbs w)) = filter (in_days uid from to) (activity_events (dbs w'))"
    by (rule same_view_filter[OF assms(3)]) (simp add: in_days_def)
  show "alike w w' (RawActivityEventsForReport uid from to f w) (RawActivityEventsForReport uid from to f w')"
    using assms(1,2) row raw by (simp add: alike_def RawActivityEventsForReport_def exec_txt_def quiet_def)
  show "alike w w' (AppTotalsForRange uid from to s w) (AppTotalsForRange uid from to s w')"
    "alike w w' (CategoryTotalsForRange uid from to s w) (CategoryTotalsForRange uid from to s w')"
    using assms closed
    by (simp_all add: alike_def AppTotalsForRange_def CategoryTotalsForRange_def quiet_def same_view_def Let_def)
qed

lemma rawTotals_alike:
  assumes "quiet w" "quiet w'" and "same_view uid (dbs w) (dbs w')"
  shows "alike w w' (rawTotals x uid from to f dim w) (rawTotals x uid from to f dim w')"
proof (cases "parse_filter x f")
  case (Inr ef)
  show ?thesis
    by (rule alike_split[OF rows_alike(1)[OF assms, of "from" to ef]])
      (simp add: rawTotals_def Inr alike_def split: sum.split)
qed (simp add: rawTotals_def alike_def)

lemma raw_windows_alike:
  assumes "quiet w" "quiet w'" and "same_view uid (dbs w) (dbs w')"
  shows "alike w w' (raw_windows x uid f dim vs res w) (raw_windows x uid f dim vs res w')"
proof (induction vs arbitrary: res)
  case (Cons v vs)
  show ?case
    by (rule alike_split[OF rawTotals_alike[OF assms, of x "w_From v" "w_To v" f dim]])
      (use Cons.IH in \<open>auto simp: alike_def split: sum.split\<close>)
qed (simp add: alike_def)

lemma categoryTotals_alike:
  assumes "quiet w" "quiet w'" and "same_view uid (dbs w) (dbs w')"
  shows "alike w w' (categoryTotals x now uid from to f w) (categoryTotals x now uid from to f w')"
proof (cases "rf_AppID f \<noteq> [] \<or> rf_ProjectID f \<noteq> [] \<or> rf_DeviceID f \<noteq> [] \<or> rf_Precision f \<noteq> []")
  case True
  then show ?thesis using rawTotals_alike[OF assms] by (simp add: categoryTotals_def)
next
  case False
  obtain closed raw where s: "splitClosedOpen from to now = (closed, raw)" by (cases "splitClosedOpen from to now")
  let ?rows = "\<lambda>w. case closed of None \<Rightarrow> (Inr [], w)
    | Some c \<Rightarrow> CategoryTotalsForRange uid (w_From c) (w_To c) (windowSeconds c) w"
  have "alike w w' (?rows w) (?rows w')"
    using rows_alike(3)[OF assms] by (cases closed) (simp_all add: alike_def)
  then show ?thesis
  proof (rule alike_split)
    fix r assume r: "?rows w = (r, w)" "?rows w' = (r, w')"
    show ?thesis
    proof (cases r)
      case (Inr rows)
      show ?thesis
        by (rule alike_split[OF raw_windows_alike[OF assms, of x f dimCategory raw "category_rows x rows"]])
          (use False s r Inr in \<open>auto simp: categoryTotals_def alike_def split: sum.split\<close>)
    qed (use False s r in \<open>auto simp: categoryTotals_def alike_def\<close>)
  qed
qed

lemma appTotals_alike:
  assumes "quiet w" "quiet w'" and "same_view uid (dbs w) (dbs w')"
  shows "alike w w' (appTotals x now uid from to f w) (appTotals x now uid from to f w')"
proof (cases "rf_CategoryID f \<noteq> [] \<or> rf_ProjectID f \<noteq> [] \<or> rf_DeviceID f \<noteq> [] \<or> rf_Precision f \<noteq> []")
  case True
  then show ?thesis using rawTotals_alike[OF assms] by (simp add: appTotals_def)
next
  case False
  obtain closed raw where s: "splitClosedOpen from to now = (closed, raw)" by (cases "splitClosedOpen from to now")
  let ?rows = "\<lambda>w. case closed of None \<Rightarrow> (Inr [], w)
    | Some c \<Rightarrow> AppTotalsForRange uid (w_From c) (w_To c) (windowSeconds c) w"
  have "alike w w' (?rows w) (?rows w')"
    using rows_alike(2)[OF assms] by (cases closed) (simp_all add: alike_def)
  then show ?thesis
  proof (rule alike_split)
    fix r assume r: "?rows w = (r, w)" "?rows w' = (r, w')"
    show ?thesis
    proof (cases r)
      case (Inr rows)
      show ?thesis
        by (rule alike_split[OF raw_windows_alike[OF assms, of x f dimApp raw "app_rows x rows"]])
          (use False s r Inr in \<open>auto simp: appTotals_def alike_def split: sum.split\<close>)
    qed (use False s r in \<open>auto simp: appTotals_def alike_def\<close>)
  qed
qed

lemma report_alike:
  "alike w w' p p' \<Longrightarrow> alike w w' (list_report from to p) (list_report from to p')"
  "alike w w' p p' \<Longrightarrow> alike w w' (total_report from to p) (total_report from to p')"
  by (erule alike_split, simp add: alike_def list_report_def total_report_def split: sum.split)+

lemma checked_alike:
  "(\<And>uid. c = Inr uid \<Longrightarrow> alike w w' (k uid w) (k uid w')) \<Longrightarrow>
   alike w w' (case c of Inl e \<Rightarrow> (Inl e, w) | Inr uid \<Rightarrow> k uid w) (case c of Inl e \<Rightarrow> (Inl e, w') | Inr uid \<Rightarrow> k uid w')"
  by (cases c) (simp_all add: alike_def)

lemma report_checks_uid: "report_checks x userID from to f = Inr uid \<Longrightarrow> parseUUID x userID = Inr uid"
  by (auto simp: report_checks_def split: sum.splits option.splits)

text \<open>C15: a report depends on its user's events only, and changes nothing.  In two databases that
  agree on the events of the authenticated user, on the applications, the categories and the
  projects, whatever the other users tracked, every one of the five reports gives the same
  answer, errors included, and leaves the database as it was.\<close>

theorem reports_read_own_events:
  assumes "quiet w" and "quiet w'"
    and "\<And>uid. parseUUID x userID = Inr uid \<Longrightarrow> same_view uid (dbs w) (dbs w')"
  shows "alike w w' (Categories x now userID from to f w) (Categories x now userID from to f w') \<and>
    alike w w' (Apps x now userID from to f w) (Apps x now userID from to f w') \<and>
    alike w w' (Projects x userID from to f w) (Projects x userID from to f w') \<and>
    alike w w' (Summary x now userID from to f w) (Summary x now userID from to f w') \<and>
    alike w w' (Daily x now userID date f w) (Daily x now userID date f w')"
proof -
  have view: "same_view uid (dbs w) (dbs w')" if "report_checks x userID from to f = Inr uid" for uid
    using that assms(3) report_checks_uid by blast
  have daily: "alike w w' (Daily x now userID date f w) (Daily x now userID date f w')"
  proof (cases "parseUUID x userID")
    case (Inr uid)
    then show ?thesis
      using report_alike(2)[OF categoryTotals_alike[OF assms(1,2) assms(3)[OF Inr]]]
      by (cases "validatePrecision f") (simp_all add: Daily_def Let_def alike_def)
  qed (simp add: Daily_def alike_def)
  show ?thesis
    unfolding Categories_def Apps_def Projects_def Summary_def projectTotals_def
    by (intro conjI checked_alike report_alike daily categoryTotals_alike appTotals_alike rawTotals_alike assms(1,2) view)
qed

definition no_filters :: reportFilters where
  "no_filters = \<lparr>rf_AppID = [], rf_CategoryID = [], rf_ProjectID = [], rf_DeviceID = [], rf_Precision = []\<rparr>"

theorem reports_read_own_events_witness:
  "(let w = events_session [tracked_event 7 1 11 (3 * day) (3 * day + hour) False];
        w' = events_session [tracked_event 7 1 11 (3 * day) (3 * day + hour) False, tracked_event 8 2 12 (3 * day) (3 * day + hour) False]
    in fst (Categories sample_ext (9 * day) ''1'' (2 * day) (5 * day) no_filters w') =
       fst (Categories sample_ext (9 * day) ''1'' (2 * day) (5 * day) no_filters w))"
  unfolding Let_def
  by (rule reports_read_own_events[THEN conjunct1, unfolded alike_def, THEN conjunct1])
    (auto simp: same_view_def sample_db_def empty_db_def tracked_event_def)

section \<open>Where the two sources disagree\<close>

text \<open>Every event of the database deleted, as a tombstone does it.\<close>

definition tombstoned :: "(activity_event \<Rightarrow> int) \<Rightarrow> activity_event \<Rightarrow> activity_event" where
  "tombstoned q e = e\<lparr>ae_deleted := True, ae_server_seq := q e\<rparr>"

definition all_tombstoned :: "(activity_event \<Rightarrow> int) \<Rightarrow> world \<Rightarrow> world" where
  "all_tombstoned q w = w\<lparr>dbs := (dbs w)\<lparr>activity_events := map (tombstoned q) (activity_events (dbs w))\<rparr>\<rparr>"

lemma tombstoned_simps [simp]:
  "ae_user_id (tombstoned q e) = ae_user_id e" "ae_device_id (tombstoned q e) = ae_device_id e"
  "ae_started_at (tombstoned q e) = ae_started_at e" "ae_duration_s (tombstoned q e) = ae_duration_s e"
  "ae_app_id (tombstoned q e) = ae_app_id e" "ae_category_id (tombstoned q e) = ae_category_id e"
  "ae_deleted (tombstoned q e)"
  by (simp_all add: tombstoned_def)

lemma all_tombstoned_simps [simp]:
  "hazards (all_tombstoned q w) = hazards w" "apps (dbs (all_tombstoned q w)) = apps (dbs w)"
  "categories (dbs (all_tombstoned q w)) = categories (dbs w)"
  "activity_events (dbs (all_tombstoned q w)) = map (tombstoned q) (activity_events (dbs w))"
  by (simp_all add: all_tombstoned_def)

lemma in_days_tombstoned:
  "filter (in_days uid a b) (map (tombstoned q) evs) = map (tombstoned q) (filter (in_days uid a b) evs)"
  by (induction evs) (simp_all add: in_days_def)

lemma cagg_total_tombstoned:
  assumes "\<And>e. key (tombstoned q e) = key e"
  shows "cagg_total key s (map (tombstoned q) evs) k = cagg_total key s evs k"
  by (simp add: cagg_total_def filter_map comp_def assms)

lemma totals_tombstoned:
  assumes "hazards w = []"
  shows "fst (CategoryTotalsForRange uid a b s (all_tombstoned q w)) = fst (CategoryTotalsForRange uid a b s w)"
    "fst (AppTotalsForRange uid a b s (all_tombstoned q w)) = fst (AppTotalsForRange uid a b s w)"
  using assms
  by (simp_all add: CategoryTotalsForRange_def AppTotalsForRange_def in_days_tombstoned cagg_total_tombstoned Let_def comp_def)

definition unfiltered :: "reportFilters \<Rightarrow> bool" where
  "unfiltered f \<longleftrightarrow> rf_AppID f = [] \<and> rf_CategoryID f = [] \<and> rf_ProjectID f = [] \<and> rf_DeviceID f = [] \<and> rf_Precision f = []"

lemma closed_totals_tombstoned:
  assumes "hazards w = []" and "splitClosedOpen from to now = (closed, [])" and "unfiltered f"
  shows "fst (categoryTotals x now uid from to f (all_tombstoned q w)) = fst (categoryTotals x now uid from to f w)"
    "fst (appTotals x now uid from to f (all_tombstoned q w)) = fst (appTotals x now uid from to f w)"
  using assms totals_tombstoned[OF assms(1)]
  by (cases closed; auto simp: categoryTotals_def appTotals_def unfiltered_def only_id_def prod.case_eq_if split: sum.split)+

lemma raw_tombstoned:
  assumes "hazards w = []" and "unfiltered f"
  shows "fst (rawTotals x uid from to f dim (all_tombstoned q w)) = Inr []"
proof -
  have "filter (overlapping uid from to ef) (map (tombstoned q) evs) = []" for ef evs
    by (simp add: filter_empty_conv overlapping_def)
  then show ?thesis
    using assms
    by (simp add: rawTotals_def parse_filter_def parseOptionalUUID_def unfiltered_def RawActivityEventsForReport_def
        exec_txt_def opt_text_def raw_buckets_def)
qed

text \<open>C37: deleting events does not take them out of a closed period.  Over whole past days and
  without filters, the reports by category and by application give the same answer after every
  event of the database has been deleted as before; the report by project, over the same days,
  is then empty.\<close>

theorem deleted_events_still_count:
  assumes "hazards w = []" and "splitClosedOpen from to now = (closed, [])" and "unfiltered f"
    and "report_checks x userID from to f = Inr uid"
  shows "fst (Categories x now userID from to f (all_tombstoned q w)) = fst (Categories x now userID from to f w) \<and>
    fst (Apps x now userID from to f (all_tombstoned q w)) = fst (Apps x now userID from to f w) \<and>
    rep_Buckets (projr (fst (Projects x userID from to f (all_tombstoned q w)))) = []"
  using closed_totals_tombstoned[OF assms(1-3), of x uid q] raw_tombstoned[OF assms(1,3), of x uid "from" to dimProject q]
  by (auto simp: Categories_def Apps_def Projects_def projectTotals_def assms(4) list_report_def prod.case_eq_if
      toSortedSlice_def sortBucketsBySecondsDesc_def split: sum.split)

lemma duration_values: "day = 86400000000000" "hour = 3600000000000" "second = 1000000000"
  by (simp_all add: day_def duration_units)

lemma trunc_seconds_whole: "d mod 1000000000 = 0 \<Longrightarrow> trunc_seconds d = d div 1000000000"
  by (simp add: trunc_seconds_def second_def)

lemma unfiltered_no:
  "rf_AppID no_filters = []" "rf_CategoryID no_filters = []" "rf_ProjectID no_filters = []"
  "rf_DeviceID no_filters = []" "rf_Precision no_filters = []"
  by (simp_all add: no_filters_def)

lemma sample_checks:
  "report_checks sample_ext ''1'' (2 * day) (5 * day) no_filters = Inr 1"
  "report_checks sample_ext ''1'' (2 * day) (4 * day) no_filters = Inr 1"
  by (simp_all add: report_checks_def validateRange_def zero_time_def ValidateRange_def validatePrecision_def
      no_filters_def duration_values int64_ok_def int64_min_def int64_max_def MaxReportRange_def time_sub_def)

lemma sample_splits:
  "splitClosedOpen (2 * day) (5 * day) (9 * day) = (Some (Window (2 * day) (5 * day)), [])"
  "splitClosedOpen (2 * day) (4 * day) (3 * day + 12 * hour) = (Some (Window (2 * day) (3 * day)), [Window (3 * day) (4 * day)])"
  by (simp_all add: splitClosedOpen_def dayStart_def duration_values Let_def)

theorem deleted_events_still_count_witness:
  "(let w = events_session [tracked_event 7 1 11 (3 * day) (3 * day + hour) False]
    in fst (Categories sample_ext (9 * day) ''1'' (2 * day) (5 * day) no_filters (all_tombstoned (\<lambda>_. 2) w)) =
       fst (Categories sample_ext (9 * day) ''1'' (2 * day) (5 * day) no_filters w))"
  unfolding Let_def
  by (rule deleted_events_still_count[OF _ sample_splits(1) _ sample_checks(1), THEN conjunct1])
    (simp_all add: unfiltered_def no_filters_def)

text \<open>What the two queries find when the user has one event, that began in the past days of the range
  and ended today.\<close>

lemma only_event:
  assumes "filter (\<lambda>e. ae_user_id e = uid) evs = [e]" and "\<And>e. P e \<Longrightarrow> ae_user_id e = uid" and "P e"
  shows "filter P evs = [e]"
proof -
  have "filter P evs = filter P (filter (\<lambda>e. ae_user_id e = uid) evs)"
    using assms(2) by (induction evs) auto
  then show ?thesis using assms(1,3) by simp
qed

lemma pg_ts_whole: "1000 dvd t \<Longrightarrow> pg_ts t = t"
  by (auto simp: pg_ts_def)

lemma dayStart_facts: "1000 dvd dayStart t" "dayStart t \<le> t" "dayStart (dayStart t) = dayStart t"
  by (auto simp: dayStart_def day_def duration_units dvd_def)

lemma day_gap: "dayStart s < dayStart t \<Longrightarrow> day \<le> dayStart t - dayStart s"
  by (simp add: dayStart_def day_def duration_units)

lemma today_split:
  assumes "dayStart from = from" and "from < dayStart now" and "dayStart now < to"
  shows "splitClosedOpen from to now = (Some (Window from (dayStart now)), [Window (dayStart now) to])"
  using assms by (simp add: splitClosedOpen_def Let_def dayStart_facts)

lemma single_bucket: "sumSeconds (raw_buckets x dim from to [r]) =
    mergeAndSum (clipToWindow from to [Interval (rr_StartedAt r) (rr_EndedAt r)])"
  by (simp add: raw_buckets_def raw_bucket_def grouped_def perDeviceSeconds_def sumSeconds_def prod.case_eq_if)

lemma single_category: "sumSeconds (category_rows x [row]) = ct_TotalS row"
  by (simp add: category_rows_def sumSeconds_def split: option.split)

lemma merge_adds: "sumSeconds (mergeBucket dst i name bundle secs) = sumSeconds dst + secs"
  by (induction dst) (auto simp: sumSeconds_def)

lemma merge_buckets_adds: "sumSeconds (merge_buckets raw dst) = sumSeconds dst + sumSeconds raw"
proof (induction raw arbitrary: dst)
  case (Cons p raw)
  then show ?case by (cases p) (simp add: merge_buckets_def merge_adds, simp add: sumSeconds_def)
qed (simp add: merge_buckets_def sumSeconds_def)

text \<open>C38: the windows partition the range but the events do not follow them.  Over a range of past
  days and a part of today, let the user have one event, that began on one of those days and
  reaches over midnight into today.  The summary counts its whole duration in the closed window (at
  most the window), and the part after midnight once more.\<close>

theorem event_over_midnight_counts_twice:
  assumes "hazards w = []" and "unfiltered f" and "report_checks x userID from to f = Inr uid"
    and "dayStart from = from" and "from < dayStart now" and "dayStart now < to"
    and "filter (\<lambda>e. ae_user_id e = uid) (activity_events (dbs w)) = [e]" and "\<not> ae_deleted e"
    and "from \<le> dayStart (ae_started_at e)" and "ae_started_at e < dayStart now"
    and "dayStart now < ae_ended_at e" and "ae_ended_at e \<le> to" and "1000 dvd ae_ended_at e" "1000 dvd to"
  shows "\<exists>rep. fst (Summary x now userID from to f w) = Inr rep \<and>
    rep_TotalTrackedSeconds rep =
      min (ae_duration_s e) ((dayStart now - from) div second) + (ae_ended_at e - dayStart now) div second"
proof -
  let ?mid = "dayStart now" and ?d = "dbs w" and ?n = "\<lparr>ef_AppID = None, ef_CategoryID = None, ef_ProjectID = None, ef_DeviceID = None, ef_Precision = None\<rparr>"
  have "validateRange from to = None" using assms(3) by (auto simp: report_checks_def split: sum.splits option.splits)
  then have "to - from \<le> MaxReportRange" by (auto simp: validateRange_def ValidateRange_None split: if_splits)
  then have range: "int64_ok (?mid - from)" "int64_ok (to - ?mid)"
    using assms(5,6) MaxReportRange_ok(1) by (auto simp: int64_ok_def int64_min_def)
  have dvd: "1000 dvd from" "1000 dvd ?mid" using dayStart_facts(1)[of "from"] dayStart_facts(1)[of now] assms(4) by simp_all
  have u: "ae_user_id e = uid" using assms(7) by (auto dest: filter_eq_ConsD)
  have "filter (in_days uid from ?mid) (activity_events ?d) = [e]"
    using assms(7) by (rule only_event) (use u assms(9,10) dayStart_facts(2)[of "ae_started_at e"] in \<open>auto simp: in_days_def pg_ts_whole dvd\<close>)
  then have "CategoryTotalsForRange uid from ?mid s w = (Inr [\<lparr>ct_CategoryID = ae_category_id e,
      ct_CategoryName = map_option cat_name (joined cat_id (categories ?d) (ae_category_id e)), ct_TotalS = min (ae_duration_s e) s\<rparr>], w)" for s
    using assms(1) by (simp add: CategoryTotalsForRange_def cagg_total_def Let_def del: filter_filter)
  moreover have "filter (overlapping uid ?mid to ?n) (activity_events ?d) = [e]"
    using assms(7) by (rule only_event) (use u assms(6,8,10,11,14) in \<open>auto simp: overlapping_def passes_def opt_match_def pg_ts_whole dvd\<close>)
  then have "rawTotals x uid ?mid to f dimCategory w = (Inr (raw_buckets x dimCategory ?mid to [report_row_of ?d e]), w)"
    using assms(1,2) by (simp add: rawTotals_def parse_filter_def parseOptionalUUID_def unfiltered_def RawActivityEventsForReport_def
        exec_txt_def opt_text_def)
  moreover have "mergeAndSum (clipToWindow ?mid to [Interval (ae_started_at e) (ae_ended_at e)]) = (ae_ended_at e - ?mid) div second"
    using span_seconds(2)[of to ?mid "Interval ?mid (ae_ended_at e)"] range(2) assms(10-13) dvd
    by (simp add: mergeAndSum_def clipToWindow_def clip_def tidy_def)
  moreover have "windowSeconds (Window from ?mid) = (?mid - from) div second"
  proof -
    have "day \<le> ?mid - from" using day_gap assms(4,5) by metis
    then have "1 \<le> (?mid - from) div second" using zdiv_mono1[of day "?mid - from" second] by (simp add: day_def duration_units)
    moreover have "trunc_seconds (time_sub ?mid from) = (?mid - from) div second"
      using span_seconds(2)[OF range(1), of "Interval from ?mid"] assms(5) dvd by (simp add: tidy_def)
    ultimately show ?thesis by (simp add: windowSeconds_def)
  qed
  ultimately show ?thesis
    using assms(2,3) by (simp add: Summary_def categoryTotals_def today_split[OF assms(4-6)] unfiltered_def only_id_def total_report_def
        merge_buckets_adds single_category single_bucket report_row_of_def)
qed

text \<open>An hour from half past eleven of the day before to half past midnight.\<close>

theorem event_over_midnight_counts_twice_witness:
  "rep_TotalTrackedSeconds (projr (fst (Summary sample_ext (3 * day + 12 * hour) ''1'' (2 * day) (4 * day) no_filters
     (events_session [tracked_event 7 1 11 (3 * day - hour div 2) (3 * day + hour div 2) False])))) = 5400"
proof -
  let ?e = "tracked_event 7 1 11 (3 * day - hour div 2) (3 * day + hour div 2) False"
  have d: "dayStart (2 * day) = 2 * day" "dayStart (3 * day + 12 * hour) = 3 * day"
    by (simp_all add: dayStart_def duration_values)
  have "\<exists>rep. fst (Summary sample_ext (3 * day + 12 * hour) ''1'' (2 * day) (4 * day) no_filters (events_session [?e])) = Inr rep \<and>
      rep_TotalTrackedSeconds rep = min (ae_duration_s ?e) ((dayStart (3 * day + 12 * hour) - 2 * day) div second) +
        (ae_ended_at ?e - dayStart (3 * day + 12 * hour)) div second"
    by (rule event_over_midnight_counts_twice[OF _ _ sample_checks(2) d(1), where e = ?e])
      (simp_all only: d, simp_all add: tracked_event_def unfiltered_def no_filters_def duration_values dayStart_def)
  then show ?thesis unfolding d by (auto simp: tracked_event_def duration_values epoch_s_def)
qed

end
