(* ===== verification/ActivityProps.thy ===== *)
theory ActivityProps
  imports Activities Sample
begin

text \<open>
  A client that follows the cursors of the activity list reads every matching event once and
  comes to an end; and the events the first cursor hides.
\<close>

section \<open>The events as the table holds them\<close>

text \<open>The primary key, and instants of whole microseconds.\<close>

definition stored_events :: "db \<Rightarrow> bool" where
  "stored_events d \<longleftrightarrow>
     distinct (map event_key (activity_events d)) \<and>
     (\<forall>e\<in>set (activity_events d). pg_ts (ae_started_at e) = ae_started_at e)"

text \<open>The driver reads back the ids it printed, and the nil id.\<close>

definition uuid_codec :: "ext \<Rightarrow> bool" where
  "uuid_codec x \<longleftrightarrow>
     (\<forall>u. uuid_scan x (uuid_string x u) = Some (Some u)) \<and> uuid_scan x nil_uuid_text = Some (Some 0)"

type_synonym event_request = "uuid \<times> time \<times> time \<times> event_filter"

definition matching :: "event_request \<times> world \<Rightarrow> activity_event list" where
  "matching s = (case s of ((uid, from, to, f), w) \<Rightarrow>
     sort_key event_pos (filter (listed uid from to f) (activity_events (dbs w))))"

definition matching_page :: "time \<times> uuid \<Rightarrow> int \<Rightarrow> event_request \<times> world \<Rightarrow> activity_event list" where
  "matching_page c n s = (case s of ((uid, from, to, f), w) \<Rightarrow>
     take (nat n) (sort_key event_pos
       (filter (\<lambda>e. listed uid from to f e \<and> c < event_pos e) (activity_events (dbs w)))))"

interpretation event_feed: keyset_feed event_pos matching matching_page "\<lambda>s. stored_events (dbs (snd s))"
proof
  fix s :: "event_request \<times> world"
  obtain uid "from" to f w where s: "s = ((uid, from, to, f), w)" by (metis surj_pair)
  assume "stored_events (dbs (snd s))"
  then have "distinct (map event_key (filter (listed uid from to f) (activity_events (dbs w))))"
    by (simp add: s stored_events_def distinct_map_filter)
  then have "distinct (map event_pos (filter (listed uid from to f) (activity_events (dbs w))))"
    by (auto simp: distinct_map inj_on_def event_key_def event_pos_def listed_def)
  then show "sorted_wrt (<) (map event_pos (matching s))"
    unfolding matching_def s prod.case by (rule sorted_wrt_sort_key)
next
  fix s :: "event_request \<times> world" and c n
  show "matching_page c n s = take (nat n) (filter (\<lambda>e. c < event_pos e) (matching s))"
    by (simp add: matching_page_def matching_def sort_filter_commute split: prod.split)
qed

section \<open>One request\<close>

lemma cursor_position:
  assumes "uuid_codec x" and "int64_ok (ae_started_at e)"
  shows "decodeCursor x (encodeCursor (EvCursor (ae_started_at e) (uuid_string x (ae_event_id e)))) =
      Inr (EvCursor (ae_started_at e) (uuid_string x (ae_event_id e)))"
    and "cursor_uuid x (EvCursor (ae_started_at e) (uuid_string x (ae_event_id e))) = Some (ae_event_id e)"
  using assms by (simp_all add: ev_decode_encode ev_valid_def scans_def uuid_codec_def cursor_uuid_def parseUUID_def)

lemma list_limit: "1 \<le> clamp_limit defaultListLimit maxListLimit n" "clamp_limit defaultListLimit maxListLimit n < 2 ^ 31 - 1"
  by (auto simp: clamp_limit_def defaultListLimit_def maxListLimit_def Let_def)

lemma parse_filter_text: "parse_filter x f = Inr ef \<Longrightarrow> list_all text_ok (opt_text (ef_Precision ef))"
  by (auto simp: parse_filter_def validPrecision_def opt_text_def text_ok_def split: sum.splits if_splits)

lemma list_page_quiet:
  assumes "quiet w" and "list_all text_ok (opt_text (ef_Precision f))"
    and "decodeCursor x raw = Inr cur" and "cursor_uuid x cur = Some i" and "pg_ts (cur_started_at cur) = cur_started_at cur"
    and "page_cut event_pos (clamp_limit defaultListLimit maxListLimit n) (cur_started_at cur, i)
      (matching_page (cur_started_at cur, i) (LimitParam (clamp_limit defaultListLimit maxListLimit n + 1)) ((uid, from, to, f), w))
      = (kept, nxt, hm)"
  shows "list_page x msg uid from to f raw n w =
    (Inr (kept, if kept \<noteq> [] then encodeCursor (EvCursor (ae_started_at (last kept)) (uuid_string x (ae_event_id (last kept)))) else raw, hm), w)"
proof -
  have "past_cursor (cur_started_at cur) (Some i) = (\<lambda>e. (cur_started_at cur, i) < event_pos e)"
    using assms(5) by (auto simp: past_cursor_def event_pos_def less_prod_def fun_eq_iff)
  then show ?thesis
    using assms by (auto simp: list_page_def ListActivityEventsForUser_def matching_page_def page_cut_def Let_def
        exec_txt_def quiet_def split: if_splits)
qed

section \<open>Following the cursors\<close>

fun list_all_pages :: "ext \<Rightarrow> string \<Rightarrow> ListParams \<Rightarrow> nat \<Rightarrow> world \<Rightarrow> activity_event list option" where
  "list_all_pages x userID p 0 w = None"
| "list_all_pages x userID p (Suc fuel) w =
     (case Activities.List x userID p w of
        (Inl _, _) \<Rightarrow> None
      | (Inr (rows, nextCursor, hasMore), w') \<Rightarrow>
          if hasMore then map_option (\<lambda>rest. rows @ rest) (list_all_pages x userID (p\<lparr>lp_Cursor := nextCursor\<rparr>) fuel w')
          else Some rows)"

lemma list_checks_cursor [simp]: "list_checks x userID (p\<lparr>lp_Cursor := c\<rparr>) = list_checks x userID p"
  by (simp add: list_checks_def filters_of_def split: sum.split option.split)

lemma list_checks_text: "list_checks x userID p = Inr (uid, f) \<Longrightarrow> list_all text_ok (opt_text (ef_Precision f))"
  by (auto simp: list_checks_def map_sum_def dest: parse_filter_text split: sum.splits option.splits if_splits)

lemma pages_walk:
  assumes q: "quiet w" and codec: "uuid_codec x" and ok: "list_checks x userID p = Inr (uid, f)"
    and wf: "stored_events (dbs w)"
    and range: "\<forall>e\<in>set (matching ((uid, lp_From p, lp_To p, f), w)). int64_ok (ae_started_at e)"
  shows "decodeCursor x (lp_Cursor p) = Inr cur \<Longrightarrow> cursor_uuid x cur = Some i \<Longrightarrow> pg_ts (cur_started_at cur) = cur_started_at cur
    \<Longrightarrow> list_all_pages x userID p fuel w =
      walk event_pos matching_page (clamp_limit defaultListLimit maxListLimit (lp_Limit p)) fuel (cur_started_at cur, i)
        ((uid, lp_From p, lp_To p, f), w)"
  using ok range
proof (induction fuel arbitrary: p cur i)
  case (Suc fuel)
  let ?l = "clamp_limit defaultListLimit maxListLimit (lp_Limit p)" and ?s = "((uid, lp_From p, lp_To p, f), w)"
  obtain kept nxt hm where cut: "page_cut event_pos ?l (cur_started_at cur, i)
      (matching_page (cur_started_at cur, i) (LimitParam (?l + 1)) ?s) = (kept, nxt, hm)"
    by (metis prod_cases3)
  note page = list_page_quiet[OF q list_checks_text[OF Suc.prems(4)] Suc.prems(1-3) cut]
  note facts = event_feed.page_complete[of ?s ?l "(cur_started_at cur, i)", simplified, OF wf list_limit(1) list_limit(2)[simplified] cut]
  show ?case
  proof (cases hm)
    case False
    then show ?thesis using Suc.prems(4) page cut by (simp add: List_def)
  next
    case True
    have ne: "kept \<noteq> []" using facts(1,2) True list_limit(1)[of "lp_Limit p"] by auto
    let ?e = "last kept"
    have mem: "?e \<in> set (matching ?s)"
      using facts(1) last_in_set[OF ne] by (auto dest: in_set_takeD)
    then have ev: "int64_ok (ae_started_at ?e)" "pg_ts (ae_started_at ?e) = ae_started_at ?e"
      using Suc.prems(5) wf by (auto simp: matching_def stored_events_def)
    have nxt: "nxt = event_pos ?e" using cut ne by (auto simp: page_cut_def Let_def split: if_splits)
    let ?c = "EvCursor (ae_started_at ?e) (uuid_string x (ae_event_id ?e))"
    let ?p = "p\<lparr>lp_Cursor := encodeCursor ?c\<rparr>"
    have "list_all_pages x userID ?p fuel w = walk event_pos matching_page ?l fuel nxt ?s"
      using Suc.IH[of ?p ?c "ae_event_id ?e"] cursor_position[OF codec ev(1)] ev(2) Suc.prems(4,5) nxt
      by (simp add: event_pos_def[of "last kept"])
    then show ?thesis using Suc.prems(4) page cut True ne by (simp add: List_def)
  qed
qed simp

text \<open>C23: the activity list ends and delivers everything.  In an unchanging session a client that
  repeats a valid request at the cursor it was given stops after at most one request for each
  matching event and one more, without an error, and has then read every matching event exactly
  once, in order of time; whatever limit it asked for.  The events must start at or after the
  first instant the empty cursor admits and before the nanosecond clock of the cursor ends.\<close>

theorem activity_list_ends_complete:
  assumes "quiet w" and "uuid_codec x" and "stored_events (dbs w)"
    and "list_checks x userID p = Inr (uid, f)" and "lp_Cursor p = []"
    and "\<forall>e\<in>set (activity_events (dbs w)). listed uid (lp_From p) (lp_To p) f e \<longrightarrow> (0, 0) < event_pos e \<and> int64_ok (ae_started_at e)"
    and "length (filter (listed uid (lp_From p) (lp_To p) f) (activity_events (dbs w))) < fuel"
  shows "list_all_pages x userID p fuel w =
    Some (sort_key event_pos (filter (listed uid (lp_From p) (lp_To p) f) (activity_events (dbs w))))"
proof -
  let ?s = "((uid, lp_From p, lp_To p, f), w)" and ?l = "clamp_limit defaultListLimit maxListLimit (lp_Limit p)"
  have m: "matching ?s = sort_key event_pos (filter (listed uid (lp_From p) (lp_To p) f) (activity_events (dbs w)))"
    by (simp add: matching_def)
  have ok: "\<forall>e\<in>set (matching ?s). (0, 0) < event_pos e \<and> int64_ok (ae_started_at e)"
    using assms(6) by (simp add: m)
  have "list_all_pages x userID p fuel w = walk event_pos matching_page ?l fuel (0, 0) ?s"
    using pages_walk[OF assms(1,2,4,3), of zeroCursor 0] ok assms(2,5)
    by (simp add: decodeCursor_def zeroCursor_def cursor_uuid_def parseUUID_def uuid_codec_def pg_ts_def)
  also have "\<dots> = Some (filter (\<lambda>e. (0, 0) < event_pos e) (matching ?s))"
    by (rule event_feed.walk_complete) (use assms(3,7) list_limit in \<open>simp_all add: m le_less_trans[OF length_filter_le]\<close>)
  also have "filter (\<lambda>e. (0, 0) < event_pos e) (matching ?s) = matching ?s"
    using ok by (simp add: filter_id_conv)
  finally show ?thesis by (simp only: m)
qed

text \<open>An event before the epoch is behind the first cursor.\<close>

lemma epoch_cut:
  assumes "hazards w = []" and "scans x nil_uuid_text" and "list_all text_ok (opt_text (ef_Precision f))"
    and "\<forall>e\<in>set (activity_events (dbs w)). ae_started_at e < 0"
  shows "fst (list_page x msg uid from to f [] n w) = Inr ([], [], False)"
proof -
  have "filter (\<lambda>e. listed uid from to f e \<and> past_cursor 0 i e) (activity_events (dbs w)) = []" for i
    using assms(4) by (fastforce simp: filter_empty_conv past_cursor_def pg_ts_def)
  then show ?thesis
    using assms(1,3) list_limit(1)[of n]
    by (simp add: list_page_def decodeCursor_def zeroCursor_def ListActivityEventsForUser_def exec_txt_def Let_def)
qed

text \<open>Events before 1970 are never listed.  The empty cursor is the Unix epoch, so an event that
  started before it is on no page of the list, nor of the timeline, whatever range and filters are
  asked for: the first page is empty and says that there is no more.\<close>

lemma events_before_epoch_not_listed:
  assumes "hazards w = []" and "scans x nil_uuid_text"
    and "list_checks x userID p = Inr (uid, f)" and "lp_Cursor p = []"
    and "\<forall>e\<in>set (activity_events (dbs w)). ae_started_at e < 0"
  shows "fst (Activities.List x userID p w) = Inr ([], [], False) \<and>
    fst (Timeline x userID (lp_From p) (lp_To p) (filters_of p) [] (lp_Limit p) w) = Inr ([], [], False)"
proof -
  from assms(3) have pf: "parse_filter x (filters_of p) = Inr f" and u: "parseUUID x userID = Inr uid"
    and r: "report_checks x userID (lp_From p) (lp_To p) (filters_of p) = Inr uid"
    by (auto simp: list_checks_def report_checks_def validateRange_def validatePrecision_def parse_filter_def
        split: sum.splits option.splits if_splits)
  show ?thesis
    using epoch_cut[OF assms(1,2) list_checks_text[OF assms(3)] assms(5)] assms(3,4) pf r
    by (simp add: List_def Timeline_def)
qed

text \<open>The sample codec, reading ids over their hyphens.\<close>

definition dashed_ext :: ext where
  "dashed_ext = sample_ext\<lparr>uuid_scan := (\<lambda>s. uuid_scan sample_ext (filter (\<lambda>c. c \<noteq> CHR ''-'') s))\<rparr>"

lemma dashed_codec: "uuid_codec dashed_ext"
proof -
  have "filter (\<lambda>c. c \<noteq> CHR ''-'') (format_nat n) = format_nat n" for n
    by (auto simp: filter_id_conv format_nat_no_char)
  moreover have "parse_digits 0 (filter (\<lambda>c. c \<noteq> CHR ''-'') nil_uuid_text) = Some 0"
    by (simp add: nil_uuid_text_def char_digit_def of_char_def)
  moreover have "filter (\<lambda>c. c \<noteq> CHR ''-'') nil_uuid_text \<noteq> []"
    by (simp add: nil_uuid_text_def)
  ultimately show ?thesis by (simp add: uuid_codec_def dashed_ext_def sample_ext_def)
qed

definition sample_list :: ListParams where
  "sample_list = \<lparr>lp_From = 2 * hour, lp_To = 9 * hour, lp_AppID = [], lp_CategoryID = [], lp_ProjectID = [],
     lp_DeviceID = [], lp_Precision = [], lp_Cursor = [], lp_Limit = 1\<rparr>"

definition any_event :: event_filter where
  "any_event = \<lparr>ef_AppID = None, ef_CategoryID = None, ef_ProjectID = None, ef_DeviceID = None, ef_Precision = None\<rparr>"

lemma sample_list_checks: "list_checks dashed_ext ''1'' sample_list = Inr (1, any_event)"
proof -
  have "parseUUID dashed_ext ''1'' = Inr 1" by code_simp
  moreover have "ValidateRange (2 * hour) (9 * hour) = None"
    by (simp add: ValidateRange_None MaxReportRange_def duration_units)
  ultimately show ?thesis
    by (simp add: list_checks_def sample_list_def filters_of_def parse_filter_def parseOptionalUUID_def any_event_def
        zero_time_def duration_units)
qed

theorem activity_list_ends_complete_witness:
  "(let a = tracked_event 7 1 11 (3 * hour) (4 * hour) False; b = tracked_event 8 1 11 (5 * hour) (6 * hour) False
    in list_all_pages dashed_ext ''1'' sample_list 3 (events_session [b, tracked_event 9 2 12 (3 * hour) (4 * hour) False, a]) = Some [a, b])"
proof -
  let ?a = "tracked_event 7 1 11 (3 * hour) (4 * hour) False" and ?b = "tracked_event 8 1 11 (5 * hour) (6 * hour) False"
  let ?w = "events_session [?b, tracked_event 9 2 12 (3 * hour) (4 * hour) False, ?a]"
  have l: "filter (listed 1 (lp_From sample_list) (lp_To sample_list) any_event) (activity_events (dbs ?w)) = [?b, ?a]"
    by (simp add: listed_def tracked_event_def sample_list_def any_event_def passes_def opt_match_def pg_ts_def duration_units)
  have wf: "stored_events (dbs ?w)"
    by (simp add: stored_events_def event_key_def tracked_event_def pg_ts_def duration_units)
  have r: "\<forall>e\<in>set (activity_events (dbs ?w)). listed 1 (lp_From sample_list) (lp_To sample_list) any_event e \<longrightarrow>
      (0, 0) < event_pos e \<and> int64_ok (ae_started_at e)"
    by (simp add: event_pos_def tracked_event_def int64_ok_def int64_min_def int64_max_def duration_units)
  show ?thesis
    using activity_list_ends_complete[OF _ dashed_codec wf sample_list_checks _ r, of 3] l
    by (simp add: sample_list_def event_pos_def tracked_event_def duration_units)
qed

end
