(* ===== verification/CatalogLists.thy ===== *)
theory CatalogLists
  imports CatalogTheorems
begin

text \<open>
  The lists of the projects, tags, categories and focus sessions: a client that follows
  \<^verbatim>\<open>next_cursor\<close> comes to an end and has read every row of its user that is
  not deleted, once, in the order of the sequence numbers.  The four queries are one keyset feed
  over the table they read.
\<close>

section \<open>Keys and sequence numbers\<close>

text \<open>
  A row's key is its own, and so is the sequence number that the trigger drew for its last change.
  The sequence starts at one and \<^verbatim>\<open>n\<close> is what it has come to.
\<close>

definition table_ok :: "'r table \<Rightarrow> int \<Rightarrow> 'r list \<Rightarrow> bool" where
  "table_ok T n rs \<longleftrightarrow>
     0 \<le> n \<and> distinct (map (key_of T) rs) \<and> distinct (map (seq_of T) rs) \<and>
     (\<forall>r\<in>set rs. 0 < seq_of T r \<and> seq_of T r \<le> n)"

lemma table_ok_later: "table_ok T n rs \<Longrightarrow> n \<le> m \<Longrightarrow> table_ok T m rs"
  by (fastforce simp: table_ok_def)

lemma table_ok_insert:
  assumes "table_ok T n rs" and "key_of T row \<notin> key_of T ` set rs" and "n < seq_of T row" "seq_of T row \<le> m"
  shows "table_ok T m (rs @ [row])"
  using assms by (fastforce simp: table_ok_def)

lemma table_ok_update:
  assumes ok: "table_ok T n rs" and P: "\<And>r. P r \<Longrightarrow> key_of T r = i" and g: "\<And>r. key_of T (g r) = key_of T r"
    and seq: "\<And>r. seq_of T (g r) = m" and m: "n < m"
  shows "table_ok T m (update_where P g rs)"
proof (cases "filter P rs")
  case Nil
  then have "update_where P g rs = rs" by (auto simp: update_where_def filter_empty_conv intro: map_idI)
  then show ?thesis using table_ok_later[OF ok] m by simp
next
  case (Cons r0 rest)
  have dist: "distinct (map (key_of T) rs)" using ok by (simp add: table_ok_def)
  note upd = update_where_distinct[OF dist Cons P g]
  have keys: "map (key_of T) (update_where P g rs) = map (key_of T) rs" by (rule upd(3))
  have rows: "set (update_where P g rs) = insert (g r0) (set rs - {r0})" by (rule upd(4))
  have below: "0 < seq_of T r \<and> seq_of T r < m" if "r \<in> set rs" for r using ok m that by (fastforce simp: table_ok_def)
  have "inj_on (seq_of T) (set rs)" using ok by (simp add: table_ok_def distinct_map)
  then have "inj_on (seq_of T) (insert (g r0) (set rs - {r0}))"
    using below seq by (auto simp: inj_on_def)
  moreover have "distinct (update_where P g rs)" using keys dist by (metis distinct_map)
  ultimately have "distinct (map (seq_of T) (update_where P g rs))" by (simp add: distinct_map rows)
  then show ?thesis using ok m keys rows below seq by (auto simp: table_ok_def dest: less_imp_le)
qed

definition tables_ok :: "world \<Rightarrow> bool" where
  "tables_ok w \<longleftrightarrow>
     distinct (map event_key (activity_events (dbs w))) \<and>
     table_ok project_table (server_seq_global w) (projects (dbs w)) \<and>
     table_ok tag_table (server_seq_global w) (tags (dbs w)) \<and>
     table_ok category_table (server_seq_global w) (categories (dbs w)) \<and>
     table_ok focus_table (server_seq_global w) (focus_sessions (dbs w))"

section \<open>The feed of a table\<close>

definition seqs_ok :: "'r table \<Rightarrow> db \<Rightarrow> bool" where
  "seqs_ok T d \<longleftrightarrow>
     distinct (map (seq_of T) (rows_of T d)) \<and> (\<forall>r\<in>set (rows_of T d). 0 < seq_of T r \<and> int64_ok (seq_of T r))"

lemma tables_ok_seqs:
  assumes "tables_ok w" and "int64_ok (server_seq_global w)"
  shows "seqs_ok project_table (dbs w)" "seqs_ok tag_table (dbs w)" "seqs_ok category_table (dbs w)" "seqs_ok focus_table (dbs w)"
  using assms
  by (fastforce simp: tables_ok_def table_ok_def seqs_ok_def table_defs int64_ok_def int64_min_def)+

definition listed_rows :: "'r table \<Rightarrow> ('r \<Rightarrow> bool) \<Rightarrow> world \<Rightarrow> 'r list" where
  "listed_rows T P w = sort_key (seq_of T) (filter P (rows_of T (dbs w)))"

definition listed_page :: "'r table \<Rightarrow> ('r \<Rightarrow> bool) \<Rightarrow> int \<Rightarrow> int \<Rightarrow> world \<Rightarrow> 'r list" where
  "listed_page T P c n w =
     take (nat n) (sort_key (seq_of T) (filter (\<lambda>r. P r \<and> c < seq_of T r) (rows_of T (dbs w))))"

interpretation catalog_feed: keyset_feed "seq_of T" "listed_rows T P" "listed_page T P" "\<lambda>w. seqs_ok T (dbs w)"
  for T :: "'r table" and P :: "'r \<Rightarrow> bool"
proof
  fix w :: world assume "seqs_ok T (dbs w)"
  then have "distinct (map (seq_of T) (filter P (rows_of T (dbs w))))"
    by (simp add: seqs_ok_def distinct_map_filter)
  then show "sorted_wrt (<) (map (seq_of T) (listed_rows T P w))"
    unfolding listed_rows_def by (rule sorted_wrt_sort_key)
qed (simp add: listed_page_def listed_rows_def sort_filter_commute)

section \<open>Following the cursors\<close>

fun all_pages :: "(string \<Rightarrow> world \<Rightarrow> (crud_error + 'r list \<times> string \<times> bool) \<times> world) \<Rightarrow> nat \<Rightarrow> string \<Rightarrow> world \<Rightarrow> 'r list option" where
  "all_pages list 0 cur w = None"
| "all_pages list (Suc fuel) cur w =
     (case list cur w of
        (Inl _, _) \<Rightarrow> None
      | (Inr (rows, nextCursor, hasMore), w') \<Rightarrow>
          if hasMore then map_option (\<lambda>rest. rows @ rest) (all_pages list fuel nextCursor w')
          else Some rows)"

lemma crud_limit: "1 \<le> clamp_limit defaultListLimit maxListLimit n" "clamp_limit defaultListLimit maxListLimit n < 2 ^ 31 - 1"
  by (auto simp: clamp_limit_def defaultListLimit_def maxListLimit_def Let_def)

lemma crud_list_quiet:
  assumes "quiet w" and "parseUUID x userID = Inr uid" and "DecodeCursor cur = Inr c"
    and "query uid = (\<lambda>c n. exec (list_rows T P c n))"
    and "page_cut (seq_of T) (clamp_limit defaultListLimit maxListLimit n) c
      (listed_page T P c (LimitParam (clamp_limit defaultListLimit maxListLimit n + 1)) w) = (ks, nxt, hm)"
  shows "crud_list x msg query (seq_of T) userID cur n w = (Inr (ks, EncodeCursor nxt, hm), w)"
  using assms by (simp add: crud_list_def user_of_def quiet_def list_rows_def listed_page_def Let_def)

lemma catalog_pages_walk:
  assumes q: "quiet w" and uid: "parseUUID x userID = Inr uid" and query: "query uid = (\<lambda>c n. exec (list_rows T P c n))"
    and ok: "seqs_ok T (dbs w)"
  shows "DecodeCursor cur = Inr c \<Longrightarrow>
    all_pages (\<lambda>cur. crud_list x msg query (seq_of T) userID cur n) fuel cur w =
      walk (seq_of T) (listed_page T P) (clamp_limit defaultListLimit maxListLimit n) fuel c w"
proof (induction fuel arbitrary: cur c)
  case (Suc fuel)
  let ?l = "clamp_limit defaultListLimit maxListLimit n"
  obtain ks nxt hm where cut: "page_cut (seq_of T) ?l c (listed_page T P c (LimitParam (?l + 1)) w) = (ks, nxt, hm)"
    by (metis prod_cases3)
  note page = crud_list_quiet[where query = query and msg = msg, OF q uid Suc.prems query cut]
  note facts = catalog_feed.page_complete[OF ok crud_limit cut]
  show ?case
  proof (cases hm)
    case False
    then show ?thesis using page cut by simp
  next
    case True
    have ne: "ks \<noteq> []" using facts(1,2) True crud_limit(1)[of n] by auto
    have "last ks \<in> set (rows_of T (dbs w))"
      using facts(1) last_in_set[OF ne] by (auto simp: listed_rows_def dest: in_set_takeD)
    moreover have "nxt = seq_of T (last ks)" using cut ne by (auto simp: page_cut_def Let_def split: if_splits)
    ultimately have "seq_valid nxt" using ok by (auto simp: seqs_ok_def seq_valid_def)
    then have "DecodeCursor (EncodeCursor nxt) = Inr nxt" by (rule seq_codec.decode_encode)
    from Suc.IH[OF this] show ?thesis using page cut True by simp
  qed
qed simp

lemma crud_list_complete:
  assumes "quiet w" and "parseUUID x userID = Inr uid" and "query uid = (\<lambda>c n. exec (list_rows T P c n))"
    and "seqs_ok T (dbs w)" and "length (rows_of T (dbs w)) < fuel"
  shows "all_pages (\<lambda>cur. crud_list x msg query (seq_of T) userID cur n) fuel [] w =
    Some (sort_key (seq_of T) (filter P (rows_of T (dbs w))))"
proof -
  have all: "filter (\<lambda>r. 0 < seq_of T r) (listed_rows T P w) = listed_rows T P w"
    using assms(4) by (auto simp: filter_id_conv listed_rows_def seqs_ok_def)
  have "length (listed_rows T P w) < fuel"
    using assms(5) by (simp add: listed_rows_def le_less_trans[OF length_filter_le])
  then have "walk (seq_of T) (listed_page T P) (clamp_limit defaultListLimit maxListLimit n) fuel 0 w = Some (listed_rows T P w)"
    using catalog_feed.walk_complete[OF assms(4) crud_limit, of 0 P fuel] by (simp only: all)
  then show ?thesis
    using catalog_pages_walk[where query = query and cur = "[]" and c = 0 and msg = msg and n = n, OF assms(1-4)] by (simp add: DecodeCursor_def listed_rows_def)
qed

text \<open>C24: the catalog lists end and are complete.  In an unchanging session a client that repeats a
  list request at the cursor it was given stops after at most one request for each row of the
  table and one more, without an error, and has read every project, tag, category or focus session
  it may see that is not deleted, the system categories included, exactly once, in the order of
  their last change; whatever limit it asked for.\<close>

theorem catalog_lists_end_complete:
  assumes "quiet w" and "parseUUID x userID = Inr uid"
    and "tables_ok w" and "int64_ok (server_seq_global w)"
    and "length (projects (dbs w)) < fuel" "length (tags (dbs w)) < fuel"
      "length (categories (dbs w)) < fuel" "length (focus_sessions (dbs w)) < fuel"
  shows "all_pages (\<lambda>cur. Projects.List x userID cur n) fuel [] w =
      Some (sort_key pr_server_seq (filter (\<lambda>p. pr_user_id p = uid \<and> pr_deleted_at p = None) (projects (dbs w)))) \<and>
    all_pages (\<lambda>cur. Tags.List x userID cur n) fuel [] w =
      Some (sort_key tag_server_seq (filter (\<lambda>t. tag_user_id t = uid \<and> tag_deleted_at t = None) (tags (dbs w)))) \<and>
    all_pages (\<lambda>cur. Categories.List x userID cur n) fuel [] w =
      Some (sort_key cat_server_seq (filter (readable_category uid) (categories (dbs w)))) \<and>
    all_pages (\<lambda>cur. FocusSessions.List x userID cur n) fuel [] w =
      Some (sort_key fs_server_seq (filter (\<lambda>f. fs_user_id f = uid \<and> fs_deleted_at f = None) (focus_sessions (dbs w))))"
proof (intro conjI)
  note complete = crud_list_complete[OF assms(1,2)] and seqs = tables_ok_seqs[OF assms(3,4)]
  show "all_pages (\<lambda>cur. Projects.List x userID cur n) fuel [] w =
      Some (sort_key pr_server_seq (filter (\<lambda>p. pr_user_id p = uid \<and> pr_deleted_at p = None) (projects (dbs w))))"
    using complete[where query = ListProjectsForUser, OF ext[OF ext[OF ListProjectsForUser_def]] seqs(1)] assms(5)
    by (simp add: Projects.List_def project_table_def)
  show "all_pages (\<lambda>cur. Tags.List x userID cur n) fuel [] w =
      Some (sort_key tag_server_seq (filter (\<lambda>t. tag_user_id t = uid \<and> tag_deleted_at t = None) (tags (dbs w))))"
    using complete[where query = ListTagsForUser, OF ext[OF ext[OF ListTagsForUser_def]] seqs(2)] assms(6)
    by (simp add: Tags.List_def tag_table_def)
  show "all_pages (\<lambda>cur. Categories.List x userID cur n) fuel [] w =
      Some (sort_key cat_server_seq (filter (readable_category uid) (categories (dbs w))))"
    using complete[where query = ListCategoriesForUser, OF ext[OF ext[OF ListCategoriesForUser_def]] seqs(3)] assms(7)
    by (simp add: Categories.List_def category_table_def)
  show "all_pages (\<lambda>cur. FocusSessions.List x userID cur n) fuel [] w =
      Some (sort_key fs_server_seq (filter (\<lambda>f. fs_user_id f = uid \<and> fs_deleted_at f = None) (focus_sessions (dbs w))))"
    using complete[where query = ListFocusSessionsForUser, OF ext[OF ext[OF ListFocusSessionsForUser_def]] seqs(4)] assms(8)
    by (simp add: FocusSessions.List_def focus_table_def)
qed


text \<open>User 1 reads the tags and the categories page by page.\<close>

lemma catalog_lists_end_complete_witness:
  "all_pages (\<lambda>cur. Tags.List sample_ext ''1'' cur 1) 3 [] ((session catalog_db)\<lparr>server_seq_global := 3\<rparr>) = Some [hd (tags catalog_db)] \<and>
   all_pages (\<lambda>cur. Categories.List sample_ext ''1'' cur 1) 3 [] ((session catalog_db)\<lparr>server_seq_global := 3\<rparr>) = Some (categories catalog_db)"
proof -
  let ?w = "(session catalog_db)\<lparr>server_seq_global := 3\<rparr>"
  have "tables_ok ?w"
    by (simp_all add: tables_ok_def table_ok_def catalog_db_def sample_db_def empty_db_def table_defs session_def)
  then show ?thesis
    using catalog_lists_end_complete[OF _ parse_one, of ?w 3 1]
    by (simp add: catalog_db_def sample_db_def empty_db_def readable_category_def quiet_def int64_ok_def int64_min_def int64_max_def)
qed

end
