(* ===== verification/SyncEndToEnd.thy ===== *)
theory SyncEndToEnd
  imports PushProps PullProps CatalogLists
begin

text \<open>
  Writers and readers of the sync protocol together: what one device changes, by a push or by a
  request on projects, tags, categories or focus sessions, the user's other devices pull.  Every
  statement that changes a row leaves a row in the changelog that is newer than every cursor handed
  out before; so a client that goes on from such a cursor is shown the current state of everything
  that changed.
\<close>

section \<open>What a write announces\<close>

text \<open>A row of the changelog that names an entity of the user, written since a transaction number.\<close>

definition announced :: "uuid \<Rightarrow> nat \<Rightarrow> world \<Rightarrow> string \<times> uuid \<times> time option \<Rightarrow> bool" where
  "announced uid k w entity \<longleftrightarrow>
     (\<exists>r\<in>set (changelog (dbs w)).
        cl_user_id r = Some uid \<and> (cl_entity_type r, cl_entity_id r, cl_event_started_at r) = entity \<and>
        k \<le> cl_xid8 r \<and> cl_xid8 r < next_xid w)"

text \<open>The rows a session wrote: of a known type, with a transaction and a sequence number of their own.\<close>

definition written :: "world \<Rightarrow> world \<Rightarrow> sync_changelog \<Rightarrow> bool" where
  "written w w' r \<longleftrightarrow>
     cl_entity_type r \<in> set pullEntityTypes \<and> next_xid w \<le> cl_xid8 r \<and> cl_xid8 r < next_xid w' \<and>
     server_seq_global w < cl_server_seq r \<and> cl_server_seq r \<le> server_seq_global w'"

definition log_grows :: "world \<Rightarrow> world \<Rightarrow> bool" where
  "log_grows w w' \<longleftrightarrow>
     inflight w' = inflight w \<and> in_tx w' = in_tx w \<and> horizon (dbs w') = horizon (dbs w) \<and>
     next_xid w \<le> next_xid w' \<and> server_seq_global w \<le> server_seq_global w' \<and>
     (\<exists>new. changelog (dbs w') = changelog (dbs w) @ new \<and> distinct (map cl_xid8 new) \<and>
        (\<forall>r\<in>set new. written w w' r))"

text \<open>What is new in a table is the user's and announced.\<close>

definition told :: "(db \<Rightarrow> 'r list) \<Rightarrow> ('r \<Rightarrow> uuid option) \<Rightarrow> ('r \<Rightarrow> string \<times> uuid \<times> time option) \<Rightarrow> uuid \<Rightarrow> world \<Rightarrow> world \<Rightarrow> bool" where
  "told tab own name uid w w' \<longleftrightarrow>
     (\<forall>r\<in>set (tab (dbs w')) - set (tab (dbs w)). own r = Some uid \<and> announced uid (next_xid w) w' (name r))"

definition all_told :: "uuid \<Rightarrow> world \<Rightarrow> world \<Rightarrow> bool" where
  "all_told uid w w' \<longleftrightarrow>
     told activity_events (\<lambda>e. Some (ae_user_id e)) (\<lambda>e. (''activity_events'', ae_event_id e, Some (ae_started_at e))) uid w w' \<and>
     told projects (\<lambda>p. Some (pr_user_id p)) (\<lambda>p. (''projects'', pr_id p, None)) uid w w' \<and>
     told tags (\<lambda>t. Some (tag_user_id t)) (\<lambda>t. (''tags'', tag_id t, None)) uid w w' \<and>
     told categories cat_user_id (\<lambda>c. (''categories'', cat_id c, None)) uid w w' \<and>
     told focus_sessions (\<lambda>f. Some (fs_user_id f)) (\<lambda>f. (''focus_sessions'', fs_id f, None)) uid w w'"

definition log_frame :: "uuid \<Rightarrow> world \<Rightarrow> world \<Rightarrow> bool" where
  "log_frame uid w w' \<longleftrightarrow> log_grows w w' \<and> all_told uid w w' \<and> (tables_ok w \<longrightarrow> tables_ok w')"

definition announces :: "uuid \<Rightarrow> world \<Rightarrow> world \<Rightarrow> bool" where
  "announces uid w w' \<longleftrightarrow> (isolated w \<longrightarrow> isolated w' \<and> log_frame uid w w')"

lemma tables_ok_same:
  assumes "tables_ok w" "server_seq_global w \<le> server_seq_global w'"
    "activity_events (dbs w') = activity_events (dbs w)" "projects (dbs w') = projects (dbs w)" "tags (dbs w') = tags (dbs w)"
    "categories (dbs w') = categories (dbs w)" "focus_sessions (dbs w') = focus_sessions (dbs w)"
  shows "tables_ok w'"
  using assms by (auto simp: tables_ok_def intro: table_ok_later)

lemma log_frame_same:
  assumes "changelog (dbs w') = changelog (dbs w)" "horizon (dbs w') = horizon (dbs w)"
    "next_xid w' = next_xid w" "inflight w' = inflight w" "in_tx w' = in_tx w" "server_seq_global w \<le> server_seq_global w'"
    "activity_events (dbs w') = activity_events (dbs w)" "projects (dbs w') = projects (dbs w)" "tags (dbs w') = tags (dbs w)"
    "categories (dbs w') = categories (dbs w)" "focus_sessions (dbs w') = focus_sessions (dbs w)"
  shows "log_frame uid w w'"
  using assms tables_ok_same[of w w'] by (simp add: log_frame_def log_grows_def all_told_def told_def)

lemma announced_later:
  assumes "announced uid k w entity" and "log_grows w w'" and "k0 \<le> k"
  shows "announced uid k0 w' entity"
proof -
  obtain r where r: "r \<in> set (changelog (dbs w))" "cl_user_id r = Some uid"
    "(cl_entity_type r, cl_entity_id r, cl_event_started_at r) = entity" "k \<le> cl_xid8 r" "cl_xid8 r < next_xid w"
    using assms(1) by (auto simp: announced_def)
  have "r \<in> set (changelog (dbs w'))" "next_xid w \<le> next_xid w'"
    using assms(2) r(1) by (auto simp: log_grows_def)
  then show ?thesis using r assms(3) unfolding announced_def by (intro bexI[of _ r]) auto
qed

lemma log_grows_trans:
  assumes ab: "log_grows a b" and bc: "log_grows b c"
  shows "log_grows a c"
proof -
  have mono: "next_xid a \<le> next_xid b" "next_xid b \<le> next_xid c"
    "server_seq_global a \<le> server_seq_global b" "server_seq_global b \<le> server_seq_global c"
    using assms by (simp_all add: log_grows_def)
  obtain n1 n2 where n1: "changelog (dbs b) = changelog (dbs a) @ n1" "distinct (map cl_xid8 n1)" "\<forall>r\<in>set n1. written a b r"
    and n2: "changelog (dbs c) = changelog (dbs b) @ n2" "distinct (map cl_xid8 n2)" "\<forall>r\<in>set n2. written b c r"
    using assms unfolding log_grows_def by (elim conjE exE) blast
  have "\<exists>new. changelog (dbs c) = changelog (dbs a) @ new \<and> distinct (map cl_xid8 new) \<and> (\<forall>r\<in>set new. written a c r)"
  proof (intro exI conjI)
    show "changelog (dbs c) = changelog (dbs a) @ n1 @ n2" using n1 n2 by simp
    have "cl_xid8 r < cl_xid8 s" if "r \<in> set n1" "s \<in> set n2" for r s
      using that n1(3) n2(3) unfolding written_def by (metis order_less_le_trans)
    then show "distinct (map cl_xid8 (n1 @ n2))" using n1(2) n2(2) by force
    show "\<forall>r\<in>set (n1 @ n2). written a c r"
      using n1(3) n2(3) mono by (fastforce simp: written_def)
  qed
  then show ?thesis using assms mono by (simp add: log_grows_def)
qed

lemma told_trans:
  assumes "told tab own name uid a b" "told tab own name uid b c" and "log_grows a b" and bc: "log_grows b c"
  shows "told tab own name uid a c"
  unfolding told_def
proof
  fix r assume r: "r \<in> set (tab (dbs c)) - set (tab (dbs a))"
  have mono: "next_xid a \<le> next_xid b" and refl: "log_grows c c" using assms(3) by (simp_all add: log_grows_def)
  show "own r = Some uid \<and> announced uid (next_xid a) c (name r)"
  proof (cases "r \<in> set (tab (dbs b))")
    case True
    then have "own r = Some uid \<and> announced uid (next_xid a) b (name r)" using assms(1) r by (auto simp: told_def)
    then show ?thesis using announced_later[OF _ bc order_refl] by blast
  next
    case False
    then have "own r = Some uid \<and> announced uid (next_xid b) c (name r)" using assms(2) r by (auto simp: told_def)
    then show ?thesis using announced_later[OF _ refl mono] by blast
  qed
qed

lemma log_frame_trans: "log_frame uid a b \<Longrightarrow> log_frame uid b c \<Longrightarrow> log_frame uid a c"
  by (auto simp: log_frame_def all_told_def intro: log_grows_trans told_trans)

lemma announcesI: "hazards w' = hazards w \<Longrightarrow> log_frame uid w w' \<Longrightarrow> announces uid w w'"
  by (simp add: announces_def isolated_def)

lemma log_frame_hazards [simp]: "log_frame uid (w\<lparr>hazards := hs\<rparr>) w' = log_frame uid w w'"
  "log_frame uid w (w'\<lparr>hazards := hs\<rparr>) = log_frame uid w w'"
  by (simp_all add: log_frame_def log_grows_def all_told_def told_def announced_def written_def tables_ok_def)

text \<open>The relation is a law of statements.\<close>

interpretation announced: statement_law announces
proof unfold_locales
  show "announces uid w w" for uid w by (simp add: announces_def log_frame_same)
  show "announces uid a b \<Longrightarrow> announces uid b c \<Longrightarrow> announces uid a c" for uid a b c
    by (auto simp: announces_def intro: log_frame_trans)
qed (auto simp: announces_def isolated_def)

section \<open>Statements that write\<close>

text \<open>A statement that changes the rows of one entity and logs it.\<close>

definition only :: "(db \<Rightarrow> 'r list) \<Rightarrow> ('r \<Rightarrow> uuid option) \<Rightarrow> ('r \<Rightarrow> string \<times> uuid \<times> time option) \<Rightarrow> uuid \<Rightarrow> string \<times> uuid \<times> time option \<Rightarrow> world \<Rightarrow> world \<Rightarrow> bool" where
  "only tab own name uid entity w v \<longleftrightarrow>
     (\<forall>r\<in>set (tab (dbs v)) - set (tab (dbs w)). own r = Some uid \<and> name r = entity)"

definition only_one :: "uuid \<Rightarrow> string \<times> uuid \<times> time option \<Rightarrow> world \<Rightarrow> world \<Rightarrow> bool" where
  "only_one uid entity w v \<longleftrightarrow>
     only activity_events (\<lambda>e. Some (ae_user_id e)) (\<lambda>e. (''activity_events'', ae_event_id e, Some (ae_started_at e))) uid entity w v \<and>
     only projects (\<lambda>p. Some (pr_user_id p)) (\<lambda>p. (''projects'', pr_id p, None)) uid entity w v \<and>
     only tags (\<lambda>t. Some (tag_user_id t)) (\<lambda>t. (''tags'', tag_id t, None)) uid entity w v \<and>
     only categories cat_user_id (\<lambda>c. (''categories'', cat_id c, None)) uid entity w v \<and>
     only focus_sessions (\<lambda>f. Some (fs_user_id f)) (\<lambda>f. (''focus_sessions'', fs_id f, None)) uid entity w v"

lemma log_change_frame:
  assumes "changelog (dbs v) = changelog (dbs w)" "horizon (dbs v) = horizon (dbs w)"
    and "next_xid v = next_xid w" "inflight v = inflight w" "in_tx v = in_tx w"
    and "server_seq_global w < seq" "seq \<le> server_seq_global v" and "t \<in> set pullEntityTypes"
    and "only_one uid (t, i, st) w v" and "tables_ok w \<longrightarrow> tables_ok v"
  shows "log_frame uid w (log_change (Some uid) t i st seq v)"
proof -
  let ?v = "log_change (Some uid) t i st seq v"
  have ann: "announced uid (next_xid w) ?v (t, i, st)" using assms(3) by (simp add: announced_def log_change_def)
  have "log_grows w ?v" using assms(1-8) by (simp add: log_grows_def log_change_def written_def)
  moreover have "all_told uid w ?v"
    using assms(9) ann by (auto simp: all_told_def told_def only_one_def only_def log_change_def)
  moreover have "tables_ok ?v = tables_ok v" by (simp add: tables_ok_def log_change_def)
  ultimately show ?thesis using assms(10) by (simp add: log_frame_def)
qed

text \<open>A sequence number drawn in vain.\<close>

lemma draw_announces: "server_seq_global v \<le> s \<Longrightarrow> announces uid v (v\<lparr>server_seq_global := s\<rparr>)"
  by (intro announcesI log_frame_same) simp_all

lemma table_sel:
  "key_of project_table = pr_id" "key_of tag_table = tag_id" "key_of category_table = cat_id" "key_of focus_table = fs_id"
  "seq_of project_table = pr_server_seq" "seq_of tag_table = tag_server_seq" "seq_of category_table = cat_server_seq"
  "seq_of focus_table = fs_server_seq"
  by (simp_all add: table_defs)

lemma table_ok_next:
  "table_ok T n rs \<Longrightarrow> table_ok T (n + 1) rs" "table_ok T n rs \<Longrightarrow> table_ok T (2 + n) rs"
  "table_ok T n rs \<Longrightarrow> key_of T row \<notin> key_of T ` set rs \<Longrightarrow> seq_of T row = n + 1 \<Longrightarrow> table_ok T (n + 1) (rs @ [row])"
  by (auto intro: table_ok_later table_ok_insert)

lemmas only_defs = only_one_def only_def pullEntityTypes_def

text \<open>A row added to a table, and the rows of one key changed.\<close>

lemma insert_announces:
  fixes v :: world
  defines "s \<equiv> server_seq_global v"
  shows "ae_user_id e = uid \<Longrightarrow> event_key e \<notin> event_key ` set (activity_events (dbs v)) \<Longrightarrow>
      announces uid v (log_change (Some uid) ''activity_events'' (ae_event_id e) (Some (ae_started_at e)) (s + 1)
        (v\<lparr>server_seq_global := s + 1, dbs := (dbs v)\<lparr>activity_events := activity_events (dbs v) @ [e]\<rparr>\<rparr>))"
    and "pr_user_id p = uid \<Longrightarrow> pr_server_seq p = s + 1 \<Longrightarrow> pr_id p \<notin> pr_id ` set (projects (dbs v)) \<Longrightarrow>
      announces uid v (log_change (Some uid) ''projects'' (pr_id p) None (s + 1)
        (v\<lparr>server_seq_global := s + 1, dbs := (dbs v)\<lparr>projects := projects (dbs v) @ [p]\<rparr>\<rparr>))"
    and "tag_user_id t = uid \<Longrightarrow> tag_server_seq t = s + 1 \<Longrightarrow> tag_id t \<notin> tag_id ` set (tags (dbs v)) \<Longrightarrow>
      announces uid v (log_change (Some uid) ''tags'' (tag_id t) None (s + 1)
        (v\<lparr>server_seq_global := s + 1, dbs := (dbs v)\<lparr>tags := tags (dbs v) @ [t]\<rparr>\<rparr>))"
    and "cat_user_id c = Some uid \<Longrightarrow> cat_server_seq c = s + 1 \<Longrightarrow> cat_id c \<notin> cat_id ` set (categories (dbs v)) \<Longrightarrow>
      announces uid v (log_change (Some uid) ''categories'' (cat_id c) None (s + 1)
        (v\<lparr>server_seq_global := s + 1, dbs := (dbs v)\<lparr>categories := categories (dbs v) @ [c]\<rparr>\<rparr>))"
    and "fs_user_id f = uid \<Longrightarrow> fs_server_seq f = s + 1 \<Longrightarrow> fs_id f \<notin> fs_id ` set (focus_sessions (dbs v)) \<Longrightarrow>
      announces uid v (log_change (Some uid) ''focus_sessions'' (fs_id f) None (s + 1)
        (v\<lparr>server_seq_global := s + 1, dbs := (dbs v)\<lparr>focus_sessions := focus_sessions (dbs v) @ [f]\<rparr>\<rparr>))"
proof -
  note step = announcesI[OF _ log_change_frame] and facts = s_def only_defs tables_ok_def table_sel table_ok_next
  show "announces uid v (log_change (Some uid) ''activity_events'' (ae_event_id e) (Some (ae_started_at e)) (s + 1)
        (v\<lparr>server_seq_global := s + 1, dbs := (dbs v)\<lparr>activity_events := activity_events (dbs v) @ [e]\<rparr>\<rparr>))"
    if "ae_user_id e = uid" "event_key e \<notin> event_key ` set (activity_events (dbs v))"
    by (rule step) (use that in \<open>auto simp: facts\<close>)
  show "announces uid v (log_change (Some uid) ''projects'' (pr_id p) None (s + 1)
        (v\<lparr>server_seq_global := s + 1, dbs := (dbs v)\<lparr>projects := projects (dbs v) @ [p]\<rparr>\<rparr>))"
    if "pr_user_id p = uid" "pr_server_seq p = s + 1" "pr_id p \<notin> pr_id ` set (projects (dbs v))"
    by (rule step) (use that in \<open>auto simp: facts\<close>)
  show "announces uid v (log_change (Some uid) ''tags'' (tag_id t) None (s + 1)
        (v\<lparr>server_seq_global := s + 1, dbs := (dbs v)\<lparr>tags := tags (dbs v) @ [t]\<rparr>\<rparr>))"
    if "tag_user_id t = uid" "tag_server_seq t = s + 1" "tag_id t \<notin> tag_id ` set (tags (dbs v))"
    by (rule step) (use that in \<open>auto simp: facts\<close>)
  show "announces uid v (log_change (Some uid) ''categories'' (cat_id c) None (s + 1)
        (v\<lparr>server_seq_global := s + 1, dbs := (dbs v)\<lparr>categories := categories (dbs v) @ [c]\<rparr>\<rparr>))"
    if "cat_user_id c = Some uid" "cat_server_seq c = s + 1" "cat_id c \<notin> cat_id ` set (categories (dbs v))"
    by (rule step) (use that in \<open>auto simp: facts\<close>)
  show "announces uid v (log_change (Some uid) ''focus_sessions'' (fs_id f) None (s + 1)
        (v\<lparr>server_seq_global := s + 1, dbs := (dbs v)\<lparr>focus_sessions := focus_sessions (dbs v) @ [f]\<rparr>\<rparr>))"
    if "fs_user_id f = uid" "fs_server_seq f = s + 1" "fs_id f \<notin> fs_id ` set (focus_sessions (dbs v))"
    by (rule step) (use that in \<open>auto simp: facts\<close>)
qed


lemma update_announces:
  fixes v :: world
  defines "s \<equiv> server_seq_global v"
  assumes m: "s < m"
  shows "(\<And>r. P1 r \<Longrightarrow> ae_user_id r = uid \<and> ae_event_id r = i \<and> ae_started_at r = st) \<Longrightarrow>
      (\<And>r. event_key (g1 r) = event_key r) \<Longrightarrow>
      announces uid v (log_change (Some uid) ''activity_events'' i (Some st) m
        (v\<lparr>server_seq_global := m, dbs := (dbs v)\<lparr>activity_events := update_where P1 g1 (activity_events (dbs v))\<rparr>\<rparr>))"
    and "(\<And>r. P2 r \<Longrightarrow> pr_user_id r = uid \<and> pr_id r = i) \<Longrightarrow>
      (\<And>r. pr_user_id (g2 r) = pr_user_id r \<and> pr_id (g2 r) = pr_id r \<and> pr_server_seq (g2 r) = m) \<Longrightarrow>
      announces uid v (log_change (Some uid) ''projects'' i None m
        (v\<lparr>server_seq_global := m, dbs := (dbs v)\<lparr>projects := update_where P2 g2 (projects (dbs v))\<rparr>\<rparr>))"
    and "(\<And>r. P3 r \<Longrightarrow> tag_user_id r = uid \<and> tag_id r = i) \<Longrightarrow>
      (\<And>r. tag_user_id (g3 r) = tag_user_id r \<and> tag_id (g3 r) = tag_id r \<and> tag_server_seq (g3 r) = m) \<Longrightarrow>
      announces uid v (log_change (Some uid) ''tags'' i None m
        (v\<lparr>server_seq_global := m, dbs := (dbs v)\<lparr>tags := update_where P3 g3 (tags (dbs v))\<rparr>\<rparr>))"
    and "(\<And>r. P4 r \<Longrightarrow> cat_user_id r = Some uid \<and> cat_id r = i) \<Longrightarrow>
      (\<And>r. cat_user_id (g4 r) = cat_user_id r \<and> cat_id (g4 r) = cat_id r \<and> cat_server_seq (g4 r) = m) \<Longrightarrow>
      announces uid v (log_change (Some uid) ''categories'' i None m
        (v\<lparr>server_seq_global := m, dbs := (dbs v)\<lparr>categories := update_where P4 g4 (categories (dbs v))\<rparr>\<rparr>))"
    and "(\<And>r. P5 r \<Longrightarrow> fs_user_id r = uid \<and> fs_id r = i) \<Longrightarrow>
      (\<And>r. fs_user_id (g5 r) = fs_user_id r \<and> fs_id (g5 r) = fs_id r \<and> fs_server_seq (g5 r) = m) \<Longrightarrow>
      announces uid v (log_change (Some uid) ''focus_sessions'' i None m
        (v\<lparr>server_seq_global := m, dbs := (dbs v)\<lparr>focus_sessions := update_where P5 g5 (focus_sessions (dbs v))\<rparr>\<rparr>))"
proof -
  note step = announcesI[OF _ log_change_frame]
  have later: "table_ok T s rs \<Longrightarrow> table_ok T m rs" for T :: "'a table" and rs using table_ok_later m by fastforce
  note facts = s_def[symmetric] only_defs tables_ok_def table_sel set_update_where later m
  show "announces uid v (log_change (Some uid) ''activity_events'' i (Some st) m
        (v\<lparr>server_seq_global := m, dbs := (dbs v)\<lparr>activity_events := update_where P1 g1 (activity_events (dbs v))\<rparr>\<rparr>))"
    if P: "\<And>r. P1 r \<Longrightarrow> ae_user_id r = uid \<and> ae_event_id r = i \<and> ae_started_at r = st" and g: "\<And>r. event_key (g1 r) = event_key r"
  proof (rule step)
    have "map event_key (update_where P1 g1 (activity_events (dbs v))) = map event_key (activity_events (dbs v))"
      using g by (simp add: update_where_def)
    then show "tables_ok v \<longrightarrow> tables_ok (v\<lparr>server_seq_global := m, dbs := (dbs v)\<lparr>activity_events := update_where P1 g1 (activity_events (dbs v))\<rparr>\<rparr>)"
      using m by (auto simp: tables_ok_def s_def intro: table_ok_later)
    have "ae_user_id (g1 r) = ae_user_id r \<and> ae_event_id (g1 r) = ae_event_id r \<and> ae_started_at (g1 r) = ae_started_at r" for r
      using g[of r] by (simp add: event_key_def)
    then show "only_one uid (''activity_events'', i, Some st) v
        (v\<lparr>server_seq_global := m, dbs := (dbs v)\<lparr>activity_events := update_where P1 g1 (activity_events (dbs v))\<rparr>\<rparr>)"
      using P by (auto simp: only_defs set_update_where)
  qed (use m in \<open>simp_all add: s_def pullEntityTypes_def\<close>)
  show "announces uid v (log_change (Some uid) ''projects'' i None m
        (v\<lparr>server_seq_global := m, dbs := (dbs v)\<lparr>projects := update_where P2 g2 (projects (dbs v))\<rparr>\<rparr>))"
    if P: "\<And>r. P2 r \<Longrightarrow> pr_user_id r = uid \<and> pr_id r = i"
      and g: "\<And>r. pr_user_id (g2 r) = pr_user_id r \<and> pr_id (g2 r) = pr_id r \<and> pr_server_seq (g2 r) = m"
    using table_ok_update[of project_table s "projects (dbs v)" P2 i g2 m] P g
    by (intro step) (auto simp: facts)
  show "announces uid v (log_change (Some uid) ''tags'' i None m
        (v\<lparr>server_seq_global := m, dbs := (dbs v)\<lparr>tags := update_where P3 g3 (tags (dbs v))\<rparr>\<rparr>))"
    if P: "\<And>r. P3 r \<Longrightarrow> tag_user_id r = uid \<and> tag_id r = i"
      and g: "\<And>r. tag_user_id (g3 r) = tag_user_id r \<and> tag_id (g3 r) = tag_id r \<and> tag_server_seq (g3 r) = m"
    using table_ok_update[of tag_table s "tags (dbs v)" P3 i g3 m] P g
    by (intro step) (auto simp: facts)
  show "announces uid v (log_change (Some uid) ''categories'' i None m
        (v\<lparr>server_seq_global := m, dbs := (dbs v)\<lparr>categories := update_where P4 g4 (categories (dbs v))\<rparr>\<rparr>))"
    if P: "\<And>r. P4 r \<Longrightarrow> cat_user_id r = Some uid \<and> cat_id r = i"
      and g: "\<And>r. cat_user_id (g4 r) = cat_user_id r \<and> cat_id (g4 r) = cat_id r \<and> cat_server_seq (g4 r) = m"
    using table_ok_update[of category_table s "categories (dbs v)" P4 i g4 m] P g
    by (intro step) (auto simp: facts)
  show "announces uid v (log_change (Some uid) ''focus_sessions'' i None m
        (v\<lparr>server_seq_global := m, dbs := (dbs v)\<lparr>focus_sessions := update_where P5 g5 (focus_sessions (dbs v))\<rparr>\<rparr>))"
    if P: "\<And>r. P5 r \<Longrightarrow> fs_user_id r = uid \<and> fs_id r = i"
      and g: "\<And>r. fs_user_id (g5 r) = fs_user_id r \<and> fs_id (g5 r) = fs_id r \<and> fs_server_seq (g5 r) = m"
    using table_ok_update[of focus_table s "focus_sessions (dbs v)" P5 i g5 m] P g
    by (intro step) (auto simp: facts)
qed


section \<open>The writers\<close>

lemma CreateApp_announces: "CreateApp b p n w = (r, w') \<Longrightarrow> announces uid w w'"
  unfolding CreateApp_def
  by (erule announced.P_exec_txt[rotated])
    (auto simp: gen_random_uuid_def Let_def announced.P_refl intro!: announcesI log_frame_same)

lemma InsertActivityEvent_announces:
  assumes "InsertActivityEvent arg w = (r, w')"
  shows "announces (ia_UserID arg) w w'"
  using assms unfolding InsertActivityEvent_def
proof (rule announced.P_exec_txt[rotated], goal_cases)
  case (1 v)
  have row: "ae_user_id (event_row arg now seq) = ia_UserID arg" "ae_event_id (event_row arg now seq) = ia_EventID arg" for now seq
    by (simp_all add: event_row_def)
  let ?row = "event_row arg (pg_now v) (server_seq_global v + 1)"
  have new: "event_key ?row \<notin> event_key ` set (activity_events (dbs v))"
    if "\<forall>e\<in>set (activity_events (dbs v)). event_key e \<noteq> event_key ?row" using that by (metis imageE)
  show ?case
    using insert_announces(1)[OF row(1) new]
      draw_announces[of v "server_seq_global v + 1" "ia_UserID arg"]
    by (auto simp: next_server_seq_def Let_def row split: option.splits)
qed

lemma TombstoneActivityEvent_announces:
  "TombstoneActivityEvent uid i st w = (r, w') \<Longrightarrow> announces uid w w'"
  unfolding TombstoneActivityEvent_def
proof (erule announced.P_exec[rotated], goal_cases)
  case (1 v)
  show ?case
    using update_announces(1)[of v "server_seq_global v + 1" "\<lambda>e. event_key e = (uid, i, pg_ts st) \<and> \<not> ae_deleted e" uid i "pg_ts st"
        "\<lambda>e. e\<lparr>ae_deleted := True, ae_server_seq := server_seq_global v + 1\<rparr>"]
    by (simp add: next_server_seq_def Let_def event_key_def update_where_def announced.P_refl split: list.splits)
qed

lemma UpsertFocusSession_announces:
  assumes "UpsertFocusSession arg w = (r, w')"
  shows "announces (up_UserID arg) w w'"
  using assms unfolding UpsertFocusSession_def
proof (rule announced.P_exec_txt[rotated], goal_cases)
  case (1 v)
  let ?row = "upsert_insert arg (pg_now v) (server_seq_global v + 1)"
  have row: "fs_user_id ?row = up_UserID arg" "fs_server_seq ?row = server_seq_global v + 1" "fs_id ?row = up_ID arg"
    by (simp_all add: upsert_insert_def)
  have new: "find (\<lambda>f. fs_id f = up_ID arg) (focus_sessions (dbs v)) = None \<Longrightarrow>
      fs_id ?row \<notin> fs_id ` set (focus_sessions (dbs v))"
    by (auto simp: find_None_iff row)
  have upd: "fs_server_seq (SyncStore.upsert_update arg n f) = n" for n f by (simp add: SyncStore.upsert_update_def)
  show ?case
    using insert_announces(5)[OF row(1,2) new]
      update_announces(5)[of v "2 + server_seq_global v" "\<lambda>f. fs_id f = up_ID arg \<and> fs_user_id f = up_UserID arg \<and>
          fs_updated_at f < pg_ts (up_UpdatedAt arg)" "up_UserID arg" "up_ID arg" "SyncStore.upsert_update arg (2 + server_seq_global v)"]
      draw_announces[of v "server_seq_global v + 1" "up_UserID arg"] draw_announces[of v "2 + server_seq_global v" "up_UserID arg"]
    by (simp add: next_server_seq_def Let_def row upd update_where_def split: option.splits)
qed

interpretation announced: push_law announces
  by unfold_locales
    (simp_all add: CreateApp_announces InsertActivityEvent_announces TombstoneActivityEvent_announces UpsertFocusSession_announces)

text \<open>The statements of the catalog.\<close>

lemma announced_txt: "(\<And>v. announces uid v (snd (q v))) \<Longrightarrow> keeps announces uid (exec_txt ts q)"
  by (rule keepsI) (rule announced.P_exec_txt)

lemma announced_exec: "(\<And>v. announces uid v (snd (q v))) \<Longrightarrow> keeps announces uid (exec q)"
  by (rule keepsI) (rule announced.P_exec)

lemma snd_rows_affected [simp]: "snd (rows_affected p) = snd p"
  by (auto simp: rows_affected_def split: prod.splits sum.splits)

text \<open>A table whose accepted changes are announced, and the statements on it.\<close>

locale announced_table =
  fixes T :: "'r table" and ins_refused :: "db \<Rightarrow> 'r \<Rightarrow> db_error option"
  assumes insert_told: "owner_of T row = Some uid \<Longrightarrow> seq_of T row = server_seq_global v + 1 \<Longrightarrow> ins_refused (dbs v) row = None \<Longrightarrow>
      announces uid v (log_change (Some uid) (etype T) (key_of T row) None (server_seq_global v + 1)
        (v\<lparr>server_seq_global := server_seq_global v + 1, dbs := upd_rows T (\<lambda>rs. rs @ [row]) (dbs v)\<rparr>))"
    and update_told: "(\<And>r. P r \<Longrightarrow> owner_of T r = Some uid \<and> key_of T r = i) \<Longrightarrow>
      (\<And>r. owner_of T (g r) = owner_of T r \<and> key_of T (g r) = key_of T r \<and> seq_of T (g r) = server_seq_global v + 1) \<Longrightarrow>
      announces uid v (log_change (Some uid) (etype T) i None (server_seq_global v + 1)
        (v\<lparr>server_seq_global := server_seq_global v + 1, dbs := upd_rows T (update_where P g) (dbs v)\<rparr>))"
begin

lemma insert_row_told:
  assumes "\<And>now seq. owner_of T (mk now seq) = Some uid \<and> seq_of T (mk now seq) = seq"
  shows "announces uid v (snd (insert_row T ins_refused mk v))"
  using draw_announces[of v "server_seq_global v + 1" uid] insert_told[of "mk (pg_ts (pg_now v)) (server_seq_global v + 1)" uid v] assms
  by (simp add: insert_row_def next_server_seq_def Let_def split: option.splits)

lemma update_row_told:
  assumes P: "\<And>r. P r \<Longrightarrow> owner_of T r = Some uid \<and> key_of T r = i"
    and g: "\<And>now seq r. owner_of T (g now seq r) = owner_of T r \<and> key_of T (g now seq r) = key_of T r \<and> seq_of T (g now seq r) = seq"
  shows "announces uid v (snd (update_row T refused P g v))"
proof (cases "filter P (rows_of T (dbs v))")
  case (Cons r rs)
  then have r: "owner_of T r = Some uid \<and> key_of T r = i" using P by (metis filter_eq_ConsD)
  have "announces uid v (log_change (Some uid) (etype T) i None (server_seq_global v + 1)
      (v\<lparr>server_seq_global := server_seq_global v + 1, dbs := upd_rows T (update_where P (g (pg_ts (pg_now v)) (server_seq_global v + 1))) (dbs v)\<rparr>))"
    by (rule update_told) (simp_all add: P g)
  then show ?thesis
    using draw_announces[of v "server_seq_global v + 1" uid] r g Cons
    by (simp add: update_row_def next_server_seq_def Let_def split: option.splits)
qed (simp add: update_row_def announced.P_refl)

end

lemma upd_rows_eqs:
  "projects_update f d = d\<lparr>projects := f (projects d)\<rparr>" "tags_update f1 d = d\<lparr>tags := f1 (tags d)\<rparr>"
  "categories_update f2 d = d\<lparr>categories := f2 (categories d)\<rparr>" "focus_sessions_update f3 d = d\<lparr>focus_sessions := f3 (focus_sessions d)\<rparr>"
  by (cases d; simp)+

interpretation pj_told: announced_table project_table project_refused
proof
  fix row :: project and uid and v :: world
  assume "owner_of project_table row = Some uid" "seq_of project_table row = server_seq_global v + 1" "project_refused (dbs v) row = None"
  then show "announces uid v (log_change (Some uid) (etype project_table) (key_of project_table row) None (server_seq_global v + 1)
      (v\<lparr>server_seq_global := server_seq_global v + 1, dbs := upd_rows project_table (\<lambda>rs. rs @ [row]) (dbs v)\<rparr>))"
    using insert_announces(2)[of row uid v]
    by (simp add: project_table_def project_refused_def split: if_splits) (simp only: upd_rows_eqs(1)[of "\<lambda>rs. rs @ [row]" "dbs v"])
next
  fix P :: "project \<Rightarrow> bool" and uid i g and v :: world
  assume "\<And>r. P r \<Longrightarrow> owner_of project_table r = Some uid \<and> key_of project_table r = i"
    "\<And>r. owner_of project_table (g r) = owner_of project_table r \<and> key_of project_table (g r) = key_of project_table r \<and>
      seq_of project_table (g r) = server_seq_global v + 1"
  then show "announces uid v (log_change (Some uid) (etype project_table) i None (server_seq_global v + 1)
      (v\<lparr>server_seq_global := server_seq_global v + 1, dbs := upd_rows project_table (update_where P g) (dbs v)\<rparr>))"
    using update_announces(2)[of v "server_seq_global v + 1" P uid i g]
    by (simp add: project_table_def) (simp only: upd_rows_eqs(1)[of "update_where P g" "dbs v"])
qed

interpretation tg_told: announced_table tag_table tag_refused
proof
  fix row :: tag and uid and v :: world
  assume "owner_of tag_table row = Some uid" "seq_of tag_table row = server_seq_global v + 1" "tag_refused (dbs v) row = None"
  then show "announces uid v (log_change (Some uid) (etype tag_table) (key_of tag_table row) None (server_seq_global v + 1)
      (v\<lparr>server_seq_global := server_seq_global v + 1, dbs := upd_rows tag_table (\<lambda>rs. rs @ [row]) (dbs v)\<rparr>))"
    using insert_announces(3)[of row uid v]
    by (simp add: tag_table_def tag_refused_def split: if_splits) (simp only: upd_rows_eqs(2)[of "\<lambda>rs. rs @ [row]" "dbs v"])
next
  fix P :: "tag \<Rightarrow> bool" and uid i g and v :: world
  assume "\<And>r. P r \<Longrightarrow> owner_of tag_table r = Some uid \<and> key_of tag_table r = i"
    "\<And>r. owner_of tag_table (g r) = owner_of tag_table r \<and> key_of tag_table (g r) = key_of tag_table r \<and>
      seq_of tag_table (g r) = server_seq_global v + 1"
  then show "announces uid v (log_change (Some uid) (etype tag_table) i None (server_seq_global v + 1)
      (v\<lparr>server_seq_global := server_seq_global v + 1, dbs := upd_rows tag_table (update_where P g) (dbs v)\<rparr>))"
    using update_announces(3)[of v "server_seq_global v + 1" P uid i g]
    by (simp add: tag_table_def) (simp only: upd_rows_eqs(2)[of "update_where P g" "dbs v"])
qed

interpretation ct_told: announced_table category_table category_refused
proof
  fix row :: category and uid and v :: world
  assume "owner_of category_table row = Some uid" "seq_of category_table row = server_seq_global v + 1" "category_refused (dbs v) row = None"
  then show "announces uid v (log_change (Some uid) (etype category_table) (key_of category_table row) None (server_seq_global v + 1)
      (v\<lparr>server_seq_global := server_seq_global v + 1, dbs := upd_rows category_table (\<lambda>rs. rs @ [row]) (dbs v)\<rparr>))"
    using insert_announces(4)[of row uid v]
    by (simp add: category_table_def category_refused_def split: if_splits) (simp only: upd_rows_eqs(3)[of "\<lambda>rs. rs @ [row]" "dbs v"])
next
  fix P :: "category \<Rightarrow> bool" and uid i g and v :: world
  assume "\<And>r. P r \<Longrightarrow> owner_of category_table r = Some uid \<and> key_of category_table r = i"
    "\<And>r. owner_of category_table (g r) = owner_of category_table r \<and> key_of category_table (g r) = key_of category_table r \<and>
      seq_of category_table (g r) = server_seq_global v + 1"
  then show "announces uid v (log_change (Some uid) (etype category_table) i None (server_seq_global v + 1)
      (v\<lparr>server_seq_global := server_seq_global v + 1, dbs := upd_rows category_table (update_where P g) (dbs v)\<rparr>))"
    using update_announces(4)[of v "server_seq_global v + 1" P uid i g]
    by (simp add: category_table_def) (simp only: upd_rows_eqs(3)[of "update_where P g" "dbs v"])
qed

interpretation fs_told: announced_table focus_table focus_refused
proof
  fix row :: focus_session and uid and v :: world
  assume "owner_of focus_table row = Some uid" "seq_of focus_table row = server_seq_global v + 1" "focus_refused (dbs v) row = None"
  then show "announces uid v (log_change (Some uid) (etype focus_table) (key_of focus_table row) None (server_seq_global v + 1)
      (v\<lparr>server_seq_global := server_seq_global v + 1, dbs := upd_rows focus_table (\<lambda>rs. rs @ [row]) (dbs v)\<rparr>))"
    using insert_announces(5)[of row uid v]
    by (simp add: focus_table_def focus_refused_def split: if_splits) (simp only: upd_rows_eqs(4)[of "\<lambda>rs. rs @ [row]" "dbs v"])
next
  fix P :: "focus_session \<Rightarrow> bool" and uid i g and v :: world
  assume "\<And>r. P r \<Longrightarrow> owner_of focus_table r = Some uid \<and> key_of focus_table r = i"
    "\<And>r. owner_of focus_table (g r) = owner_of focus_table r \<and> key_of focus_table (g r) = key_of focus_table r \<and>
      seq_of focus_table (g r) = server_seq_global v + 1"
  then show "announces uid v (log_change (Some uid) (etype focus_table) i None (server_seq_global v + 1)
      (v\<lparr>server_seq_global := server_seq_global v + 1, dbs := upd_rows focus_table (update_where P g) (dbs v)\<rparr>))"
    using update_announces(5)[of v "server_seq_global v + 1" P uid i g]
    by (simp add: focus_table_def) (simp only: upd_rows_eqs(4)[of "update_where P g" "dbs v"])
qed

lemma catalog_inserts_announced:
  "keeps announces uid (CreateProjectForUser i uid n c)" "keeps announces uid (CreateTagForUser i uid n)"
  "keeps announces uid (CreateFocusSessionForUser i uid a)"
  unfolding CreateProjectForUser_def CreateTagForUser_def CreateFocusSessionForUser_def
  by (rule announced_txt, rule pj_told.insert_row_told tg_told.insert_row_told fs_told.insert_row_told, simp add: table_defs)+

lemma category_insert_announced: "keeps announces uid (CreateCategoryForUser uid n c p)"
  unfolding CreateCategoryForUser_def
proof (rule announced_txt, goal_cases)
  case (1 v)
  have draw: "announces uid v (snd (gen_random_uuid v))"
    by (intro announcesI log_frame_same) (simp_all add: gen_random_uuid_def)
  show ?case
    unfolding case_prod_beta by (rule announced.P_trans[OF draw], rule ct_told.insert_row_told) (simp add: category_table_def)
qed

lemma catalog_updates_announced:
  "keeps announces uid (UpdateProjectForUser i uid n c ar)" "keeps announces uid (UpdateTagForUser i uid n)"
  "keeps announces uid (UpdateOwnCategoryForUser i uid n c p)" "keeps announces uid (UpdateFocusSessionForUser i uid a)"
  unfolding UpdateProjectForUser_def UpdateTagForUser_def UpdateOwnCategoryForUser_def UpdateFocusSessionForUser_def
  by (rule announced_txt, rule pj_told.update_row_told tg_told.update_row_told ct_told.update_row_told fs_told.update_row_told,
      (simp_all add: table_defs select_defs)[2])+

lemma catalog_deletes_announced:
  "keeps announces uid (SoftDeleteProjectForUser i uid)" "keeps announces uid (SoftDeleteTagForUser i uid)"
  "keeps announces uid (SoftDeleteOwnCategoryForUser i uid)" "keeps announces uid (SoftDeleteFocusSessionForUser i uid)"
  unfolding SoftDeleteProjectForUser_def SoftDeleteTagForUser_def SoftDeleteOwnCategoryForUser_def SoftDeleteFocusSessionForUser_def
  by (rule announced_exec, unfold snd_rows_affected,
      rule pj_told.update_row_told tg_told.update_row_told ct_told.update_row_told fs_told.update_row_told,
      (simp_all add: table_defs select_defs)[2])+

interpretation announced: catalog_law announces
  by unfold_locales
    (simp_all add: catalog_inserts_announced category_insert_announced catalog_updates_announced catalog_deletes_announced)

section \<open>What a cursor has behind it\<close>

text \<open>The log of a session at rest: every row is committed, none lies behind the retention
  horizon, and the counters are ahead of the rows.\<close>

definition log_ok :: "world \<Rightarrow> bool" where
  "log_ok w \<longleftrightarrow>
     changelog_wf (dbs w) \<and> inflight w = [] \<and> 0 \<le> server_seq_global w \<and>
     hz_xid8 (horizon (dbs w)) < next_xid w \<and>
     (\<forall>r\<in>set (changelog (dbs w)). cl_xid8 r < next_xid w \<and> horizon_key (dbs w) \<le> ckey r)"

text \<open>The counters of the database are 64-bit numbers.\<close>

definition counters_ok :: "world \<Rightarrow> bool" where
  "counters_ok w \<longleftrightarrow> next_xid w \<le> 2 ^ 64 \<and> int64_ok (server_seq_global w)"

lemma log_grows_ok:
  assumes f: "log_grows w w'" and ok: "log_ok w" and c: "counters_ok w'"
  shows "log_ok w'"
proof -
  have mono: "next_xid w \<le> next_xid w'" "server_seq_global w \<le> server_seq_global w'"
    and same: "horizon (dbs w') = horizon (dbs w)" "inflight w' = inflight w"
    using f by (simp_all add: log_grows_def)
  obtain new where new: "changelog (dbs w') = changelog (dbs w) @ new" "distinct (map cl_xid8 new)"
    "\<forall>r\<in>set new. written w w' r"
    using f by (auto simp: log_grows_def)
  have hk: "horizon_key (dbs w') = horizon_key (dbs w)" by (simp add: horizon_key_def same)
  have fresh: "cl_entity_type r \<in> set pullEntityTypes \<and> pull_valid (ckey r) \<and> next_xid w \<le> cl_xid8 r \<and>
      cl_xid8 r < next_xid w' \<and> horizon_key (dbs w) \<le> ckey r" if "r \<in> set new" for r
  proof -
    have wr: "written w w' r" using new(3) that by blast
    then have "cl_xid8 r < 2 ^ 64" using c by (simp add: written_def counters_ok_def)
    moreover have "seq_valid (cl_server_seq r)" using wr ok c
      by (simp add: written_def counters_ok_def log_ok_def seq_valid_def int64_ok_def int64_min_def)
    moreover have "hz_xid8 (horizon (dbs w)) < cl_xid8 r" using wr ok by (simp add: written_def log_ok_def)
    ultimately show ?thesis using wr
      by (simp add: written_def pull_valid_def ckey_def horizon_key_def pull_cursor_less_eq)
  qed
  have old: "cl_xid8 r < next_xid w" if "r \<in> set (changelog (dbs w))" for r using ok that by (simp add: log_ok_def)
  have "ckey r \<noteq> ckey s" if "r \<in> set (changelog (dbs w))" "s \<in> set new" for r s
    using old[OF that(1)] fresh[OF that(2)] by (auto simp: ckey_def)
  moreover have "distinct (map ckey new)"
    using new(2) by (auto simp: distinct_map ckey_def inj_on_def)
  ultimately have "changelog_wf (dbs w')"
    using ok fresh by (auto simp: changelog_wf_def log_ok_def new(1))
  then show ?thesis
    using ok mono fresh old same by (auto simp: log_ok_def hk new(1) intro: order_less_le_trans)
qed

text \<open>The cursor of an answer is the one it was asked with, or the position of a row.\<close>

lemma pull_hands_out:
  assumes q: "quiet w" "\<not> in_tx w" and uid: "parseUUID x userID = Inr uid" and wf: "changelog_wf (dbs w)"
    and c: "DecodePullCursor cur = Inr c" and run: "pull x userID cur n w = (Inr resp, w0)"
  shows "servable c (dbs w) \<and> (\<exists>nxt. NextCursor resp = EncodePullCursor nxt \<and>
    (nxt = c \<or> nxt \<in> ckey ` set (changelog (dbs w))))"
proof -
  let ?l = "clamp_limit defaultPullLimit maxPullLimit n"
  have srv: "servable c (dbs w)"
  proof (rule ccontr)
    assume no: "\<not> servable c (dbs w)"
    have "fst (pull x userID cur n w) = Inl ErrCursorExpired"
      using q no by (simp add: pull_def uid c runInPullSnapshot_def begin_tx_def pull_snapshot_def servable_def
          GetChangelogHorizon_def Less_horizon quiet_def)
    then show False using run by simp
  qed
  obtain kept nxt hm where cut: "page_cut ckey ?l c (changelog_page uid c (LimitParam (?l + 1)) w) = (kept, nxt, hm)"
    by (metis prod_cases3)
  have "NextCursor resp = EncodePullCursor nxt"
    using pull_quiet[OF q uid c wf srv cut] run by auto
  moreover have "nxt = c \<or> nxt \<in> ckey ` set kept"
    using cut by (auto simp: page_cut_def Let_def split: if_splits)
  moreover have "set kept \<subseteq> set (changelog (dbs w))"
    using page_cut_subset[OF cut] changelog_page_rows[of uid c _ w] by blast
  ultimately show ?thesis using srv by blast
qed

section \<open>How a pull shows the rows\<close>

text \<open>What a pull shows for the rows that are new or changed.\<close>

definition new_rows :: "(db \<Rightarrow> 'r list) \<Rightarrow> world \<Rightarrow> world \<Rightarrow> 'r set" where
  "new_rows tab w w' = set (tab (dbs w')) - set (tab (dbs w))"

definition changed_entries :: "ext \<Rightarrow> world \<Rightarrow> world \<Rightarrow> changelogEntry set" where
  "changed_entries x w w' =
     shown_event x (dbs w') ` new_rows activity_events w w' \<union> project_entry x ` new_rows projects w w' \<union>
     tag_entry x ` new_rows tags w w' \<union> category_entry x ` new_rows categories w w' \<union>
     focus_entry x ` new_rows focus_sessions w w'"

text \<open>An announced row of a table is found by its key, and shown as it is.\<close>

lemma rows_now:
  assumes h: "hazards w = []" and ok: "tables_ok w"
    and r: "(cl_entity_type r, cl_entity_id r, cl_event_started_at r) = entity"
  shows "e \<in> set (activity_events (dbs w)) \<Longrightarrow> ae_user_id e = uid \<Longrightarrow> entity = (''activity_events'', ae_event_id e, Some (ae_started_at e)) \<Longrightarrow>
      entity_now x uid w r = Some (shown_event x (dbs w) e)"
    and "p \<in> set (projects (dbs w)) \<Longrightarrow> pr_user_id p = uid \<Longrightarrow> entity = (''projects'', pr_id p, None) \<Longrightarrow>
      entity_now x uid w r = Some (project_entry x p)"
    and "t \<in> set (tags (dbs w)) \<Longrightarrow> tag_user_id t = uid \<Longrightarrow> entity = (''tags'', tag_id t, None) \<Longrightarrow>
      entity_now x uid w r = Some (tag_entry x t)"
    and "c \<in> set (categories (dbs w)) \<Longrightarrow> cat_user_id c = Some uid \<Longrightarrow> entity = (''categories'', cat_id c, None) \<Longrightarrow>
      entity_now x uid w r = Some (category_entry x c)"
    and "f \<in> set (focus_sessions (dbs w)) \<Longrightarrow> fs_user_id f = uid \<Longrightarrow> entity = (''focus_sessions'', fs_id f, None) \<Longrightarrow>
      entity_now x uid w r = Some (focus_entry x f)"
proof -
  have keys: "distinct (map event_key (activity_events (dbs w)))" "distinct (map pr_id (projects (dbs w)))"
    "distinct (map tag_id (tags (dbs w)))" "distinct (map cat_id (categories (dbs w)))" "distinct (map fs_id (focus_sessions (dbs w)))"
    using ok by (simp_all add: tables_ok_def table_ok_def table_defs)
  note defs = entity_now_def resolveChangelogEntry_def changelog_lookups found_def
  show "entity_now x uid w r = Some (shown_event x (dbs w) e)"
    if "e \<in> set (activity_events (dbs w))" "ae_user_id e = uid" "entity = (''activity_events'', ae_event_id e, Some (ae_started_at e))"
    using found_row[of w event_key activity_events e "\<lambda>e'. ae_user_id e' = uid \<and> ae_event_id e' = ae_event_id e \<and> Some (ae_started_at e') = Some (ae_started_at e)", OF h keys(1) that(1)]
      that r h by (simp add: defs event_key_def shown_event_def)
  show "entity_now x uid w r = Some (project_entry x p)"
    if "p \<in> set (projects (dbs w))" "pr_user_id p = uid" "entity = (''projects'', pr_id p, None)"
    using found_row[of w pr_id projects p "\<lambda>p'. pr_user_id p' = uid \<and> pr_id p' = pr_id p", OF h keys(2) that(1)] that r by (simp add: defs)
  show "entity_now x uid w r = Some (tag_entry x t)"
    if "t \<in> set (tags (dbs w))" "tag_user_id t = uid" "entity = (''tags'', tag_id t, None)"
    using found_row[of w tag_id tags t "\<lambda>t'. tag_user_id t' = uid \<and> tag_id t' = tag_id t", OF h keys(3) that(1)] that r by (simp add: defs)
  show "entity_now x uid w r = Some (category_entry x c)"
    if "c \<in> set (categories (dbs w))" "cat_user_id c = Some uid" "entity = (''categories'', cat_id c, None)"
    using found_row[of w cat_id categories c "\<lambda>c'. cat_id c' = cat_id c \<and> (cat_user_id c' = Some uid \<or> cat_user_id c' = None)", OF h keys(4) that(1)] that r
    by (simp add: defs)
  show "entity_now x uid w r = Some (focus_entry x f)"
    if "f \<in> set (focus_sessions (dbs w))" "fs_user_id f = uid" "entity = (''focus_sessions'', fs_id f, None)"
    using found_row[of w fs_id focus_sessions f "\<lambda>f'. fs_user_id f' = uid \<and> fs_id f' = fs_id f", OF h keys(5) that(1)] that r by (simp add: defs)
qed

section \<open>From one device to another\<close>

text \<open>The requests of the sync client and of the web client that write.\<close>

datatype sync_write = Pushed "nat \<Rightarrow> time" pushRequest | Edited catalog_request

definition do_write :: "ext \<Rightarrow> string \<Rightarrow> sync_write \<Rightarrow> world \<Rightarrow> world" where
  "do_write x userID wr w =
     (case wr of Pushed clk req \<Rightarrow> snd (push x clk userID req w) | Edited req \<Rightarrow> snd (serve_catalog x userID req w))"

definition do_writes :: "ext \<Rightarrow> string \<Rightarrow> sync_write list \<Rightarrow> world \<Rightarrow> world" where
  "do_writes x userID wrs w = List.fold (do_write x userID) wrs w"

lemma do_writes_announced:
  assumes uid: "parseUUID x userID = Inr uid"
  shows "announces uid w (do_writes x userID wrs w)"
proof (induction wrs arbitrary: w)
  case Nil
  then show ?case by (simp add: do_writes_def announced.P_refl)
next
  case (Cons wr wrs)
  have "announces uid w (do_write x userID wr w)"
  proof (cases wr)
    case (Pushed clk req)
    then show ?thesis using announced.push[OF uid prod.collapse[symmetric]] by (simp add: do_write_def)
  next
    case (Edited req)
    then show ?thesis using keepsD[OF announced.keeps_serve[OF uid] prod.collapse[symmetric]] by (simp add: do_write_def)
  qed
  from announced.P_trans[OF this Cons.IH] show ?case by (simp add: do_writes_def)
qed

lemma pulled_row_delivered:
  assumes ann: "announced uid (next_xid w) w' entity" and ok: "log_ok w'" and c: "Xid8 c < next_xid w"
    and all: "\<forall>r\<in>set (feed_rows (uid, w')). c < ckey r \<longrightarrow>
      (\<forall>e. entity_now x uid w' r = Some e \<longrightarrow> (\<exists>resp\<in>set resps. delivered resp e))"
    and now: "\<And>r. (cl_entity_type r, cl_entity_id r, cl_event_started_at r) = entity \<Longrightarrow> entity_now x uid w' r = Some e"
  shows "\<exists>resp\<in>set resps. delivered resp e"
proof -
  obtain r where r: "r \<in> set (changelog (dbs w'))" "cl_user_id r = Some uid"
    "(cl_entity_type r, cl_entity_id r, cl_event_started_at r) = entity" "next_xid w \<le> cl_xid8 r" "cl_xid8 r < next_xid w'"
    using ann by (auto simp: announced_def)
  have "visible uid w' r" using r ok by (simp add: visible_def snapshot_xmin_def log_ok_def)
  then have "r \<in> set (feed_rows (uid, w'))" using r(1) by (simp add: feed_rows_def)
  moreover have "c < ckey r" using c r(4) by (simp add: pull_cursor_less ckey_def)
  ultimately show ?thesis using all now[OF r(3)] by blast
qed

lemma changed_delivered:
  assumes told: "all_told uid w w'" and h: "hazards w' = []" and tab: "tables_ok w'" and ok: "log_ok w'" and c: "Xid8 c < next_xid w"
    and all: "\<forall>r\<in>set (feed_rows (uid, w')). c < ckey r \<longrightarrow>
      (\<forall>e. entity_now x uid w' r = Some e \<longrightarrow> (\<exists>resp\<in>set resps. delivered resp e))"
    and e: "e \<in> changed_entries x w w'"
  shows "\<exists>resp\<in>set resps. delivered resp e"
proof -
  note deliver = pulled_row_delivered[OF _ ok c all] and now = rows_now[OF h tab]
  note t = told[unfolded all_told_def told_def]
  consider a where "e = shown_event x (dbs w') a" "a \<in> new_rows activity_events w w'"
    | p where "e = project_entry x p" "p \<in> new_rows projects w w'"
    | g where "e = tag_entry x g" "g \<in> new_rows tags w w'"
    | k where "e = category_entry x k" "k \<in> new_rows categories w w'"
    | f where "e = focus_entry x f" "f \<in> new_rows focus_sessions w w'"
    using e unfolding changed_entries_def by blast
  then show ?thesis
  proof cases
    case (1 a)
    then show ?thesis using t unfolding new_rows_def by (auto intro!: deliver now(1))
  next
    case (2 p)
    then show ?thesis using t unfolding new_rows_def by (auto intro!: deliver now(2))
  next
    case (3 g)
    then show ?thesis using t unfolding new_rows_def by (auto intro!: deliver now(3))
  next
    case (4 k)
    then show ?thesis using t unfolding new_rows_def by (auto intro!: deliver now(4))
  next
    case (5 f)
    then show ?thesis using t unfolding new_rows_def by (auto intro!: deliver now(5))
  qed
qed

text \<open>A cursor that was handed out before the changes is served after them, and every row of the log
  behind it is shown.\<close>

lemma pull_goes_on:
  assumes uid: "parseUUID x userID = Inr uid" and inj: "inj (uuid_string x)" and ok: "log_ok w" and q: "quiet w" "\<not> in_tx w"
    and c: "DecodePullCursor cur = Inr c" "Xid8 c < next_xid w" and p: "pull x userID cur n w = (Inr resp, w0)"
    and grows: "log_grows w w'" and ok': "log_ok w'" and q': "quiet w'" and starts: "starts_unique (dbs w')"
    and fuel: "length (changelog (dbs w')) < fuel"
  shows "\<exists>nxt resps. Xid8 nxt < next_xid w \<and> pull_all x userID m fuel (NextCursor resp) w' = Some resps \<and>
    (\<forall>r\<in>set (feed_rows (uid, w')). nxt < ckey r \<longrightarrow>
       (\<forall>e. entity_now x uid w' r = Some e \<longrightarrow> (\<exists>resp\<in>set resps. delivered resp e)))"
proof -
  have wf: "changelog_wf (dbs w)" "changelog_wf (dbs w')" using ok ok' by (simp_all add: log_ok_def)
  have tx: "\<not> in_tx w'" using grows q(2) by (simp add: log_grows_def)
  obtain nxt where nxt: "NextCursor resp = EncodePullCursor nxt" "nxt = c \<or> nxt \<in> ckey ` set (changelog (dbs w))"
    and srv: "servable c (dbs w)"
    using pull_hands_out[OF q uid wf(1) c(1) p] by blast
  have "pull_valid nxt" using nxt(2) pull_codec.decode_valid[OF c(1)] wf(1) by (auto simp: changelog_wf_def)
  then have dec: "DecodePullCursor (NextCursor resp) = Inr nxt" by (simp add: nxt(1) pull_codec.decode_encode)
  have old: "Xid8 nxt < next_xid w" using nxt(2) ok c(2) by (auto simp: log_ok_def ckey_def)
  have hk: "horizon_key (dbs w') = horizon_key (dbs w)" using grows by (simp add: log_grows_def horizon_key_def)
  have hz: "horizon_key (dbs w') \<le> nxt \<or> (IsZero nxt \<and> (\<forall>r\<in>set (changelog (dbs w')). horizon_key (dbs w') \<le> ckey r))"
    using nxt(2) srv ok ok' by (auto simp: servable_def log_ok_def hk)
  have "length (filter (\<lambda>r. nxt < ckey r) (feed_rows (uid, w'))) \<le> length (changelog (dbs w'))"
    unfolding feed_rows_def by (rule order_trans[OF length_filter_le]) simp
  then have len: "length (filter (\<lambda>r. nxt < ckey r) (feed_rows (uid, w'))) < fuel" using fuel by simp
  from pull_all_delivers[OF q' tx uid wf(2) inj starts dec hz len, of m] old show ?thesis by blast
qed

text \<open>C3: what one device changes the others pull.  A device has pulled, up to any page; then the user's
  other devices push batches and the user creates, patches and deletes projects, tags,
  categories and focus sessions, in any order, of which any statements may fail; then the first
  goes on from the cursor it was handed.  It comes to an end, and has been shown every event,
  project, tag, category and focus session that was stored or changed, as it is now, also where a
  request was answered with an error half way.\<close>

theorem changes_reach_other_devices:
  assumes "quiet w" "\<not> in_tx w" and "parseUUID x userID = Inr uid" and "inj (uuid_string x)"
    and "log_ok w" and "tables_ok w"
    and "DecodePullCursor cur = Inr c" "Xid8 c < next_xid w" and "pull x userID cur n w = (Inr resp, w0)"
    and "isolated (w\<lparr>hazards := hs\<rparr>)" and "w' = (do_writes x userID wrs (w\<lparr>hazards := hs\<rparr>))\<lparr>hazards := []\<rparr>"
    and "counters_ok w'" and "starts_unique (dbs w')" and "length (changelog (dbs w')) < fuel"
  shows "\<exists>resps. pull_all x userID m fuel (NextCursor resp) w' = Some resps \<and>
    (\<forall>e\<in>changed_entries x w w'. \<exists>resp\<in>set resps. delivered resp e)"
proof -
  have "log_frame uid w w'"
    using do_writes_announced[OF assms(3), of "w\<lparr>hazards := hs\<rparr>" wrs] assms(10) by (simp add: announces_def assms(11))
  then have grows: "log_grows w w'" and told: "all_told uid w w'" and tab: "tables_ok w'"
    using assms(6) by (simp_all add: log_frame_def)
  have ok: "log_ok w'" by (rule log_grows_ok[OF grows assms(5,12)])
  have h: "hazards w' = []" "quiet w'" by (simp_all add: assms(11) quiet_def)
  obtain nxt resps where "Xid8 nxt < next_xid w" "pull_all x userID m fuel (NextCursor resp) w' = Some resps"
    "\<forall>r\<in>set (feed_rows (uid, w')). nxt < ckey r \<longrightarrow>
       (\<forall>e. entity_now x uid w' r = Some e \<longrightarrow> (\<exists>resp\<in>set resps. delivered resp e))"
    using pull_goes_on[OF assms(3,4,5,1,2,7-9) grows ok h(2) assms(13,14), of m] by blast
  then show ?thesis using changed_delivered[OF told h(1) tab ok] by blast
qed

text \<open>A device of the user has pulled; then three items are pushed and a tag is deleted.\<close>

definition e2e_session :: world where
  "e2e_session = (session catalog_db)\<lparr>server_seq_global := 3\<rparr>"

definition sample_writes :: "sync_write list" where
  "sample_writes = [Pushed sample_clock sample_request, Edited (DeleteTag ''41'')]"

lemma sample_written:
  "case ((), do_writes sample_ext ''1'' sample_writes e2e_session) of (_, w) \<Rightarrow>
     next_xid w = 5 \<and> int64_ok (server_seq_global w) \<and> starts_unique (dbs w) \<and> length (changelog (dbs w)) < 6 \<and>
     map fs_id (focus_sessions (dbs w)) = [5] \<and> map tag_deleted_at (tags (dbs w)) = [Some (10 ^ 12), None]"
  by code_simp

lemma sample_first_pull:
  "map_sum id NextCursor (fst (pull sample_ext ''1'' [] 10 e2e_session)) = Inr (EncodePullCursor (PullCursor 0 0))"
  by code_simp

lemma e2e_session_ok:
  "quiet e2e_session" "\<not> in_tx e2e_session" "log_ok e2e_session" "tables_ok e2e_session" "next_xid e2e_session = 1"
  "e2e_session\<lparr>hazards := []\<rparr> = e2e_session" "isolated e2e_session"
  by (simp_all add: e2e_session_def quiet_def isolated_def log_ok_def changelog_wf_def tables_ok_def table_ok_def table_defs session_def
      catalog_db_def sample_db_def empty_db_def)

lemma changes_reach_other_devices_witness:
  "\<exists>resp w0 w1 f t resps.
     pull sample_ext ''1'' [] 10 e2e_session = (Inr resp, w0) \<and>
     w1 = (do_writes sample_ext ''1'' sample_writes e2e_session)\<lparr>hazards := []\<rparr> \<and>
     focus_sessions (dbs w1) = [f] \<and> fs_id f = 5 \<and> t \<in> set (tags (dbs w1)) \<and> tag_deleted_at t \<noteq> None \<and>
     pull_all sample_ext ''1'' 1 6 (NextCursor resp) w1 = Some resps \<and>
     (\<exists>resp\<in>set resps. delivered resp (focus_entry sample_ext f)) \<and>
     (\<exists>resp\<in>set resps. delivered resp (tag_entry sample_ext t))"
proof -
  let ?w = e2e_session
  define w1 where "w1 = (do_writes sample_ext ''1'' sample_writes (?w\<lparr>hazards := []\<rparr>))\<lparr>hazards := []\<rparr>"
  note facts = sample_written[unfolded prod.case]
  have w1: "w1 = (do_writes sample_ext ''1'' sample_writes ?w)\<lparr>hazards := []\<rparr>" by (simp add: w1_def e2e_session_ok)
  obtain resp w0 where pl: "pull sample_ext ''1'' [] 10 ?w = (Inr resp, w0)"
    using run_Inr[OF sample_first_pull] by auto
  obtain f where f: "focus_sessions (dbs w1) = [f]" "fs_id f = 5" using facts by (auto simp: w1 map_eq_Cons_conv)
  obtain t t' where "tags (dbs w1) = [t, t']" "tag_deleted_at t = Some (10 ^ 12)" using facts by (auto simp: w1 map_eq_Cons_conv)
  then have t: "t \<in> set (tags (dbs w1))" "tag_deleted_at t \<noteq> None" by simp_all
  have iso: "isolated (?w\<lparr>hazards := []\<rparr>)" by (simp add: e2e_session_ok)
  have cur: "DecodePullCursor [] = Inr (PullCursor 0 0)" by (simp add: DecodePullCursor_def)
  have counters: "counters_ok w1" and rest: "starts_unique (dbs w1)" "length (changelog (dbs w1)) < 6"
    using facts by (simp_all add: counters_ok_def w1)
  obtain resps where resps: "pull_all sample_ext ''1'' 1 6 (NextCursor resp) w1 = Some resps"
    "\<forall>e\<in>changed_entries sample_ext ?w w1. \<exists>resp\<in>set resps. delivered resp e"
    using changes_reach_other_devices[where hs = "[]" and w = ?w, OF _ _ parse_one sample_uuid_inj _ _ cur _ pl iso w1_def counters rest, of 1]
    by (auto simp: e2e_session_ok)
  have "f \<in> new_rows focus_sessions ?w w1"
    using f(1) by (simp add: new_rows_def e2e_session_def catalog_db_def sample_db_def empty_db_def)
  then have "focus_entry sample_ext f \<in> changed_entries sample_ext ?w w1"
    unfolding changed_entries_def by (rule UnI2[OF imageI])
  then have ff: "\<exists>resp\<in>set resps. delivered resp (focus_entry sample_ext f)" by (rule resps(2)[rule_format])
  have "\<forall>t\<in>set (tags (dbs ?w)). tag_deleted_at t = None" by (simp add: e2e_session_def catalog_db_def)
  then have "t \<in> new_rows tags ?w w1" using t by (auto simp only: new_rows_def)
  then have "tag_entry sample_ext t \<in> changed_entries sample_ext ?w w1"
    unfolding changed_entries_def by (rule UnI1[OF UnI1[OF UnI2[OF imageI]]])
  then have tt: "\<exists>resp\<in>set resps. delivered resp (tag_entry sample_ext t)" by (rule resps(2)[rule_format])
  show ?thesis by (intro exI conjI) (rule pl w1 f t resps(1) ff tt)+
qed

end
