(* ===== verification/Spec2Isabelle.thy ===== *)
theory Spec2Isabelle
  imports FocusLww Process SyncFeed ReportProps ActivityProps SyncEndToEnd CatalogLists
begin

text \<open>
  A verification development of the Rize backend, a Go service that collects the activity events of
  a user's devices, keeps the user's projects, tags, categories and focus sessions, synchronises
  them between devices, and reports on them.

  \<^bold>\<open>The program.\<close>  A chi router (\<^verbatim>\<open>cmd/api/main.go\<close>) sends a request through
  the middleware (\<^verbatim>\<open>internal/middleware\<close>, \<^verbatim>\<open>internal/httpx\<close>) to a
  handler of one of eight packages (\<^verbatim>\<open>internal/auth\<close>, \<^verbatim>\<open>sync\<close>,
  \<^verbatim>\<open>projects\<close>, \<^verbatim>\<open>tags\<close>, \<^verbatim>\<open>categories\<close>,
  \<^verbatim>\<open>focussessions\<close>, \<^verbatim>\<open>activities\<close>, \<^verbatim>\<open>reports\<close>).
  The handler decodes the request and calls the package's service; the service runs the SQL queries
  of \<^verbatim>\<open>internal/store/storedb\<close> against Postgres, whose constraints and triggers
  (\<^verbatim>\<open>internal/store/migrations\<close>) are part of the program: a trigger numbers every write
  (\<^verbatim>\<open>server_seq\<close>) and logs it in \<^verbatim>\<open>sync_changelog\<close>, which the sync pull
  pages through and a background goroutine (\<^verbatim>\<open>internal/sync/retention.go\<close>) prunes.

  \<^bold>\<open>How it is modelled.\<close>  Strings are byte strings, instants integers of nanoseconds, identifiers 128-bit
  words; integers that can wrap in Go or overflow a column have their width written out.  A row is a
  record (\<^verbatim>\<open>Store\<close>), the database a record of tables, and a session (\<^verbatim>\<open>world\<close>)
  holds the database, the sequences, the clock, the source of random identifiers and a list of
  hazards.  Each statement takes one hazard: it runs, it fails with a given error, or another session
  changes the database first.  A quiet session has no hazards; in an isolated one statements may fail
  but no other session interferes.  An operation is a function from a session to a value or error and a
  session; a transaction that fails gives back the tables it started from.  What lies outside the
  repository is an argument: the text forms of identifiers and instants (\<^verbatim>\<open>ext\<close>), argon2, SHA-256,
  JWT signing, address parsing and randomness (\<^verbatim>\<open>crypto\<close>), JWT verification at an instant and the
  rendering of messages (\<^verbatim>\<open>api\<close>), key parsing (\<^verbatim>\<open>key_library\<close>), which texts still fit
  an index row of Postgres (\<^verbatim>\<open>index_fits\<close>; one that does not is refused with 54000), the routes
  chi matches and what the CORS and rate limit libraries decide.  Theorems that need documented behaviour of these state it as a hypothesis.

  \<^bold>\<open>Theories.\<close>
    \<^item> \<^verbatim>\<open>Prelude\<close>, \<^verbatim>\<open>GoStd\<close>: instants, wrap-around, lists; base64, decimal conversions and
      white space of the Go library.  \<^verbatim>\<open>Json\<close>, \<^verbatim>\<open>JsonText\<close>, \<^verbatim>\<open>JsonRoundtrip\<close>:
      the decoder and the scanner of encoding/json, and that a value written out is read back.
    \<^item> \<^verbatim>\<open>Store\<close>, \<^verbatim>\<open>Seq\<close>, \<^verbatim>\<open>Sample\<close>: the database, statements, constraints and triggers;
      sequencing and the locales \<^verbatim>\<open>statement_law\<close> (what two statements in sequence keep) and
      \<^verbatim>\<open>frame\<close> (a relation of the tables that every statement keeps is kept by
      their sequence), interpreted on each frame the theorems use; the sessions of the worked instances.
    \<^item> \<^verbatim>\<open>Cursor\<close>, \<^verbatim>\<open>Keyset\<close>: the cursor codecs under the locale \<^verbatim>\<open>cursor_codec\<close>, and keyset pagination
      under the locale \<^verbatim>\<open>keyset_feed\<close>, which the pull, the activity list and the catalog lists interpret.
    \<^item> \<^verbatim>\<open>SyncStore\<close>, \<^verbatim>\<open>SyncPush\<close>, \<^verbatim>\<open>PushProps\<close>, \<^verbatim>\<open>FocusLww\<close>: the push
      (\<^verbatim>\<open>internal/sync/service.go\<close>) from the wire items to the tables; results, isolation,
      append-only events, replay, the causes that refuse a batch, under the locale \<^verbatim>\<open>push_law\<close> (what every
      statement of a push keeps, the push keeps); focus sessions as last-writer-wins
      registers: the registers and their rule are defined on their own, and the upserts refine them.
    \<^item> \<^verbatim>\<open>SyncPull\<close>, \<^verbatim>\<open>PullProps\<close>, \<^verbatim>\<open>SyncFeed\<close>: the pull (\<^verbatim>\<open>pull.go\<close>); that a client
      that follows the cursors ends and has everything, that it sees only its own rows, and that no row is skipped
      while transactions commit out of order (a step relation of writers, pruner and client).
    \<^item> \<^verbatim>\<open>SyncEndToEnd\<close>: writers and readers together: every change by a push or by a request on
      the four groups of resources is in the changelog, one relation interpreted as \<^verbatim>\<open>push_law\<close> and as
      \<^verbatim>\<open>catalog_law\<close>; so what one device changes, whole or in part, the user's other devices are shown.
    \<^item> \<^verbatim>\<open>Retention\<close>, \<^verbatim>\<open>Pruner\<close>, \<^verbatim>\<open>Config\<close>: one prune, the loop of the goroutine, and the settings
      of \<^verbatim>\<open>internal/config\<close> it runs with; that pruning is atomic, keeps up, and that a client whose
      cursor is still accepted has missed nothing.
    \<^item> \<^verbatim>\<open>Password\<close>, \<^verbatim>\<open>AuthStore\<close>, \<^verbatim>\<open>Auth\<close>, \<^verbatim>\<open>AuthProps\<close>, \<^verbatim>\<open>AuthSessions\<close>,
      \<^verbatim>\<open>Lockout\<close>: password hashes and tokens, the queries and operations of accounts; refresh tokens that work
      once, one live session per device, what a rejected login reveals, when a wrong
      password locks the account and for how long, and how many guesses the lockout allows when they overlap (a step
      relation of guesses in flight, each with the row it has read).
    \<^item> \<^verbatim>\<open>CatalogStore\<close>, \<^verbatim>\<open>Catalog\<close>, \<^verbatim>\<open>Projects\<close>, \<^verbatim>\<open>Tags\<close>, \<^verbatim>\<open>Categories\<close>,
      \<^verbatim>\<open>FocusSessions\<close>, \<^verbatim>\<open>CatalogProps\<close>, \<^verbatim>\<open>CatalogTheorems\<close>: the four groups of resources,
      their tables under the locale \<^verbatim>\<open>logged_table\<close> (a table with the sequence and changelog triggers),
      interpreted on each of the four; types, isolation, the life of a tag, under the locale
      \<^verbatim>\<open>catalog_law\<close> (what every statement of the four keeps, every request keeps); \<^verbatim>\<open>CatalogLists\<close>: their lists end
      and are complete.
    \<^item> \<^verbatim>\<open>Reports\<close>, \<^verbatim>\<open>ReportProps\<close>, \<^verbatim>\<open>Activities\<close>, \<^verbatim>\<open>ActivityProps\<close>: windows, overlap trimming
      and totals, with the measure of the union of intervals as the reference; the list of events and the timeline.
    \<^item> \<^verbatim>\<open>Observability\<close>: the scrubbing of what is sent to error tracking: what it takes out of messages,
      contexts, breadcrumbs, user and request, and what it lets pass (tags, the id, the headers without a credential's name).
    \<^item> \<^verbatim>\<open>Http\<close>, \<^verbatim>\<open>Requests\<close>, \<^verbatim>\<open>Dtos\<close>, \<^verbatim>\<open>Handlers\<close>, \<^verbatim>\<open>Api\<close>: responses and guards,
      request and response bodies, the handlers, the routes and middleware, and the start of the process.
    \<^item> \<^verbatim>\<open>ApiIsolation\<close>, \<^verbatim>\<open>ApiProps\<close>: the composition of all of it: which routes of the API answer without a token, what
      other users' requests can do to a user's rows, a session from registration to its expiry, an error path from
      the body to the answer, and what a running server has been given.  \<^verbatim>\<open>Process\<close>: a server without a
      database, and how the process exits.

  \<^bold>\<open>Bounds and fuel.\<close>  Loops of the code are structural recursions or functions with a measure; the
  scanner of JSON texts consumes its input.  Only the clients that follow cursors have fuel, since their loop
  runs outside the service: the theorems say how many pages are enough (one more than the rows there are).  A request
  body is cut at one mebibyte and 10000 levels, as in the code and its library.

  \<^bold>\<open>Not modelled.\<close>  Listening, signals and the draining of requests (their results are arguments); delivery to error tracking, log formatting and the
  Prometheus registry; the decisions of the CORS and rate limit libraries and the path matching of chi (arguments);
  the generated interface of the queries; the copies of the identifier helpers that every package declares (one
  definition serves them all).  The theorems
  about the whole API serve requests one after the other, each with any statements failing; interleavings are
  modelled where the code has to cope with them: the waiting for a row lock in a refresh, two logins at once, wrong
  passwords that overlap, and the changelog under concurrent transactions.  The refresh lag of the aggregates that the reports read is left out:
  an aggregate is the view of the events it is defined to be.
\<close>

end
